(* ===== verification/Prelude.thy ===== *)
theory Prelude
  imports Main "HOL-Library.Word" "HOL-Library.Multiset" "HOL-Library.Product_Lexorder"
    "HOL-Library.List_Lexorder" "HOL-Library.Char_ord"
begin

text \<open>
  What the components share: the Go machine integers, Go errors with the wrapping of
  \<^verbatim>\<open>fmt.Errorf("...: %w", err)\<close> and the test \<^verbatim>\<open>errors.Is\<close>, the sequencing of fallible calls,
  the decimal printing and parsing of the standard library's \<^verbatim>\<open>strconv\<close>, and the generic facts
  on sorting and on association lists that the component proofs are built from.

  A Go \<^verbatim>\<open>uint64\<close> is a \<^typ>\<open>64 word\<close> read with \<^term>\<open>unat\<close>; an \<^verbatim>\<open>int64\<close> and an \<^verbatim>\<open>int\<close> are the
  same bits read in two's complement with \<^term>\<open>sint\<close>, so that the conversions \<^verbatim>\<open>int64(x)\<close> and
  \<^verbatim>\<open>uint64(x)\<close> of the source are the identity on the bits, as they are in Go. A Go string is a
  sequence of bytes, which is what \<^typ>\<open>string\<close> is; strings are ordered byte-wise
  (\<^verbatim>\<open>HOL-Library.List_Lexorder\<close> over \<^verbatim>\<open>HOL-Library.Char_ord\<close>), as Go's \<^verbatim>\<open><\<close> orders them.
\<close>

section \<open>Machine integers and collections of facts\<close>

type_synonym uint64 = "64 word"
type_synonym int64 = "64 word"
type_synonym goint = "64 word"
type_synonym byte = "8 word"
type_synonym bytes = "8 word list"

named_theorems res_simps
named_theorems go_sort_lemmas

abbreviation maxUint64 :: uint64 where
  "maxUint64 \<equiv> - 1"

text \<open>\<^verbatim>\<open>int64(len(xs))\<close> and \<^verbatim>\<open>len(xs)\<close>.\<close>

definition go_len :: "'a list \<Rightarrow> 64 word" where
  "go_len xs = word_of_nat (length xs)"

section \<open>Bounds\<close>

text \<open>Sums and lengths that stay below $2^{63}$ do not wrap.\<close>

lemma sum_list_word_bound:
  fixes ws :: "int64 list"
  assumes "\<And>w. w \<in> set ws \<Longrightarrow> unat w \<le> B" and "length ws * B < 2 ^ 63"
  shows "unat (sum_list ws) = sum_list (map unat ws) \<and> sum_list (map unat ws) \<le> length ws * B"
  using assms
proof (induction ws)
  case Nil
  then show ?case by simp
next
  case (Cons w ws)
  then have IH: "unat (sum_list ws) = sum_list (map unat ws)" "sum_list (map unat ws) \<le> length ws * B"
    by simp_all
  have le: "unat w + unat (sum_list ws) \<le> length (w # ws) * B"
    using Cons.prems(1) [of w] IH by simp
  with Cons.prems(2) have "unat w + unat (sum_list ws) < 2 ^ LENGTH(64)" by simp
  then have "unat (w + sum_list ws) = unat w + unat (sum_list ws)" by (simp add: unat_word_ariths)
  with IH le show ?case by simp
qed

lemma sint_eq_unat:
  assumes "unat (w :: 64 word) < 2 ^ 63"
  shows "sint w = int (unat w)"
proof -
  have u: "uint w = int (unat w)" by simp
  have "int (unat w) < int (2 ^ 63)" using assms by (simp only: of_nat_less_iff)
  then have "int (unat w) < 2 ^ 63" by (simp only: of_nat_power of_nat_numeral)
  moreover have "- (2 ^ 63) \<le> int (unat w)" by (rule order_trans [of _ 0]) (simp_all only: of_nat_0_le_iff, simp)
  ultimately have "signed_take_bit 63 (int (unat w)) = int (unat w)"
    by (intro signed_take_bit_int_eq_self)
  with u show ?thesis by (simp add: sint_uint)
qed

lemma sint_go_len: "length xs < 2 ^ 63 \<Longrightarrow> sint (go_len xs) = int (length xs)"
  by (subst sint_eq_unat) (simp_all add: go_len_def unat_of_nat)

section \<open>Errors\<close>

text \<open>
  \<^term>\<open>Errorf\<close> is an error made of a message; \<^term>\<open>Wrap\<close> is a message in front of a wrapped
  error; \<^term>\<open>GoPanic\<close> is a run-time panic (an index out of range), which no caller of the program
  recovers from. The others are the sentinel errors that the code compares with.
\<close>

datatype error =
    Errorf string
  | Wrap string error
  | GoPanic string
  | ErrNotFound
  | ErrInsufficientCustody
  | ErrNoExecutionPayload
  | ErrIncompleteDAG
  | ErrCanceled

fun error_text :: "error \<Rightarrow> string" where
  "error_text (Errorf s) = s"
| "error_text (Wrap s e) = s @ '': '' @ error_text e"
| "error_text (GoPanic s) = s"
| "error_text ErrNotFound = ''blockstore: block not found''"
| "error_text ErrInsufficientCustody =
     ''beacon node does not custody enough data columns to serve blob sidecars (PeerDAS); '' @
     ''reconfigure it with --custody-group-count=64 or higher (or equivalent for your client)''"
| "error_text ErrNoExecutionPayload = ''beacon block has no execution payload''"
| "error_text ErrIncompleteDAG = ''DAG incomplete locally; re-upload the epoch''"
| "error_text ErrCanceled = ''context canceled''"

text \<open>\<^verbatim>\<open>errors.Is(err, target)\<close>: the target is the error or one that it wraps.\<close>

fun errors_Is :: "error \<Rightarrow> error \<Rightarrow> bool" where
  "errors_Is (Wrap s e) t \<longleftrightarrow> Wrap s e = t \<or> errors_Is e t"
| "errors_Is e t \<longleftrightarrow> e = t"

section \<open>Fallible calls\<close>

type_synonym 'a res = "error + 'a"

text \<open>
  \<^term>\<open>bindR\<close> runs a call and, when it succeeds, the rest of the function body;
  \<^term>\<open>wrapR\<close> is the \<^verbatim>\<open>if err != nil { return fmt.Errorf(msg, err) }\<close> after a call. A panic
  is not an error value: it passes every such test and ends the program.
\<close>

definition bindR :: "'a res \<Rightarrow> ('a \<Rightarrow> 'b res) \<Rightarrow> 'b res" where
  "bindR m f = (case m of Inl e \<Rightarrow> Inl e | Inr a \<Rightarrow> f a)"

fun wrapErr :: "string \<Rightarrow> error \<Rightarrow> error" where
  "wrapErr s (GoPanic p) = GoPanic p"
| "wrapErr s e = Wrap s e"

definition wrapR :: "string \<Rightarrow> 'a res \<Rightarrow> 'a res" where
  "wrapR s m = (case m of Inl e \<Rightarrow> Inl (wrapErr s e) | Inr a \<Rightarrow> Inr a)"

fun mapR :: "('a \<Rightarrow> 'b res) \<Rightarrow> 'a list \<Rightarrow> 'b list res" where
  "mapR f [] = Inr []"
| "mapR f (x # xs) = bindR (f x) (\<lambda>y. bindR (mapR f xs) (\<lambda>ys. Inr (y # ys)))"

definition isOk :: "'a res \<Rightarrow> bool" where
  "isOk m = (case m of Inl _ \<Rightarrow> False | Inr _ \<Rightarrow> True)"

lemma bindR_simps [simp, res_simps]:
  "bindR (Inl e) f = Inl e"
  "bindR (Inr a) f = f a"
  by (simp_all add: bindR_def)

lemma wrapR_simps [simp, res_simps]:
  "wrapR s (Inl e) = Inl (wrapErr s e)"
  "wrapR s (Inr a) = Inr a"
  by (simp_all add: wrapR_def)

lemma bindR_eq_Inr [res_simps]: "bindR m f = Inr b \<longleftrightarrow> (\<exists>a. m = Inr a \<and> f a = Inr b)"
  by (cases m) auto

lemma bindR_eq_Inl [res_simps]:
  "bindR m f = Inl e \<longleftrightarrow> m = Inl e \<or> (\<exists>a. m = Inr a \<and> f a = Inl e)"
  by (cases m) auto

lemma wrapR_eq_Inr [simp, res_simps]: "wrapR s m = Inr a \<longleftrightarrow> m = Inr a"
  by (cases m) auto

lemma wrapR_eq_Inl [res_simps]: "wrapR s m = Inl e \<longleftrightarrow> (\<exists>e'. m = Inl e' \<and> e = wrapErr s e')"
  by (cases m) auto

lemma isOk_simps [simp]:
  "isOk (Inl e) = False"
  "isOk (Inr a) = True"
  by (simp_all add: isOk_def)

lemma isOk_iff: "isOk m \<longleftrightarrow> (\<exists>a. m = Inr a)"
  by (cases m) auto

lemma isOk_wrapR [simp]: "isOk (wrapR s m) = isOk m"
  by (cases m) auto

lemma mapR_eq_Inr: "mapR f xs = Inr ys \<longleftrightarrow> list_all2 (\<lambda>x y. f x = Inr y) xs ys"
proof (induction xs arbitrary: ys)
  case Nil
  then show ?case by auto
next
  case (Cons x xs)
  then show ?case by (cases ys) (auto simp: bindR_eq_Inr)
qed

lemma mapR_length: "mapR f xs = Inr ys \<Longrightarrow> length ys = length xs"
  by (auto simp: mapR_eq_Inr dest: list_all2_lengthD)

lemma mapR_total: "(\<And>x. x \<in> set xs \<Longrightarrow> f x = Inr (g x)) \<Longrightarrow> mapR f xs = Inr (map g xs)"
  by (induction xs) auto

lemma mapR_in_set: "mapR f xs = Inr ys \<Longrightarrow> y \<in> set ys \<Longrightarrow> \<exists>x \<in> set xs. f x = Inr y"
  by (induction xs arbitrary: ys) (auto simp: bindR_eq_Inr)

section \<open>Decimal numbers: strconv.FormatUint and strconv.ParseUint\<close>

definition digit_char :: "nat \<Rightarrow> char" where
  "digit_char d = char_of (48 + d)"

definition char_digit :: "char \<Rightarrow> nat option" where
  "char_digit c = (let n = of_char c :: nat in if 48 \<le> n \<and> n \<le> 57 then Some (n - 48) else None)"

fun fmt_nat :: "nat \<Rightarrow> string" where
  "fmt_nat n = (if n < 10 then [digit_char n] else fmt_nat (n div 10) @ [digit_char (n mod 10)])"

declare fmt_nat.simps [simp del]

definition FormatUint :: "uint64 \<Rightarrow> string" where
  "FormatUint w = fmt_nat (unat w)"

definition fmt_int :: "int \<Rightarrow> string" where
  "fmt_int i = (if i < 0 then CHR ''-'' # fmt_nat (nat (- i)) else fmt_nat (nat i))"

fun digits_val :: "nat \<Rightarrow> string \<Rightarrow> nat option" where
  "digits_val acc [] = Some acc"
| "digits_val acc (c # cs) =
     (case char_digit c of None \<Rightarrow> None | Some d \<Rightarrow> digits_val (10 * acc + d) cs)"

definition parse_nat :: "string \<Rightarrow> nat option" where
  "parse_nat s = (if s = [] then None else digits_val 0 s)"

text \<open>\<^verbatim>\<open>strconv.ParseUint(s, 10, 64)\<close>: a syntax error, a range error, or the value.\<close>

definition ParseUint :: "string \<Rightarrow> uint64 res" where
  "ParseUint s =
     (case parse_nat s of
        None \<Rightarrow> Inl (Errorf (''strconv.ParseUint: parsing '' @ s @ '': invalid syntax''))
      | Some n \<Rightarrow>
          if n < 2 ^ 64 then Inr (word_of_nat n)
          else Inl (Errorf (''strconv.ParseUint: parsing '' @ s @ '': value out of range'')))"

text \<open>\<^verbatim>\<open>strconv.ParseInt(s, 10, 64)\<close> and \<^verbatim>\<open>strconv.Atoi\<close>: an optional sign, then digits.\<close>

definition parse_int :: "string \<Rightarrow> int option" where
  "parse_int s =
     (case s of
        [] \<Rightarrow> None
      | c # cs \<Rightarrow>
          if c = CHR ''-'' then map_option (\<lambda>n. - int n) (parse_nat cs)
          else if c = CHR ''+'' then map_option int (parse_nat cs)
          else map_option int (parse_nat s))"

definition Atoi :: "string \<Rightarrow> goint res" where
  "Atoi s =
     (case parse_int s of
        None \<Rightarrow> Inl (Errorf (''strconv.Atoi: parsing '' @ s @ '': invalid syntax''))
      | Some i \<Rightarrow>
          if - (2 ^ 63) \<le> i \<and> i < 2 ^ 63 then Inr (word_of_int i)
          else Inl (Errorf (''strconv.Atoi: parsing '' @ s @ '': value out of range'')))"

lemma of_char_digit: "d < 10 \<Longrightarrow> of_char (digit_char d) = 48 + d"
  by (simp add: digit_char_def of_char_of)

lemma char_digit_digit_char [simp]: "d < 10 \<Longrightarrow> char_digit (digit_char d) = Some d"
  by (simp add: char_digit_def of_char_digit)

lemma digits_val_snoc:
  "digits_val acc (s @ [c]) =
     (case digits_val acc s of None \<Rightarrow> None
      | Some n \<Rightarrow> map_option (\<lambda>d. 10 * n + d) (char_digit c))"
  by (induction s arbitrary: acc) (auto split: option.splits)

lemma digits_val_fmt_nat: "digits_val 0 (fmt_nat n) = Some n"
proof (induction n rule: fmt_nat.induct)
  case (1 n)
  show ?case
  proof (cases "n < 10")
    case True
    then show ?thesis by (simp add: fmt_nat.simps [of n])
  next
    case False
    then have "fmt_nat n = fmt_nat (n div 10) @ [digit_char (n mod 10)]"
      by (simp add: fmt_nat.simps [of n])
    with False "1.IH" show ?thesis by (simp add: digits_val_snoc)
  qed
qed

lemma fmt_nat_not_Nil [simp]: "fmt_nat n \<noteq> []"
  by (subst fmt_nat.simps) simp

lemma parse_fmt_nat [simp]: "parse_nat (fmt_nat n) = Some n"
  by (simp add: parse_nat_def digits_val_fmt_nat)

lemma ParseUint_FormatUint [simp]: "ParseUint (FormatUint w) = Inr w"
  using unsigned_less [of w, where 'a = nat] by (simp add: ParseUint_def FormatUint_def)

lemma FormatUint_inject [simp]: "FormatUint a = FormatUint b \<longleftrightarrow> a = b"
  by (metis ParseUint_FormatUint Inr_inject)

lemma inj_FormatUint: "inj FormatUint"
  by (simp add: inj_on_def)

section \<open>Sorting\<close>

text \<open>
  \<^verbatim>\<open>sort.Slice\<close> promises a permutation of the slice that is sorted by the comparison; the order of
  elements that compare equal is left open. The model sorts with \<^term>\<open>sort_key\<close>, one admissible
  outcome. \<open>sort_key_unique\<close> is what makes that choice immaterial: where the keys are pairwise
  different, every admissible outcome is the same list; and \<open>sort_key_perm\<close> says that the order in
  which the elements arrive (a map's iteration order, the arrival order of worker results) is
  immaterial as well.
\<close>

lemma sort_key_unique [go_sort_lemmas]:
  fixes f :: "'a \<Rightarrow> 'b::linorder"
  assumes "mset ys = mset xs" and "sorted (map f ys)" and "distinct (map f xs)"
  shows "ys = sort_key f xs"
proof (rule map_sorted_distinct_set_unique [of f])
  have "set ys = set xs" using assms(1) by (metis set_mset_mset)
  with assms(3) show "inj_on f (set ys \<union> set (sort_key f xs))"
    by (simp add: distinct_map)
  show "sorted (map f ys)" by (rule assms(2))
  have "mset (map f ys) = mset (map f xs)" using assms(1) by simp
  with assms(3) show "distinct (map f ys)" by (metis mset_eq_imp_distinct_iff)
  show "sorted (map f (sort_key f xs))" by simp
  have "mset (map f (sort_key f xs)) = mset (map f xs)" by simp
  with assms(3) show "distinct (map f (sort_key f xs))" by (metis mset_eq_imp_distinct_iff)
  show "set ys = set (sort_key f xs)" using \<open>set ys = set xs\<close> by simp
qed

lemma sort_key_perm [go_sort_lemmas]:
  fixes f :: "'a \<Rightarrow> 'b::linorder"
  assumes "mset ys = mset xs" and "distinct (map f xs)"
  shows "sort_key f ys = sort_key f xs"
  by (rule sort_key_unique) (use assms in simp_all)

lemma distinct_sort_key [simp]: "distinct (map f (sort_key f xs)) = distinct (map f xs)"
proof -
  have "mset (map f (sort_key f xs)) = mset (map f xs)" by simp
  then show ?thesis by (rule mset_eq_imp_distinct_iff)
qed

lemma sorted_map_mono:
  fixes f :: "'a \<Rightarrow> 'b::linorder" and g :: "'b \<Rightarrow> 'c::linorder"
  assumes "sorted (map f xs)" and "mono g"
  shows "sorted (map (\<lambda>x. g (f x)) xs)"
proof -
  have "sorted_wrt (\<le>) (map f xs)" using assms(1) by simp
  then show ?thesis
    using assms(2) by (auto simp: sorted_map monoD elim!: sorted_wrt_mono_rel [rotated])
qed

section \<open>Association lists\<close>

lemma map_of_map_key:
  "inj f \<Longrightarrow> map_of (map (\<lambda>x. (f (k x), v x)) xs) (f a) = map_of (map (\<lambda>x. (k x, v x)) xs) a"
  by (induction xs) (auto dest: injD)

lemma map_of_perm:
  assumes "mset xs = mset ys" and "distinct (map fst xs)"
  shows "map_of xs = map_of ys"
proof -
  have "distinct (map fst ys)" and "set xs = set ys"
    using assms by (metis mset_eq_imp_distinct_iff mset_map, metis set_mset_mset)
  with assms(2) show ?thesis by (simp add: map_of_inject_set)
qed

end
