(* ===== verification/Types.thy ===== *)
theory Types
  imports Prelude
begin

text \<open>
  The domain types of \<^verbatim>\<open>types/types.go\<close> and the content identifiers they carry. A record field
  has the Go field's name behind a two-letter prefix for its struct. \<^verbatim>\<open>cid.Cid\<close> belongs to the
  package \<^verbatim>\<open>go-cid\<close>; the program looks at its prefix (the codec picks the encoder and the decoder)
  and at equality, and prints and parses it through that package, so a CID here is either the zero
  value \<^verbatim>\<open>cid.Undef\<close> or a prefix with a digest.
\<close>

record cid_prefix =
  pfVersion :: uint64
  pfCodec :: uint64
  pfMhType :: uint64
  pfMhLength :: goint

datatype cid = Undef | Cid cid_prefix bytes

record BlobInput =
  bi_Commitment :: string
  bi_VersionedHash :: string
  bi_TxHash :: string
  bi_BlockNumber :: uint64
  bi_BlockHash :: string
  bi_Slot :: uint64
  bi_Epoch :: uint64
  bi_Index :: goint
  bi_Data :: bytes
  bi_Size :: int64

record EpochInput =
  ei_Epoch :: uint64
  ei_Slot :: uint64
  ei_Blobs :: "BlobInput list"

record BlobResult =
  br_Commitment :: string
  br_DataCID :: cid
  br_MetaCID :: cid
  br_SizeBytes :: int64

record EpochResult =
  er_Epoch :: uint64
  er_CID :: cid
  er_CARPath :: string
  er_ApproximateSizeBytes :: int64

record NetworkRootResult =
  nr_CID :: cid
  nr_PageCount :: goint

record State =
  st_Network :: string
  st_LastProcessedEpoch :: uint64
  st_BackfillCursor :: uint64

text \<open>The zero values Go gives to a fresh struct.\<close>

definition zeroBlobResult :: BlobResult where
  "zeroBlobResult = \<lparr>br_Commitment = '''', br_DataCID = Undef, br_MetaCID = Undef, br_SizeBytes = 0\<rparr>"

definition zeroEpochInput :: EpochInput where
  "zeroEpochInput = \<lparr>ei_Epoch = 0, ei_Slot = 0, ei_Blobs = []\<rparr>"

definition zeroEpochResult :: EpochResult where
  "zeroEpochResult = \<lparr>er_Epoch = 0, er_CID = Undef, er_CARPath = '''', er_ApproximateSizeBytes = 0\<rparr>"

end
