(* ===== verification/Store.thy ===== *)
theory Store
  imports Types "HOL-Library.AList"
begin

text \<open>
  The package \<^verbatim>\<open>store\<close>: the in-memory block store and the discarding one
  (\<^verbatim>\<open>store/blockstore.go\<close>) and the link system that the builder stores nodes through
  (\<^verbatim>\<open>store/linksystem.go\<close>).

  The packages the link system is built on (\<^verbatim>\<open>go-ipld-prime\<close>, its dag-cbor codec,
  \<^verbatim>\<open>go-block-format\<close> and \<^verbatim>\<open>go-cid\<close>) are not part of the repository. They are the fields of the
  record \<open>ipld_lib\<close>, an argument of every definition that calls them; what is relied on is stated
  where it is needed by one of the predicates \<open>qp_doc\<close>, \<open>store_doc\<close>, \<open>block_doc\<close>, \<open>cid_doc\<close>.
\<close>

section \<open>Nodes, blocks and the library parameter\<close>

datatype ipld_node =
    NString string
  | NInt int
  | NBytes bytes
  | NLink cid
  | NList "ipld_node list"
  | NMap "(string \<times> ipld_node) list"

record block =
  blkCid :: cid
  blkData :: bytes

type_synonym encoder = "ipld_node \<Rightarrow> bytes res"
type_synonym decoder = "bytes \<Rightarrow> ipld_node res"

text \<open>
  \<open>lib_Store\<close> is \<^verbatim>\<open>LinkSystem.Store\<close> up to the call of the block committer: given the program's
  encoder chooser, a link prototype and a node, it yields the bytes written and the link built.
  \<open>qp_BuildMap\<close> is \<^verbatim>\<open>qp.BuildMap\<close> (and \<^verbatim>\<open>qp.Map\<close> for a nested map) on the entries assembled.
\<close>

record ipld_lib =
  qp_BuildMap :: "(string \<times> ipld_node) list \<Rightarrow> ipld_node res"
  lib_Store :: "(cid_prefix \<Rightarrow> encoder res) \<Rightarrow> cid_prefix \<Rightarrow> ipld_node \<Rightarrow> (bytes \<times> cid) res"
  dagcbor_Encode :: encoder
  dagcbor_Decode :: decoder
  NewBlockWithCid :: "bytes \<Rightarrow> cid \<Rightarrow> block res"
  cid_String :: "cid \<Rightarrow> string"
  cid_Decode :: "string \<Rightarrow> cid res"

text \<open>Maps with pairwise different keys are built as given; a repeated key is an error.\<close>

definition qp_doc :: "ipld_lib \<Rightarrow> bool" where
  "qp_doc lib \<longleftrightarrow>
     (\<forall>es. if distinct (map fst es) then qp_BuildMap lib es = Inr (NMap es)
           else \<not> isOk (qp_BuildMap lib es))"

lemma qp_docD: "qp_doc lib \<Longrightarrow> distinct (map fst es) \<Longrightarrow> qp_BuildMap lib es = Inr (NMap es)"
  by (simp add: qp_doc_def)

lemma qp_doc_repeated: "qp_doc lib \<Longrightarrow> \<not> distinct (map fst es) \<Longrightarrow> \<not> isOk (qp_BuildMap lib es)"
  by (simp add: qp_doc_def)

text \<open>\<^verbatim>\<open>Store\<close> encodes with the chosen encoder and links to the digest of the bytes.\<close>

definition store_doc :: "ipld_lib \<Rightarrow> (bytes \<Rightarrow> bytes) \<Rightarrow> bool" where
  "store_doc lib digest \<longleftrightarrow>
     (\<forall>ch p n. lib_Store lib ch p n =
        bindR (ch p) (\<lambda>enc. bindR (enc n) (\<lambda>raw. Inr (raw, Cid p (digest raw)))))"

text \<open>A block made of data and a CID holds exactly those.\<close>

definition block_doc :: "ipld_lib \<Rightarrow> bool" where
  "block_doc lib \<longleftrightarrow> (\<forall>raw c. NewBlockWithCid lib raw c = Inr \<lparr>blkCid = c, blkData = raw\<rparr>)"

text \<open>Decoding what \<^verbatim>\<open>Cid.String\<close> printed gives the CID back; the empty string is no CID.\<close>

definition cid_doc :: "ipld_lib \<Rightarrow> bool" where
  "cid_doc lib \<longleftrightarrow>
     (\<forall>p d. cid_Decode lib (cid_String lib (Cid p d)) = Inr (Cid p d)) \<and> \<not> isOk (cid_Decode lib '''')"

section \<open>MemBlockstore\<close>

text \<open>
  A Go map of CIDs to blocks; the association list has no repeated key (\<open>mem_wf\<close>). Go leaves the
  iteration order of a map open: what \<^verbatim>\<open>All\<close> and \<^verbatim>\<open>AllKeysChan\<close> promise is stated up to
  permutation. The mutex makes each operation atomic, which a function is.
\<close>

record MemBlockstore =
  mbs_blocks :: "(cid \<times> block) list"

definition NewMemBlockstore :: MemBlockstore where
  "NewMemBlockstore = \<lparr>mbs_blocks = []\<rparr>"

definition Mem_Put :: "MemBlockstore \<Rightarrow> block \<Rightarrow> MemBlockstore res" where
  "Mem_Put m b = Inr (m\<lparr>mbs_blocks := AList.update (blkCid b) b (mbs_blocks m)\<rparr>)"

definition Mem_PutMany :: "MemBlockstore \<Rightarrow> block list \<Rightarrow> MemBlockstore res" where
  "Mem_PutMany m bs =
     Inr (m\<lparr>mbs_blocks := fold (\<lambda>b. AList.update (blkCid b) b) bs (mbs_blocks m)\<rparr>)"

definition Mem_Get :: "MemBlockstore \<Rightarrow> cid \<Rightarrow> block res" where
  "Mem_Get m c = (case map_of (mbs_blocks m) c of None \<Rightarrow> Inl ErrNotFound | Some b \<Rightarrow> Inr b)"

definition Mem_Has :: "MemBlockstore \<Rightarrow> cid \<Rightarrow> bool res" where
  "Mem_Has m c = Inr (map_of (mbs_blocks m) c \<noteq> None)"

definition Mem_GetSize :: "MemBlockstore \<Rightarrow> cid \<Rightarrow> goint res" where
  "Mem_GetSize m c =
     (case map_of (mbs_blocks m) c of None \<Rightarrow> Inl ErrNotFound | Some b \<Rightarrow> Inr (go_len (blkData b)))"

definition Mem_DeleteBlock :: "MemBlockstore \<Rightarrow> cid \<Rightarrow> MemBlockstore res" where
  "Mem_DeleteBlock m c = Inr (m\<lparr>mbs_blocks := AList.delete c (mbs_blocks m)\<rparr>)"

text \<open>
  The keys sent on the channel: a snapshot of all keys, cut short after \<open>sent\<close> sends when the
  context is cancelled (\<^term>\<open>None\<close>: it is not cancelled).
\<close>

definition Mem_AllKeysChan :: "MemBlockstore \<Rightarrow> nat option \<Rightarrow> cid list" where
  "Mem_AllKeysChan m sent =
     (let keys = map fst (mbs_blocks m)
      in case sent of None \<Rightarrow> keys | Some k \<Rightarrow> take k keys)"

definition Mem_Len :: "MemBlockstore \<Rightarrow> goint" where
  "Mem_Len m = go_len (mbs_blocks m)"

definition Mem_All :: "MemBlockstore \<Rightarrow> block list" where
  "Mem_All m = map snd (mbs_blocks m)"

definition mem_wf :: "MemBlockstore \<Rightarrow> bool" where
  "mem_wf m \<longleftrightarrow> distinct (map fst (mbs_blocks m)) \<and> (\<forall>(c, b) \<in> set (mbs_blocks m). blkCid b = c)"

text \<open>The finite map a store stands for.\<close>

definition mem_abs :: "MemBlockstore \<Rightarrow> cid \<rightharpoonup> block" where
  "mem_abs m = map_of (mbs_blocks m)"

section \<open>NullBlockstore\<close>

definition Null_Put :: "unit \<Rightarrow> block \<Rightarrow> unit res" where
  "Null_Put s b = Inr s"

definition Null_Get :: "unit \<Rightarrow> cid \<Rightarrow> block res" where
  "Null_Get s c = Inl ErrNotFound"

definition Null_PutMany :: "unit \<Rightarrow> block list \<Rightarrow> unit res" where
  "Null_PutMany s bs = Inr s"

definition Null_Has :: "unit \<Rightarrow> cid \<Rightarrow> bool res" where
  "Null_Has s c = Inr False"

definition Null_GetSize :: "unit \<Rightarrow> cid \<Rightarrow> goint res" where
  "Null_GetSize s c = Inl ErrNotFound"

definition Null_DeleteBlock :: "unit \<Rightarrow> cid \<Rightarrow> unit res" where
  "Null_DeleteBlock s c = Inr s"

text \<open>The returned channel is closed at once.\<close>

definition Null_AllKeysChan :: "unit \<Rightarrow> cid list" where
  "Null_AllKeysChan s = []"

section \<open>The interface blockstoreBackend\<close>

text \<open>A value of the Go interface is one of the two implementations.\<close>

datatype blockstoreBackend = BMem MemBlockstore | BNull

fun backend_Put :: "blockstoreBackend \<Rightarrow> block \<Rightarrow> blockstoreBackend res" where
  "backend_Put (BMem m) b = bindR (Mem_Put m b) (\<lambda>m'. Inr (BMem m'))"
| "backend_Put BNull b = bindR (Null_Put () b) (\<lambda>_. Inr BNull)"

fun backend_Get :: "blockstoreBackend \<Rightarrow> cid \<Rightarrow> block res" where
  "backend_Get (BMem m) c = Mem_Get m c"
| "backend_Get BNull c = Null_Get () c"

fun backend_wf :: "blockstoreBackend \<Rightarrow> bool" where
  "backend_wf (BMem m) = mem_wf m"
| "backend_wf BNull = True"

section \<open>The link system\<close>

abbreviation codecRaw :: uint64 where
  "codecRaw \<equiv> 0x55"

abbreviation codecDagCbor :: uint64 where
  "codecDagCbor \<equiv> 0x71"

text \<open>\<^verbatim>\<open>rawEncode\<close>: \<^verbatim>\<open>Node.AsBytes\<close> fails on a node that is not of kind bytes.\<close>

fun rawEncode :: encoder where
  "rawEncode (NBytes b) = Inr b"
| "rawEncode n = Inl (Errorf ''AsBytes: wrong kind'')"

definition rawDecode :: decoder where
  "rawDecode data = Inr (NBytes data)"

fun hex_digit :: "nat \<Rightarrow> char" where
  "hex_digit d = (if d < 10 then char_of (48 + d) else char_of (87 + d))"

fun fmt_hex :: "nat \<Rightarrow> string" where
  "fmt_hex n = (if n < 16 then [hex_digit n] else fmt_hex (n div 16) @ [hex_digit (n mod 16)])"

declare fmt_hex.simps [simp del]

definition EncoderChooser :: "ipld_lib \<Rightarrow> cid_prefix \<Rightarrow> encoder res" where
  "EncoderChooser lib p =
     (if pfCodec p = codecDagCbor then Inr (dagcbor_Encode lib)
      else if pfCodec p = codecRaw then Inr rawEncode
      else Inl (Errorf (''linksystem: unsupported encoder codec 0x'' @ fmt_hex (unat (pfCodec p)))))"

fun cid_Prefix :: "cid \<Rightarrow> cid_prefix" where
  "cid_Prefix (Cid p d) = p"
| "cid_Prefix Undef = \<lparr>pfVersion = 0, pfCodec = 0, pfMhType = 0, pfMhLength = 0\<rparr>"

definition DecoderChooser :: "ipld_lib \<Rightarrow> cid \<Rightarrow> decoder res" where
  "DecoderChooser lib c =
     (let codec = pfCodec (cid_Prefix c)
      in if codec = codecDagCbor then Inr (dagcbor_Decode lib)
         else if codec = codecRaw then Inr rawDecode
         else Inl (Errorf (''linksystem: unsupported decoder codec 0x'' @ fmt_hex (unat codec))))"

text \<open>The committer that \<^verbatim>\<open>StorageWriteOpener\<close> returns, applied to the bytes in its buffer.\<close>

definition StorageWriteCommit ::
  "ipld_lib \<Rightarrow> blockstoreBackend \<Rightarrow> bytes \<Rightarrow> cid \<Rightarrow> blockstoreBackend res" where
  "StorageWriteCommit lib bs raw c =
     bindR (wrapR (''linksystem: create block '' @ cid_String lib c) (NewBlockWithCid lib raw c))
       (\<lambda>blk. backend_Put bs blk)"

definition StorageReadOpener :: "ipld_lib \<Rightarrow> blockstoreBackend \<Rightarrow> cid \<Rightarrow> bytes res" where
  "StorageReadOpener lib bs c =
     bindR (wrapR (''linksystem: get block '' @ cid_String lib c) (backend_Get bs c))
       (\<lambda>blk. Inr (blkData blk))"

text \<open>\<^verbatim>\<open>lsys.Store\<close> on the link system that \<^verbatim>\<open>NewLinkSystem(bs)\<close> returns.\<close>

definition lsys_Store ::
  "ipld_lib \<Rightarrow> blockstoreBackend \<Rightarrow> cid_prefix \<Rightarrow> ipld_node \<Rightarrow> (cid \<times> blockstoreBackend) res" where
  "lsys_Store lib bs p n =
     bindR (lib_Store lib (EncoderChooser lib) p n)
       (\<lambda>(raw, c). bindR (StorageWriteCommit lib bs raw c) (\<lambda>bs'. Inr (c, bs')))"

section \<open>Interfaces and their laws\<close>

text \<open>What a block store must do for the link system: puts succeed and reads invent nothing.\<close>

locale blockstore_backend =
  fixes put :: "'s \<Rightarrow> block \<Rightarrow> 's res"
    and get :: "'s \<Rightarrow> cid \<Rightarrow> block res"
    and wf :: "'s \<Rightarrow> bool"
  assumes put_total: "wf s \<Longrightarrow> \<exists>s'. put s b = Inr s' \<and> wf s'"
    and get_cid: "wf s \<Longrightarrow> get s c = Inr b \<Longrightarrow> blkCid b = c"
    and get_error: "get s c = Inl e \<Longrightarrow> e = ErrNotFound"
    and get_no_invention:
      "wf s \<Longrightarrow> put s b = Inr s' \<Longrightarrow> get s' c = Inr b' \<Longrightarrow> b' = b \<or> get s c = Inr b'"

fun put_all :: "('s \<Rightarrow> block \<Rightarrow> 's res) \<Rightarrow> 's \<Rightarrow> block list \<Rightarrow> 's res" where
  "put_all put s [] = Inr s"
| "put_all put s (b # bs) = bindR (put s b) (\<lambda>s'. put_all put s' bs)"

context blockstore_backend
begin

lemma put_all_total: "wf s \<Longrightarrow> \<exists>s'. put_all put s bs = Inr s' \<and> wf s'"
proof (induction bs arbitrary: s)
  case Nil
  then show ?case by simp
next
  case (Cons b bs)
  from put_total [OF Cons.prems, of b] obtain s1 where "put s b = Inr s1" "wf s1" by blast
  with Cons.IH [of s1] show ?case by simp
qed

lemma put_all_no_invention:
  "wf s \<Longrightarrow> put_all put s bs = Inr s' \<Longrightarrow> get s' c = Inr b' \<Longrightarrow> b' \<in> set bs \<or> get s c = Inr b'"
proof (induction bs arbitrary: s)
  case Nil
  then show ?case by simp
next
  case (Cons b bs)
  from put_total [OF Cons.prems(1), of b] obtain s1 where s1: "put s b = Inr s1" "wf s1" by blast
  with Cons.prems(2) have "put_all put s1 bs = Inr s'" by simp
  from Cons.IH [OF s1(2) this Cons.prems(3)] get_no_invention [OF Cons.prems(1) s1(1)]
  show ?case by auto
qed

end

text \<open>A store that keeps what it is given, as the one staged for upload must.\<close>

locale retaining_backend = blockstore_backend +
  assumes get_put: "wf s \<Longrightarrow> put s b = Inr s' \<Longrightarrow> get s' c = (if c = blkCid b then Inr b else get s c)"

context retaining_backend
begin

lemma put_all_keeps:
  "wf s \<Longrightarrow> put_all put s bs = Inr s' \<Longrightarrow> isOk (get s c) \<Longrightarrow> isOk (get s' c)"
proof (induction bs arbitrary: s)
  case Nil
  then show ?case by simp
next
  case (Cons b bs)
  from put_total [OF Cons.prems(1), of b] obtain s1 where s1: "put s b = Inr s1" "wf s1" by blast
  with Cons.prems(2) have "put_all put s1 bs = Inr s'" by simp
  moreover have "isOk (get s1 c)"
    using get_put [OF Cons.prems(1) s1(1)] Cons.prems(3) by simp
  ultimately show ?case using Cons.IH s1(2) by blast
qed

text \<open>Every block of a batch is there afterwards under its own CID.\<close>

lemma put_all_has:
  "wf s \<Longrightarrow> put_all put s bs = Inr s' \<Longrightarrow> b \<in> set bs \<Longrightarrow> isOk (get s' (blkCid b))"
proof (induction bs arbitrary: s)
  case Nil
  then show ?case by simp
next
  case (Cons a bs)
  from put_total [OF Cons.prems(1), of a] obtain s1 where s1: "put s a = Inr s1" "wf s1" by blast
  with Cons.prems(2) have rest: "put_all put s1 bs = Inr s'" by simp
  show ?case
  proof (cases "b \<in> set bs")
    case True
    then show ?thesis by (rule Cons.IH [OF s1(2) rest])
  next
    case False
    with Cons.prems(3) have "b = a" by simp
    then have "isOk (get s1 (blkCid b))"
      using get_put [OF Cons.prems(1) s1(1)] by simp
    then show ?thesis using put_all_keeps [OF s1(2) rest] by blast
  qed
qed

text \<open>
  A CID names one content: when all blocks put under a CID are the same block, that block is what
  is read back, in whatever order the puts happened.
\<close>

lemma put_all_content:
  assumes "wf s" and "put_all put s bs = Inr s'" and "b \<in> set bs"
    and "\<And>b'. b' \<in> set bs \<Longrightarrow> blkCid b' = blkCid b \<Longrightarrow> b' = b"
    and "\<And>b'. get s (blkCid b) = Inr b' \<Longrightarrow> b' = b"
  shows "get s' (blkCid b) = Inr b"
proof -
  from put_all_has [OF assms(1-3)] obtain b' where b': "get s' (blkCid b) = Inr b'"
    by (auto simp: isOk_iff)
  from put_all_total [OF assms(1)] assms(2) have "wf s'" by (metis Inr_inject)
  from get_cid [OF this b'] have "blkCid b' = blkCid b" .
  with put_all_no_invention [OF assms(1,2) b'] assms(4,5) have "b' = b" by blast
  with b' show ?thesis by simp
qed

end

lemma mem_wf_update: "mem_wf m \<Longrightarrow> mem_wf (m\<lparr>mbs_blocks := AList.update (blkCid b) b (mbs_blocks m)\<rparr>)"
proof -
  assume wf: "mem_wf m"
  then have d: "distinct (map fst (mbs_blocks m))" by (simp add: mem_wf_def)
  have d': "distinct (map fst (AList.update (blkCid b) b (mbs_blocks m)))"
    using d by (rule distinct_update)
  have "\<forall>(c, b') \<in> set (AList.update (blkCid b) b (mbs_blocks m)). blkCid b' = c"
  proof clarify
    fix c b'
    assume "(c, b') \<in> set (AList.update (blkCid b) b (mbs_blocks m))"
    then have "map_of (AList.update (blkCid b) b (mbs_blocks m)) c = Some b'"
      using d' by (simp add: map_of_eq_Some_iff)
    then have "((map_of (mbs_blocks m)) (blkCid b \<mapsto> b)) c = Some b'" by (simp add: update_conv')
    then show "blkCid b' = c"
      using wf by (auto simp: mem_wf_def split: if_splits dest: map_of_SomeD)
  qed
  with d' show ?thesis by (simp add: mem_wf_def)
qed

interpretation mem_bs: retaining_backend Mem_Put Mem_Get mem_wf
proof (unfold_locales, goal_cases)
  case (1 s b)
  then show ?case by (auto simp: Mem_Put_def intro: mem_wf_update)
next
  case (2 s c b)
  then show ?case by (auto simp: Mem_Get_def mem_wf_def split: option.splits dest: map_of_SomeD)
next
  case (3 s c e)
  then show ?case by (auto simp: Mem_Get_def split: option.splits)
next
  case (4 s b s' c b')
  then show ?case by (auto simp: Mem_Put_def Mem_Get_def update_conv split: option.splits if_splits)
next
  case (5 s b s' c)
  then show ?case by (auto simp: Mem_Put_def Mem_Get_def update_conv')
qed

interpretation null_bs: blockstore_backend Null_Put Null_Get "\<lambda>_. True"
  by unfold_locales (auto simp: Null_Put_def Null_Get_def)

interpretation any_bs: blockstore_backend backend_Put backend_Get backend_wf
proof (unfold_locales, goal_cases)
  case (1 s b)
  then show ?case
    using mem_bs.put_total null_bs.put_total by (cases s) (fastforce simp: bindR_eq_Inr)+
next
  case (2 s c b)
  then show ?case using mem_bs.get_cid null_bs.get_cid by (cases s) auto
next
  case (3 s c e)
  then show ?case using mem_bs.get_error null_bs.get_error by (cases s) auto
next
  case (4 s b s' c b')
  then show ?case
    using mem_bs.get_no_invention by (cases s) (fastforce simp: bindR_eq_Inr Null_Get_def Null_Put_def)+
qed

section \<open>Facts about the link system\<close>

text \<open>
  Storing a node is a pure computation of a CID and a block (\<open>sealBlock\<close>), followed by a put.
  The builder's results therefore never depend on the store they are written to.
\<close>

definition sealBlock :: "ipld_lib \<Rightarrow> cid_prefix \<Rightarrow> ipld_node \<Rightarrow> (cid \<times> block) res" where
  "sealBlock lib p n =
     bindR (lib_Store lib (EncoderChooser lib) p n)
       (\<lambda>(raw, c).
          bindR (wrapR (''linksystem: create block '' @ cid_String lib c) (NewBlockWithCid lib raw c))
            (\<lambda>blk. Inr (c, blk)))"

fun backend_add :: "blockstoreBackend \<Rightarrow> block \<Rightarrow> blockstoreBackend" where
  "backend_add (BMem m) b = BMem (m\<lparr>mbs_blocks := AList.update (blkCid b) b (mbs_blocks m)\<rparr>)"
| "backend_add BNull b = BNull"

lemma backend_Put_add [simp]: "backend_Put bs b = Inr (backend_add bs b)"
  by (cases bs) (simp_all add: Mem_Put_def Null_Put_def)

lemma put_all_backend: "put_all backend_Put bs blks = Inr (foldl backend_add bs blks)"
  by (induction blks arbitrary: bs) auto

lemma put_all_Mem:
  "put_all Mem_Put m blks = Inr m' \<longleftrightarrow> foldl backend_add (BMem m) blks = BMem m'"
  by (induction blks arbitrary: m) (auto simp: Mem_Put_def)

lemma backend_wf_foldl: "backend_wf bs \<Longrightarrow> backend_wf (foldl backend_add bs blks)"
  using any_bs.put_all_total [of bs blks] by (simp add: put_all_backend)

lemma foldl_add_Mem: "\<exists>m'. foldl backend_add (BMem m) blks = BMem m'"
  by (induction blks arbitrary: m) auto

lemma foldl_add_Null [simp]: "foldl backend_add BNull blks = BNull"
  by (induction blks) auto

lemma lsys_Store_seal:
  "lsys_Store lib bs p n = bindR (sealBlock lib p n) (\<lambda>(c, blk). Inr (c, backend_add bs blk))"
proof (cases "lib_Store lib (EncoderChooser lib) p n")
  case (Inl e)
  then show ?thesis by (simp add: lsys_Store_def sealBlock_def)
next
  case (Inr rc)
  obtain raw c where rc: "rc = (raw, c)" by (cases rc)
  show ?thesis
    using Inr rc
    by (cases "NewBlockWithCid lib raw c") (simp_all add: lsys_Store_def sealBlock_def StorageWriteCommit_def)
qed

lemma seal_doc:
  assumes "store_doc lib digest" and "block_doc lib"
  shows "sealBlock lib p n =
           bindR (EncoderChooser lib p) (\<lambda>enc. bindR (enc n)
             (\<lambda>raw. Inr (Cid p (digest raw), \<lparr>blkCid = Cid p (digest raw), blkData = raw\<rparr>)))"
proof (cases "EncoderChooser lib p")
  case (Inl e)
  then show ?thesis using assms by (simp add: sealBlock_def store_doc_def)
next
  case (Inr enc)
  then show ?thesis
    using assms by (cases "enc n") (simp_all add: sealBlock_def store_doc_def block_doc_def)
qed

lemma seal_cid:
  "block_doc lib \<Longrightarrow> sealBlock lib p n = Inr (c, blk) \<Longrightarrow> blkCid blk = c"
  by (auto simp: sealBlock_def block_doc_def bindR_eq_Inr split: prod.splits)

lemma Mem_Get_abs: "Mem_Get m c = (case mem_abs m c of None \<Rightarrow> Inl ErrNotFound | Some b \<Rightarrow> Inr b)"
  by (simp add: Mem_Get_def mem_abs_def)

lemma map_of_fold_update:
  "map_of (fold (\<lambda>b. AList.update (blkCid b) b) bs xs) = map_of xs ++ map_of (rev (map (\<lambda>b. (blkCid b, b)) bs))"
proof (induction bs arbitrary: xs)
  case Nil
  then show ?case by simp
next
  case (Cons b bs)
  let ?M = "map_of (rev (map (\<lambda>b. (blkCid b, b)) bs))"
  have "map_of (fold (\<lambda>b. AList.update (blkCid b) b) (b # bs) xs) = ((map_of xs)(blkCid b \<mapsto> b)) ++ ?M"
    by (simp only: fold_simps Cons.IH update_conv')
  also have "\<dots> = map_of xs ++ map_of (rev (map (\<lambda>b. (blkCid b, b)) (b # bs)))"
    by (simp add: map_add_assoc [symmetric])
  finally show ?case .
qed

lemma mem_wf_fold_update:
  "mem_wf m \<Longrightarrow> mem_wf (m\<lparr>mbs_blocks := fold (\<lambda>b. AList.update (blkCid b) b) bs (mbs_blocks m)\<rparr>)"
proof (induction bs arbitrary: m)
  case Nil
  then show ?case by simp
next
  case (Cons b bs)
  from Cons.IH [OF mem_wf_update [OF Cons.prems, of b]] show ?case by simp
qed

section \<open>Properties\<close>

text \<open>
  C23. The in-memory block store implements a finite map from CIDs to blocks: a put stores the block
  under its own CID, a batch of puts lets the later block win, a delete removes one key, each of the
  three keeps the invariant (one entry per CID, every block under its own CID), a read is a
  lookup that fails with \<^verbatim>\<open>ErrNotFound\<close> on an absent key, \<^verbatim>\<open>All\<close> and the key channel list each
  stored block once, and \<^verbatim>\<open>Len\<close> counts them.
\<close>

theorem mem_blockstore_refines_map:
  assumes "mem_wf m"
  shows "(\<exists>m'. Mem_Put m b = Inr m' \<and> mem_wf m' \<and> mem_abs m' = (mem_abs m)(blkCid b \<mapsto> b)) \<and>
    (\<exists>m'. Mem_PutMany m bs = Inr m' \<and> mem_wf m' \<and>
       mem_abs m' = mem_abs m ++ map_of (rev (map (\<lambda>b. (blkCid b, b)) bs))) \<and>
    (\<exists>m'. Mem_DeleteBlock m c = Inr m' \<and> mem_wf m' \<and> mem_abs m' = (mem_abs m)(c := None)) \<and>
    (Mem_Get m c = (case mem_abs m c of None \<Rightarrow> Inl ErrNotFound | Some b \<Rightarrow> Inr b)) \<and>
    (Mem_Has m c = Inr (c \<in> dom (mem_abs m))) \<and>
    (Mem_GetSize m c = (case mem_abs m c of None \<Rightarrow> Inl ErrNotFound | Some b \<Rightarrow> Inr (go_len (blkData b)))) \<and>
    (set (Mem_AllKeysChan m None) = dom (mem_abs m) \<and> distinct (Mem_AllKeysChan m None)) \<and>
    (set (Mem_All m) = ran (mem_abs m) \<and> distinct (Mem_All m)) \<and>
    (Mem_Len m = word_of_nat (card (dom (mem_abs m))))"
proof -
  have c1: "\<exists>m'. Mem_Put m b = Inr m' \<and> mem_wf m' \<and> mem_abs m' = (mem_abs m)(blkCid b \<mapsto> b)"
    using assms by (simp add: Mem_Put_def mem_abs_def update_conv' mem_wf_update)
  have c2: "\<exists>m'. Mem_PutMany m bs = Inr m' \<and> mem_wf m' \<and>
          mem_abs m' = mem_abs m ++ map_of (rev (map (\<lambda>b. (blkCid b, b)) bs))"
    using assms by (simp add: Mem_PutMany_def mem_abs_def map_of_fold_update mem_wf_fold_update)
  have d: "distinct (map fst (mbs_blocks m))" and own: "\<forall>(c, b) \<in> set (mbs_blocks m). blkCid b = c"
    using assms by (simp_all add: mem_wf_def)
  have "set (AList.delete c (mbs_blocks m)) \<subseteq> set (mbs_blocks m)" by (auto simp: AList.delete_eq)
  with own have "\<forall>(c, b) \<in> set (AList.delete c (mbs_blocks m)). blkCid b = c" by blast
  then have cd: "\<exists>m'. Mem_DeleteBlock m c = Inr m' \<and> mem_wf m' \<and> mem_abs m' = (mem_abs m)(c := None)"
    using d by (simp add: Mem_DeleteBlock_def mem_abs_def delete_conv' mem_wf_def distinct_delete)
  have c3: "Mem_Get m c = (case mem_abs m c of None \<Rightarrow> Inl ErrNotFound | Some b \<Rightarrow> Inr b)"
    by (rule Mem_Get_abs)
  have c4: "Mem_Has m c = Inr (c \<in> dom (mem_abs m))"
    by (simp add: Mem_Has_def mem_abs_def dom_def)
  have c5: "Mem_GetSize m c =
          (case mem_abs m c of None \<Rightarrow> Inl ErrNotFound | Some b \<Rightarrow> Inr (go_len (blkData b)))"
    by (simp add: Mem_GetSize_def mem_abs_def)
  have c6: "set (Mem_AllKeysChan m None) = dom (mem_abs m) \<and> distinct (Mem_AllKeysChan m None)"
    using d by (simp add: Mem_AllKeysChan_def mem_abs_def dom_map_of_conv_image_fst)
  have "map fst (mbs_blocks m) = map blkCid (Mem_All m)"
    using own by (auto simp: Mem_All_def)
  with d have "distinct (Mem_All m)" by (metis distinct_map)
  then have ca: "set (Mem_All m) = ran (mem_abs m) \<and> distinct (Mem_All m)"
    using d by (simp add: Mem_All_def mem_abs_def ran_distinct)
  have c7: "Mem_Len m = word_of_nat (card (dom (mem_abs m)))"
    using d distinct_card [OF d] by (simp add: Mem_Len_def go_len_def mem_abs_def dom_map_of_conv_image_fst)
  show ?thesis by (intro conjI c1 c2 cd c3 c4 c5 conjunct1 [OF c6] conjunct2 [OF c6] conjunct1 [OF ca] conjunct2 [OF ca] c7)
qed

theorem mem_blockstore_refines_map_witness:
  "\<exists>m'. Mem_PutMany \<lparr>mbs_blocks = [(Undef, \<lparr>blkCid = Undef, blkData = [7]\<rparr>)]\<rparr>
          [\<lparr>blkCid = Undef, blkData = [8]\<rparr>, \<lparr>blkCid = Undef, blkData = [9, 9]\<rparr>] = Inr m' \<and>
     mem_wf m' \<and> mem_abs m' = [Undef \<mapsto> \<lparr>blkCid = Undef, blkData = [9, 9]\<rparr>] \<and>
     Mem_Len \<lparr>mbs_blocks = [(Undef, \<lparr>blkCid = Undef, blkData = [7]\<rparr>)]\<rparr> = 1"
proof -
  let ?m = "\<lparr>mbs_blocks = [(Undef, \<lparr>blkCid = Undef, blkData = [7]\<rparr>)]\<rparr>"
  have wf: "mem_wf ?m" by (simp add: mem_wf_def)
  note r = mem_blockstore_refines_map [OF wf]
  show ?thesis
    using r [where bs = "[\<lparr>blkCid = Undef, blkData = [8]\<rparr>, \<lparr>blkCid = Undef, blkData = [9, 9]\<rparr>]"]
    by (auto simp: mem_abs_def)
qed

text \<open>
  The CID that the link system returns, and whether it returns one, does not depend on the
  block store behind it: with the discarding store that is used when uploads are skipped, the CIDs
  are those of a store that keeps the blocks.
\<close>

theorem lsys_Store_cid_indep:
  "map_sum id fst (lsys_Store lib bs p n) = map_sum id fst (lsys_Store lib bs' p n)"
  by (cases "sealBlock lib p n") (auto simp: lsys_Store_seal)

text \<open>
  Bytes stored with the raw codec in an in-memory store come back unchanged: reading the
  returned CID yields the same bytes, the decoder chosen for that CID is the raw one, and it
  rebuilds the node.
\<close>

theorem raw_store_roundtrip:
  assumes "store_doc lib digest" and "block_doc lib"
    and "mem_wf m" and "pfCodec p = codecRaw"
  shows "\<exists>m'. lsys_Store lib (BMem m) p (NBytes data) = Inr (Cid p (digest data), BMem m') \<and> mem_wf m' \<and>
           StorageReadOpener lib (BMem m') (Cid p (digest data)) = Inr data \<and>
           DecoderChooser lib (Cid p (digest data)) = Inr rawDecode \<and> rawDecode data = Inr (NBytes data)"
  using assms
  by (auto simp: lsys_Store_seal seal_doc EncoderChooser_def StorageReadOpener_def Mem_Get_def update_conv'
      DecoderChooser_def rawDecode_def intro!: mem_wf_update [of m "\<lparr>blkCid = Cid p (digest data), blkData = data\<rparr>", simplified])

text \<open>A library that satisfies the documented behaviour, for the witnesses: the digest is the data.\<close>

definition demo_lib :: ipld_lib where
  "demo_lib =
     \<lparr>qp_BuildMap = (\<lambda>es. if distinct (map fst es) then Inr (NMap es) else Inl (Errorf ''repeated key'')),
      lib_Store = (\<lambda>ch p n. bindR (ch p) (\<lambda>enc. bindR (enc n) (\<lambda>raw. Inr (raw, Cid p raw)))),
      dagcbor_Encode = (\<lambda>n. Inr []),
      dagcbor_Decode = (\<lambda>raw. Inr (NBytes raw)),
      NewBlockWithCid = (\<lambda>raw c. Inr \<lparr>blkCid = c, blkData = raw\<rparr>),
      cid_String = (\<lambda>c. ''cid''),
      cid_Decode = (\<lambda>s. Inl (Errorf ''invalid cid''))\<rparr>"

lemma demo_lib_doc: "store_doc demo_lib id" "block_doc demo_lib" "qp_doc demo_lib"
  by (simp_all add: demo_lib_def store_doc_def block_doc_def qp_doc_def)

theorem raw_store_roundtrip_witness:
  "\<exists>m'. lsys_Store demo_lib (BMem NewMemBlockstore)
          \<lparr>pfVersion = 1, pfCodec = codecRaw, pfMhType = 0x12, pfMhLength = 32\<rparr> (NBytes [1, 2]) =
        Inr (Cid \<lparr>pfVersion = 1, pfCodec = codecRaw, pfMhType = 0x12, pfMhLength = 32\<rparr> [1, 2], BMem m')"
proof -
  have wf: "mem_wf NewMemBlockstore" by (simp add: mem_wf_def NewMemBlockstore_def)
  have p: "pfCodec \<lparr>pfVersion = 1, pfCodec = codecRaw, pfMhType = 0x12, pfMhLength = 32\<rparr> = codecRaw" by simp
  show ?thesis
    using raw_store_roundtrip [OF demo_lib_doc(1,2) wf p, of "[1, 2]"] by auto
qed

end
