(* ===== verification/Golib.thy ===== *)
theory Golib
  imports Types
begin

text \<open>
  The parts of Go's standard library that the network-facing components use: \<^verbatim>\<open>strings\<close>,
  \<^verbatim>\<open>encoding/hex\<close>, the second results of \<^verbatim>\<open>strconv\<close> that the code keeps when it drops the error,
  \<^verbatim>\<open>time.Time\<close> and \<^verbatim>\<open>time.Duration\<close>, and the decoding of a JSON value into a struct. Upper and
  lower case are the ASCII ones; the strings concerned are hexadecimal or network names.
\<close>

unbundle bit_operations_syntax

section \<open>strings\<close>

definition strings_HasPrefix :: "string \<Rightarrow> string \<Rightarrow> bool" where
  "strings_HasPrefix s p \<longleftrightarrow> take (length p) s = p"

definition strings_TrimPrefix :: "string \<Rightarrow> string \<Rightarrow> string" where
  "strings_TrimPrefix s p = (if strings_HasPrefix s p then drop (length p) s else s)"

fun strings_Contains :: "string \<Rightarrow> string \<Rightarrow> bool" where
  "strings_Contains [] p \<longleftrightarrow> p = []"
| "strings_Contains (c # cs) p \<longleftrightarrow> strings_HasPrefix (c # cs) p \<or> strings_Contains cs p"

definition strings_TrimRight :: "string \<Rightarrow> char \<Rightarrow> string" where
  "strings_TrimRight s c = rev (dropWhile (\<lambda>x. x = c) (rev s))"

fun strings_Join :: "string \<Rightarrow> string list \<Rightarrow> string" where
  "strings_Join sep [] = ''''"
| "strings_Join sep [x] = x"
| "strings_Join sep (x # xs) = x @ sep @ strings_Join sep xs"

definition lower_char :: "char \<Rightarrow> char" where
  "lower_char c = (let n = of_char c :: nat in if 65 \<le> n \<and> n \<le> 90 then char_of (n + 32) else c)"

definition strings_ToLower :: "string \<Rightarrow> string" where
  "strings_ToLower s = map lower_char s"

lemma HasPrefix_append [simp]: "strings_HasPrefix (p @ s) p"
  by (simp add: strings_HasPrefix_def)

lemma TrimPrefix_append [simp]: "strings_TrimPrefix (p @ s) p = s"
  by (simp add: strings_TrimPrefix_def)

lemma Contains_prefix: "strings_HasPrefix s p \<Longrightarrow> strings_Contains s p"
  by (cases s) (auto simp: strings_HasPrefix_def)

lemma Contains_append_right: "strings_Contains s p \<Longrightarrow> strings_Contains (t @ s) p"
  by (induction t) auto

lemma lower_char_idem [simp]: "lower_char (lower_char c) = lower_char c"
  by (simp add: lower_char_def Let_def of_char_of)

lemma ToLower_idem [simp]: "strings_ToLower (strings_ToLower s) = strings_ToLower s"
  by (simp add: strings_ToLower_def)

lemma length_ToLower [simp]: "length (strings_ToLower s) = length s"
  by (simp add: strings_ToLower_def)

section \<open>encoding/hex\<close>

text \<open>
  \<^verbatim>\<open>hex.EncodeToString\<close> prints two lower-case digits per byte. \<^verbatim>\<open>hex.DecodeString\<close> reads pairs of
  digits of either case and fails on the first byte that is not a digit, then on an odd length.
\<close>

definition nibble_char :: "nat \<Rightarrow> char" where
  "nibble_char d = (if d < 10 then char_of (48 + d) else char_of (87 + d))"

definition hex_nibble :: "char \<Rightarrow> nat option" where
  "hex_nibble c =
     (let n = of_char c :: nat
      in if 48 \<le> n \<and> n \<le> 57 then Some (n - 48)
         else if 97 \<le> n \<and> n \<le> 102 then Some (n - 87)
         else if 65 \<le> n \<and> n \<le> 70 then Some (n - 55)
         else None)"

fun hex_EncodeToString :: "bytes \<Rightarrow> string" where
  "hex_EncodeToString [] = []"
| "hex_EncodeToString (b # bs) =
     nibble_char (unat b div 16) # nibble_char (unat b mod 16) # hex_EncodeToString bs"

fun hex_DecodeString :: "string \<Rightarrow> bytes res" where
  "hex_DecodeString [] = Inr []"
| "hex_DecodeString [c] =
     (case hex_nibble c of
        None \<Rightarrow> Inl (Errorf ''encoding/hex: invalid byte'')
      | Some _ \<Rightarrow> Inl (Errorf ''encoding/hex: odd length hex string''))"
| "hex_DecodeString (c # d # cs) =
     (case (hex_nibble c, hex_nibble d) of
        (Some hi, Some lo) \<Rightarrow> bindR (hex_DecodeString cs) (\<lambda>bs. Inr (word_of_nat (16 * hi + lo) # bs))
      | _ \<Rightarrow> Inl (Errorf ''encoding/hex: invalid byte''))"

lemma nat16_cases: "(d::nat) < 16 \<Longrightarrow>
  d = 0 \<or> d = 1 \<or> d = 2 \<or> d = 3 \<or> d = 4 \<or> d = 5 \<or> d = 6 \<or> d = 7 \<or>
  d = 8 \<or> d = 9 \<or> d = 10 \<or> d = 11 \<or> d = 12 \<or> d = 13 \<or> d = 14 \<or> d = 15"
  by presburger

lemma of_char_nibble:
  assumes "d < 16"
  shows "of_char (nibble_char d) = (if d < 10 then 48 + d else 87 + d)"
  using assms by (simp add: nibble_char_def of_char_of)

lemma hex_nibble_nibble_char [simp]: "d < 16 \<Longrightarrow> hex_nibble (nibble_char d) = Some d"
  by (simp add: hex_nibble_def of_char_nibble)

lemma hex_nibble_less: "hex_nibble c = Some d \<Longrightarrow> d < 16"
  by (auto simp: hex_nibble_def Let_def split: if_splits)

lemma hex_nibble_lower [simp]: "hex_nibble (lower_char c) = hex_nibble c"
  by (auto simp: hex_nibble_def lower_char_def Let_def of_char_of)

lemma nibble_char_lower [simp]: "d < 16 \<Longrightarrow> lower_char (nibble_char d) = nibble_char d"
  by (simp add: lower_char_def of_char_nibble)

lemma byte_nibbles [simp]: "word_of_nat (16 * (unat b div 16) + unat b mod 16) = (b :: byte)"
  by (simp add: mult.commute)

lemma byte_div16: "unat (b :: byte) div 16 < 16"
  using unsigned_less [of b, where 'a = nat] by (simp add: less_mult_imp_div_less)

lemma length_hex_Encode [simp]: "length (hex_EncodeToString bs) = 2 * length bs"
  by (induction bs) auto

lemma hex_Decode_Encode [simp]: "hex_DecodeString (hex_EncodeToString bs) = Inr bs"
  by (induction bs) (simp_all add: byte_div16)

lemma hex_Encode_lower [simp]: "strings_ToLower (hex_EncodeToString bs) = hex_EncodeToString bs"
  by (induction bs) (simp_all add: strings_ToLower_def byte_div16)

lemma hex_Decode_lower [simp]: "hex_DecodeString (strings_ToLower s) = hex_DecodeString s"
  by (induction s rule: hex_DecodeString.induct) (auto simp: strings_ToLower_def split: option.splits)

lemma hex_Encode_inject [simp]: "hex_EncodeToString as = hex_EncodeToString bs \<longleftrightarrow> as = bs"
  by (metis hex_Decode_Encode Inr_inject)

section \<open>Values that strconv returns beside an error\<close>

text \<open>
  On a syntax error the value is 0, on a range error it is the nearest representable number.
\<close>

definition ParseUint_value :: "string \<Rightarrow> uint64" where
  "ParseUint_value s =
     (case parse_nat s of None \<Rightarrow> 0 | Some n \<Rightarrow> if n < 2 ^ 64 then word_of_nat n else maxUint64)"

definition Atoi_value :: "string \<Rightarrow> goint" where
  "Atoi_value s =
     (case parse_int s of
        None \<Rightarrow> 0
      | Some i \<Rightarrow> if i < - (2 ^ 63) then word_of_int (- (2 ^ 63))
                  else if i < 2 ^ 63 then word_of_int i else word_of_int (2 ^ 63 - 1))"

definition ParseInt :: "string \<Rightarrow> int64 res" where
  "ParseInt s =
     (case parse_int s of
        None \<Rightarrow> Inl (Errorf (''strconv.ParseInt: parsing '' @ s @ '': invalid syntax''))
      | Some i \<Rightarrow>
          if - (2 ^ 63) \<le> i \<and> i < 2 ^ 63 then Inr (word_of_int i)
          else Inl (Errorf (''strconv.ParseInt: parsing '' @ s @ '': value out of range'')))"

section \<open>The verb %q\<close>

text \<open>
  \<^verbatim>\<open>strconv.Quote\<close>, the verb \<^verbatim>\<open>%q\<close> of \<^verbatim>\<open>fmt\<close>: a quoted string with the escapes of the ASCII control
  characters, of the quote and of the backslash. Bytes from 0x80 on are copied, as they are for the
  printable UTF-8 sequences of a path or a name.
\<close>

definition quote_char :: "char \<Rightarrow> string" where
  "quote_char c =
     (let n = of_char c :: nat
      in if n = 34 \<or> n = 92 then [CHR 0x5C, c]
         else if n = 7 then [CHR 0x5C, CHR ''a''] else if n = 8 then [CHR 0x5C, CHR ''b'']
         else if n = 9 then [CHR 0x5C, CHR ''t''] else if n = 10 then [CHR 0x5C, CHR ''n'']
         else if n = 11 then [CHR 0x5C, CHR ''v''] else if n = 12 then [CHR 0x5C, CHR ''f'']
         else if n = 13 then [CHR 0x5C, CHR ''r'']
         else if n < 32 \<or> n = 127 then [CHR 0x5C, CHR ''x'', nibble_char (n div 16), nibble_char (n mod 16)]
         else [c])"

definition go_quote :: "string \<Rightarrow> string" where
  "go_quote s = [CHR 0x22] @ concat (map quote_char s) @ [CHR 0x22]"

text \<open>The arrow in the texts of failing renames, as its UTF-8 bytes between blanks.\<close>

abbreviation arrow_text :: string where
  "arrow_text \<equiv> [CHR 0x20, CHR 0xE2, CHR 0x86, CHR 0x92, CHR 0x20]"

section \<open>time\<close>

text \<open>
  An instant is its distance in nanoseconds from January 1 of year 1, so that \<^verbatim>\<open>time.Time{}\<close> is 0 and
  \<^verbatim>\<open>IsZero\<close> is equality with 0. A duration is an \<^verbatim>\<open>int64\<close> of nanoseconds.
\<close>

type_synonym gotime = int
type_synonym duration = int64

abbreviation (input) zeroTime :: gotime where
  "zeroTime \<equiv> 0"

definition time_Second :: duration where
  "time_Second = 1000000000"

definition time_Unix :: "int64 \<Rightarrow> gotime" where
  "time_Unix secs = (sint secs + 62135596800) * 1000000000"

definition time_Add :: "gotime \<Rightarrow> duration \<Rightarrow> gotime" where
  "time_Add t d = t + sint d"

section \<open>net/url and the printing of durations\<close>

text \<open>
  \<^verbatim>\<open>url.QueryEscape\<close> keeps letters, digits and \<^verbatim>\<open>-_.~\<close>, writes a space as \<^verbatim>\<open>+\<close> and every other byte as
  \<^verbatim>\<open>%XX\<close>. \<^verbatim>\<open>url.Values.Encode\<close> prints the parameters in the order of their keys.
\<close>

definition upper_nibble :: "nat \<Rightarrow> char" where
  "upper_nibble d = (if d < 10 then char_of (48 + d) else char_of (55 + d))"

definition escape_char :: "char \<Rightarrow> string" where
  "escape_char c =
     (let n = of_char c :: nat
      in if 97 \<le> n \<and> n \<le> 122 \<or> 65 \<le> n \<and> n \<le> 90 \<or> 48 \<le> n \<and> n \<le> 57 \<or> c \<in> {CHR ''-'', CHR ''_'', CHR ''.'', CHR ''~''}
         then [c]
         else if c = CHR '' '' then ''+''
         else [CHR ''%'', upper_nibble (n div 16), upper_nibble (n mod 16)])"

definition url_QueryEscape :: "string \<Rightarrow> string" where
  "url_QueryEscape s = concat (map escape_char s)"

fun join_params :: "(string \<times> string) list \<Rightarrow> string" where
  "join_params [] = ''''"
| "join_params [(k, v)] = url_QueryEscape k @ ''='' @ url_QueryEscape v"
| "join_params ((k, v) # ps) = url_QueryEscape k @ ''='' @ url_QueryEscape v @ ''&'' @ join_params ps"

definition url_Encode :: "(string \<times> string) list \<Rightarrow> string" where
  "url_Encode params = join_params (sort_key fst params)"

text \<open>\<^verbatim>\<open>time.Duration.String\<close>: \<open>frac_digits prec v\<close> prints \<open>v / 10 ^ prec\<close> without trailing zeros.\<close>

fun pad_digits :: "nat \<Rightarrow> nat \<Rightarrow> string" where
  "pad_digits 0 v = ''''"
| "pad_digits (Suc k) v = pad_digits k (v div 10) @ fmt_nat (v mod 10)"

definition frac_digits :: "nat \<Rightarrow> nat \<Rightarrow> string" where
  "frac_digits prec v =
     (let ds = strings_TrimRight (pad_digits prec (v mod 10 ^ prec)) (CHR ''0'')
      in fmt_nat (v div 10 ^ prec) @ (if ds = '''' then '''' else CHR ''.'' # ds))"

definition Duration_String :: "duration \<Rightarrow> string" where
  "Duration_String d =
     (let u = nat \<bar>sint d\<bar>;
          neg = (if sint d < 0 then ''-'' else '''')
      in if u = 0 then ''0s''
         else neg @
           (if u < 1000 then fmt_nat u @ ''ns''
            else if u < 1000000 then frac_digits 3 u @ [char_of (0xC2 :: nat), char_of (0xB5 :: nat), CHR ''s'']
            else if u < 1000000000 then frac_digits 6 u @ ''ms''
            else let secs = u div 1000000000; mins = secs div 60; hours = mins div 60
                 in (if 0 < hours then fmt_nat hours @ ''h'' else '''')
                    @ (if 0 < mins then fmt_nat (mins mod 60) @ ''m'' else '''')
                    @ frac_digits 9 (secs mod 60 * 1000000000 + u mod 1000000000) @ ''s''))"

section \<open>JSON\<close>

text \<open>
  A JSON document after lexing; the text-level parser is left to the standard library, and a body
  that is not a document is \<^term>\<open>None\<close> where it occurs. Decoding into a struct field: an absent member
  or \<^verbatim>\<open>null\<close> leaves the zero value, a member of another kind is an error. Member names are compared
  exactly.
\<close>

datatype json =
    JNull
  | JBool bool
  | JInt int
  | JFrac string
  | JStr string
  | JArr "json list"
  | JObj "(string \<times> json) list"

definition json_type_error :: "string \<Rightarrow> error" where
  "json_type_error k = Errorf (''json: cannot unmarshal into Go struct field '' @ k)"

fun json_string :: "string \<Rightarrow> json option \<Rightarrow> string res" where
  "json_string k None = Inr ''''"
| "json_string k (Some JNull) = Inr ''''"
| "json_string k (Some (JStr s)) = Inr s"
| "json_string k (Some _) = Inl (json_type_error k)"

fun json_object :: "string \<Rightarrow> json option \<Rightarrow> (string \<rightharpoonup> json) res" where
  "json_object k None = Inr Map.empty"
| "json_object k (Some JNull) = Inr Map.empty"
| "json_object k (Some (JObj ms)) = Inr (map_of (rev ms))"
| "json_object k (Some _) = Inl (json_type_error k)"

fun json_list :: "string \<Rightarrow> json option \<Rightarrow> json list res" where
  "json_list k None = Inr []"
| "json_list k (Some JNull) = Inr []"
| "json_list k (Some (JArr xs)) = Inr xs"
| "json_list k (Some _) = Inl (json_type_error k)"

fun json_path :: "string list \<Rightarrow> json \<Rightarrow> (string \<rightharpoonup> json) res" where
  "json_path [] j = json_object '''' (Some j)"
| "json_path (k # ks) j =
     bindR (json_object k (Some j))
       (\<lambda>m. case m k of None \<Rightarrow> Inr Map.empty | Some j' \<Rightarrow> json_path ks j')"

end
