(* ===== verification/StateMgr.thy ===== *)
theory StateMgr
  imports Golib
begin

text \<open>
  \<^verbatim>\<open>state/manager.go\<close>: the progress cursors. The interface \<^verbatim>\<open>Backend\<close> is the locale \<open>state_backend\<close>; the
  file-backed \<^verbatim>\<open>Manager\<close> is modelled here with the files it reads and writes, the database-backed
  implementation in \<open>Db\<close>. A file is the JSON document it holds (\<^term>\<open>None\<close>: bytes that are not JSON).
\<close>

section \<open>The interface\<close>

text \<open>
  What the generator relies on: a cursor that was set is what is read next, setting one cursor leaves
  the other, and a failing set leaves both as they can be read from a fresh start (\<open>durable\<close>).
\<close>

locale state_backend =
  fixes getLast :: "'s \<Rightarrow> uint64 res"
    and setLast :: "'s \<Rightarrow> uint64 \<Rightarrow> unit res \<times> 's"
    and getBackfill :: "'s \<Rightarrow> uint64 res"
    and setBackfill :: "'s \<Rightarrow> uint64 \<Rightarrow> unit res \<times> 's"
    and durable :: "'s \<Rightarrow> (uint64 \<times> uint64) option"
    and inv :: "'s \<Rightarrow> bool"
  assumes setLast_inv: "inv s \<Longrightarrow> inv (snd (setLast s e))"
    and setBackfill_inv: "inv s \<Longrightarrow> inv (snd (setBackfill s e))"
    and setLast_get: "inv s \<Longrightarrow> setLast s e = (Inr (), s') \<Longrightarrow> getLast s' = Inr e \<and> getBackfill s' = getBackfill s"
    and setBackfill_get: "inv s \<Longrightarrow> setBackfill s e = (Inr (), s') \<Longrightarrow> getBackfill s' = Inr e"
    and setBackfill_last: "inv s \<Longrightarrow> setBackfill s e = (Inr (), s') \<Longrightarrow> getLast s = Inr l \<Longrightarrow> getLast s' = Inr l"
    and setLast_durable: "inv s \<Longrightarrow> setLast s e = (Inr (), s') \<Longrightarrow> map_option fst (durable s') = Some e"
    and setBackfill_durable: "inv s \<Longrightarrow> setBackfill s e = (Inr (), s') \<Longrightarrow> map_option snd (durable s') = Some e"
    and setLast_failed: "inv s \<Longrightarrow> setLast s e = (Inl err, s') \<Longrightarrow> durable s' = durable s"
    and setBackfill_failed: "inv s \<Longrightarrow> setBackfill s e = (Inl err, s') \<Longrightarrow> durable s' = durable s"
begin

text \<open>A run of a loop that records each epoch it finishes, stopping at the first failure.\<close>

fun record_all :: "'s \<Rightarrow> uint64 list \<Rightarrow> unit res \<times> 's" where
  "record_all s [] = (Inr (), s)"
| "record_all s (e # es) =
     (case setBackfill s e of (Inl err, s') \<Rightarrow> (Inl err, s') | (Inr _, s') \<Rightarrow> record_all s' es)"

lemma record_all_inv: "inv s \<Longrightarrow> inv (snd (record_all s es))"
proof (induction es arbitrary: s)
  case (Cons e es)
  from setBackfill_inv [OF Cons.prems, of e] Cons.IH show ?case by (auto split: prod.splits sum.splits)
qed simp

lemma record_all_last:
  assumes "inv s" "es \<noteq> []" "record_all s es = (Inr (), s')"
  shows "getBackfill s' = Inr (last es) \<and> map_option snd (durable s') = Some (last es)"
  using assms
proof (induction es arbitrary: s)
  case (Cons e es)
  from Cons.prems(3) obtain s1 where s1: "setBackfill s e = (Inr (), s1)" "record_all s1 es = (Inr (), s')"
    by (auto split: prod.splits sum.splits)
  have inv1: "inv s1" using setBackfill_inv [OF Cons.prems(1), of e] s1(1) by simp
  show ?case
  proof (cases "es = []")
    case True
    with s1 setBackfill_get [OF Cons.prems(1) s1(1)] setBackfill_durable [OF Cons.prems(1) s1(1)] show ?thesis by simp
  next
    case False
    from Cons.IH [OF inv1 False s1(2)] False show ?thesis by simp
  qed
qed simp

text \<open>A run that fails has durably recorded a prefix of its epochs, or nothing at all.\<close>

lemma record_all_failed:
  assumes "inv s" "record_all s es = (Inl err, s')"
  shows "\<exists>done rest. es = done @ rest \<and> rest \<noteq> [] \<and>
    map_option snd (durable s') = (if done = [] then map_option snd (durable s) else Some (last done))"
  using assms
proof (induction es arbitrary: s)
  case (Cons e es)
  show ?case
  proof (cases "setBackfill s e")
    case (Pair r s1)
    show ?thesis
    proof (cases r)
      case (Inl err')
      with Pair Cons.prems have "s' = s1" by simp
      with setBackfill_failed [OF Cons.prems(1)] Pair Inl show ?thesis by (intro exI [of _ "[]"] exI [of _ "e # es"]) simp
    next
      case (Inr u)
      then have s1: "setBackfill s e = (Inr (), s1)" using Pair by simp
      then have inv1: "inv s1" using setBackfill_inv [OF Cons.prems(1), of e] by simp
      have "record_all s1 es = (Inl err, s')" using Cons.prems(2) s1 by simp
      from Cons.IH [OF inv1 this] obtain dn rest where "es = dn @ rest" "rest \<noteq> []"
        "map_option snd (durable s') = (if dn = [] then map_option snd (durable s1) else Some (last dn))" by blast
      with setBackfill_durable [OF Cons.prems(1) s1] show ?thesis
        by (intro exI [of _ "e # dn"] exI [of _ rest]) auto
    qed
  qed
qed simp

end

section \<open>The file-backed manager\<close>

record Manager =
  mg_path :: string
  mg_current :: State

type_synonym files = "string \<rightharpoonup> json option"

type_synonym file_faults = "string \<Rightarrow> error option"

definition State_json :: "State \<Rightarrow> json" where
  "State_json st =
     JObj ([(''network'', JStr (st_Network st)), (''last_processed_epoch'', JInt (int (unat (st_LastProcessedEpoch st))))] @
           (if st_BackfillCursor st = 0 then [] else [(''backfill_cursor'', JInt (int (unat (st_BackfillCursor st))))]))"

fun json_uint64 :: "string \<Rightarrow> json option \<Rightarrow> uint64 res" where
  "json_uint64 k None = Inr 0"
| "json_uint64 k (Some JNull) = Inr 0"
| "json_uint64 k (Some (JInt i)) = (if 0 \<le> i \<and> i < 2 ^ 64 then Inr (word_of_int i) else Inl (json_type_error k))"
| "json_uint64 k (Some _) = Inl (json_type_error k)"

definition State_unmarshal :: "json \<Rightarrow> State res" where
  "State_unmarshal j =
     bindR (json_object '''' (Some j)) (\<lambda>m.
     bindR (json_string ''network'' (m ''network'')) (\<lambda>n.
     bindR (json_uint64 ''last_processed_epoch'' (m ''last_processed_epoch'')) (\<lambda>l.
     bindR (json_uint64 ''backfill_cursor'' (m ''backfill_cursor'')) (\<lambda>b.
       Inr \<lparr>st_Network = n, st_LastProcessedEpoch = l, st_BackfillCursor = b\<rparr>))))"

text \<open>\<open>path\<close> is the joined path of the data directory and the file name.\<close>

definition NewManager :: "file_faults \<Rightarrow> files \<Rightarrow> string \<Rightarrow> string \<Rightarrow> Manager res" where
  "NewManager flt fs path network =
     (case fs path of
        None \<Rightarrow> Inr \<lparr>mg_path = path, mg_current = \<lparr>st_Network = network, st_LastProcessedEpoch = 0, st_BackfillCursor = 0\<rparr>\<rparr>
      | Some content \<Rightarrow>
          (case flt ''read'' of
             Some e \<Rightarrow> Inl (wrapErr (''state: read '' @ go_quote path) e)
           | None \<Rightarrow>
               wrapR (''state: parse '' @ go_quote path)
                 (case content of
                    None \<Rightarrow> Inl (Errorf ''invalid JSON'')
                  | Some j \<Rightarrow> bindR (State_unmarshal j) (\<lambda>st. Inr \<lparr>mg_path = path, mg_current = st\<rparr>))))"

text \<open>A failing write can leave any bytes in the temporary file; a failing rename removes it.\<close>

definition save :: "file_faults \<Rightarrow> Manager \<Rightarrow> files \<Rightarrow> unit res \<times> files" where
  "save flt m fs =
     (let tmp = mg_path m @ ''.tmp''
      in case flt ''marshal'' of
           Some e \<Rightarrow> (Inl (wrapErr ''state: marshal'' e), fs)
         | None \<Rightarrow>
             (case flt ''write'' of
                Some e \<Rightarrow> (Inl (wrapErr (''state: write tmp '' @ go_quote tmp) e), fs(tmp \<mapsto> None))
              | None \<Rightarrow>
                  (let fs1 = fs(tmp \<mapsto> Some (State_json (mg_current m)))
                   in case flt ''rename'' of
                        Some e \<Rightarrow> (Inl (wrapErr (''state: rename '' @ go_quote tmp @ arrow_text @ go_quote (mg_path m)) e), fs1(tmp := None))
                      | None \<Rightarrow> (Inr (), (fs1(mg_path m := fs1 tmp))(tmp := None)))))"

definition Mgr_Get :: "Manager \<times> files \<Rightarrow> State" where
  "Mgr_Get s = mg_current (fst s)"

definition Mgr_GetLastProcessedEpoch :: "Manager \<times> files \<Rightarrow> uint64 res" where
  "Mgr_GetLastProcessedEpoch s = Inr (st_LastProcessedEpoch (mg_current (fst s)))"

definition Mgr_SetLastProcessedEpoch :: "file_faults \<Rightarrow> Manager \<times> files \<Rightarrow> uint64 \<Rightarrow> unit res \<times> (Manager \<times> files)" where
  "Mgr_SetLastProcessedEpoch flt s epoch =
     (let m = (fst s)\<lparr>mg_current := (mg_current (fst s))\<lparr>st_LastProcessedEpoch := epoch\<rparr>\<rparr>;
          (r, fs') = save flt m (snd s)
      in (r, (m, fs')))"

definition Mgr_GetBackfillCursor :: "Manager \<times> files \<Rightarrow> uint64 res" where
  "Mgr_GetBackfillCursor s = Inr (st_BackfillCursor (mg_current (fst s)))"

definition Mgr_SetBackfillCursor :: "file_faults \<Rightarrow> Manager \<times> files \<Rightarrow> uint64 \<Rightarrow> unit res \<times> (Manager \<times> files)" where
  "Mgr_SetBackfillCursor flt s epoch =
     (let m = (fst s)\<lparr>mg_current := (mg_current (fst s))\<lparr>st_BackfillCursor := epoch\<rparr>\<rparr>;
          (r, fs') = save flt m (snd s)
      in (r, (m, fs')))"

section \<open>Facts\<close>

text \<open>What a fresh start reads back: the cursors in the state file, 0 when there is none.\<close>

definition on_disk :: "Manager \<times> files \<Rightarrow> (uint64 \<times> uint64) option" where
  "on_disk s =
     (case NewManager (\<lambda>_. None) (snd s) (mg_path (fst s)) '''' of
        Inl _ \<Rightarrow> None
      | Inr m \<Rightarrow> Some (st_LastProcessedEpoch (mg_current m), st_BackfillCursor (mg_current m)))"

lemma State_roundtrip [simp]: "State_unmarshal (State_json st) = Inr st"
proof -
  have u: "word_of_int (uint w) = w \<and> 0 \<le> uint w \<and> uint w < 2 ^ 64" for w :: uint64
    using uint_lt2p [of w] by simp
  show ?thesis
    using u [of "st_LastProcessedEpoch st"] u [of "st_BackfillCursor st"]
    by (cases st) (simp add: State_json_def State_unmarshal_def)
qed

lemma save_path:
  "snd (save flt m fs) (mg_path m) =
     (if fst (save flt m fs) = Inr () then Some (Some (State_json (mg_current m))) else fs (mg_path m))"
  by (auto simp: save_def Let_def split: option.splits)

lemma NewManager_saved:
  "fst (save flt m fs) = Inr () \<Longrightarrow> NewManager (\<lambda>_. None) (snd (save flt m fs)) (mg_path m) network = Inr m"
  by (simp add: NewManager_def save_path)

lemma on_disk_saved:
  "fst (save flt m fs) = Inr () \<Longrightarrow>
   on_disk (m, snd (save flt m fs)) = Some (st_LastProcessedEpoch (mg_current m), st_BackfillCursor (mg_current m))"
  by (simp add: on_disk_def NewManager_saved)

lemma on_disk_failed:
  "fst (save flt (m\<lparr>mg_current := st\<rparr>) fs) = Inl e \<Longrightarrow>
   on_disk (m, snd (save flt (m\<lparr>mg_current := st\<rparr>) fs)) = on_disk (m, fs)"
  using save_path [of flt "m\<lparr>mg_current := st\<rparr>" fs] by (simp add: on_disk_def NewManager_def)

lemma on_disk_current: "on_disk (m\<lparr>mg_current := st\<rparr>, fs) = on_disk (m, fs)"
  by (simp add: on_disk_def)

lemma SetLast_save:
  "Mgr_SetLastProcessedEpoch flt (m, fs) e =
     (let m' = m\<lparr>mg_current := (mg_current m)\<lparr>st_LastProcessedEpoch := e\<rparr>\<rparr>
      in (fst (save flt m' fs), (m', snd (save flt m' fs))))"
  by (simp add: Mgr_SetLastProcessedEpoch_def Let_def case_prod_beta)

lemma SetBackfill_save:
  "Mgr_SetBackfillCursor flt (m, fs) e =
     (let m' = m\<lparr>mg_current := (mg_current m)\<lparr>st_BackfillCursor := e\<rparr>\<rparr>
      in (fst (save flt m' fs), (m', snd (save flt m' fs))))"
  by (simp add: Mgr_SetBackfillCursor_def Let_def case_prod_beta)

interpretation file_state: state_backend Mgr_GetLastProcessedEpoch "Mgr_SetLastProcessedEpoch flt"
  Mgr_GetBackfillCursor "Mgr_SetBackfillCursor flt" on_disk "\<lambda>_. True"
  for flt :: file_faults
proof unfold_locales
  fix s s' :: "Manager \<times> files" and e l :: uint64 and err
  obtain m fs where s: "s = (m, fs)" by (cases s)
  show "Mgr_SetLastProcessedEpoch flt s e = (Inr (), s') \<Longrightarrow>
      Mgr_GetLastProcessedEpoch s' = Inr e \<and> Mgr_GetBackfillCursor s' = Mgr_GetBackfillCursor s"
    by (auto simp: s Mgr_SetLastProcessedEpoch_def Mgr_GetLastProcessedEpoch_def Mgr_GetBackfillCursor_def Let_def split: prod.splits)
  show "Mgr_SetBackfillCursor flt s e = (Inr (), s') \<Longrightarrow> Mgr_GetBackfillCursor s' = Inr e"
    "Mgr_SetBackfillCursor flt s e = (Inr (), s') \<Longrightarrow> Mgr_GetLastProcessedEpoch s = Inr l \<Longrightarrow> Mgr_GetLastProcessedEpoch s' = Inr l"
    by (auto simp: s Mgr_SetBackfillCursor_def Mgr_GetLastProcessedEpoch_def Mgr_GetBackfillCursor_def Let_def split: prod.splits)
  show "Mgr_SetLastProcessedEpoch flt s e = (Inr (), s') \<Longrightarrow> map_option fst (on_disk s') = Some e"
    unfolding s SetLast_save by (auto simp: Let_def on_disk_saved)
  show "Mgr_SetBackfillCursor flt s e = (Inr (), s') \<Longrightarrow> map_option snd (on_disk s') = Some e"
    unfolding s SetBackfill_save by (auto simp: Let_def on_disk_saved)
  show "Mgr_SetLastProcessedEpoch flt s e = (Inl err, s') \<Longrightarrow> on_disk s' = on_disk s"
    unfolding s SetLast_save by (auto simp: Let_def on_disk_failed on_disk_current)
  show "Mgr_SetBackfillCursor flt s e = (Inl err, s') \<Longrightarrow> on_disk s' = on_disk s"
    unfolding s SetBackfill_save by (auto simp: Let_def on_disk_failed on_disk_current)
qed simp_all

section \<open>Properties\<close>

text \<open>
  C28. The state file survives restarts: after a successful set, a fresh manager on the same path has the
  state that was set, with the other fields as they were; after a failing set, whatever step failed, the
  file is as it was before, so a restart resumes from the previous cursor. The running process however
  already reads the new value, also when the set failed.
\<close>

theorem SetBackfillCursor_durable:
  "case Mgr_SetBackfillCursor flt (m, fs) e of (r, (m', fs')) \<Rightarrow>
     Mgr_GetBackfillCursor (m', fs') = Inr e \<and> Mgr_GetLastProcessedEpoch (m', fs') = Mgr_GetLastProcessedEpoch (m, fs) \<and>
     (case r of
        Inr _ \<Rightarrow> NewManager (\<lambda>_. None) fs' (mg_path m) network =
                   Inr (m\<lparr>mg_current := (mg_current m)\<lparr>st_BackfillCursor := e\<rparr>\<rparr>)
      | Inl _ \<Rightarrow> fs' (mg_path m) = fs (mg_path m))"
proof -
  let ?m = "m\<lparr>mg_current := (mg_current m)\<lparr>st_BackfillCursor := e\<rparr>\<rparr>"
  have "fs' (mg_path m) = fs (mg_path m)" if "save flt ?m fs = (Inl err, fs')" for err fs'
    using save_path [of flt ?m fs] that by simp
  moreover have "NewManager (\<lambda>_. None) fs' (mg_path m) network = Inr ?m" if "save flt ?m fs = (Inr (), fs')" for fs'
    using NewManager_saved [of flt ?m fs network] that by simp
  ultimately show ?thesis
    by (cases "save flt ?m fs"; cases "fst (save flt ?m fs)")
      (auto simp: SetBackfill_save Let_def Mgr_GetBackfillCursor_def Mgr_GetLastProcessedEpoch_def)
qed

end
