(* ===== verification/Db.thy ===== *)
theory Db
  imports Store StateMgr
begin

text \<open>
  \<^verbatim>\<open>db/db.go\<close>: the PostgreSQL index. A table is the list of its rows; each method is the effect of its
  SQL statements on the tables. \<^verbatim>\<open>created_at\<close> is left out: no query reads it. A statement can fail; \<open>flt\<close>
  gives the error of a failing step by name. Columns of type \<^verbatim>\<open>BIGINT\<close> and \<^verbatim>\<open>INT\<close> are integers: the
  driver refuses to encode a value outside the column's range and to scan a negative value into a
  \<^verbatim>\<open>uint64\<close>.

  What is taken from PostgreSQL's documentation, and not from the source: a statement that fails has no
  effect, and a transaction that is not committed has none (\<^verbatim>\<open>defer tx.Rollback\<close> ends it on every
  error path). A failing step is therefore the error with the tables as they were. A connection that
  breaks after the server committed and before the client heard of it, where an error is returned for a
  write that did take effect, is not modelled.
\<close>

section \<open>Tables\<close>

record epoch_row =
  ew_epoch :: int
  ew_network :: string
  ew_slot :: int
  ew_epoch_time :: "gotime option"
  ew_cid :: string
  ew_car_path :: string
  ew_blob_count :: int
  ew_size_bytes :: int

record blob_row =
  bw_commitment :: string
  bw_epoch :: int
  bw_slot :: int
  bw_slot_time :: "gotime option"
  bw_network :: string
  bw_blob_index :: int
  bw_data_cid :: string
  bw_meta_cid :: string
  bw_versioned_hash :: string
  bw_tx_hash :: string
  bw_block_number :: int
  bw_block_hash :: string
  bw_size_bytes :: int

record tables =
  tb_epochs :: "epoch_row list"
  tb_blobs :: "blob_row list"
  tb_state :: "(string \<times> int) list"

definition schema_empty :: tables where
  "schema_empty = \<lparr>tb_epochs = [], tb_blobs = [], tb_state = []\<rparr>"

definition bigint :: "int set" where
  "bigint = {- (2 ^ 63)..<2 ^ 63}"

text \<open>The constraints of the schema: primary keys, the foreign key of the blob table, \<^verbatim>\<open>BIGINT\<close> epochs.\<close>

definition db_wf :: "tables \<Rightarrow> bool" where
  "db_wf t \<longleftrightarrow> distinct (map ew_epoch (tb_epochs t)) \<and> distinct (map bw_commitment (tb_blobs t)) \<and>
     distinct (map fst (tb_state t)) \<and> bw_epoch ` set (tb_blobs t) \<subseteq> ew_epoch ` set (tb_epochs t) \<and>
     ew_epoch ` set (tb_epochs t) \<subseteq> bigint"

type_synonym faults = "string \<Rightarrow> error option"

abbreviation noFaults :: faults where
  "noFaults \<equiv> \<lambda>_. None"

definition fault :: "faults \<Rightarrow> string \<Rightarrow> unit res" where
  "fault flt step = (case flt step of None \<Rightarrow> Inr () | Some e \<Rightarrow> Inl e)"

definition enc_int8 :: "uint64 \<Rightarrow> int res" where
  "enc_int8 w = (if unat w < 2 ^ 63 then Inr (int (unat w)) else Inl (Errorf ''is greater than maximum value for int8''))"

definition enc_int4 :: "goint \<Rightarrow> int res" where
  "enc_int4 w = (if - (2 ^ 31) \<le> sint w \<and> sint w < 2 ^ 31 then Inr (sint w) else Inl (Errorf ''is out of range for int4''))"

definition scan_uint64 :: "int \<Rightarrow> uint64 res" where
  "scan_uint64 i = (if 0 \<le> i then Inr (word_of_int i) else Inl (Errorf ''is less than minimum value for uint64''))"

definition nullTime :: "gotime \<Rightarrow> gotime option" where
  "nullTime t = (if t = zeroTime then None else Some t)"

text \<open>\<^verbatim>\<open>INSERT ... ON CONFLICT (key) DO UPDATE\<close>.\<close>

definition upsert :: "('r \<Rightarrow> 'k) \<Rightarrow> ('r \<Rightarrow> 'r \<Rightarrow> 'r) \<Rightarrow> 'r \<Rightarrow> 'r list \<Rightarrow> 'r list" where
  "upsert key upd new rows =
     (if key new \<in> key ` set rows then map (\<lambda>r. if key r = key new then upd r new else r) rows else rows @ [new])"

section \<open>Write operations\<close>

definition epoch_conflict :: "epoch_row \<Rightarrow> epoch_row \<Rightarrow> epoch_row" where
  "epoch_conflict old excluded =
     old\<lparr>ew_epoch_time := ew_epoch_time excluded, ew_cid := ew_cid excluded, ew_car_path := ew_car_path excluded,
         ew_blob_count := ew_blob_count excluded, ew_size_bytes := ew_size_bytes excluded\<rparr>"

definition SaveEpoch ::
  "ipld_lib \<Rightarrow> faults \<Rightarrow> tables \<Rightarrow> string \<Rightarrow> EpochResult \<Rightarrow> goint \<Rightarrow> gotime \<Rightarrow> unit res \<times> tables" where
  "SaveEpoch lib flt t network result blobCount epochTime =
     (case wrapR (''db: save epoch '' @ FormatUint (er_Epoch result))
             (bindR (enc_int8 (er_Epoch result)) (\<lambda>ep.
              bindR (enc_int8 (er_Epoch result * 32)) (\<lambda>sl.
              bindR (enc_int4 blobCount) (\<lambda>bc.
              bindR (fault flt ''exec'') (\<lambda>_.
                Inr \<lparr>ew_epoch = ep, ew_network = network, ew_slot = sl, ew_epoch_time = nullTime epochTime,
                     ew_cid = cid_String lib (er_CID result), ew_car_path = er_CARPath result,
                     ew_blob_count = bc, ew_size_bytes = sint (er_ApproximateSizeBytes result)\<rparr>))))) of
        Inl e \<Rightarrow> (Inl e, t)
      | Inr row \<Rightarrow> (Inr (), t\<lparr>tb_epochs := upsert ew_epoch epoch_conflict row (tb_epochs t)\<rparr>))"

definition blob_conflict :: "blob_row \<Rightarrow> blob_row \<Rightarrow> blob_row" where
  "blob_conflict old excluded =
     old\<lparr>bw_slot_time := bw_slot_time excluded, bw_data_cid := bw_data_cid excluded, bw_meta_cid := bw_meta_cid excluded,
         bw_versioned_hash := bw_versioned_hash excluded, bw_tx_hash := bw_tx_hash excluded,
         bw_block_number := bw_block_number excluded, bw_block_hash := bw_block_hash excluded\<rparr>"

definition blob_stage_row ::
  "ipld_lib \<Rightarrow> string \<Rightarrow> uint64 \<Rightarrow> gotime \<Rightarrow> uint64 \<Rightarrow> BlobInput \<times> BlobResult \<Rightarrow> blob_row res" where
  "blob_stage_row lib network epoch genesisTime secondsPerSlot = (\<lambda>(inp, r).
     bindR (enc_int4 (bi_Index inp)) (\<lambda>idx.
       Inr \<lparr>bw_commitment = bi_Commitment inp, bw_epoch = sint epoch, bw_slot = sint (bi_Slot inp),
            bw_slot_time = (if genesisTime \<noteq> zeroTime \<and> 0 < secondsPerSlot
                            then Some (time_Add genesisTime (bi_Slot inp * secondsPerSlot * time_Second)) else None),
            bw_network = network, bw_blob_index = idx, bw_data_cid = cid_String lib (br_DataCID r),
            bw_meta_cid = cid_String lib (br_MetaCID r), bw_versioned_hash = bi_VersionedHash inp,
            bw_tx_hash = bi_TxHash inp, bw_block_number = sint (bi_BlockNumber inp), bw_block_hash = bi_BlockHash inp,
            bw_size_bytes = sint (br_SizeBytes r)\<rparr>))"

text \<open>
  \<^verbatim>\<open>SELECT DISTINCT ON (commitment)\<close> keeps one row per commitment, which one is left open by the
  statement; the model keeps the first. No property depends on the choice: they assume pairwise
  different commitments or speak of the commitments and the number of rows only.
\<close>

fun distinct_on :: "('r \<Rightarrow> 'k) \<Rightarrow> 'r list \<Rightarrow> 'r list" where
  "distinct_on key [] = []"
| "distinct_on key (r # rows) = r # distinct_on key (filter (\<lambda>r'. key r' \<noteq> key r) rows)"

definition placeholder_row :: "string \<Rightarrow> uint64 \<Rightarrow> epoch_row" where
  "placeholder_row network epoch =
     \<lparr>ew_epoch = sint epoch, ew_network = network, ew_slot = sint (epoch * 32), ew_epoch_time = None, ew_cid = '''',
      ew_car_path = '''', ew_blob_count = 0, ew_size_bytes = 0\<rparr>"

definition SaveBlobs_tx ::
  "ipld_lib \<Rightarrow> faults \<Rightarrow> tables \<Rightarrow> string \<Rightarrow> uint64 \<Rightarrow> BlobInput list \<Rightarrow> BlobResult list \<Rightarrow> gotime \<Rightarrow> uint64 \<Rightarrow> tables res" where
  "SaveBlobs_tx lib flt t network epoch blobs results genesisTime secondsPerSlot =
     bindR (wrapR ''db: begin tx'' (fault flt ''begin'')) (\<lambda>_.
     bindR (wrapR (''db: ensure epoch row '' @ FormatUint epoch) (fault flt ''ensure'')) (\<lambda>_.
     bindR (wrapR (''db: create stage table epoch '' @ FormatUint epoch) (fault flt ''stage'')) (\<lambda>_.
     bindR (wrapR (''db: copy blobs epoch '' @ FormatUint epoch)
              (bindR (mapR (blob_stage_row lib network epoch genesisTime secondsPerSlot) (zip blobs results))
                 (\<lambda>rows. bindR (fault flt ''copy'') (\<lambda>_. Inr rows)))) (\<lambda>stage.
     bindR (wrapR (''db: upsert blobs epoch '' @ FormatUint epoch) (fault flt ''upsert'')) (\<lambda>_.
     bindR (wrapR (''db: commit blobs tx epoch '' @ FormatUint epoch) (fault flt ''commit'')) (\<lambda>_.
       Inr (t\<lparr>tb_epochs := upsert ew_epoch (\<lambda>old _. old) (placeholder_row network epoch) (tb_epochs t),
              tb_blobs := fold (upsert bw_commitment blob_conflict) (distinct_on bw_commitment stage) (tb_blobs t)\<rparr>)))))))"

definition SaveBlobs ::
  "ipld_lib \<Rightarrow> faults \<Rightarrow> tables \<Rightarrow> string \<Rightarrow> uint64 \<Rightarrow> BlobInput list \<Rightarrow> BlobResult list \<Rightarrow> gotime \<Rightarrow> uint64 \<Rightarrow> unit res \<times> tables" where
  "SaveBlobs lib flt t network epoch blobs results genesisTime secondsPerSlot =
     (if length blobs \<noteq> length results
      then (Inl (Errorf (''db: SaveBlobs: blobs/results length mismatch ('' @ fmt_nat (length blobs) @ '' vs '' @
                         fmt_nat (length results) @ '')'')), t)
      else if blobs = [] then (Inr (), t)
      else case SaveBlobs_tx lib flt t network epoch blobs results genesisTime secondsPerSlot of
             Inl e \<Rightarrow> (Inl e, t)
           | Inr t' \<Rightarrow> (Inr (), t'))"

section \<open>State backend\<close>

definition live_key :: "string \<Rightarrow> string" where
  "live_key network = ''live_'' @ network"

definition backfill_key :: "string \<Rightarrow> string" where
  "backfill_key network = ''backfill_'' @ network"

definition network_epochs :: "tables \<Rightarrow> string \<Rightarrow> epoch_row list" where
  "network_epochs t network = filter (\<lambda>r. ew_network r = network) (tb_epochs t)"

definition sql_max :: "int list \<Rightarrow> int option" where
  "sql_max xs = (if xs = [] then None else Some (foldr max xs (hd xs)))"

definition sql_min :: "int list \<Rightarrow> int option" where
  "sql_min xs = (if xs = [] then None else Some (foldr min xs (hd xs)))"

definition coalesce :: "'a option \<Rightarrow> 'a \<Rightarrow> 'a" where
  "coalesce x d = (case x of None \<Rightarrow> d | Some v \<Rightarrow> v)"

definition DB_GetLastProcessedEpoch :: "faults \<Rightarrow> string \<Rightarrow> tables \<Rightarrow> uint64 res" where
  "DB_GetLastProcessedEpoch flt network t =
     wrapR ''db: get last processed epoch''
       (bindR (fault flt ''query'') (\<lambda>_.
          scan_uint64 (coalesce (map_of (tb_state t) (live_key network))
                         (coalesce (sql_max (map ew_epoch (network_epochs t network))) 0))))"

definition set_cursor :: "string \<Rightarrow> int \<Rightarrow> tables \<Rightarrow> tables" where
  "set_cursor key v t = t\<lparr>tb_state := upsert fst (\<lambda>old new. new) (key, v) (tb_state t)\<rparr>"

definition DB_SetLastProcessedEpoch :: "faults \<Rightarrow> string \<Rightarrow> tables \<Rightarrow> uint64 \<Rightarrow> unit res \<times> tables" where
  "DB_SetLastProcessedEpoch flt network t epoch =
     (case wrapR (''db: set live cursor '' @ FormatUint epoch) (bindR (enc_int8 epoch) (\<lambda>v. bindR (fault flt ''exec'') (\<lambda>_. Inr v))) of
        Inl e \<Rightarrow> (Inl e, t)
      | Inr v \<Rightarrow> (Inr (), set_cursor (live_key network) v t))"

definition DB_GetBackfillCursor :: "faults \<Rightarrow> string \<Rightarrow> tables \<Rightarrow> uint64 res" where
  "DB_GetBackfillCursor flt network t =
     wrapR ''db: get backfill cursor''
       (bindR (fault flt ''query'') (\<lambda>_. scan_uint64 (coalesce (map_of (tb_state t) (backfill_key network)) 0)))"

definition DB_SetBackfillCursor :: "faults \<Rightarrow> string \<Rightarrow> tables \<Rightarrow> uint64 \<Rightarrow> unit res \<times> tables" where
  "DB_SetBackfillCursor flt network t epoch =
     (case wrapR (''db: set backfill cursor '' @ FormatUint epoch) (bindR (enc_int8 epoch) (\<lambda>v. bindR (fault flt ''exec'') (\<lambda>_. Inr v))) of
        Inl e \<Rightarrow> (Inl e, t)
      | Inr v \<Rightarrow> (Inr (), set_cursor (backfill_key network) v t))"

section \<open>Read operations\<close>

definition EpochExists :: "faults \<Rightarrow> tables \<Rightarrow> string \<Rightarrow> uint64 \<Rightarrow> bool res" where
  "EpochExists flt t network epoch =
     wrapR (''db: epoch exists '' @ FormatUint epoch)
       (bindR (enc_int8 epoch) (\<lambda>ep. bindR (fault flt ''query'') (\<lambda>_.
          Inr (\<exists>r \<in> set (tb_epochs t). ew_epoch r = ep \<and> ew_network r = network))))"

record EpochRecord =
  rec_Epoch :: uint64
  rec_CID :: string
  rec_SizeBytes :: int64

definition scan_epoch_record :: "epoch_row \<Rightarrow> EpochRecord res" where
  "scan_epoch_record r =
     wrapR ''db: scan epoch row''
       (bindR (scan_uint64 (ew_epoch r)) (\<lambda>ep.
          Inr \<lparr>rec_Epoch = ep, rec_CID = ew_cid r, rec_SizeBytes = word_of_int (ew_size_bytes r)\<rparr>))"

definition GetAllEpochs :: "faults \<Rightarrow> tables \<Rightarrow> string \<Rightarrow> EpochRecord list res" where
  "GetAllEpochs flt t network =
     bindR (wrapR ''db: get all epochs'' (fault flt ''query''))
       (\<lambda>_. mapR scan_epoch_record (sort_key ew_epoch (network_epochs t network)))"

definition GetMaxEpoch :: "faults \<Rightarrow> tables \<Rightarrow> string \<Rightarrow> uint64 res" where
  "GetMaxEpoch flt t network =
     wrapR ''db: get max epoch''
       (bindR (fault flt ''query'') (\<lambda>_. scan_uint64 (coalesce (sql_max (map ew_epoch (network_epochs t network))) 0)))"

record BlobRecord =
  bd_Commitment :: string
  bd_DataCID :: string
  bd_MetaCID :: string
  bd_BlobIndex :: goint
  bd_Slot :: uint64
  bd_SlotTime :: "gotime option"
  bd_VersionedHash :: string
  bd_TxHash :: string
  bd_BlockNumber :: uint64
  bd_BlockHash :: string
  bd_SizeBytes :: int64

definition scan_blob_record :: "blob_row \<Rightarrow> BlobRecord res" where
  "scan_blob_record r =
     wrapR ''db: scan blob row''
       (bindR (scan_uint64 (bw_slot r)) (\<lambda>slot.
        bindR (scan_uint64 (bw_block_number r)) (\<lambda>bn.
          Inr \<lparr>bd_Commitment = bw_commitment r, bd_DataCID = bw_data_cid r, bd_MetaCID = bw_meta_cid r,
               bd_BlobIndex = word_of_int (bw_blob_index r), bd_Slot = slot, bd_SlotTime = bw_slot_time r,
               bd_VersionedHash = bw_versioned_hash r, bd_TxHash = bw_tx_hash r, bd_BlockNumber = bn,
               bd_BlockHash = bw_block_hash r, bd_SizeBytes = word_of_int (bw_size_bytes r)\<rparr>)))"

definition epoch_blobs :: "tables \<Rightarrow> string \<Rightarrow> int \<Rightarrow> blob_row list" where
  "epoch_blobs t network epoch = filter (\<lambda>r. bw_network r = network \<and> bw_epoch r = epoch) (tb_blobs t)"

definition GetBlobsByEpoch :: "faults \<Rightarrow> tables \<Rightarrow> string \<Rightarrow> uint64 \<Rightarrow> BlobRecord list res" where
  "GetBlobsByEpoch flt t network epoch =
     bindR (wrapR (''db: get blobs epoch '' @ FormatUint epoch) (bindR (enc_int8 epoch) (\<lambda>ep. bindR (fault flt ''query'') (\<lambda>_. Inr ep))))
       (\<lambda>ep. mapR scan_blob_record (sort_key bw_blob_index (epoch_blobs t network ep)))"

record BlobRef =
  rf_VersionedHash :: string
  rf_DataCID :: string
  rf_MetaCID :: string

definition GetBlobRefs :: "faults \<Rightarrow> tables \<Rightarrow> string \<Rightarrow> uint64 \<Rightarrow> uint64 \<Rightarrow> BlobRef list res" where
  "GetBlobRefs flt t network fromEpoch toEpoch =
     wrapR (''db: get blob refs ['' @ FormatUint fromEpoch @ '','' @ FormatUint toEpoch @ '']'')
       (bindR (enc_int8 fromEpoch) (\<lambda>lo. bindR (enc_int8 toEpoch) (\<lambda>hi. bindR (fault flt ''query'') (\<lambda>_.
          Inr (map (\<lambda>r. \<lparr>rf_VersionedHash = bw_versioned_hash r, rf_DataCID = bw_data_cid r, rf_MetaCID = bw_meta_cid r\<rparr>)
                 (sort_key (\<lambda>r. (bw_epoch r, bw_blob_index r))
                    (filter (\<lambda>r. bw_network r = network \<and> lo \<le> bw_epoch r \<and> bw_epoch r \<le> hi) (tb_blobs t))))))))"

definition GetEmptyEpochs :: "faults \<Rightarrow> tables \<Rightarrow> string \<Rightarrow> uint64 list res" where
  "GetEmptyEpochs flt t network =
     bindR (wrapR ''db: get empty epochs'' (fault flt ''query''))
       (\<lambda>_. mapR (\<lambda>r. wrapR ''db: scan empty epoch'' (scan_uint64 (ew_epoch r)))
          (sort_key ew_epoch (filter (\<lambda>e. ew_blob_count e = 0 \<and> epoch_blobs t network (ew_epoch e) = [])
             (network_epochs t network))))"

section \<open>Facts on upserts\<close>

text \<open>The update on conflict keeps the key.\<close>

definition keeps_key :: "('r \<Rightarrow> 'k) \<Rightarrow> ('r \<Rightarrow> 'r \<Rightarrow> 'r) \<Rightarrow> bool" where
  "keeps_key key upd \<longleftrightarrow> (\<forall>old new. key old = key new \<longrightarrow> key (upd old new) = key new)"

lemma upsert_keys:
  assumes "keeps_key key upd"
  shows "map key (upsert key upd new rows) = (if key new \<in> key ` set rows then map key rows else map key rows @ [key new])"
  using assms by (auto simp: upsert_def keeps_key_def)

lemma upsert_key_set:
  assumes "keeps_key key upd"
  shows "key ` set (upsert key upd new rows) = insert (key new) (key ` set rows)"
proof -
  have "set (map key (upsert key upd new rows)) = insert (key new) (set (map key rows))"
    unfolding upsert_keys [OF assms] by auto
  then show ?thesis by simp
qed

lemma upsert_distinct:
  assumes "keeps_key key upd" and "distinct (map key rows)"
  shows "distinct (map key (upsert key upd new rows))"
  using assms(2) by (simp add: upsert_keys [OF assms(1)])

lemma upsert_mem:
  "r \<in> set (upsert key upd new rows) \<longleftrightarrow>
     (if key new \<in> key ` set rows
      then (r \<in> set rows \<and> key r \<noteq> key new) \<or> (\<exists>old \<in> set rows. key old = key new \<and> r = upd old new)
      else r \<in> set rows \<or> r = new)"
  by (auto simp: upsert_def)

lemma upsert_fst: "map_of (upsert fst (\<lambda>old new. new) (k, v) m) = (map_of m)(k \<mapsto> v)"
proof (cases "k \<in> fst ` set m")
  case True
  have "map_of (map (\<lambda>r. if fst r = k then (k, v) else r) m) x = (if x = k then map_option (\<lambda>_. v) (map_of m k) else map_of m x)" for x
    by (induction m) auto
  moreover have "map_of m k \<noteq> None" using True by (simp add: map_of_eq_None_iff)
  ultimately show ?thesis using True by (auto simp: upsert_def fun_eq_iff)
next
  case False
  then have "map_of m k = None" by (simp add: map_of_eq_None_iff)
  then show ?thesis using False by (auto simp: upsert_def fun_eq_iff map_add_def split: option.split)
qed

lemma epoch_conflict_keys [simp]:
  "ew_epoch (epoch_conflict old new) = ew_epoch old" "ew_network (epoch_conflict old new) = ew_network old"
  by (simp_all add: epoch_conflict_def)

lemma blob_conflict_keys [simp]:
  "bw_commitment (blob_conflict old new) = bw_commitment old" "bw_epoch (blob_conflict old new) = bw_epoch old"
  "bw_network (blob_conflict old new) = bw_network old" "bw_blob_index (blob_conflict old new) = bw_blob_index old"
  "bw_slot (blob_conflict old new) = bw_slot old" "bw_size_bytes (blob_conflict old new) = bw_size_bytes old"
  by (simp_all add: blob_conflict_def)

lemma keeps_keys [simp]:
  "keeps_key ew_epoch epoch_conflict" "keeps_key bw_commitment blob_conflict"
  "keeps_key fst (\<lambda>old new. new)" "keeps_key k (\<lambda>old new. old)"
  by (simp_all add: keeps_key_def)

lemma distinct_on_mem: "r \<in> set (distinct_on key rows) \<Longrightarrow> r \<in> set rows"
  by (induction key rows rule: distinct_on.induct) auto

lemma distinct_on_distinct: "distinct (map key (distinct_on key rows))"
  by (induction key rows rule: distinct_on.induct) (auto dest!: distinct_on_mem)

lemma distinct_on_keys: "key ` set (distinct_on key rows) = key ` set rows"
  by (induction key rows rule: distinct_on.induct) (auto simp: image_iff)

lemma distinct_on_id: "distinct (map key rows) \<Longrightarrow> distinct_on key rows = rows"
proof (induction key rows rule: distinct_on.induct)
  case (2 key r rows)
  then have "key r' \<noteq> key r" if "r' \<in> set rows" for r' using that by (auto simp: image_iff)
  then have "filter (\<lambda>r'. key r' \<noteq> key r) rows = rows" by (simp add: filter_True)
  with 2 show ?case by simp
qed simp

lemma fold_upsert_distinct:
  assumes "keeps_key key upd"
  shows "distinct (map key rows) \<Longrightarrow> distinct (map key (fold (upsert key upd) news rows))"
proof (induction news arbitrary: rows)
  case (Cons n news)
  from upsert_distinct [OF assms Cons.prems] Cons.IH show ?case by simp
qed simp

lemma fold_upsert_field:
  assumes "\<And>old new. f (upd old new) = f old"
  shows "f ` set (fold (upsert key upd) news rows) \<subseteq> f ` set news \<union> f ` set rows"
proof (induction news arbitrary: rows)
  case (Cons n news)
  have "f ` set (upsert key upd n rows) \<subseteq> insert (f n) (f ` set rows)"
    using assms by (auto simp: upsert_mem split: if_splits)
  with Cons.IH [of "upsert key upd n rows"] show ?case by auto
qed simp

section \<open>Every write keeps the constraints\<close>

lemma enc_int8_range: "enc_int8 w = Inr v \<Longrightarrow> v \<in> bigint"
proof -
  assume "enc_int8 w = Inr v"
  then have "unat w < 2 ^ 63" "v = int (unat w)" by (auto simp: enc_int8_def split: if_splits)
  then have "int (unat w) < int (2 ^ 63)" by (simp only: of_nat_less_iff)
  with \<open>v = int (unat w)\<close> show ?thesis by (auto simp: bigint_def intro: order_trans [OF _ uint_ge_0])
qed

lemma sint_range: "sint (w :: uint64) \<in> bigint"
  using sint_lt [of w] sint_ge [of w] by (simp add: bigint_def)

lemma SaveEpoch_wf: "db_wf t \<Longrightarrow> db_wf (snd (SaveEpoch lib flt t network result n time))"
  using enc_int8_range [of "er_Epoch result"]
  by (auto simp: SaveEpoch_def db_wf_def upsert_key_set upsert_distinct bindR_eq_Inr split: sum.splits)

lemma blob_stage_row_fields:
  assumes "blob_stage_row lib network epoch g sps p = Inr r"
  shows "bw_commitment r = bi_Commitment (fst p) \<and> bw_epoch r = sint epoch \<and> bw_network r = network"
  using assms by (cases p) (auto simp: blob_stage_row_def bindR_eq_Inr)

lemma SaveBlobs_tx_wf:
  assumes "db_wf t" and "SaveBlobs_tx lib flt t network epoch blobs results g sps = Inr t'"
  shows "db_wf t'"
proof -
  from assms(2) obtain stage where stage: "mapR (blob_stage_row lib network epoch g sps) (zip blobs results) = Inr stage"
    and t': "t' = t\<lparr>tb_epochs := upsert ew_epoch (\<lambda>old _. old) (placeholder_row network epoch) (tb_epochs t),
              tb_blobs := fold (upsert bw_commitment blob_conflict) (distinct_on bw_commitment stage) (tb_blobs t)\<rparr>"
    by (auto simp: SaveBlobs_tx_def bindR_eq_Inr)
  have ep: "bw_epoch ` set (distinct_on bw_commitment stage) \<subseteq> {sint epoch}"
    using mapR_in_set [OF stage] distinct_on_mem blob_stage_row_fields by fastforce
  have "bw_epoch ` set (tb_blobs t') \<subseteq> insert (sint epoch) (bw_epoch ` set (tb_blobs t))"
    using fold_upsert_field [of bw_epoch blob_conflict bw_commitment "distinct_on bw_commitment stage" "tb_blobs t"] ep
    by (auto simp: t')
  moreover have "ew_epoch ` set (tb_epochs t') = insert (sint epoch) (ew_epoch ` set (tb_epochs t))"
    by (simp add: t' upsert_key_set placeholder_row_def)
  moreover have "distinct (map ew_epoch (tb_epochs t'))" "distinct (map bw_commitment (tb_blobs t'))" "tb_state t' = tb_state t"
    using assms(1) by (simp_all add: db_wf_def t' upsert_distinct fold_upsert_distinct)
  ultimately show ?thesis using assms(1) sint_range [of epoch] unfolding db_wf_def by (metis (no_types, lifting) insert_mono insert_subset order_trans)
qed

lemma SaveBlobs_wf: "db_wf t \<Longrightarrow> db_wf (snd (SaveBlobs lib flt t network epoch blobs results g sps))"
  using SaveBlobs_tx_wf by (auto simp: SaveBlobs_def split: sum.splits)

lemma set_cursor_wf: "db_wf t \<Longrightarrow> db_wf (set_cursor key v t)"
  by (simp add: db_wf_def set_cursor_def upsert_distinct)

section \<open>The database as a state backend\<close>

definition cursor_inv :: "tables \<Rightarrow> bool" where
  "cursor_inv t \<longleftrightarrow> db_wf t \<and> (\<forall>(k, v) \<in> set (tb_state t). 0 \<le> v) \<and> (\<forall>r \<in> set (tb_epochs t). 0 \<le> ew_epoch r)"

definition db_durable :: "string \<Rightarrow> tables \<Rightarrow> (uint64 \<times> uint64) option" where
  "db_durable network t =
     (case (DB_GetLastProcessedEpoch noFaults network t, DB_GetBackfillCursor noFaults network t) of
        (Inr l, Inr b) \<Rightarrow> Some (l, b) | _ \<Rightarrow> None)"

lemma keys_differ [simp]:
  "live_key a \<noteq> backfill_key b" "backfill_key b \<noteq> live_key a"
  "live_key a = live_key b \<longleftrightarrow> a = b" "backfill_key a = backfill_key b \<longleftrightarrow> a = b"
  by (auto simp: live_key_def backfill_key_def)

lemma set_cursor_state [simp]:
  "map_of (tb_state (set_cursor k v t)) = (map_of (tb_state t))(k \<mapsto> v)"
  "tb_epochs (set_cursor k v t) = tb_epochs t" "tb_blobs (set_cursor k v t) = tb_blobs t"
  "network_epochs (set_cursor k v t) n = network_epochs t n"
  by (simp_all add: set_cursor_def upsert_fst network_epochs_def)

lemma cursor_inv_set:
  assumes "cursor_inv t" "0 \<le> v"
  shows "cursor_inv (set_cursor k v t)"
proof -
  have "0 \<le> snd x" if "x \<in> set (tb_state (set_cursor k v t))" for x
    using that assms by (auto simp: set_cursor_def cursor_inv_def upsert_mem split: if_splits)
  then show ?thesis using assms(1) by (auto simp: cursor_inv_def set_cursor_wf)
qed

lemma sql_max_in: "sql_max xs = Some m \<Longrightarrow> m \<in> set xs"
proof -
  have "foldr max xs a \<in> insert a (set xs)" for a :: int
    by (induction xs) (auto simp: max_def)
  then show "sql_max xs = Some m \<Longrightarrow> m \<in> set xs" by (cases xs) (fastforce simp: sql_max_def)+
qed

lemma cursor_inv_scan:
  assumes "cursor_inv t"
  shows "isOk (DB_GetLastProcessedEpoch noFaults network t)" "isOk (DB_GetBackfillCursor noFaults network t)"
proof -
  have st: "0 \<le> v" if "map_of (tb_state t) k = Some v" for k v
    using assms map_of_SomeD [OF that] by (auto simp: cursor_inv_def)
  have ep: "0 \<le> m" if "sql_max (map ew_epoch (network_epochs t network)) = Some m" for m
    using sql_max_in [OF that] assms by (auto simp: cursor_inv_def network_epochs_def)
  have "0 \<le> coalesce (map_of (tb_state t) (live_key network)) (coalesce (sql_max (map ew_epoch (network_epochs t network))) 0)"
    using st ep by (auto simp: coalesce_def split: option.split)
  then show "isOk (DB_GetLastProcessedEpoch noFaults network t)"
    by (simp add: DB_GetLastProcessedEpoch_def fault_def scan_uint64_def)
  have "0 \<le> coalesce (map_of (tb_state t) (backfill_key network)) 0"
    using st by (auto simp: coalesce_def split: option.split)
  then show "isOk (DB_GetBackfillCursor noFaults network t)"
    by (simp add: DB_GetBackfillCursor_def fault_def scan_uint64_def)
qed

lemma enc_scan: "enc_int8 w = Inr v \<Longrightarrow> 0 \<le> v \<and> scan_uint64 v = Inr w"
  by (auto simp: enc_int8_def scan_uint64_def split: if_splits)

lemma DB_SetLast_cases:
  "DB_SetLastProcessedEpoch flt network t e = (r, t') \<Longrightarrow>
   (\<exists>err. r = Inl err \<and> t' = t) \<or> (\<exists>v. r = Inr () \<and> enc_int8 e = Inr v \<and> t' = set_cursor (live_key network) v t)"
  by (auto simp: DB_SetLastProcessedEpoch_def wrapR_eq_Inr bindR_eq_Inr split: sum.splits)

lemma DB_SetBackfill_cases:
  "DB_SetBackfillCursor flt network t e = (r, t') \<Longrightarrow>
   (\<exists>err. r = Inl err \<and> t' = t) \<or> (\<exists>v. r = Inr () \<and> enc_int8 e = Inr v \<and> t' = set_cursor (backfill_key network) v t)"
  by (auto simp: DB_SetBackfillCursor_def wrapR_eq_Inr bindR_eq_Inr split: sum.splits)

lemma get_after_set:
  "DB_GetLastProcessedEpoch noFaults network (set_cursor (live_key network) v t) = wrapR ''db: get last processed epoch'' (scan_uint64 v)"
  "DB_GetBackfillCursor noFaults network (set_cursor (live_key n) v t) = DB_GetBackfillCursor noFaults network t"
  "DB_GetBackfillCursor noFaults network (set_cursor (backfill_key network) v t) = wrapR ''db: get backfill cursor'' (scan_uint64 v)"
  "DB_GetLastProcessedEpoch noFaults network (set_cursor (backfill_key n) v t) = DB_GetLastProcessedEpoch noFaults network t"
  by (simp_all add: DB_GetLastProcessedEpoch_def DB_GetBackfillCursor_def fault_def coalesce_def)

interpretation db_state: state_backend "DB_GetLastProcessedEpoch noFaults network" "DB_SetLastProcessedEpoch flt network"
  "DB_GetBackfillCursor noFaults network" "DB_SetBackfillCursor flt network" "db_durable network" cursor_inv
  for network :: string and flt :: faults
proof unfold_locales
  fix s s' :: tables and e l :: uint64 and err
  assume inv: "cursor_inv s"
  note scans = cursor_inv_scan [OF inv, of network, unfolded isOk_iff]
  show "cursor_inv (snd (DB_SetLastProcessedEpoch flt network s e))"
    using DB_SetLast_cases [of flt network s e] cursor_inv_set [OF inv] enc_scan inv
    by (metis prod.collapse)
  show "cursor_inv (snd (DB_SetBackfillCursor flt network s e))"
    using DB_SetBackfill_cases [of flt network s e] cursor_inv_set [OF inv] enc_scan inv
    by (metis prod.collapse)
  show "DB_SetLastProcessedEpoch flt network s e = (Inr (), s') \<Longrightarrow>
      DB_GetLastProcessedEpoch noFaults network s' = Inr e \<and> DB_GetBackfillCursor noFaults network s' = DB_GetBackfillCursor noFaults network s"
    by (drule DB_SetLast_cases) (auto simp: get_after_set dest: enc_scan)
  show "DB_SetBackfillCursor flt network s e = (Inr (), s') \<Longrightarrow> DB_GetBackfillCursor noFaults network s' = Inr e"
    "DB_SetBackfillCursor flt network s e = (Inr (), s') \<Longrightarrow> DB_GetLastProcessedEpoch noFaults network s = Inr l \<Longrightarrow>
      DB_GetLastProcessedEpoch noFaults network s' = Inr l"
    by (drule DB_SetBackfill_cases, auto simp: get_after_set dest: enc_scan)+
  show "DB_SetLastProcessedEpoch flt network s e = (Inr (), s') \<Longrightarrow> map_option fst (db_durable network s') = Some e"
    by (drule DB_SetLast_cases) (use scans(2) in \<open>auto simp: db_durable_def get_after_set dest: enc_scan\<close>)
  show "DB_SetBackfillCursor flt network s e = (Inr (), s') \<Longrightarrow> map_option snd (db_durable network s') = Some e"
    by (drule DB_SetBackfill_cases) (use scans(1) in \<open>auto simp: db_durable_def get_after_set dest: enc_scan\<close>)
  show "DB_SetLastProcessedEpoch flt network s e = (Inl err, s') \<Longrightarrow> db_durable network s' = db_durable network s"
    by (drule DB_SetLast_cases) auto
  show "DB_SetBackfillCursor flt network s e = (Inl err, s') \<Longrightarrow> db_durable network s' = db_durable network s"
    by (drule DB_SetBackfill_cases) auto
qed

section \<open>Properties\<close>

lemma SaveEpoch_ok:
  assumes "SaveEpoch lib flt t network result n time = (Inr (), t')"
  shows "\<exists>sl. er_Epoch result < 2 ^ 63 \<and>
    t' = t\<lparr>tb_epochs := upsert ew_epoch epoch_conflict
       \<lparr>ew_epoch = int (unat (er_Epoch result)), ew_network = network, ew_slot = sl, ew_epoch_time = nullTime time,
        ew_cid = cid_String lib (er_CID result), ew_car_path = er_CARPath result,
        ew_blob_count = sint n, ew_size_bytes = sint (er_ApproximateSizeBytes result)\<rparr> (tb_epochs t)\<rparr>"
  using assms by (auto simp: SaveEpoch_def bindR_eq_Inr enc_int8_def enc_int4_def word_less_nat_alt split: sum.splits if_splits)

lemma SaveEpoch_upsert:
  assumes "SaveEpoch lib flt t network result n time = (Inr (), t')"
  shows "er_Epoch result < 2 ^ 63 \<and>
    (\<exists>new. tb_epochs t' = upsert ew_epoch epoch_conflict new (tb_epochs t) \<and> ew_epoch new = int (unat (er_Epoch result)) \<and>
       ew_network new = network \<and> ew_cid new = cid_String lib (er_CID result) \<and>
       ew_size_bytes new = sint (er_ApproximateSizeBytes result) \<and> ew_blob_count new = sint n) \<and> tb_blobs t' = tb_blobs t"
  using SaveEpoch_ok [OF assms] by fastforce

lemma GetAllEpochs_records:
  assumes "GetAllEpochs flt t network = Inr recs"
  shows "recs = map (\<lambda>r. \<lparr>rec_Epoch = word_of_int (ew_epoch r), rec_CID = ew_cid r, rec_SizeBytes = word_of_int (ew_size_bytes r)\<rparr>)
           (sort_key ew_epoch (network_epochs t network)) \<and> (\<forall>r \<in> set (network_epochs t network). 0 \<le> ew_epoch r)"
proof -
  let ?f = "\<lambda>r. \<lparr>rec_Epoch = word_of_int (ew_epoch r), rec_CID = ew_cid r, rec_SizeBytes = word_of_int (ew_size_bytes r)\<rparr>"
  from assms have "list_all2 (\<lambda>r y. scan_epoch_record r = Inr y) (sort_key ew_epoch (network_epochs t network)) recs"
    by (simp add: GetAllEpochs_def bindR_eq_Inr mapR_eq_Inr)
  then have *: "list_all2 (\<lambda>r y. 0 \<le> ew_epoch r \<and> y = ?f r) (sort_key ew_epoch (network_epochs t network)) recs"
    by (rule list_all2_mono) (auto simp: scan_epoch_record_def bindR_eq_Inr scan_uint64_def split: if_splits)
  then have "recs = map ?f (sort_key ew_epoch (network_epochs t network))"
    by (induction rule: list_all2_induct) auto
  moreover have "\<forall>r \<in> set (sort_key ew_epoch (network_epochs t network)). 0 \<le> ew_epoch r"
    using * by (induction rule: list_all2_induct) auto
  ultimately show ?thesis by simp
qed

lemma filter_key_unique: "distinct (map k xs) \<Longrightarrow> x \<in> set xs \<Longrightarrow> filter (\<lambda>y. k y = k x) xs = [x]"
proof (induction xs)
  case (Cons y ys)
  show ?case
  proof (cases "x = y")
    case True
    have "filter (\<lambda>z. k z = k x) ys = []" using Cons.prems(1) True by (auto simp: filter_empty_conv image_iff)
    with True show ?thesis by simp
  next
    case False
    with Cons show ?thesis by auto
  qed
qed simp

lemma unat_word_of_int: "0 \<le> i \<Longrightarrow> i \<in> bigint \<Longrightarrow> unat (word_of_int i :: uint64) = nat i"
  by (auto simp: bigint_def unsigned_of_int take_bit_eq_mod nat_eq_iff)

lemma SaveEpoch_row:
  assumes "SaveEpoch lib flt t network result n time = (Inr (), t')"
    and "\<forall>r \<in> set (tb_epochs t). ew_epoch r = int (unat (er_Epoch result)) \<longrightarrow> ew_network r = network"
  shows "\<exists>r \<in> set (network_epochs t' network). ew_epoch r = int (unat (er_Epoch result)) \<and>
    ew_cid r = cid_String lib (er_CID result) \<and> ew_size_bytes r = sint (er_ApproximateSizeBytes result)"
proof -
  let ?E = "int (unat (er_Epoch result))"
  obtain new where
    new: "ew_epoch new = ?E" "ew_network new = network" "ew_cid new = cid_String lib (er_CID result)"
      "ew_size_bytes new = sint (er_ApproximateSizeBytes result)"
    and t': "tb_epochs t' = upsert ew_epoch epoch_conflict new (tb_epochs t)" by (metis SaveEpoch_upsert [OF assms(1)])
  show ?thesis
  proof (cases "?E \<in> ew_epoch ` set (tb_epochs t)")
    case True
    then obtain old where old: "old \<in> set (tb_epochs t)" "ew_epoch old = ?E" by auto
    have "epoch_conflict old new \<in> set (tb_epochs t')"
      unfolding t' upsert_mem using True old new(1) by auto
    moreover have "ew_network old = network" using assms(2) old by auto
    ultimately show ?thesis
      using new old(2) by (intro bexI [of _ "epoch_conflict old new"]) (simp_all add: network_epochs_def, simp_all add: epoch_conflict_def)
  next
    case False
    then have "new \<in> set (tb_epochs t')" unfolding t' upsert_mem using new(1) by auto
    with new show ?thesis by (intro bexI [of _ new]) (simp_all add: network_epochs_def)
  qed
qed

text \<open>
  A saved epoch is read back: when no row of that epoch belongs to another network, the epoch exists
  for the network afterwards, the epochs of the network are listed in increasing order, and the record of
  the epoch is the only one with its number and carries the CID and size that were saved.
\<close>

theorem SaveEpoch_readback:
  assumes "db_wf t" and "SaveEpoch lib flt t network result n time = (Inr (), t')"
    and "\<forall>r \<in> set (tb_epochs t). ew_epoch r = int (unat (er_Epoch result)) \<longrightarrow> ew_network r = network"
    and "GetAllEpochs noFaults t' network = Inr recs"
  shows "EpochExists noFaults t' network (er_Epoch result) = Inr True \<and>
    sorted (map (unat \<circ> rec_Epoch) recs) \<and>
    filter (\<lambda>r. rec_Epoch r = er_Epoch result) recs =
      [\<lparr>rec_Epoch = er_Epoch result, rec_CID = cid_String lib (er_CID result), rec_SizeBytes = er_ApproximateSizeBytes result\<rparr>]"
proof -
  let ?E = "int (unat (er_Epoch result))" and ?rows = "sort_key ew_epoch (network_epochs t' network)"
  let ?f = "\<lambda>r. \<lparr>rec_Epoch = word_of_int (ew_epoch r), rec_CID = ew_cid r, rec_SizeBytes = word_of_int (ew_size_bytes r)\<rparr> :: EpochRecord"
  have wf': "db_wf t'" using SaveEpoch_wf [OF assms(1), of lib flt network result n time] assms(2) by simp
  have recs: "recs = map ?f ?rows" and pos: "\<forall>r \<in> set (network_epochs t' network). 0 \<le> ew_epoch r"
    using GetAllEpochs_records [OF assms(4)] by auto
  have u: "unat (word_of_int (ew_epoch r) :: uint64) = nat (ew_epoch r)" if "r \<in> set ?rows" for r
    using that pos wf' by (intro unat_word_of_int) (auto simp: db_wf_def network_epochs_def)
  obtain row where row: "row \<in> set ?rows" "ew_epoch row = ?E" "ew_cid row = cid_String lib (er_CID result)"
    "ew_size_bytes row = sint (er_ApproximateSizeBytes result)"
    using SaveEpoch_row [OF assms(2,3)] by auto
  have d: "distinct (map ew_epoch ?rows)"
    using wf' by (simp add: db_wf_def network_epochs_def distinct_map_filter)
  have eq: "(word_of_int (ew_epoch r) :: uint64) = er_Epoch result \<longleftrightarrow> ew_epoch r = ?E" if "r \<in> set ?rows" for r
  proof -
    have "0 \<le> ew_epoch r" using pos that by simp
    then have "ew_epoch r = ?E \<longleftrightarrow> nat (ew_epoch r) = unat (er_Epoch result)" by linarith
    then show ?thesis using u [OF that] by (metis word_unat_eq_iff)
  qed
  have "filter (\<lambda>r. rec_Epoch r = er_Epoch result) recs = map ?f (filter (\<lambda>r. ew_epoch r = ew_epoch row) ?rows)"
    unfolding recs filter_map comp_def row(2) EpochRecord.select_convs by (rule arg_cong [where f = "map ?f"]) (rule filter_cong [OF refl eq])
  also have "\<dots> = [\<lparr>rec_Epoch = er_Epoch result, rec_CID = cid_String lib (er_CID result), rec_SizeBytes = er_ApproximateSizeBytes result\<rparr>]"
    unfolding filter_key_unique [OF d row(1)] using row by simp
  finally have flt: "filter (\<lambda>r. rec_Epoch r = er_Epoch result) recs = \<dots>" .
  have "map (unat \<circ> rec_Epoch) recs = map (\<lambda>r. nat (ew_epoch r)) ?rows" using u by (simp add: recs)
  moreover have "sorted (map (\<lambda>r. nat (ew_epoch r)) ?rows)"
    by (rule sorted_map_mono) (simp_all add: monoI nat_mono)
  moreover have "er_Epoch result < 2 ^ 63" using SaveEpoch_ok [OF assms(2)] by auto
  then have "EpochExists noFaults t' network (er_Epoch result) = Inr True"
    using row by (auto simp: EpochExists_def enc_int8_def fault_def network_epochs_def word_less_nat_alt)
  ultimately show ?thesis using flt by simp
qed

definition demo_epoch7 :: EpochResult where
  "demo_epoch7 = \<lparr>er_Epoch = 7, er_CID = Undef, er_CARPath = '''', er_ApproximateSizeBytes = 131072\<rparr>"

lemma demo_save:
  "SaveEpoch demo_lib noFaults schema_empty ''mainnet'' demo_epoch7 1 0 =
     (Inr (), schema_empty\<lparr>tb_epochs := [\<lparr>ew_epoch = 7, ew_network = ''mainnet'', ew_slot = 224, ew_epoch_time = None,
        ew_cid = ''cid'', ew_car_path = '''', ew_blob_count = 1, ew_size_bytes = 131072\<rparr>]\<rparr>)"
  by (simp add: SaveEpoch_def demo_epoch7_def enc_int8_def enc_int4_def fault_def nullTime_def upsert_def schema_empty_def demo_lib_def)

theorem SaveEpoch_readback_witness:
  "EpochExists noFaults (snd (SaveEpoch demo_lib noFaults schema_empty ''mainnet'' demo_epoch7 1 0)) ''mainnet'' 7 = Inr True"
proof -
  let ?t = "schema_empty\<lparr>tb_epochs := [\<lparr>ew_epoch = 7, ew_network = ''mainnet'', ew_slot = 224, ew_epoch_time = None,
        ew_cid = ''cid'', ew_car_path = '''', ew_blob_count = 1, ew_size_bytes = 131072\<rparr>]\<rparr>"
  have wf: "db_wf schema_empty" by (simp add: db_wf_def schema_empty_def)
  have other: "\<forall>r \<in> set (tb_epochs schema_empty). ew_epoch r = int (unat (er_Epoch demo_epoch7)) \<longrightarrow> ew_network r = ''mainnet''"
    by (simp add: schema_empty_def)
  have "GetAllEpochs noFaults ?t ''mainnet'' = Inr [\<lparr>rec_Epoch = 7, rec_CID = ''cid'', rec_SizeBytes = 131072\<rparr>]"
    by (simp add: GetAllEpochs_def network_epochs_def scan_epoch_record_def scan_uint64_def fault_def schema_empty_def)
  from SaveEpoch_readback [OF wf demo_save other this, THEN conjunct1] show ?thesis
    unfolding demo_save by (simp add: demo_epoch7_def)
qed

text \<open>
  C34. Two networks in one database share the epoch key: when the row of an epoch belongs to another
  network, saving the epoch overwrites that network's CID, and the saving network still does not have the
  epoch; the network column is never updated.
\<close>

theorem SaveEpoch_other_network:
  assumes "db_wf t" and "SaveEpoch lib flt t network result n time = (Inr (), t')"
    and "old \<in> set (tb_epochs t)" "ew_epoch old = int (unat (er_Epoch result))" "ew_network old \<noteq> network"
  shows "EpochExists noFaults t' network (er_Epoch result) = Inr False \<and>
    (\<exists>r \<in> set (network_epochs t' (ew_network old)). ew_epoch r = ew_epoch old \<and> ew_cid r = cid_String lib (er_CID result))"
proof -
  from SaveEpoch_upsert [OF assms(2)] obtain new where new: "ew_epoch new = ew_epoch old" "ew_cid new = cid_String lib (er_CID result)"
    and t': "tb_epochs t' = upsert ew_epoch epoch_conflict new (tb_epochs t)" and lt: "er_Epoch result < 2 ^ 63"
    using assms(4) by metis
  have uniq: "r = old" if "r \<in> set (tb_epochs t)" "ew_epoch r = ew_epoch old" for r
  proof -
    have "inj_on ew_epoch (set (tb_epochs t))" using assms(1) by (simp add: db_wf_def distinct_map)
    from inj_onD [OF this that(2) that(1) assms(3)] show ?thesis .
  qed
  have mem: "r \<in> set (tb_epochs t') \<longleftrightarrow> (r \<in> set (tb_epochs t) \<and> ew_epoch r \<noteq> ew_epoch old) \<or> r = epoch_conflict old new" for r
  proof -
    have "ew_epoch new \<in> ew_epoch ` set (tb_epochs t)" using new(1) assms(3) by simp
    then show ?thesis unfolding t' upsert_mem new(1) using uniq assms(3) by auto
  qed
  have "EpochExists noFaults t' network (er_Epoch result) = Inr False"
    using lt assms(4,5) by (auto simp: EpochExists_def enc_int8_def fault_def mem word_less_nat_alt)
  moreover have "epoch_conflict old new \<in> set (network_epochs t' (ew_network old))"
    by (simp add: network_epochs_def mem)
  moreover have "ew_cid (epoch_conflict old new) = cid_String lib (er_CID result)" using new(2) by (simp add: epoch_conflict_def)
  ultimately show ?thesis by (metis epoch_conflict_keys(1))
qed

theorem SaveEpoch_other_network_witness:
  "\<exists>t. EpochExists noFaults t ''gnosis'' 7 = Inr False \<and> db_wf t"
proof -
  let ?old = "\<lparr>ew_epoch = 7, ew_network = ''mainnet'', ew_slot = 224, ew_epoch_time = None,
        ew_cid = ''cid'', ew_car_path = '''', ew_blob_count = 1, ew_size_bytes = 131072\<rparr>"
  let ?t = "schema_empty\<lparr>tb_epochs := [?old]\<rparr>"
  have wf: "db_wf ?t" by (simp add: db_wf_def schema_empty_def bigint_def)
  have save: "SaveEpoch demo_lib noFaults ?t ''gnosis'' demo_epoch7 2 0 = (Inr (), schema_empty\<lparr>tb_epochs := [?old\<lparr>ew_blob_count := 2\<rparr>]\<rparr>)"
    by (simp add: SaveEpoch_def demo_epoch7_def enc_int8_def enc_int4_def fault_def nullTime_def upsert_def epoch_conflict_def demo_lib_def)
  have "?old \<in> set (tb_epochs ?t)" "ew_epoch ?old = int (unat (er_Epoch demo_epoch7))" "ew_network ?old \<noteq> ''gnosis''"
    by (simp_all add: demo_epoch7_def)
  from SaveEpoch_other_network [OF wf save this] SaveEpoch_wf [OF wf, of demo_lib noFaults "''gnosis''" demo_epoch7 2 0]
  show ?thesis unfolding save by (auto simp: demo_epoch7_def)
qed

section \<open>Stored blobs\<close>

lemma SaveBlobs_ok:
  assumes "SaveBlobs lib flt t network epoch blobs results g sps = (Inr (), t')" "blobs \<noteq> []"
  shows "length blobs = length results \<and> (\<exists>stage.
     mapR (blob_stage_row lib network epoch g sps) (zip blobs results) = Inr stage \<and>
     map bw_commitment stage = map bi_Commitment blobs \<and> (\<forall>r \<in> set stage. bw_epoch r = sint epoch \<and> bw_network r = network) \<and>
     tb_blobs t' = fold (upsert bw_commitment blob_conflict) (distinct_on bw_commitment stage) (tb_blobs t) \<and>
     tb_epochs t' = upsert ew_epoch (\<lambda>old _. old) (placeholder_row network epoch) (tb_epochs t))"
proof -
  have len: "length blobs = length results" using assms(1) by (auto simp: SaveBlobs_def split: if_splits)
  then obtain stage where stage: "mapR (blob_stage_row lib network epoch g sps) (zip blobs results) = Inr stage"
    and t': "t' = t\<lparr>tb_epochs := upsert ew_epoch (\<lambda>old _. old) (placeholder_row network epoch) (tb_epochs t),
              tb_blobs := fold (upsert bw_commitment blob_conflict) (distinct_on bw_commitment stage) (tb_blobs t)\<rparr>"
    using assms by (auto simp: SaveBlobs_def SaveBlobs_tx_def bindR_eq_Inr split: sum.splits if_splits)
  have "list_all2 (\<lambda>p r. bw_commitment r = bi_Commitment (fst p)) (zip blobs results) stage"
    using stage unfolding mapR_eq_Inr by (rule list_all2_mono) (auto dest: blob_stage_row_fields)
  then have "map bw_commitment stage = map (\<lambda>p. bi_Commitment (fst p)) (zip blobs results)"
    by (induction rule: list_all2_induct) auto
  also have "\<dots> = map bi_Commitment (map fst (zip blobs results))" by simp
  also have "\<dots> = map bi_Commitment blobs" by (simp only: map_fst_zip [OF len])
  finally have cm: "map bw_commitment stage = map bi_Commitment blobs" .
  have ep: "\<forall>r \<in> set stage. bw_epoch r = sint epoch \<and> bw_network r = network"
  proof
    fix r assume "r \<in> set stage"
    from mapR_in_set [OF stage this] obtain p where "blob_stage_row lib network epoch g sps p = Inr r" by blast
    from blob_stage_row_fields [OF this] show "bw_epoch r = sint epoch \<and> bw_network r = network" by blast
  qed
  show ?thesis by (intro conjI exI [of _ stage]) (use len stage cm ep t' in \<open>simp_all\<close>)
qed

lemma fold_upsert_fresh:
  assumes "distinct (map key news)" "key ` set news \<inter> key ` set rows = {}"
  shows "fold (upsert key upd) news rows = rows @ news"
  using assms
proof (induction news arbitrary: rows)
  case (Cons n news)
  have "upsert key upd n rows = rows @ [n]" using Cons.prems(2) by (auto simp: upsert_def)
  moreover have "key ` set news \<inter> key ` set (rows @ [n]) = {}" using Cons.prems by auto
  ultimately show ?case using Cons.IH [of "rows @ [n]"] Cons.prems(1) by simp
qed simp

text \<open>What a stored blob reads back as.\<close>

definition stored_record :: "ipld_lib \<Rightarrow> gotime \<Rightarrow> uint64 \<Rightarrow> BlobInput \<times> BlobResult \<Rightarrow> BlobRecord" where
  "stored_record lib g sps = (\<lambda>(inp, r).
     \<lparr>bd_Commitment = bi_Commitment inp, bd_DataCID = cid_String lib (br_DataCID r), bd_MetaCID = cid_String lib (br_MetaCID r),
      bd_BlobIndex = bi_Index inp, bd_Slot = bi_Slot inp,
      bd_SlotTime = (if g \<noteq> zeroTime \<and> 0 < sps then Some (time_Add g (bi_Slot inp * sps * time_Second)) else None),
      bd_VersionedHash = bi_VersionedHash inp, bd_TxHash = bi_TxHash inp, bd_BlockNumber = bi_BlockNumber inp,
      bd_BlockHash = bi_BlockHash inp, bd_SizeBytes = br_SizeBytes r\<rparr>)"

lemma scan_sint: "unat w < 2 ^ 63 \<Longrightarrow> scan_uint64 (sint w) = Inr w"
  by (simp add: scan_uint64_def sint_eq_unat)

lemma scan_stage_row:
  assumes "blob_stage_row lib network epoch g sps p = Inr r"
    and "unat (bi_Slot (fst p)) < 2 ^ 63" "unat (bi_BlockNumber (fst p)) < 2 ^ 63"
  shows "scan_blob_record r = Inr (stored_record lib g sps p) \<and> bw_blob_index r = sint (bi_Index (fst p))"
  using assms
  by (cases p) (auto simp: blob_stage_row_def stored_record_def scan_blob_record_def bindR_eq_Inr scan_sint enc_int4_def split: if_splits)

lemma list_all2_in_set: "list_all2 P xs ys \<Longrightarrow> list_all2 (\<lambda>x y. x \<in> set xs \<and> P x y) xs ys"
  by (induction rule: list_all2_induct) (auto elim: list_all2_mono)

lemma map_sort_key_comm:
  "(\<And>x. x \<in> set xs \<Longrightarrow> key x = key' (h x)) \<Longrightarrow> map h (sort_key key xs) = sort_key key' (map h xs)"
proof (induction xs)
  case (Cons x xs)
  have ins: "map h (insort_key key x ys) = insort_key key' (h x) (map h ys)" if "set ys \<subseteq> set (x # xs)" for ys
    using that Cons.prems by (induction ys) auto
  from Cons have "map h (sort_key key xs) = sort_key key' (map h xs)" by simp
  moreover have "map h (insort_key key x (sort_key key xs)) = insort_key key' (h x) (map h (sort_key key xs))"
    by (rule ins) auto
  ultimately show ?case by simp
qed simp

lemma mapR_sort_key:
  assumes "list_all2 (\<lambda>p r. f r = Inr (g p) \<and> key r = key' (g p)) ps rows"
  shows "mapR f (sort_key key rows) = Inr (sort_key key' (map g ps))"
proof -
  from assms have ok: "f r = Inr (projr (f r)) \<and> key r = key' (projr (f r))" if "r \<in> set rows" for r
    using that by (induction rule: list_all2_induct) auto
  have "mapR f (sort_key key rows) = Inr (map (\<lambda>r. projr (f r)) (sort_key key rows))"
    by (rule mapR_total) (use ok in auto)
  also have "map (\<lambda>r. projr (f r)) (sort_key key rows) = sort_key key' (map (\<lambda>r. projr (f r)) rows)"
    by (rule map_sort_key_comm) (use ok in blast)
  also have "map (\<lambda>r. projr (f r)) rows = map g ps" using assms by (induction rule: list_all2_induct) auto
  finally show ?thesis .
qed

lemma SaveBlobs_stored:
  assumes "SaveBlobs lib flt t network epoch blobs results g sps = (Inr (), t')" and "blobs \<noteq> []"
    and "distinct (map bi_Commitment blobs)"
    and "bi_Commitment ` set blobs \<inter> bw_commitment ` set (tb_blobs t) = {}"
    and "epoch_blobs t network (sint epoch) = []" and "unat epoch < 2 ^ 63"
    and "\<forall>inp \<in> set blobs. unat (bi_Slot inp) < 2 ^ 63 \<and> unat (bi_BlockNumber inp) < 2 ^ 63"
  shows "GetBlobsByEpoch noFaults t' network epoch =
    Inr (sort_key (\<lambda>r. sint (bd_BlobIndex r)) (map (stored_record lib g sps) (zip blobs results))) \<and> length blobs = length results"
proof -
  from SaveBlobs_ok [OF assms(1,2)] obtain stage where len: "length blobs = length results"
    and stage: "mapR (blob_stage_row lib network epoch g sps) (zip blobs results) = Inr stage"
    and cm: "map bw_commitment stage = map bi_Commitment blobs"
    and ep: "\<forall>r \<in> set stage. bw_epoch r = sint epoch \<and> bw_network r = network"
    and t': "tb_blobs t' = fold (upsert bw_commitment blob_conflict) (distinct_on bw_commitment stage) (tb_blobs t)"
    by blast
  have cms: "bw_commitment ` set stage = bi_Commitment ` set blobs" by (metis cm list.set_map)
  have d: "distinct (map bw_commitment stage)" using assms(3) cm by simp
  have "tb_blobs t' = tb_blobs t @ stage"
    unfolding t' distinct_on_id [OF d] using d assms(4) cms by (intro fold_upsert_fresh) auto
  then have eb: "epoch_blobs t' network (sint epoch) = stage"
    using assms(5) ep by (simp add: epoch_blobs_def filter_True)
  have "list_all2 (\<lambda>p r. scan_blob_record r = Inr (stored_record lib g sps p) \<and> bw_blob_index r = sint (bd_BlobIndex (stored_record lib g sps p)))
      (zip blobs results) stage"
  proof -
    have "list_all2 (\<lambda>p r. p \<in> set (zip blobs results) \<and> blob_stage_row lib network epoch g sps p = Inr r) (zip blobs results) stage"
      using stage unfolding mapR_eq_Inr by (rule list_all2_in_set)
    then show ?thesis
      by (rule list_all2_mono) (use assms(7) scan_stage_row in \<open>fastforce simp: stored_record_def dest: set_zip_leftD\<close>)
  qed
  note rows = mapR_sort_key [OF this]
  show ?thesis
    using assms(6) eb len rows by (simp add: GetBlobsByEpoch_def enc_int8_def fault_def sint_eq_unat)
qed

text \<open>
  Saved blobs are read back: blobs with pairwise different commitments that are not stored yet, saved
  for an epoch without blobs, are what \<^verbatim>\<open>GetBlobsByEpoch\<close> returns, field by field, one record per blob,
  in the order of their index (for slot, block and epoch numbers below $2^{63}$).
\<close>

theorem SaveBlobs_readback:
  assumes "SaveBlobs lib flt t network epoch blobs results g sps = (Inr (), t')" and "blobs \<noteq> []"
    and "distinct (map bi_Commitment blobs)"
    and "bi_Commitment ` set blobs \<inter> bw_commitment ` set (tb_blobs t) = {}"
    and "epoch_blobs t network (sint epoch) = []" and "unat epoch < 2 ^ 63"
    and "\<forall>inp \<in> set blobs. unat (bi_Slot inp) < 2 ^ 63 \<and> unat (bi_BlockNumber inp) < 2 ^ 63"
  shows "\<exists>recs. GetBlobsByEpoch noFaults t' network epoch = Inr recs \<and>
    mset recs = mset (map (stored_record lib g sps) (zip blobs results)) \<and> sorted (map (sint \<circ> bd_BlobIndex) recs)"
  using SaveBlobs_stored [OF assms] by (intro exI conjI) (rule conjunct1, assumption, simp_all add: comp_def)

lemma fold_upsert_filter_length:
  assumes "\<And>old new. P (upd old new) = P old"
  shows "length (filter P (fold (upsert key upd) news rows)) \<le> length (filter P rows) + length news"
proof (induction news arbitrary: rows)
  case (Cons n news)
  have "length (filter P (map (\<lambda>r. if key r = key n then upd r n else r) rows)) = length (filter P rows)"
    using assms by (induction rows) auto
  then have "length (filter P (upsert key upd n rows)) \<le> length (filter P rows) + 1" by (simp add: upsert_def)
  with Cons.IH [of "upsert key upd n rows"] show ?case by simp
qed simp

lemma fold_upsert_keeps:
  assumes "\<And>old new. f (upd old new) = f old"
  shows "r \<in> set rows \<Longrightarrow> \<exists>r' \<in> set (fold (upsert key upd) news rows). f r' = f r"
proof (induction news arbitrary: rows r)
  case (Cons n news)
  have "\<exists>r1 \<in> set (upsert key upd n rows). f r1 = f r"
  proof (cases "key n \<in> key ` set rows \<and> key r = key n")
    case True
    then have "upd r n \<in> set (upsert key upd n rows)" using Cons.prems by (auto simp: upsert_mem)
    then show ?thesis using assms by blast
  next
    case False
    then have "r \<in> set (upsert key upd n rows)" using Cons.prems by (auto simp: upsert_mem)
    then show ?thesis by blast
  qed
  then obtain r1 where "r1 \<in> set (upsert key upd n rows)" "f r1 = f r" by blast
  with Cons.IH show ?case by fastforce
qed auto

text \<open>
  C35. Blobs are stored by commitment alone: saving an epoch adds at most one row per different
  commitment, so an epoch that carries the same blob twice ends up with fewer rows than blobs; and a
  commitment that is already stored keeps its old epoch, slot, index and network, so that a blob that
  occurs again in a later epoch is not listed for that epoch.
\<close>

theorem SaveBlobs_one_row_per_commitment:
  assumes "SaveBlobs lib flt t network epoch blobs results g sps = (Inr (), t')" and "blobs \<noteq> []"
  shows "length (epoch_blobs t' network (sint epoch)) \<le>
           length (epoch_blobs t network (sint epoch)) + card (set (map bi_Commitment blobs)) \<and>
    (\<forall>r \<in> set (tb_blobs t). \<exists>r' \<in> set (tb_blobs t').
       (bw_commitment r', bw_epoch r', bw_slot r', bw_blob_index r', bw_network r') =
       (bw_commitment r, bw_epoch r, bw_slot r, bw_blob_index r, bw_network r))"
proof -
  from SaveBlobs_ok [OF assms] obtain stage where cm: "map bw_commitment stage = map bi_Commitment blobs"
    and t': "tb_blobs t' = fold (upsert bw_commitment blob_conflict) (distinct_on bw_commitment stage) (tb_blobs t)"
    by blast
  have "length (distinct_on bw_commitment stage) = card (bw_commitment ` set (distinct_on bw_commitment stage))"
    using distinct_card [OF distinct_on_distinct [of bw_commitment stage]] by simp
  also have "\<dots> = card (set (map bi_Commitment blobs))" by (metis distinct_on_keys cm list.set_map)
  finally have n: "length (distinct_on bw_commitment stage) = card (set (map bi_Commitment blobs))" .
  have "length (epoch_blobs t' network (sint epoch)) \<le> length (epoch_blobs t network (sint epoch)) + length (distinct_on bw_commitment stage)"
    unfolding epoch_blobs_def t' by (rule fold_upsert_filter_length) simp
  moreover have "\<exists>r' \<in> set (tb_blobs t').
       (bw_commitment r', bw_epoch r', bw_slot r', bw_blob_index r', bw_network r') =
       (bw_commitment r, bw_epoch r, bw_slot r, bw_blob_index r, bw_network r)" if "r \<in> set (tb_blobs t)" for r
    unfolding t' by (rule fold_upsert_keeps [OF _ that]) simp
  ultimately show ?thesis using n by simp
qed

definition demo_input :: BlobInput where
  "demo_input = \<lparr>bi_Commitment = ''0xc0'', bi_VersionedHash = ''0x01'', bi_TxHash = '''', bi_BlockNumber = 9, bi_BlockHash = '''',
     bi_Slot = 225, bi_Epoch = 7, bi_Index = 2, bi_Data = [], bi_Size = 3\<rparr>"

lemma isOk_unit_pair: "isOk (fst p) \<Longrightarrow> \<exists>t. p = (Inr (), t)"
  by (cases p) (auto simp: isOk_iff)

lemma demo_SaveBlobs_ok:
  "isOk (fst (SaveBlobs demo_lib noFaults schema_empty ''mainnet'' 7 [demo_input] [zeroBlobResult] 0 12))"
  "isOk (fst (SaveBlobs demo_lib noFaults schema_empty ''mainnet'' 7 [demo_input, demo_input] [zeroBlobResult, zeroBlobResult] 0 12))"
  by (simp_all add: SaveBlobs_def SaveBlobs_tx_def fault_def blob_stage_row_def demo_input_def enc_int4_def)

theorem SaveBlobs_readback_witness:
  "\<exists>t' recs. GetBlobsByEpoch noFaults t' ''mainnet'' 7 = Inr recs \<and> map bd_Slot recs = [225]"
proof -
  obtain t' where save: "SaveBlobs demo_lib noFaults schema_empty ''mainnet'' 7 [demo_input] [zeroBlobResult] 0 12 = (Inr (), t')"
    using isOk_unit_pair [OF demo_SaveBlobs_ok(1)] by blast
  obtain recs where recs: "GetBlobsByEpoch noFaults t' ''mainnet'' 7 = Inr recs"
    "mset recs = mset (map (stored_record demo_lib 0 12) (zip [demo_input] [zeroBlobResult]))"
    using SaveBlobs_readback [OF save] by (force simp: demo_input_def schema_empty_def epoch_blobs_def)
  from recs(2) have "recs = [stored_record demo_lib 0 12 (demo_input, zeroBlobResult)]" by simp
  then have "map bd_Slot recs = [225]" by (simp add: stored_record_def demo_input_def)
  with recs(1) show ?thesis by (intro exI conjI)
qed

theorem SaveBlobs_one_row_per_commitment_witness:
  "\<exists>t'. SaveBlobs demo_lib noFaults schema_empty ''mainnet'' 7 [demo_input, demo_input] [zeroBlobResult, zeroBlobResult] 0 12 = (Inr (), t') \<and>
     length (epoch_blobs t' ''mainnet'' 7) \<le> 1"
proof -
  obtain t' where save: "SaveBlobs demo_lib noFaults schema_empty ''mainnet'' 7 [demo_input, demo_input] [zeroBlobResult, zeroBlobResult] 0 12 = (Inr (), t')"
    using isOk_unit_pair [OF demo_SaveBlobs_ok(2)] by blast
  have "length (epoch_blobs t' ''mainnet'' (sint (7 :: uint64))) \<le>
      length (epoch_blobs schema_empty ''mainnet'' (sint (7 :: uint64))) + card (set (map bi_Commitment [demo_input, demo_input]))"
    using SaveBlobs_one_row_per_commitment [OF save] by blast
  moreover have "epoch_blobs schema_empty ''mainnet'' (sint (7 :: uint64)) = []" by (simp add: schema_empty_def epoch_blobs_def)
  ultimately have "length (epoch_blobs t' ''mainnet'' 7) \<le> 1" by simp
  with save show ?thesis by blast
qed

lemma fold_upsert_keys:
  assumes "keeps_key key upd"
  shows "key ` set (fold (upsert key upd) news rows) = key ` set news \<union> key ` set rows"
  by (induction news arbitrary: rows) (auto simp: upsert_key_set [OF assms])

lemma SaveEpoch_effect:
  assumes "SaveEpoch lib flt t network result n time = (Inr (), t')"
  shows "tb_blobs t' = tb_blobs t \<and> tb_state t' = tb_state t \<and>
    (\<exists>r \<in> set (tb_epochs t'). ew_epoch r = int (unat (er_Epoch result)) \<and> ew_cid r = cid_String lib (er_CID result) \<and>
       ew_blob_count r = sint n \<and> ew_size_bytes r = sint (er_ApproximateSizeBytes result)) \<and>
    filter (\<lambda>r. ew_epoch r \<noteq> int (unat (er_Epoch result))) (tb_epochs t') =
      filter (\<lambda>r. ew_epoch r \<noteq> int (unat (er_Epoch result))) (tb_epochs t)"
proof -
  let ?E = "int (unat (er_Epoch result))"
  from SaveEpoch_ok [OF assms] obtain sl where
    eq: "t' = t\<lparr>tb_epochs := upsert ew_epoch epoch_conflict
       \<lparr>ew_epoch = ?E, ew_network = network, ew_slot = sl, ew_epoch_time = nullTime time,
        ew_cid = cid_String lib (er_CID result), ew_car_path = er_CARPath result,
        ew_blob_count = sint n, ew_size_bytes = sint (er_ApproximateSizeBytes result)\<rparr> (tb_epochs t)\<rparr>"
    by blast
  define new where "new = \<lparr>ew_epoch = ?E, ew_network = network, ew_slot = sl, ew_epoch_time = nullTime time,
        ew_cid = cid_String lib (er_CID result), ew_car_path = er_CARPath result,
        ew_blob_count = sint n, ew_size_bytes = sint (er_ApproximateSizeBytes result)\<rparr>"
  have new: "ew_epoch new = ?E" "ew_cid new = cid_String lib (er_CID result)" "ew_blob_count new = sint n"
      "ew_size_bytes new = sint (er_ApproximateSizeBytes result)" by (simp_all add: new_def)
  have t': "t' = t\<lparr>tb_epochs := upsert ew_epoch epoch_conflict new (tb_epochs t)\<rparr>"
    unfolding new_def by (rule eq)
  have row: "\<exists>r \<in> set (tb_epochs t'). ew_epoch r = ?E \<and> ew_cid r = ew_cid new \<and>
      ew_blob_count r = ew_blob_count new \<and> ew_size_bytes r = ew_size_bytes new"
  proof (cases "?E \<in> ew_epoch ` set (tb_epochs t)")
    case True
    then obtain old where old: "old \<in> set (tb_epochs t)" "ew_epoch old = ?E" by auto
    have "epoch_conflict old new \<in> set (tb_epochs t')"
      using True old new(1) by (auto simp: t' upsert_mem)
    with old(2) show ?thesis by (intro bexI [of _ "epoch_conflict old new"]) (simp_all add: epoch_conflict_def)
  next
    case False
    then show ?thesis using new(1) by (intro bexI [of _ new]) (auto simp: t' upsert_mem)
  qed
  have "filter (\<lambda>r. ew_epoch r \<noteq> ?E) (map (\<lambda>r. if ew_epoch r = ?E then epoch_conflict r new else r) rows) =
      filter (\<lambda>r. ew_epoch r \<noteq> ?E) rows" for rows
    by (induction rows) (auto simp: epoch_conflict_def)
  then have "filter (\<lambda>r. ew_epoch r \<noteq> ?E) (tb_epochs t') = filter (\<lambda>r. ew_epoch r \<noteq> ?E) (tb_epochs t)"
    by (simp add: t' upsert_def new(1))
  with row new t' show ?thesis by simp
qed

lemma SaveBlobs_effect:
  assumes "SaveBlobs lib flt t network epoch blobs results g sps = (Inr (), t')" "blobs \<noteq> []"
  shows "bw_commitment ` set (tb_blobs t') = bi_Commitment ` set blobs \<union> bw_commitment ` set (tb_blobs t) \<and>
    ew_epoch ` set (tb_epochs t') = insert (sint epoch) (ew_epoch ` set (tb_epochs t)) \<and> set (tb_epochs t) \<subseteq> set (tb_epochs t')"
proof -
  from SaveBlobs_ok [OF assms] obtain stage where cm: "map bw_commitment stage = map bi_Commitment blobs"
    and t': "tb_blobs t' = fold (upsert bw_commitment blob_conflict) (distinct_on bw_commitment stage) (tb_blobs t)"
      "tb_epochs t' = upsert ew_epoch (\<lambda>old _. old) (placeholder_row network epoch) (tb_epochs t)"
    by blast
  have "bw_commitment ` set stage = bi_Commitment ` set blobs" by (metis cm list.set_map)
  then have "bw_commitment ` set (tb_blobs t') = bi_Commitment ` set blobs \<union> bw_commitment ` set (tb_blobs t)"
    by (simp add: t'(1) fold_upsert_keys distinct_on_keys)
  moreover have "ew_epoch ` set (tb_epochs t') = insert (sint epoch) (ew_epoch ` set (tb_epochs t))"
    by (simp add: t'(2) upsert_key_set placeholder_row_def)
  moreover have "set (tb_epochs t) \<subseteq> set (tb_epochs t')" by (auto simp: t'(2) upsert_def)
  ultimately show ?thesis by blast
qed

lemma SaveBlobs_state: "tb_state (snd (SaveBlobs lib flt t network epoch blobs results g sps)) = tb_state t"
  by (auto simp: SaveBlobs_def SaveBlobs_tx_def bindR_eq_Inr split: sum.split)

lemma db_error_unchanged:
  "fst (SaveEpoch lib flt t network result n time) = Inl e1 \<Longrightarrow> snd (SaveEpoch lib flt t network result n time) = t"
  "fst (SaveBlobs lib flt t network epoch blobs results g sps) = Inl e2 \<Longrightarrow>
     snd (SaveBlobs lib flt t network epoch blobs results g sps) = t"
  "fst (DB_SetLastProcessedEpoch flt network t e) = Inl e3 \<Longrightarrow> snd (DB_SetLastProcessedEpoch flt network t e) = t"
  "fst (DB_SetBackfillCursor flt network t e) = Inl e4 \<Longrightarrow> snd (DB_SetBackfillCursor flt network t e) = t"
  by (auto simp: SaveEpoch_def SaveBlobs_def DB_SetLastProcessedEpoch_def DB_SetBackfillCursor_def
      split: sum.splits if_splits)

lemma db_cursor_effect:
  "fst (DB_SetLastProcessedEpoch flt network t e) = Inr () \<Longrightarrow>
     snd (DB_SetLastProcessedEpoch flt network t e) = set_cursor (live_key network) (int (unat e)) t"
  "fst (DB_SetBackfillCursor flt network t e) = Inr () \<Longrightarrow>
     snd (DB_SetBackfillCursor flt network t e) = set_cursor (backfill_key network) (int (unat e)) t"
  by (auto simp: DB_SetLastProcessedEpoch_def DB_SetBackfillCursor_def bindR_eq_Inr enc_int8_def
      split: sum.splits if_splits)

lemma set_cursor_tables:
  "tb_epochs (set_cursor k v t) = tb_epochs t \<and> tb_blobs (set_cursor k v t) = tb_blobs t \<and>
   map_of (tb_state (set_cursor k v t)) = (map_of (tb_state t))(k \<mapsto> v)"
  by (simp add: set_cursor_def upsert_fst)



end
