(* ===== verification/Connect.thy ===== *)
theory Connect
  imports Db
begin

text \<open>
  \<^verbatim>\<open>db/db.go\<close>: opening the database. \<^verbatim>\<open>New\<close> creates the database on the server when it is missing, and creates or
  completes the tables. A server is a map from names to databases; a database has each of the three tables or not, and
  the first two with or without the column that the migrations add. \<^verbatim>\<open>pgx.ParseConfig\<close>, which finds the name of the
  database in the DSN, is an argument. A script that is sent in one call runs in one transaction.
\<close>

section \<open>Schema\<close>

text \<open>The flag says whether the table has its time column; rows of a table without it have \<^term>\<open>None\<close> there.\<close>

record relations =
  rl_epochs :: "(bool \<times> epoch_row list) option"
  rl_blobs :: "(bool \<times> blob_row list) option"
  rl_state :: "(string \<times> int) list option"

definition no_relations :: relations where
  "no_relations = \<lparr>rl_epochs = None, rl_blobs = None, rl_state = None\<rparr>"

text \<open>\<^verbatim>\<open>CREATE TABLE IF NOT EXISTS\<close>.\<close>

fun create_if_missing :: "'a \<Rightarrow> 'a option \<Rightarrow> 'a option" where
  "create_if_missing new None = Some new"
| "create_if_missing new (Some x) = Some x"

definition apply_schema :: "relations \<Rightarrow> relations" where
  "apply_schema r =
     r\<lparr>rl_epochs := create_if_missing (True, []) (rl_epochs r),
       rl_blobs := create_if_missing (True, []) (rl_blobs r),
       rl_state := create_if_missing [] (rl_state r)\<rparr>"

text \<open>\<^verbatim>\<open>ALTER TABLE ... ADD COLUMN IF NOT EXISTS\<close>: existing rows get a null.\<close>

fun add_column :: "('r \<Rightarrow> 'r) \<Rightarrow> bool \<times> 'r list \<Rightarrow> bool \<times> 'r list" where
  "add_column null (True, rows) = (True, rows)"
| "add_column null (False, rows) = (True, map null rows)"

definition apply_migrations :: "relations \<Rightarrow> relations res" where
  "apply_migrations r =
     (case (rl_epochs r, rl_blobs r) of
        (Some epochs, Some blobs) \<Rightarrow>
          Inr (r\<lparr>rl_epochs := Some (add_column (\<lambda>w. w\<lparr>ew_epoch_time := None\<rparr>) epochs),
                 rl_blobs := Some (add_column (\<lambda>w. w\<lparr>bw_slot_time := None\<rparr>) blobs)\<rparr>)
      | _ \<Rightarrow> Inl (Errorf ''relation does not exist''))"

definition migrate :: "faults \<Rightarrow> relations \<Rightarrow> unit res \<times> relations" where
  "migrate flt r =
     (case wrapR ''db: apply schema'' (fault flt ''schema'') of
        Inl e \<Rightarrow> (Inl e, r)
      | Inr _ \<Rightarrow>
          (let r1 = apply_schema r
           in (case wrapR ''db: apply migrations'' (bindR (fault flt ''migrations'') (\<lambda>_. apply_migrations r1)) of
                 Inl e \<Rightarrow> (Inl e, r1)
               | Inr r2 \<Rightarrow> (Inr (), r2))))"

section \<open>The server\<close>

type_synonym server = "string \<rightharpoonup> relations"

definition ensureDatabase :: "(string \<Rightarrow> string res) \<Rightarrow> faults \<Rightarrow> string \<Rightarrow> server \<Rightarrow> unit res \<times> server" where
  "ensureDatabase parse flt dsn srv =
     (case wrapR ''db: parse dsn'' (parse dsn) of
        Inl e \<Rightarrow> (Inl e, srv)
      | Inr dbName \<Rightarrow>
          (case bindR (wrapR ''db: connect to postgres maintenance db'' (fault flt ''connect'')) (\<lambda>_.
                  wrapR (''db: check database '' @ go_quote dbName) (fault flt ''exists'')) of
             Inl e \<Rightarrow> (Inl e, srv)
           | Inr _ \<Rightarrow>
               if srv dbName \<noteq> None then (Inr (), srv)
               else (case wrapR (''db: create database '' @ go_quote dbName) (fault flt ''create'') of
                       Inl e \<Rightarrow> (Inl e, srv)
                     | Inr _ \<Rightarrow> (Inr (), srv(dbName \<mapsto> no_relations)))))"

text \<open>\<^verbatim>\<open>pgxpool.New\<close> connects lazily; a missing database would show up in the first statement.\<close>

definition DB_New :: "(string \<Rightarrow> string res) \<Rightarrow> faults \<Rightarrow> string \<Rightarrow> server \<Rightarrow> unit res \<times> server" where
  "DB_New parse flt dsn srv =
     (case ensureDatabase parse flt dsn srv of
        (Inl e, srv1) \<Rightarrow> (Inl e, srv1)
      | (Inr _, srv1) \<Rightarrow>
          (case bindR (wrapR (''db: connect '' @ go_quote dsn) (fault flt ''pool'')) (\<lambda>_. parse dsn) of
             Inl e \<Rightarrow> (Inl e, srv1)
           | Inr dbName \<Rightarrow>
               (case srv1 dbName of
                  None \<Rightarrow> (Inl (Errorf ''database does not exist''), srv1)
                | Some r \<Rightarrow>
                    (case migrate flt r of
                       (Inl e, r') \<Rightarrow> (Inl (wrapErr ''db: migrate'' e), srv1(dbName \<mapsto> r'))
                     | (Inr _, r') \<Rightarrow> (Inr (), srv1(dbName \<mapsto> r'))))))"

section \<open>Opening is safe\<close>

text \<open>
  \<open>relations_ready t r\<close>: every table and column is there, and the contents are \<open>t\<close>. \<open>null_times\<close>: what the model of the
  rows asks of a table without its time column. \<open>rows_same r r'\<close>: no row of \<open>r\<close> is lost or changed in \<open>r'\<close>.
\<close>

definition relations_ready :: "tables \<Rightarrow> relations \<Rightarrow> bool" where
  "relations_ready t r \<longleftrightarrow>
     rl_epochs r = Some (True, tb_epochs t) \<and> rl_blobs r = Some (True, tb_blobs t) \<and> rl_state r = Some (tb_state t)"

definition null_times :: "relations \<Rightarrow> bool" where
  "null_times r \<longleftrightarrow>
     (case rl_epochs r of Some (False, rows) \<Rightarrow> list_all (\<lambda>w. ew_epoch_time w = None) rows | _ \<Rightarrow> True) \<and>
     (case rl_blobs r of Some (False, rows) \<Rightarrow> list_all (\<lambda>w. bw_slot_time w = None) rows | _ \<Rightarrow> True)"

definition contents :: "relations \<Rightarrow> tables" where
  "contents r =
     \<lparr>tb_epochs = (case rl_epochs r of None \<Rightarrow> [] | Some (_, rows) \<Rightarrow> rows),
      tb_blobs = (case rl_blobs r of None \<Rightarrow> [] | Some (_, rows) \<Rightarrow> rows),
      tb_state = (case rl_state r of None \<Rightarrow> [] | Some kv \<Rightarrow> kv)\<rparr>"

lemma map_null_same:
  "list_all (\<lambda>w. ew_epoch_time w = None) es \<Longrightarrow> map (\<lambda>w. w\<lparr>ew_epoch_time := None\<rparr>) es = es"
  "list_all (\<lambda>w. bw_slot_time w = None) bs \<Longrightarrow> map (\<lambda>w. w\<lparr>bw_slot_time := None\<rparr>) bs = bs"
  by (induction es) (auto, induction bs, auto)

lemma apply_schema_contents:
  "contents (apply_schema r) = contents r" "null_times r \<Longrightarrow> null_times (apply_schema r)"
  "\<exists>es bs kv. rl_epochs (apply_schema r) = Some es \<and> rl_blobs (apply_schema r) = Some bs \<and> rl_state (apply_schema r) = Some kv"
  by (cases "rl_epochs r"; cases "rl_blobs r"; cases "rl_state r"; force simp: apply_schema_def contents_def null_times_def)+

lemma apply_migrations_contents:
  assumes "null_times r" and "rl_epochs r = Some es" and "rl_blobs r = Some bs" and "rl_state r = Some kv"
  shows "\<exists>r'. apply_migrations r = Inr r' \<and> contents r' = contents r \<and> null_times r' \<and> relations_ready (contents r) r'"
proof -
  obtain eb erows bb brows where [simp]: "es = (eb, erows)" "bs = (bb, brows)" by (cases es, cases bs)
  have "add_column (\<lambda>w. w\<lparr>ew_epoch_time := None\<rparr>) (eb, erows) = (True, erows)"
    using assms(1,2) by (cases eb) (auto simp: null_times_def map_null_same)
  moreover have "add_column (\<lambda>w. w\<lparr>bw_slot_time := None\<rparr>) (bb, brows) = (True, brows)"
    using assms(1,3) by (cases bb) (auto simp: null_times_def map_null_same)
  ultimately show ?thesis
    using assms(2-4) by (simp add: apply_migrations_def contents_def relations_ready_def null_times_def)
qed

lemma migrate_contents:
  assumes "null_times r" and "migrate flt r = (res, r')"
  shows "contents r' = contents r \<and> null_times r' \<and> (res = Inr () \<longrightarrow> relations_ready (contents r) r')"
proof -
  obtain es bs kv where some: "rl_epochs (apply_schema r) = Some es" "rl_blobs (apply_schema r) = Some bs" "rl_state (apply_schema r) = Some kv"
    using apply_schema_contents(3) by blast
  from apply_migrations_contents [OF apply_schema_contents(2) [OF assms(1)] some] obtain r2
    where "apply_migrations (apply_schema r) = Inr r2" "contents r2 = contents r" "null_times r2" "relations_ready (contents r) r2"
    by (auto simp: apply_schema_contents(1))
  with assms apply_schema_contents(1,2) [of r] show ?thesis
    by (auto simp: migrate_def Let_def wrapR_def bindR_eq_Inr split: sum.splits)
qed

text \<open>A database that is ready is left exactly as it is, whichever statement fails.\<close>

lemma migrate_ready:
  assumes "relations_ready t r"
  shows "snd (migrate flt r) = r"
proof -
  have "apply_schema r = r" using assms by (cases r) (simp add: apply_schema_def relations_ready_def)
  moreover have "apply_migrations r = Inr r" using assms by (cases r) (simp add: apply_migrations_def relations_ready_def)
  ultimately show ?thesis by (auto simp: migrate_def Let_def bindR_eq_Inr split: sum.splits)
qed

text \<open>
  Opening the database is safe and enough: whatever fails, no other database is touched, and the rows of the one that
  the DSN names are kept; when it succeeds, the database has every table and column, with the old rows (none in a new
  one); and opening a database that is complete changes nothing at all, so that after the first start a connection only
  has its outcome, as in the programs of the generator and the commands.
\<close>

theorem DB_New_safe:
  assumes "parse dsn = Inr d" and "DB_New parse flt dsn srv = (res, srv')"
    and old: "r = (case srv d of None \<Rightarrow> no_relations | Some r \<Rightarrow> r)" and "null_times r"
  shows "(\<forall>d'. d' \<noteq> d \<longrightarrow> srv' d' = srv d') \<and> (srv d \<noteq> None \<longrightarrow> (\<exists>r'. srv' d = Some r' \<and> contents r' = contents r)) \<and>
    (res = Inr () \<longrightarrow> (\<exists>r'. srv' d = Some r' \<and> relations_ready (contents r) r')) \<and>
    (\<forall>t. srv d \<noteq> None \<and> relations_ready t r \<longrightarrow> srv' = srv)"
proof -
  obtain res1 srv1 where e: "ensureDatabase parse flt dsn srv = (res1, srv1)" by fastforce
  then have srv1: "srv1 = srv \<or> srv d = None \<and> srv1 = srv(d \<mapsto> no_relations)" and ok1: "res1 = Inr () \<Longrightarrow> srv1 d = Some r"
    using assms(1) old by (auto simp: ensureDatabase_def wrapR_def split: sum.splits if_splits option.splits)
  consider "srv' = srv1" "res \<noteq> Inr ()" | r' where "migrate flt r = (res, r') \<or> (\<exists>e. migrate flt r = (Inl e, r')) \<and> res \<noteq> Inr ()" "srv' = srv1(d \<mapsto> r')" "srv1 d = Some r"
    using assms(1,2) e ok1 by (auto simp: DB_New_def wrapR_def split: sum.splits prod.splits option.splits)
  then show ?thesis
  proof cases
    case 1
    then show ?thesis using srv1 old by auto
  next
    case (2 r')
    then have "contents r' = contents r \<and> (res = Inr () \<longrightarrow> relations_ready (contents r) r')"
      using migrate_contents [OF assms(4)] by blast
    moreover have "r' = r" if "relations_ready t r" for t using migrate_ready [OF that, of flt] 2(1) by auto
    ultimately show ?thesis using 2 srv1 by auto
  qed
qed

theorem DB_New_safe_witness:
  "\<exists>srv' r'. DB_New Inr noFaults ''ipld'' Map.empty = (Inr (), srv') \<and> srv' ''ipld'' = Some r' \<and> relations_ready schema_empty r'"
proof -
  have "fst (DB_New Inr noFaults ''ipld'' Map.empty) = Inr ()"
    by (simp add: DB_New_def ensureDatabase_def fault_def migrate_def apply_schema_def apply_migrations_def no_relations_def)
  moreover obtain srv' where run: "DB_New Inr noFaults ''ipld'' Map.empty = (fst (DB_New Inr noFaults ''ipld'' Map.empty), srv')"
    by (metis prod.collapse)
  moreover have "null_times no_relations" "contents no_relations = schema_empty"
    by (simp_all add: null_times_def no_relations_def contents_def schema_empty_def)
  ultimately show ?thesis using DB_New_safe [OF _ run refl] by simp
qed

end
