(* ===== verification/Blob.thy ===== *)
theory Blob
  imports Store
begin

text \<open>
  \<^verbatim>\<open>builder/blob.go\<close>: storing the raw blob, its metadata node, and both. Every definition takes
  the library parameter and the block store behind the link system, and returns the store with the
  new blocks; an error abandons the store, as the callers do.
\<close>

section \<open>The operations\<close>

definition linkProtoRaw :: cid_prefix where
  "linkProtoRaw = \<lparr>pfVersion = 1, pfCodec = codecRaw, pfMhType = 0x12, pfMhLength = 32\<rparr>"

definition linkProtoDagCBOR :: cid_prefix where
  "linkProtoDagCBOR = \<lparr>pfVersion = 1, pfCodec = codecDagCbor, pfMhType = 0x12, pfMhLength = 32\<rparr>"

definition StoreRawBlob ::
  "ipld_lib \<Rightarrow> blockstoreBackend \<Rightarrow> bytes \<Rightarrow> (cid \<times> blockstoreBackend) res" where
  "StoreRawBlob lib bs data =
     wrapR ''builder: store raw blob'' (lsys_Store lib bs linkProtoRaw (NBytes data))"

definition metadata_size :: "BlobInput \<Rightarrow> int64" where
  "metadata_size inp = (if bi_Size inp = 0 then go_len (bi_Data inp) else bi_Size inp)"

definition metadata_entries :: "BlobInput \<Rightarrow> cid \<Rightarrow> (string \<times> ipld_node) list" where
  "metadata_entries inp dataCID =
     [(''commitment'', NString (bi_Commitment inp)),
      (''versionedHash'', NString (bi_VersionedHash inp)),
      (''txHash'', NString (bi_TxHash inp)),
      (''blockNumber'', NInt (sint (bi_BlockNumber inp))),
      (''blockHash'', NString (bi_BlockHash inp)),
      (''slot'', NInt (sint (bi_Slot inp))),
      (''epoch'', NInt (sint (bi_Epoch inp))),
      (''index'', NInt (sint (bi_Index inp))),
      (''size'', NInt (sint (metadata_size inp))),
      (''data'', NLink dataCID)]"

definition StoreBlobMetadata ::
  "ipld_lib \<Rightarrow> blockstoreBackend \<Rightarrow> BlobInput \<Rightarrow> cid \<Rightarrow> (cid \<times> blockstoreBackend) res" where
  "StoreBlobMetadata lib bs inp dataCID =
     bindR (wrapR ''builder: build blob metadata node'' (qp_BuildMap lib (metadata_entries inp dataCID)))
       (\<lambda>n. wrapR ''builder: store blob metadata'' (lsys_Store lib bs linkProtoDagCBOR n))"

definition ProcessBlob ::
  "ipld_lib \<Rightarrow> blockstoreBackend \<Rightarrow> BlobInput \<Rightarrow> (BlobResult \<times> blockstoreBackend) res" where
  "ProcessBlob lib bs inp =
     bindR (wrapR (''builder: process blob '' @ bi_Commitment inp) (StoreRawBlob lib bs (bi_Data inp)))
       (\<lambda>(dataCID, bs1).
     bindR (wrapR (''builder: process blob metadata '' @ bi_Commitment inp)
              (StoreBlobMetadata lib bs1 inp dataCID))
       (\<lambda>(metaCID, bs2).
     Inr (\<lparr>br_Commitment = bi_Commitment inp, br_DataCID = dataCID, br_MetaCID = metaCID,
           br_SizeBytes = go_len (bi_Data inp)\<rparr>, bs2)))"

section \<open>The pure part: which result, which blocks\<close>

text \<open>
  \<open>blob_data_block\<close>, \<open>blob_meta_block\<close> and \<open>blob_blocks\<close> are the operations without the store: the
  result and the blocks that are put. The operations are these computations followed by the puts,
  so a result depends on the blob alone, never on the store or on what is in it.
\<close>

definition blob_data_block :: "ipld_lib \<Rightarrow> bytes \<Rightarrow> (cid \<times> block) res" where
  "blob_data_block lib data = wrapR ''builder: store raw blob'' (sealBlock lib linkProtoRaw (NBytes data))"

definition blob_meta_block :: "ipld_lib \<Rightarrow> BlobInput \<Rightarrow> cid \<Rightarrow> (cid \<times> block) res" where
  "blob_meta_block lib inp dataCID =
     bindR (wrapR ''builder: build blob metadata node'' (qp_BuildMap lib (metadata_entries inp dataCID)))
       (\<lambda>n. wrapR ''builder: store blob metadata'' (sealBlock lib linkProtoDagCBOR n))"

definition blob_blocks :: "ipld_lib \<Rightarrow> BlobInput \<Rightarrow> (BlobResult \<times> block list) res" where
  "blob_blocks lib inp =
     bindR (wrapR (''builder: process blob '' @ bi_Commitment inp) (blob_data_block lib (bi_Data inp)))
       (\<lambda>(dataCID, db).
     bindR (wrapR (''builder: process blob metadata '' @ bi_Commitment inp)
              (blob_meta_block lib inp dataCID))
       (\<lambda>(metaCID, mb).
     Inr (\<lparr>br_Commitment = bi_Commitment inp, br_DataCID = dataCID, br_MetaCID = metaCID,
           br_SizeBytes = go_len (bi_Data inp)\<rparr>, [db, mb])))"

lemma StoreRawBlob_pure:
  "StoreRawBlob lib bs data = bindR (blob_data_block lib data) (\<lambda>(c, b). Inr (c, backend_add bs b))"
  by (cases "sealBlock lib linkProtoRaw (NBytes data)")
    (auto simp: StoreRawBlob_def blob_data_block_def lsys_Store_seal)

lemma StoreBlobMetadata_pure:
  "StoreBlobMetadata lib bs inp d = bindR (blob_meta_block lib inp d) (\<lambda>(c, b). Inr (c, backend_add bs b))"
proof (cases "qp_BuildMap lib (metadata_entries inp d)")
  case (Inl e)
  then show ?thesis by (simp add: StoreBlobMetadata_def blob_meta_block_def)
next
  case (Inr n)
  then show ?thesis
    by (cases "sealBlock lib linkProtoDagCBOR n")
      (auto simp: StoreBlobMetadata_def blob_meta_block_def lsys_Store_seal)
qed

lemma ProcessBlob_pure:
  "ProcessBlob lib bs inp =
     bindR (blob_blocks lib inp) (\<lambda>(r, blks). Inr (r, foldl backend_add bs blks))"
proof (cases "blob_data_block lib (bi_Data inp)")
  case (Inl e)
  then show ?thesis by (simp add: ProcessBlob_def blob_blocks_def StoreRawBlob_pure)
next
  case (Inr db)
  then show ?thesis
    by (cases "blob_meta_block lib inp (fst db)")
      (auto simp: ProcessBlob_def blob_blocks_def StoreRawBlob_pure StoreBlobMetadata_pure split: prod.splits)
qed

lemma metadata_keys_distinct [simp]: "distinct (map fst (metadata_entries inp c))"
  by (simp add: metadata_entries_def)

lemma metadata_size_loaded:
  "bi_Size inp = 0 \<Longrightarrow> metadata_size inp = go_len (bi_Data inp)"
  by (simp add: metadata_size_def)

text \<open>The metadata node depends on the blob's data only through the size.\<close>

lemma blob_meta_block_cong:
  assumes "metadata_size inp' = metadata_size inp"
    and "bi_Commitment inp' = bi_Commitment inp" "bi_VersionedHash inp' = bi_VersionedHash inp"
    and "bi_TxHash inp' = bi_TxHash inp" "bi_BlockNumber inp' = bi_BlockNumber inp"
    and "bi_BlockHash inp' = bi_BlockHash inp" "bi_Slot inp' = bi_Slot inp"
    and "bi_Epoch inp' = bi_Epoch inp" "bi_Index inp' = bi_Index inp"
  shows "blob_meta_block lib inp' c = blob_meta_block lib inp c"
  using assms by (simp add: blob_meta_block_def metadata_entries_def)

lemma blob_blocks_doc:
  assumes "qp_doc lib" "store_doc lib digest" "block_doc lib"
    and "dagcbor_Encode lib (NMap (metadata_entries inp (Cid linkProtoRaw (digest (bi_Data inp))))) = Inr raw"
  shows "blob_blocks lib inp =
    Inr (\<lparr>br_Commitment = bi_Commitment inp, br_DataCID = Cid linkProtoRaw (digest (bi_Data inp)),
          br_MetaCID = Cid linkProtoDagCBOR (digest raw), br_SizeBytes = go_len (bi_Data inp)\<rparr>,
         [\<lparr>blkCid = Cid linkProtoRaw (digest (bi_Data inp)), blkData = bi_Data inp\<rparr>,
          \<lparr>blkCid = Cid linkProtoDagCBOR (digest raw), blkData = raw\<rparr>])"
  using assms
  by (simp add: blob_blocks_def blob_data_block_def blob_meta_block_def seal_doc qp_doc_def
      EncoderChooser_def linkProtoRaw_def linkProtoDagCBOR_def)

section \<open>Properties\<close>

text \<open>
  Processing a blob succeeds whenever its metadata node can be encoded, and stores exactly what
  it reports: the raw blob is readable under \<^verbatim>\<open>DataCID\<close> (codec raw), the encoded metadata node, with
  its ten fields and the link to the data, is readable under \<^verbatim>\<open>MetaCID\<close> (codec dag-cbor), and
  \<^verbatim>\<open>SizeBytes\<close> is the length of the data.
\<close>

theorem ProcessBlob_stores:
  assumes "qp_doc lib" "store_doc lib digest" "block_doc lib" and "mem_wf m"
    and "dagcbor_Encode lib (NMap (metadata_entries inp (Cid linkProtoRaw (digest (bi_Data inp))))) = Inr raw"
  shows "\<exists>r m'. ProcessBlob lib (BMem m) inp = Inr (r, BMem m') \<and> mem_wf m' \<and>
           br_Commitment r = bi_Commitment inp \<and> br_SizeBytes r = go_len (bi_Data inp) \<and>
           br_DataCID r = Cid linkProtoRaw (digest (bi_Data inp)) \<and>
           br_MetaCID r = Cid linkProtoDagCBOR (digest raw) \<and>
           StorageReadOpener lib (BMem m') (br_DataCID r) = Inr (bi_Data inp) \<and>
           StorageReadOpener lib (BMem m') (br_MetaCID r) = Inr raw"
proof -
  let ?db = "\<lparr>blkCid = Cid linkProtoRaw (digest (bi_Data inp)), blkData = bi_Data inp\<rparr>"
  let ?mb = "\<lparr>blkCid = Cid linkProtoDagCBOR (digest raw), blkData = raw\<rparr>"
  obtain m' where m': "foldl backend_add (BMem m) [?db, ?mb] = BMem m'"
    using foldl_add_Mem by blast
  then have put: "put_all Mem_Put m [?db, ?mb] = Inr m'" by (simp only: put_all_Mem)
  have ne: "linkProtoRaw \<noteq> linkProtoDagCBOR" by (simp add: linkProtoRaw_def linkProtoDagCBOR_def)
  from m' have "backend_wf (BMem m')"
    using backend_wf_foldl [of "BMem m" "[?db, ?mb]"] assms(4) by simp
  then have wf: "mem_wf m'" by simp
  from m' have blks: "mbs_blocks m' = AList.update (blkCid ?mb) ?mb (AList.update (blkCid ?db) ?db (mbs_blocks m))"
    by auto
  have "Mem_Get m' (blkCid ?db) = Inr ?db" "Mem_Get m' (blkCid ?mb) = Inr ?mb"
    using ne by (simp_all add: Mem_Get_def blks update_conv')
  with wf m' ne show ?thesis
    by (auto simp: ProcessBlob_pure blob_blocks_doc [OF assms(1-3,5)] StorageReadOpener_def)
qed

definition demo_blob :: BlobInput where
  "demo_blob =
     \<lparr>bi_Commitment = ''0xc0'', bi_VersionedHash = ''0x01'', bi_TxHash = '''', bi_BlockNumber = 0,
      bi_BlockHash = ''0xb'', bi_Slot = 33, bi_Epoch = 1, bi_Index = 0, bi_Data = [7, 8, 9], bi_Size = 0\<rparr>"

theorem ProcessBlob_stores_witness:
  "\<exists>r m'. ProcessBlob demo_lib (BMem NewMemBlockstore) demo_blob = Inr (r, BMem m') \<and>
     br_SizeBytes r = 3 \<and> StorageReadOpener demo_lib (BMem m') (br_DataCID r) = Inr [7, 8, 9]"
proof -
  have wf: "mem_wf NewMemBlockstore" by (simp add: mem_wf_def NewMemBlockstore_def)
  have enc: "dagcbor_Encode demo_lib (NMap (metadata_entries demo_blob
      (Cid linkProtoRaw (id (bi_Data demo_blob))))) = Inr []"
    by (simp add: demo_lib_def)
  have "go_len (bi_Data demo_blob) = 3" "bi_Data demo_blob = [7, 8, 9]"
    by (simp_all add: demo_blob_def go_len_def)
  then show ?thesis
    using ProcessBlob_stores [OF demo_lib_doc(3,1,2) wf enc] by auto
qed

text \<open>
  The metadata CID of a blob is recomputed without its data: an input that carries the byte
  length in \<^verbatim>\<open>Size\<close> and no data, as the rows of the database are turned into, yields the same
  metadata CID as the freshly fetched blob, for every blob whose length is not a multiple of
  $2^{64}$ (in particular is not empty).
\<close>

theorem StoreBlobMetadata_from_size:
  assumes "bi_Size inp = 0" and "go_len (bi_Data inp) \<noteq> 0"
  shows "StoreBlobMetadata lib bs (inp\<lparr>bi_Data := [], bi_Size := go_len (bi_Data inp)\<rparr>) dataCID =
         StoreBlobMetadata lib bs inp dataCID"
proof -
  have "blob_meta_block lib (inp\<lparr>bi_Data := [], bi_Size := go_len (bi_Data inp)\<rparr>) dataCID =
        blob_meta_block lib inp dataCID"
    using assms by (intro blob_meta_block_cong) (simp_all add: metadata_size_def)
  then show ?thesis by (simp add: StoreBlobMetadata_pure)
qed

theorem StoreBlobMetadata_from_size_witness:
  "StoreBlobMetadata demo_lib BNull (demo_blob\<lparr>bi_Data := [], bi_Size := 3\<rparr>) Undef =
   StoreBlobMetadata demo_lib BNull demo_blob Undef"
proof -
  have len: "go_len (bi_Data demo_blob) = 3" by (simp add: demo_blob_def go_len_def)
  have "bi_Size demo_blob = 0" by (simp add: demo_blob_def)
  then show ?thesis
    using StoreBlobMetadata_from_size [of demo_blob demo_lib BNull Undef] len by simp
qed

end
