(* ===== verification/Epoch.thy ===== *)
theory Epoch
  imports Blob
begin

text \<open>
  \<^verbatim>\<open>builder/epoch.go\<close>: grouping an epoch's blobs by versioned hash, the inline map index, the
  sharded index, and the epoch node.
\<close>

section \<open>The operations\<close>

record occurrence =
  oc_slot :: uint64
  oc_index :: goint
  oc_meta :: cid

record blobGroup =
  bg_versionedHash :: string
  bg_metaCIDs :: "cid list"

text \<open>
  The loop that fills the map from versioned hash to occurrences; \<^verbatim>\<open>results[i]\<close> panics when there
  are fewer results than blobs.
\<close>

fun byHash_loop ::
  "BlobInput list \<Rightarrow> BlobResult list \<Rightarrow> (string \<times> occurrence list) list \<Rightarrow>
   (string \<times> occurrence list) list res" where
  "byHash_loop [] rs m = Inr m"
| "byHash_loop (b # bs) [] m = Inl (GoPanic ''index out of range'')"
| "byHash_loop (b # bs) (r # rs) m =
     (let oc = \<lparr>oc_slot = bi_Slot b, oc_index = bi_Index b, oc_meta = br_MetaCID r\<rparr>
      in byHash_loop bs rs (AList.map_default (bi_VersionedHash b) [oc] (\<lambda>occs. occs @ [oc]) m))"

text \<open>
  The comparison of occurrences: by slot, then by (signed) index. \<^verbatim>\<open>sort.Slice\<close> is not stable, so
  that two occurrences of one hash with the same slot and index (which a chain cannot have) may come
  out in either order; the model takes the order of the input for them, and no property depends on it:
  those that compare results assume that slot and index tell the occurrences of a hash apart.
\<close>

definition occ_key :: "occurrence \<Rightarrow> uint64 \<times> int" where
  "occ_key oc = (oc_slot oc, sint (oc_index oc))"

definition groupByVersionedHash ::
  "BlobInput list \<Rightarrow> BlobResult list \<Rightarrow> blobGroup list res" where
  "groupByVersionedHash blobs results =
     bindR (byHash_loop blobs results [])
       (\<lambda>byHash.
          Inr (sort_key bg_versionedHash
                 (map (\<lambda>(versionedHash, occs).
                         \<lparr>bg_versionedHash = versionedHash, bg_metaCIDs = map oc_meta (sort_key occ_key occs)\<rparr>)
                      byHash)))"

definition appendGroupEntry :: "blobGroup \<Rightarrow> string \<times> ipld_node" where
  "appendGroupEntry g = (bg_versionedHash g, NList (map NLink (bg_metaCIDs g)))"

definition buildMapBlobIndex ::
  "ipld_lib \<Rightarrow> BlobInput list \<Rightarrow> BlobResult list \<Rightarrow> ipld_node res" where
  "buildMapBlobIndex lib blobs results =
     bindR (groupByVersionedHash blobs results)
       (\<lambda>groups. wrapR ''builder: build map blob index''
          (bindR (qp_BuildMap lib (map appendGroupEntry groups))
             (\<lambda>entries. qp_BuildMap lib [(''type'', NString ''map''), (''entries'', entries)])))"

abbreviation shardSize :: nat where
  "shardSize \<equiv> 256"

function hamt_loop ::
  "ipld_lib \<Rightarrow> blockstoreBackend \<Rightarrow> blobGroup list \<Rightarrow> nat \<Rightarrow> cid list \<Rightarrow>
   (cid list \<times> blockstoreBackend) res" where
  "hamt_loop lib bs groups start shardCIDs =
     (if start < length groups then
        let fin = min (start + shardSize) (length groups);
            shard = take (fin - start) (drop start groups)
        in bindR (wrapR ''builder: build hamt shard'' (qp_BuildMap lib (map appendGroupEntry shard)))
             (\<lambda>shardNode.
           bindR (wrapR ''builder: store hamt shard'' (lsys_Store lib bs linkProtoDagCBOR shardNode))
             (\<lambda>(c, bs'). hamt_loop lib bs' groups (start + shardSize) (shardCIDs @ [c])))
      else Inr (shardCIDs, bs))"
  by pat_completeness auto
termination
  by (relation "measure (\<lambda>(lib, bs, groups, start, cs). length groups - start)") auto

declare hamt_loop.simps [simp del]

definition buildHAMTBlobIndex ::
  "ipld_lib \<Rightarrow> blockstoreBackend \<Rightarrow> BlobInput list \<Rightarrow> BlobResult list \<Rightarrow>
   (ipld_node \<times> blockstoreBackend) res" where
  "buildHAMTBlobIndex lib bs blobs results =
     bindR (groupByVersionedHash blobs results)
       (\<lambda>groups.
     bindR (hamt_loop lib bs groups 0 [])
       (\<lambda>(shardCIDs, bs').
     bindR (wrapR ''builder: build hamt root''
              (qp_BuildMap lib
                 [(''type'', NString ''hamt''),
                  (''shardSize'', NInt (int shardSize)),
                  (''shards'', NList (map NLink shardCIDs))]))
       (\<lambda>hamtRoot. Inr (hamtRoot, bs'))))"

definition epoch_entries ::
  "EpochInput \<Rightarrow> BlobResult list \<Rightarrow> string \<Rightarrow> ipld_node \<Rightarrow> (string \<times> ipld_node) list" where
  "epoch_entries inp results network blobsNode =
     [(''epoch'', NInt (sint (ei_Epoch inp))),
      (''slot'', NInt (sint (ei_Slot inp))),
      (''network'', NString network),
      (''approximateSizeBytes'', NInt (sint (sum_list (map br_SizeBytes results)))),
      (''blobCount'', NInt (sint (go_len results))),
      (''blobs'', blobsNode)]"

definition BuildEpochNode ::
  "ipld_lib \<Rightarrow> blockstoreBackend \<Rightarrow> EpochInput \<Rightarrow> BlobResult list \<Rightarrow> string \<Rightarrow> goint \<Rightarrow>
   (EpochResult \<times> blockstoreBackend) res" where
  "BuildEpochNode lib bs inp results network hamtThreshold =
     bindR (wrapR (''builder: epoch '' @ FormatUint (ei_Epoch inp) @ '' blob index'')
              (if sint hamtThreshold \<le> sint (go_len results)
               then buildHAMTBlobIndex lib bs (ei_Blobs inp) results
               else bindR (buildMapBlobIndex lib (ei_Blobs inp) results) (\<lambda>n. Inr (n, bs))))
       (\<lambda>(blobsNode, bs1).
     bindR (wrapR (''builder: build epoch node '' @ FormatUint (ei_Epoch inp))
              (qp_BuildMap lib (epoch_entries inp results network blobsNode)))
       (\<lambda>epochNode.
     bindR (wrapR (''builder: store epoch node '' @ FormatUint (ei_Epoch inp))
              (lsys_Store lib bs1 linkProtoDagCBOR epochNode))
       (\<lambda>(c, bs2).
     Inr (\<lparr>er_Epoch = ei_Epoch inp, er_CID = c, er_CARPath = '''',
           er_ApproximateSizeBytes = sum_list (map br_SizeBytes results)\<rparr>, bs2))))"

section \<open>Grouping\<close>

text \<open>
  The reference for the grouping: the versioned hashes of the epoch in increasing order, each with
  the metadata CIDs of its occurrences in \<open>(slot, index)\<close> order.
\<close>

definition occ_of :: "BlobInput \<times> BlobResult \<Rightarrow> occurrence" where
  "occ_of br = \<lparr>oc_slot = bi_Slot (fst br), oc_index = bi_Index (fst br), oc_meta = br_MetaCID (snd br)\<rparr>"

definition occurrences :: "(BlobInput \<times> BlobResult) list \<Rightarrow> string \<Rightarrow> occurrence list" where
  "occurrences brs h = map occ_of (filter (\<lambda>br. bi_VersionedHash (fst br) = h) brs)"

definition spec_groups :: "(BlobInput \<times> BlobResult) list \<Rightarrow> blobGroup list" where
  "spec_groups brs =
     map (\<lambda>h. \<lparr>bg_versionedHash = h, bg_metaCIDs = map oc_meta (sort_key occ_key (occurrences brs h))\<rparr>)
       (sorted_list_of_set (set (map (bi_VersionedHash \<circ> fst) brs)))"

lemma occurrences_Nil [simp]: "occurrences [] h = []"
  by (simp add: occurrences_def)

lemma occurrences_Cons:
  "occurrences ((b, r) # brs) h =
     (if bi_VersionedHash b = h
      then \<lparr>oc_slot = bi_Slot b, oc_index = bi_Index b, oc_meta = br_MetaCID r\<rparr> # occurrences brs h
      else occurrences brs h)"
  by (simp add: occurrences_def occ_of_def)

lemma occurrences_empty_iff: "occurrences brs h = [] \<longleftrightarrow> h \<notin> (bi_VersionedHash \<circ> fst) ` set brs"
  by (auto simp: occurrences_def filter_empty_conv image_iff)

text \<open>The loop appends each occurrence to what the map already holds for its hash.\<close>

lemma byHash_loop_spec:
  assumes "length bs \<le> length rs" and "distinct (map fst m)"
  shows "\<exists>m'. byHash_loop bs rs m = Inr m' \<and> distinct (map fst m') \<and>
     (\<forall>h. map_of m' h =
        (if map_of m h = None \<and> occurrences (zip bs rs) h = [] then None
         else Some ((case map_of m h of None \<Rightarrow> [] | Some os \<Rightarrow> os) @ occurrences (zip bs rs) h)))"
  using assms
proof (induction bs rs m rule: byHash_loop.induct)
  case (1 rs m)
  then show ?case by (auto split: option.splits)
next
  case (2 b bs m)
  then show ?case by simp
next
  case (3 b bs r rs m)
  let ?oc = "\<lparr>oc_slot = bi_Slot b, oc_index = bi_Index b, oc_meta = br_MetaCID r\<rparr>"
  let ?m = "AList.map_default (bi_VersionedHash b) [?oc] (\<lambda>occs. occs @ [?oc]) m"
  have "distinct (map fst ?m)" by (rule distinct_map_default [OF 3(3)])
  with "3.IH" [OF refl] "3.prems"(1) obtain m' where m': "byHash_loop bs rs ?m = Inr m'" "distinct (map fst m')"
    "\<And>h. map_of m' h = (if map_of ?m h = None \<and> occurrences (zip bs rs) h = [] then None
       else Some ((case map_of ?m h of None \<Rightarrow> [] | Some os \<Rightarrow> os) @ occurrences (zip bs rs) h))"
    by auto
  have "map_of m' h = (if map_of m h = None \<and> occurrences (zip (b # bs) (r # rs)) h = [] then None
       else Some ((case map_of m h of None \<Rightarrow> [] | Some os \<Rightarrow> os) @ occurrences (zip (b # bs) (r # rs)) h))" for h
    by (cases "map_of m h") (auto simp: m'(3) map_of_map_default occurrences_Cons)
  with m'(1,2) show ?case by (auto simp: Let_def)
qed

lemma byHash_loop_entries:
  assumes "length bs \<le> length rs"
  shows "\<exists>m. byHash_loop bs rs [] = Inr m \<and> distinct (map fst m) \<and>
     set m = (\<lambda>h. (h, occurrences (zip bs rs) h)) ` set (map (bi_VersionedHash \<circ> fst) (zip bs rs))"
proof -
  let ?brs = "zip bs rs"
  from byHash_loop_spec [OF assms, of "[]"] obtain m where
    m: "byHash_loop bs rs [] = Inr m" "distinct (map fst m)"
    "\<And>h. map_of m h = (if occurrences ?brs h = [] then None else Some (occurrences ?brs h))"
    by auto
  have "(h, os) \<in> set m \<longleftrightarrow> occurrences ?brs h \<noteq> [] \<and> os = occurrences ?brs h" for h os
    using m(2,3) map_of_eq_Some_iff [OF m(2), of h os] by (auto split: if_splits)
  then have "set m = (\<lambda>h. (h, occurrences ?brs h)) ` set (map (bi_VersionedHash \<circ> fst) ?brs)"
    by (auto simp: occurrences_empty_iff image_iff)
  with m(1,2) show ?thesis by blast
qed

lemma groupBy_eq_spec:
  assumes "length blobs \<le> length results"
  shows "groupByVersionedHash blobs results = Inr (spec_groups (zip blobs results))"
proof -
  let ?brs = "zip blobs results"
  let ?g = "\<lambda>(versionedHash, occs). \<lparr>bg_versionedHash = versionedHash, bg_metaCIDs = map oc_meta (sort_key occ_key occs)\<rparr>"
  obtain m where m: "byHash_loop blobs results [] = Inr m" "distinct (map fst m)"
    "set m = (\<lambda>h. (h, occurrences ?brs h)) ` set (map (bi_VersionedHash \<circ> fst) ?brs)"
    using byHash_loop_entries [OF assms] by blast
  have hs: "map bg_versionedHash (spec_groups ?brs) = sorted_list_of_set (set (map (bi_VersionedHash \<circ> fst) ?brs))"
    by (simp add: spec_groups_def comp_def)
  have keys: "map bg_versionedHash (map ?g m) = map fst m" by (induction m) auto
  have "set (map ?g m) = set (spec_groups ?brs)"
    unfolding set_map m(3) by (force simp: spec_groups_def image_iff)
  moreover have "distinct (map ?g m)" using m(2) keys by (metis distinct_map)
  moreover have "distinct (spec_groups ?brs)"
    using hs by (metis distinct_map distinct_sorted_list_of_set)
  ultimately have "mset (spec_groups ?brs) = mset (map ?g m)"
    using set_eq_iff_mset_eq_distinct [of "spec_groups ?brs" "map ?g m"] by simp
  then have "spec_groups ?brs = sort_key bg_versionedHash (map ?g m)"
  proof (rule sort_key_unique)
    show "sorted (map bg_versionedHash (spec_groups ?brs))" by (simp add: hs)
    show "distinct (map bg_versionedHash (map ?g m))" by (simp only: keys m(2))
  qed
  with m(1) show ?thesis by (simp add: groupByVersionedHash_def)
qed

lemma spec_groups_hashes:
  "map bg_versionedHash (spec_groups brs) = sorted_list_of_set (set (map (bi_VersionedHash \<circ> fst) brs))"
  by (simp add: spec_groups_def comp_def)

lemma spec_groups_distinct [simp]: "distinct (map bg_versionedHash (spec_groups brs))"
  by (simp add: spec_groups_hashes)

section \<open>The pure part\<close>

text \<open>Consecutive runs of at most 256 groups.\<close>

function shards_of :: "'a list \<Rightarrow> 'a list list" where
  "shards_of gs = (if gs = [] then [] else take shardSize gs # shards_of (drop shardSize gs))"
  by pat_completeness auto
termination
  by (relation "measure length") auto

declare shards_of.simps [simp del]

lemma shards_of_Nil [simp]: "shards_of [] = []"
  by (simp add: shards_of.simps)

definition shard_block :: "ipld_lib \<Rightarrow> blobGroup list \<Rightarrow> (cid \<times> block) res" where
  "shard_block lib shard =
     bindR (wrapR ''builder: build hamt shard'' (qp_BuildMap lib (map appendGroupEntry shard)))
       (\<lambda>shardNode. wrapR ''builder: store hamt shard'' (sealBlock lib linkProtoDagCBOR shardNode))"

definition index_blocks ::
  "ipld_lib \<Rightarrow> blobGroup list \<Rightarrow> bool \<Rightarrow> (ipld_node \<times> block list) res" where
  "index_blocks lib groups hamt =
     (if hamt
      then bindR (mapR (shard_block lib) (shards_of groups))
             (\<lambda>cbs. bindR (wrapR ''builder: build hamt root''
                (qp_BuildMap lib
                   [(''type'', NString ''hamt''), (''shardSize'', NInt (int shardSize)),
                    (''shards'', NList (map NLink (map fst cbs)))]))
                (\<lambda>n. Inr (n, map snd cbs)))
      else wrapR ''builder: build map blob index''
             (bindR (qp_BuildMap lib (map appendGroupEntry groups))
                (\<lambda>entries. bindR (qp_BuildMap lib [(''type'', NString ''map''), (''entries'', entries)])
                   (\<lambda>n. Inr (n, [])))))"

definition epoch_blocks ::
  "ipld_lib \<Rightarrow> EpochInput \<Rightarrow> BlobResult list \<Rightarrow> string \<Rightarrow> goint \<Rightarrow> (EpochResult \<times> block list) res" where
  "epoch_blocks lib inp results network hamtThreshold =
     bindR (wrapR (''builder: epoch '' @ FormatUint (ei_Epoch inp) @ '' blob index'')
              (bindR (groupByVersionedHash (ei_Blobs inp) results)
                 (\<lambda>groups. index_blocks lib groups (sint hamtThreshold \<le> sint (go_len results)))))
       (\<lambda>(blobsNode, blks).
     bindR (wrapR (''builder: build epoch node '' @ FormatUint (ei_Epoch inp))
              (qp_BuildMap lib (epoch_entries inp results network blobsNode)))
       (\<lambda>epochNode.
     bindR (wrapR (''builder: store epoch node '' @ FormatUint (ei_Epoch inp))
              (sealBlock lib linkProtoDagCBOR epochNode))
       (\<lambda>(c, blk).
     Inr (\<lparr>er_Epoch = ei_Epoch inp, er_CID = c, er_CARPath = '''',
           er_ApproximateSizeBytes = sum_list (map br_SizeBytes results)\<rparr>, blks @ [blk]))))"

lemma hamt_loop_pure:
  "hamt_loop lib bs groups start cs =
     bindR (mapR (shard_block lib) (shards_of (drop start groups)))
       (\<lambda>cbs. Inr (cs @ map fst cbs, foldl backend_add bs (map snd cbs)))"
proof (induction lib bs groups start cs rule: hamt_loop.induct)
  case (1 lib bs groups start cs)
  show ?case
  proof (cases "start < length groups")
    case False
    then show ?thesis by (simp add: hamt_loop.simps [of lib bs groups start cs])
  next
    case True
    let ?shard = "take shardSize (drop start groups)"
    have shard: "take (min (start + shardSize) (length groups) - start) (drop start groups) = ?shard"
      using True by (cases "start + shardSize \<le> length groups") simp_all
    have shs: "shards_of (drop start groups) = ?shard # shards_of (drop (start + shardSize) groups)"
      using True shards_of.simps [of "drop start groups"] by (simp add: add.commute)
    note eq = hamt_loop.simps [of lib bs groups start cs, unfolded Let_def shard]
    note IH = "1.IH" [OF True refl refl, unfolded shard]
    show ?thesis
    proof (cases "qp_BuildMap lib (map appendGroupEntry ?shard)")
      case (Inl e)
      with True show ?thesis by (simp add: eq shs shard_block_def)
    next
      case (Inr n)
      note n = this
      show ?thesis
      proof (cases "sealBlock lib linkProtoDagCBOR n")
        case (Inl e)
        with True n show ?thesis by (simp add: eq shs shard_block_def lsys_Store_seal)
      next
        case (Inr cb)
        obtain c b where cb: "cb = (c, b)" by (cases cb)
        have "lsys_Store lib bs linkProtoDagCBOR n = Inr (c, backend_add bs b)"
          using Inr cb by (simp add: lsys_Store_seal)
        moreover have "shard_block lib ?shard = Inr (c, b)"
          using n Inr cb by (simp add: shard_block_def)
        ultimately show ?thesis
          using IH n True
          by (cases "mapR (shard_block lib) (shards_of (drop (start + shardSize) groups))")
            (simp_all add: eq shs)
      qed
    qed
  qed
qed

lemma BuildEpochNode_pure:
  "BuildEpochNode lib bs inp results network thr =
     bindR (epoch_blocks lib inp results network thr)
       (\<lambda>(r, blks). Inr (r, foldl backend_add bs blks))"
proof (cases "groupByVersionedHash (ei_Blobs inp) results")
  case (Inl e)
  then show ?thesis
    by (simp add: BuildEpochNode_def epoch_blocks_def buildHAMTBlobIndex_def buildMapBlobIndex_def)
next
  case (Inr groups)
  let ?hamt = "sint thr \<le> sint (go_len results)"
  have idx: "(if ?hamt then buildHAMTBlobIndex lib bs (ei_Blobs inp) results
        else bindR (buildMapBlobIndex lib (ei_Blobs inp) results) (\<lambda>n. Inr (n, bs))) =
      bindR (index_blocks lib groups ?hamt) (\<lambda>(n, blks). Inr (n, foldl backend_add bs blks))"
  proof (cases ?hamt)
    case True
    with Inr show ?thesis
      by (simp add: buildHAMTBlobIndex_def index_blocks_def hamt_loop_pure bindR_def wrapR_def split: sum.splits)
  next
    case False
    with Inr show ?thesis
      by (simp add: buildMapBlobIndex_def index_blocks_def bindR_def wrapR_def split: sum.splits)
  qed
  show ?thesis
    unfolding BuildEpochNode_def epoch_blocks_def idx Inr
    by (simp add: lsys_Store_seal bindR_def wrapR_def split: sum.splits prod.splits)
qed

section \<open>Facts for the properties\<close>

lemma byHash_loop_panic: "length rs < length bs \<Longrightarrow> byHash_loop bs rs m = Inl (GoPanic ''index out of range'')"
  by (induction bs rs m rule: byHash_loop.induct) (auto simp: Let_def)

lemma mset_filter_hashes:
  assumes "finite H" and "(bi_VersionedHash \<circ> fst) ` set brs \<subseteq> H"
  shows "(\<Sum>h\<in>H. mset (filter (\<lambda>br. bi_VersionedHash (fst br) = h) brs)) = mset brs"
  using assms(2)
proof (induction brs)
  case Nil
  then show ?case by simp
next
  case (Cons br brs)
  let ?v = "bi_VersionedHash (fst br)"
  have "(\<Sum>h\<in>H. mset (filter (\<lambda>x. bi_VersionedHash (fst x) = h) (br # brs))) =
        (\<Sum>h\<in>H. (if ?v = h then {#br#} else {#}) + mset (filter (\<lambda>x. bi_VersionedHash (fst x) = h) brs))"
    by (rule sum.cong) auto
  also have "\<dots> = (\<Sum>h\<in>H. if ?v = h then {#br#} else {#}) + mset brs"
    using Cons by (simp add: sum.distrib)
  also have "(\<Sum>h\<in>H. if ?v = h then {#br#} else {#}) = {#br#}"
    using assms(1) Cons.prems by simp
  finally show ?case by simp
qed

lemma sum_sorted_list:
  fixes f :: "'a::linorder \<Rightarrow> 'b multiset"
  shows "finite H \<Longrightarrow> sum_list (map f (sorted_list_of_set H)) = (\<Sum>h\<in>H. f h)"
  by (metis distinct_sorted_list_of_set set_sorted_list_of_set sum.distinct_set_conv_list)

lemma image_mset_sum_set: "finite H \<Longrightarrow> image_mset f (\<Sum>h\<in>H. g h) = (\<Sum>h\<in>H. image_mset f (g h))"
  by (induction H rule: finite_induct) auto

definition group_pairs :: "blobGroup list \<Rightarrow> (string \<times> cid) list" where
  "group_pairs gs = concat (map (\<lambda>g. map (Pair (bg_versionedHash g)) (bg_metaCIDs g)) gs)"

lemma mset_occ_metas:
  "mset (map (Pair h) (map oc_meta (sort_key occ_key (occurrences brs h)))) =
   image_mset (\<lambda>br. (bi_VersionedHash (fst br), br_MetaCID (snd br)))
     (mset (filter (\<lambda>br. bi_VersionedHash (fst br) = h) brs))"
proof -
  have "mset (map (Pair h) (map oc_meta (sort_key occ_key (occurrences brs h)))) =
        image_mset (Pair h \<circ> oc_meta) (mset (occurrences brs h))"
    by (simp add: multiset.map_comp)
  also have "\<dots> = image_mset (\<lambda>br. (h, br_MetaCID (snd br))) (mset (filter (\<lambda>br. bi_VersionedHash (fst br) = h) brs))"
    by (simp add: occurrences_def occ_of_def multiset.map_comp comp_def)
  also have "\<dots> = image_mset (\<lambda>br. (bi_VersionedHash (fst br), br_MetaCID (snd br)))
      (mset (filter (\<lambda>br. bi_VersionedHash (fst br) = h) brs))"
    by (rule image_mset_cong) auto
  finally show ?thesis .
qed

lemma mset_concat_map: "mset (concat xss) = sum_list (map mset xss)"
  by (induction xss) auto

lemma spec_groups_pairs:
  "mset (group_pairs (spec_groups brs)) =
   mset (map (\<lambda>br. (bi_VersionedHash (fst br), br_MetaCID (snd br))) brs)"
proof -
  let ?H = "set (map (bi_VersionedHash \<circ> fst) brs)"
  let ?p = "\<lambda>br. (bi_VersionedHash (fst br), br_MetaCID (snd br))"
  have "mset (group_pairs (spec_groups brs)) =
        sum_list (map (\<lambda>h. mset (map (Pair h) (map oc_meta (sort_key occ_key (occurrences brs h))))) (sorted_list_of_set ?H))"
    by (simp add: group_pairs_def spec_groups_def mset_concat_map comp_def)
  also have "\<dots> = (\<Sum>h\<in>?H. image_mset ?p (mset (filter (\<lambda>br. bi_VersionedHash (fst br) = h) brs)))"
    by (simp only: mset_occ_metas sum_sorted_list [OF finite_set])
  also have "\<dots> = image_mset ?p (\<Sum>h\<in>?H. mset (filter (\<lambda>br. bi_VersionedHash (fst br) = h) brs))"
    by (rule image_mset_sum_set [symmetric]) simp
  also have "\<dots> = mset (map ?p brs)"
    using mset_filter_hashes [of ?H brs] by simp
  finally show ?thesis .
qed

text \<open>Blobs of one hash that differ in slot or index determine the order of their group.\<close>

definition occ_id :: "BlobInput \<times> BlobResult \<Rightarrow> string \<times> uint64 \<times> int" where
  "occ_id br = (bi_VersionedHash (fst br), bi_Slot (fst br), sint (bi_Index (fst br)))"

lemma occurrences_keys_distinct:
  assumes "distinct (map occ_id brs)"
  shows "distinct (map occ_key (occurrences brs h))"
proof -
  let ?bs = "filter (\<lambda>br. bi_VersionedHash (fst br) = h) brs"
  have "distinct (map occ_id ?bs)"
    using assms by (rule distinct_map_filter)
  moreover have "map occ_id ?bs = map (Pair h) (map occ_key (occurrences brs h))"
    by (simp add: occurrences_def occ_id_def occ_key_def occ_of_def)
  ultimately show ?thesis by (simp only: distinct_map)
qed

lemma spec_groups_perm:
  assumes "mset brs' = mset brs" and "distinct (map occ_id brs)"
  shows "spec_groups brs' = spec_groups brs"
proof -
  have sets: "set (map (bi_VersionedHash \<circ> fst) brs') = set (map (bi_VersionedHash \<circ> fst) brs)"
    using assms(1) by (metis mset_map set_mset_mset)
  have "sort_key occ_key (occurrences brs' h) = sort_key occ_key (occurrences brs h)" for h
  proof (rule sort_key_perm)
    show "mset (occurrences brs' h) = mset (occurrences brs h)"
      using assms(1) by (simp add: occurrences_def)
    show "distinct (map occ_key (occurrences brs h))"
      by (rule occurrences_keys_distinct [OF assms(2)])
  qed
  then show ?thesis unfolding spec_groups_def sets by simp
qed

lemma shards_of_props:
  "concat (shards_of gs) = gs \<and> (\<forall>s \<in> set (shards_of gs). s \<noteq> [] \<and> length s \<le> shardSize) \<and>
   length (shards_of gs) = (length gs + (shardSize - 1)) div shardSize"
proof (induction gs rule: shards_of.induct)
  case (1 gs)
  show ?case
  proof (cases "gs = []")
    case True
    then show ?thesis by simp
  next
    case False
    have eq: "shards_of gs = take shardSize gs # shards_of (drop shardSize gs)"
      using False shards_of.simps [of gs] by simp
    have IH: "concat (shards_of (drop shardSize gs)) = drop shardSize gs"
      "\<forall>s \<in> set (shards_of (drop shardSize gs)). s \<noteq> [] \<and> length s \<le> shardSize"
      "length (shards_of (drop shardSize gs)) = (length gs - shardSize + (shardSize - 1)) div shardSize"
      using "1.IH" [OF False] by simp_all
    have "Suc ((length gs - shardSize + (shardSize - 1)) div shardSize) = (length gs + (shardSize - 1)) div shardSize"
      using False by (cases "shardSize \<le> length gs") (auto simp: neq_Nil_conv div_eq_dividend_iff)
    with IH False show ?thesis by (simp add: eq)
  qed
qed

text \<open>What the epoch node depends on: hash, slot, index, metadata CID and size of each blob.\<close>

definition canon :: "BlobInput \<times> BlobResult \<Rightarrow> BlobInput \<times> BlobResult" where
  "canon br =
     (\<lparr>bi_Commitment = '''', bi_VersionedHash = bi_VersionedHash (fst br), bi_TxHash = '''', bi_BlockNumber = 0, bi_BlockHash = '''',
       bi_Slot = bi_Slot (fst br), bi_Epoch = 0, bi_Index = bi_Index (fst br), bi_Data = [], bi_Size = 0\<rparr>,
      zeroBlobResult\<lparr>br_MetaCID := br_MetaCID (snd br), br_SizeBytes := br_SizeBytes (snd br)\<rparr>)"

lemma canon_fields [simp]:
  "bi_VersionedHash (fst (canon br)) = bi_VersionedHash (fst br)" "occ_of (canon br) = occ_of br"
  "br_SizeBytes (snd (canon br)) = br_SizeBytes (snd br)" "occ_id (canon br) = occ_id br"
  by (simp_all add: canon_def occ_of_def occ_id_def)

lemma spec_groups_canon: "spec_groups (map canon brs) = spec_groups brs"
proof -
  have "occurrences (map canon brs) h = occurrences brs h" for h
    by (simp add: occurrences_def filter_map comp_def)
  then show ?thesis by (simp add: spec_groups_def image_image)
qed

lemma sum_sizes_zip:
  assumes "length blobs = length results"
  shows "sum_list (map br_SizeBytes results) = sum_mset (image_mset (br_SizeBytes \<circ> snd) (mset (map canon (zip blobs results))))"
proof -
  have "sum_mset (image_mset (br_SizeBytes \<circ> snd) (mset (map canon (zip blobs results)))) =
        sum_list (map br_SizeBytes (map snd (zip blobs results)))"
    by (simp add: comp_def image_mset.compositionality flip: sum_mset_sum_list)
  then show ?thesis by (simp add: assms)
qed

lemma BuildEpochNode_cong:
  assumes "length (ei_Blobs inp) = length results" and "length (ei_Blobs inp') = length results'"
    and "mset (map canon (zip (ei_Blobs inp') results')) = mset (map canon (zip (ei_Blobs inp) results))"
    and "distinct (map occ_id (zip (ei_Blobs inp) results))"
    and "ei_Epoch inp' = ei_Epoch inp" "ei_Slot inp' = ei_Slot inp"
  shows "BuildEpochNode lib bs inp' results' network thr = BuildEpochNode lib bs inp results network thr"
proof -
  let ?z' = "zip (ei_Blobs inp') results'" and ?z = "zip (ei_Blobs inp) results"
  have "distinct (map occ_id (map canon ?z))" using assms(4) by (simp add: comp_def)
  from spec_groups_perm [OF assms(3) this] have "spec_groups ?z' = spec_groups ?z" by (simp add: spec_groups_canon)
  then have groups: "groupByVersionedHash (ei_Blobs inp') results' = groupByVersionedHash (ei_Blobs inp) results"
    by (simp add: groupBy_eq_spec assms(1,2))
  have "sum_list (map br_SizeBytes results') = sum_list (map br_SizeBytes results)"
    unfolding sum_sizes_zip [OF assms(1)] sum_sizes_zip [OF assms(2)] assms(3) ..
  moreover have "length results' = length results" using mset_eq_length [OF assms(3)] assms(1,2) by simp
  moreover from this have "go_len results' = go_len results" by (simp add: go_len_def)
  ultimately show ?thesis
    by (simp add: BuildEpochNode_pure epoch_blocks_def groups epoch_entries_def assms(5,6))
qed

lemma groupBy_distinct:
  assumes "groupByVersionedHash blobs results = Inr groups"
  shows "distinct (map bg_versionedHash groups)"
proof (cases "length blobs \<le> length results")
  case True
  then show ?thesis using assms by (auto simp: groupBy_eq_spec)
next
  case False
  then show ?thesis using assms by (simp add: groupByVersionedHash_def byHash_loop_panic)
qed

lemma buildHAMTBlobIndex_pure:
  "buildHAMTBlobIndex lib bs blobs results =
     bindR (groupByVersionedHash blobs results) (\<lambda>groups. bindR (index_blocks lib groups True)
       (\<lambda>(n, blks). Inr (n, foldl backend_add bs blks)))"
  by (cases "groupByVersionedHash blobs results")
    (simp_all add: buildHAMTBlobIndex_def index_blocks_def hamt_loop_pure bindR_def wrapR_def split: sum.splits)

text \<open>The node of a run of groups: each hash with the links of its CIDs.\<close>

definition groups_node :: "blobGroup list \<Rightarrow> ipld_node" where
  "groups_node gs = NMap (map (\<lambda>g. (bg_versionedHash g, NList (map NLink (bg_metaCIDs g)))) gs)"

lemma groups_node_build:
  assumes "qp_doc lib" and "distinct (map bg_versionedHash gs)"
  shows "qp_BuildMap lib (map appendGroupEntry gs) = Inr (groups_node gs)"
proof -
  have "map appendGroupEntry gs = map (\<lambda>g. (bg_versionedHash g, NList (map NLink (bg_metaCIDs g)))) gs"
    by (simp add: appendGroupEntry_def)
  moreover have "distinct (map fst (map appendGroupEntry gs))"
    using assms(2) by (simp add: appendGroupEntry_def comp_def)
  ultimately show ?thesis using qp_docD [OF assms(1)] unfolding groups_node_def by metis
qed

lemma hamt_index_shape:
  assumes "qp_doc lib" and d: "distinct (map bg_versionedHash groups)"
    and "index_blocks lib groups True = Inr (root, blks)"
  shows "\<exists>cbs. blks = map snd cbs \<and>
     root = NMap [(''type'', NString ''hamt''), (''shardSize'', NInt 256), (''shards'', NList (map NLink (map fst cbs)))] \<and>
     list_all2 (\<lambda>s cb. sealBlock lib linkProtoDagCBOR (groups_node s) = Inr cb) (shards_of groups) cbs"
proof -
  from assms(3) obtain cbs where
    cbs: "mapR (shard_block lib) (shards_of groups) = Inr cbs" and blks: "blks = map snd cbs"
    and root: "qp_BuildMap lib [(''type'', NString ''hamt''), (''shardSize'', NInt (int shardSize)),
                 (''shards'', NList (map NLink (map fst cbs)))] = Inr root"
    by (auto simp: index_blocks_def bindR_eq_Inr)
  have ok: "qp_BuildMap lib (map appendGroupEntry s) = Inr (groups_node s)"
    if "s \<in> set (shards_of groups)" for s
  proof -
    have "distinct (map bg_versionedHash (concat (shards_of groups)))" using shards_of_props [of groups] d by simp
    with that have "distinct (map bg_versionedHash s)"
      by (metis distinct_concat_iff map_concat image_eqI set_map)
    with assms(1) show ?thesis by (rule groups_node_build)
  qed
  have "list_all2 (\<lambda>s cb. shard_block lib s = Inr cb) (shards_of groups) cbs"
    using cbs by (simp add: mapR_eq_Inr)
  then have "list_all2 (\<lambda>s cb. sealBlock lib linkProtoDagCBOR (groups_node s) = Inr cb) (shards_of groups) cbs"
    by (rule list.rel_mono_strong) (auto simp: shard_block_def bindR_eq_Inr ok)
  moreover have "root = NMap [(''type'', NString ''hamt''), (''shardSize'', NInt 256), (''shards'', NList (map NLink (map fst cbs)))]"
    using root assms(1) by (simp add: qp_doc_def)
  ultimately show ?thesis using blks by blast
qed

lemma map_index_shape:
  assumes "qp_doc lib" and "distinct (map bg_versionedHash groups)"
    and "index_blocks lib groups False = Inr (idx, blks)"
  shows "blks = [] \<and> idx = NMap [(''type'', NString ''map''), (''entries'', groups_node groups)]"
  using assms(3) groups_node_build [OF assms(1,2)] assms(1)
  by (auto simp: index_blocks_def bindR_eq_Inr qp_doc_def)

lemma foldl_add_readable:
  assumes "block_doc lib" "mem_wf m" "foldl backend_add (BMem m) blks = BMem m'"
    and "sealBlock lib p n = Inr (c, blk)" "blk \<in> set blks"
  shows "mem_wf m' \<and> isOk (Mem_Get m' c)"
proof -
  have put: "put_all Mem_Put m blks = Inr m'" using assms(3) by (simp add: put_all_Mem)
  have "mem_wf m'" using mem_bs.put_all_total [OF assms(2), of blks] put by simp
  moreover have "isOk (Mem_Get m' (blkCid blk))" using mem_bs.put_all_has [OF assms(2) put assms(5)] .
  ultimately show ?thesis using seal_cid [OF assms(1,4)] by simp
qed

lemma exact_sizes:
  assumes "length results < 2 ^ 46" and "\<forall>br \<in> set results. br_SizeBytes br = 131072"
  shows "sint (sum_list (map br_SizeBytes results)) = 131072 * int (length results) \<and>
         sint (go_len results) = int (length results)"
proof -
  have sizes: "map br_SizeBytes results = replicate (length results) 131072"
    using assms(2) by (metis map_replicate_const map_cong)
  have "unat (sum_list (map br_SizeBytes results)) = sum_list (map unat (map br_SizeBytes results)) \<and>
        sum_list (map unat (map br_SizeBytes results)) \<le> length (map br_SizeBytes results) * 131072"
    using assms(1) by (intro sum_list_word_bound) (simp_all add: sizes)
  then have "unat (sum_list (map br_SizeBytes results)) = length results * 131072"
    by (simp add: sizes sum_list_replicate)
  then have "sint (sum_list (map br_SizeBytes results)) = 131072 * int (length results)"
    using assms(1) by (simp add: sint_eq_unat)
  moreover have "sint (go_len results) = int (length results)" using assms(1) by (intro sint_go_len) simp
  ultimately show ?thesis ..
qed

text \<open>
  What an arrangement of occurrences \<open>(slot, index, metadata CID)\<close> is, independently of how the
  code compares and sorts: the same occurrences with multiplicity, by slot and within a slot by index.
\<close>

definition arranged :: "(uint64 \<times> int \<times> cid) list \<Rightarrow> (uint64 \<times> int \<times> cid) list \<Rightarrow> bool" where
  "arranged arr occs \<longleftrightarrow>
     mset arr = mset occs \<and>
     sorted_wrt (\<lambda>(s, i, _) (s', i', _). unat s < unat s' \<or> s = s' \<and> i \<le> i') arr"

definition triples :: "(BlobInput \<times> BlobResult) list \<Rightarrow> string \<Rightarrow> (uint64 \<times> int \<times> cid) list" where
  "triples brs h =
     map (\<lambda>(b, r). (bi_Slot b, sint (bi_Index b), br_MetaCID r)) (filter (\<lambda>(b, r). bi_VersionedHash b = h) brs)"

lemma triples_occurrences: "triples brs h = map (\<lambda>oc. (oc_slot oc, sint (oc_index oc), oc_meta oc)) (occurrences brs h)"
  by (simp add: triples_def occurrences_def occ_of_def case_prod_unfold comp_def)

lemma arranged_sort:
  "arranged (map (\<lambda>oc. (oc_slot oc, sint (oc_index oc), oc_meta oc)) (sort_key occ_key (occurrences brs h))) (triples brs h) \<and>
   map oc_meta (sort_key occ_key (occurrences brs h)) =
     map (\<lambda>(_, _, c). c) (map (\<lambda>oc. (oc_slot oc, sint (oc_index oc), oc_meta oc)) (sort_key occ_key (occurrences brs h)))"
proof -
  have "sorted_wrt (\<lambda>x y. occ_key x \<le> occ_key y) (sort_key occ_key (occurrences brs h))"
    using sorted_sort_key [of occ_key "occurrences brs h"] by (simp add: sorted_map)
  then have "sorted_wrt (\<lambda>x y. unat (oc_slot x) < unat (oc_slot y) \<or>
      oc_slot x = oc_slot y \<and> sint (oc_index x) \<le> sint (oc_index y)) (sort_key occ_key (occurrences brs h))"
    by (rule sorted_wrt_mono_rel [rotated])
      (auto simp: occ_key_def word_less_nat_alt order.order_iff_strict [where 'a = uint64])
  then show ?thesis by (simp add: arranged_def triples_occurrences sorted_wrt_map)
qed

lemma arranged_unique:
  assumes "arranged arr occs" and "arranged arr' occs" and "distinct (map (\<lambda>(s, i, _). (s, i)) occs)"
  shows "arr' = arr"
proof -
  let ?k = "\<lambda>(s :: uint64, i :: int, _ :: cid). (s, i)"
  have sorted: "sorted (map ?k xs)" if "arranged xs occs" for xs
    using that unfolding arranged_def sorted_map
    by (auto elim!: sorted_wrt_mono_rel [rotated] simp: word_less_nat_alt)
  have "arr = sort_key ?k occs"
    by (rule sort_key_unique) (use assms sorted in \<open>auto simp: arranged_def\<close>)
  moreover have "arr' = sort_key ?k occs"
    by (rule sort_key_unique) (use assms sorted in \<open>auto simp: arranged_def\<close>)
  ultimately show ?thesis by simp
qed

definition demo_result :: BlobResult where
  "demo_result = \<lparr>br_Commitment = ''0xc0'', br_DataCID = Undef, br_MetaCID = Cid linkProtoDagCBOR [1], br_SizeBytes = 3\<rparr>"

section \<open>Properties\<close>

text \<open>
  C6. The grouping, stated without the code's sort: the hashes of the groups are the versioned hashes
  that occur, in strictly increasing byte order; the CIDs of a group are the metadata CIDs of an
  arrangement of exactly the occurrences (slot, index, metadata CID) of that hash, with multiplicity,
  in which an earlier occurrence has the smaller slot or the same slot and an index that is not
  larger; and when no two occurrences of the hash agree in slot and index there is only one such
  arrangement, so that the result is the one of any sorting routine, stable or not. With fewer
  results than blobs the indexing \<^verbatim>\<open>results[i]\<close> panics.
\<close>

theorem groupByVersionedHash_correct:
  "if length blobs \<le> length results
   then \<exists>groups. groupByVersionedHash blobs results = Inr groups \<and>
     sorted_wrt (<) (map bg_versionedHash groups) \<and>
     set (map bg_versionedHash groups) = set (map bi_VersionedHash blobs) \<and>
     (\<forall>g \<in> set groups.
        let occs = map (\<lambda>(b, r). (bi_Slot b, sint (bi_Index b), br_MetaCID r))
                     (filter (\<lambda>(b, r). bi_VersionedHash b = bg_versionedHash g) (zip blobs results))
        in \<exists>arr. arranged arr occs \<and> bg_metaCIDs g = map (\<lambda>(_, _, c). c) arr \<and>
             (distinct (map (\<lambda>(s, i, _). (s, i)) occs) \<longrightarrow> (\<forall>arr'. arranged arr' occs \<longrightarrow> arr' = arr)))
   else groupByVersionedHash blobs results = Inl (GoPanic ''index out of range'')"
proof (cases "length blobs \<le> length results")
  case True
  let ?brs = "zip blobs results"
  have m: "map (bi_VersionedHash \<circ> fst) ?brs = map bi_VersionedHash blobs"
    using True by (metis map_map map_fst_zip_take min.absorb1 take_all_iff order_refl)
  have "\<exists>arr. arranged arr (triples ?brs h) \<and> map oc_meta (sort_key occ_key (occurrences ?brs h)) = map (\<lambda>(_, _, c). c) arr \<and>
          (distinct (map (\<lambda>(s, i, _). (s, i)) (triples ?brs h)) \<longrightarrow> (\<forall>arr'. arranged arr' (triples ?brs h) \<longrightarrow> arr' = arr))" for h
    using arranged_sort [of ?brs h] arranged_unique by blast
  then have "\<forall>g \<in> set (spec_groups ?brs). \<exists>arr. arranged arr (triples ?brs (bg_versionedHash g)) \<and>
      bg_metaCIDs g = map (\<lambda>(_, _, c). c) arr \<and>
      (distinct (map (\<lambda>(s, i, _). (s, i)) (triples ?brs (bg_versionedHash g))) \<longrightarrow>
         (\<forall>arr'. arranged arr' (triples ?brs (bg_versionedHash g)) \<longrightarrow> arr' = arr))"
    unfolding spec_groups_def by simp
  moreover have "sorted_wrt (<) (map bg_versionedHash (spec_groups ?brs))"
    by (simp add: spec_groups_hashes)
  moreover have "set (map bg_versionedHash (spec_groups ?brs)) = set (map bi_VersionedHash blobs)"
    unfolding spec_groups_hashes m by simp
  ultimately show ?thesis
    using True by (simp only: groupBy_eq_spec if_True Let_def triples_def [symmetric]) blast
next
  case False
  then show ?thesis by (simp add: groupByVersionedHash_def byHash_loop_panic)
qed

theorem groupByVersionedHash_correct_witness:
  "\<exists>groups. groupByVersionedHash
      [demo_blob\<lparr>bi_Slot := 40\<rparr>, demo_blob\<lparr>bi_VersionedHash := ''0x00''\<rparr>, demo_blob]
      [demo_result, demo_result, demo_result\<lparr>br_MetaCID := Cid linkProtoDagCBOR [2]\<rparr>] = Inr groups \<and>
     sorted_wrt (<) (map bg_versionedHash groups) \<and>
     set (map bg_versionedHash groups) = {''0x00'', ''0x01''} \<and>
     (\<forall>g \<in> set groups. bg_versionedHash g = ''0x01'' \<longrightarrow>
        bg_metaCIDs g = [Cid linkProtoDagCBOR [2], Cid linkProtoDagCBOR [1]])"
proof -
  let ?bs = "[demo_blob\<lparr>bi_Slot := 40\<rparr>, demo_blob\<lparr>bi_VersionedHash := ''0x00''\<rparr>, demo_blob]"
  let ?rs = "[demo_result, demo_result, demo_result\<lparr>br_MetaCID := Cid linkProtoDagCBOR [2]\<rparr>]"
  let ?arr = "[(33, 0, Cid linkProtoDagCBOR [2]), (40, 0, Cid linkProtoDagCBOR [1])] :: (uint64 \<times> int \<times> cid) list"
  let ?occs = "\<lambda>h. map (\<lambda>(b, r). (bi_Slot b, sint (bi_Index b), br_MetaCID r))
      (filter (\<lambda>(b, r). bi_VersionedHash b = h) (zip ?bs ?rs))"
  have occs: "?occs ''0x01'' =
      [(40, 0, Cid linkProtoDagCBOR [1]), (33, 0, Cid linkProtoDagCBOR [2])]"
    by (simp add: demo_blob_def demo_result_def)
  have arr: "arranged ?arr [(40, 0, Cid linkProtoDagCBOR [1]), (33, 0, Cid linkProtoDagCBOR [2])]"
    by (simp add: arranged_def)
  have hs: "set (map bi_VersionedHash ?bs) = {''0x00'', ''0x01''}" by (auto simp: demo_blob_def)
  have "length ?bs \<le> length ?rs" by simp
  from groupByVersionedHash_correct [of ?bs ?rs, unfolded if_P [OF this] hs Let_def]
  obtain groups where g: "groupByVersionedHash ?bs ?rs = Inr groups"
    "sorted_wrt (<) (map bg_versionedHash groups)" "set (map bg_versionedHash groups) = {''0x00'', ''0x01''}"
    and each: "\<forall>g \<in> set groups. \<exists>arr. arranged arr (?occs (bg_versionedHash g)) \<and>
        bg_metaCIDs g = map (\<lambda>(_, _, c). c) arr \<and>
        (distinct (map (\<lambda>(s, i, _). (s, i)) (?occs (bg_versionedHash g))) \<longrightarrow>
           (\<forall>arr'. arranged arr' (?occs (bg_versionedHash g)) \<longrightarrow> arr' = arr))"
    by (elim exE conjE) (rule that)
  have "bg_metaCIDs g = map (\<lambda>(_, _, c). c) ?arr" if "g \<in> set groups" "bg_versionedHash g = ''0x01''" for g
    using each [rule_format, OF that(1)] arr unfolding that(2) occs by auto
  with g show ?thesis by auto
qed

text \<open>
  No occurrence is dropped or duplicated by the index: the pairs of versioned hash and metadata
  CID listed by the groups are, with multiplicity, exactly those of the epoch's blobs, so a blob that
  appears several times in an epoch is listed as often.
\<close>

theorem groups_keep_occurrences:
  assumes "groupByVersionedHash blobs results = Inr groups"
  shows "mset (group_pairs groups) =
         mset (map (\<lambda>(b, r). (bi_VersionedHash b, br_MetaCID r)) (zip blobs results))"
proof -
  have "length blobs \<le> length results"
    using assms byHash_loop_panic [of results blobs "[]"]
    by (cases "length blobs \<le> length results") (auto simp: groupByVersionedHash_def)
  with assms have "groups = spec_groups (zip blobs results)" by (simp add: groupBy_eq_spec)
  then show ?thesis by (simp add: spec_groups_pairs case_prod_unfold)
qed

theorem groups_keep_occurrences_witness:
  "mset (group_pairs [\<lparr>bg_versionedHash = ''0x01'', bg_metaCIDs = [Cid linkProtoDagCBOR [1], Cid linkProtoDagCBOR [2]]\<rparr>]) =
   {#(''0x01'', Cid linkProtoDagCBOR [1]), (''0x01'', Cid linkProtoDagCBOR [2])#}"
proof -
  have "groupByVersionedHash [demo_blob\<lparr>bi_Slot := 40\<rparr>, demo_blob] [demo_result\<lparr>br_MetaCID := Cid linkProtoDagCBOR [2]\<rparr>, demo_result] =
        Inr [\<lparr>bg_versionedHash = ''0x01'', bg_metaCIDs = [Cid linkProtoDagCBOR [1], Cid linkProtoDagCBOR [2]]\<rparr>]"
    by (simp add: groupByVersionedHash_def demo_blob_def demo_result_def occ_key_def)
  from groups_keep_occurrences [OF this] show ?thesis
    by (simp add: demo_blob_def demo_result_def)
qed

text \<open>
  C10. The epoch node is deterministic: however the blobs of an epoch and their results are ordered
  together (the beacon node's order, the order of the database rows, the order in which a Go map is
  walked, any outcome of the unstable sort), the node, its CID, the stored blocks and any error are
  the same, provided no two blobs with the same versioned hash share slot and index.
\<close>

theorem BuildEpochNode_order_irrelevant:
  assumes "length (ei_Blobs inp) = length results" and "length blobs' = length results'"
    and "mset (zip blobs' results') = mset (zip (ei_Blobs inp) results)"
    and "distinct (map occ_id (zip (ei_Blobs inp) results))"
  shows "BuildEpochNode lib bs (inp\<lparr>ei_Blobs := blobs'\<rparr>) results' network hamtThreshold =
         BuildEpochNode lib bs inp results network hamtThreshold"
  by (rule BuildEpochNode_cong) (simp_all add: assms)

theorem BuildEpochNode_order_irrelevant_witness:
  "BuildEpochNode demo_lib BNull
     \<lparr>ei_Epoch = 1, ei_Slot = 32, ei_Blobs = [demo_blob\<lparr>bi_Slot := 40\<rparr>, demo_blob]\<rparr>
     [demo_result\<lparr>br_SizeBytes := 4\<rparr>, demo_result] ''mainnet'' 5000 =
   BuildEpochNode demo_lib BNull
     \<lparr>ei_Epoch = 1, ei_Slot = 32, ei_Blobs = [demo_blob, demo_blob\<lparr>bi_Slot := 40\<rparr>]\<rparr>
     [demo_result, demo_result\<lparr>br_SizeBytes := 4\<rparr>] ''mainnet'' 5000"
proof -
  let ?inp = "\<lparr>ei_Epoch = 1, ei_Slot = 32, ei_Blobs = [demo_blob, demo_blob\<lparr>bi_Slot := 40\<rparr>]\<rparr>"
  have "distinct (map occ_id (zip (ei_Blobs ?inp) [demo_result, demo_result\<lparr>br_SizeBytes := 4\<rparr>]))"
    by (simp add: occ_id_def demo_blob_def)
  then show ?thesis
    using BuildEpochNode_order_irrelevant [of ?inp "[demo_result, demo_result\<lparr>br_SizeBytes := 4\<rparr>]"
        "[demo_blob\<lparr>bi_Slot := 40\<rparr>, demo_blob]" "[demo_result\<lparr>br_SizeBytes := 4\<rparr>, demo_result]" demo_lib BNull "''mainnet''" 5000]
    by simp
qed

text \<open>
  C8. The sharded index of a large epoch lists the same groups as the inline map, cut into runs of at
  most 256: the shards are non-empty, in order, as many as the group count divided by 256 and rounded
  up; each is sealed as the block of a map from its hashes to the links of their CIDs; the root links
  to the shards in order; the store afterwards is the one before with exactly these blocks put into
  it, in order; and in an in-memory store every shard can be read back under the CID the root has for
  it.
\<close>

theorem buildHAMTBlobIndex_shards:
  assumes "qp_doc lib" and "buildHAMTBlobIndex lib bs blobs results = Inr (root, bs')"
  shows "\<exists>groups shards cbs. groupByVersionedHash blobs results = Inr groups \<and>
     concat shards = groups \<and> (\<forall>s \<in> set shards. s \<noteq> [] \<and> length s \<le> 256) \<and>
     length shards = (length groups + 255) div 256 \<and>
     root = NMap [(''type'', NString ''hamt''), (''shardSize'', NInt 256), (''shards'', NList (map NLink (map fst cbs)))] \<and>
     list_all2 (\<lambda>s (c, blk). sealBlock lib linkProtoDagCBOR
         (NMap (map (\<lambda>g. (bg_versionedHash g, NList (map NLink (bg_metaCIDs g)))) s)) = Inr (c, blk)) shards cbs \<and>
     put_all backend_Put bs (map snd cbs) = Inr bs' \<and>
     (\<forall>m. block_doc lib \<and> mem_wf m \<and> bs = BMem m \<longrightarrow>
        (\<exists>m'. bs' = BMem m' \<and> mem_wf m' \<and> (\<forall>c \<in> set (map fst cbs). isOk (Mem_Get m' c))))"
proof -
  from assms(2) obtain groups blks where g: "groupByVersionedHash blobs results = Inr groups"
    and ib: "index_blocks lib groups True = Inr (root, blks)" and bs': "bs' = foldl backend_add bs blks"
    by (auto simp: buildHAMTBlobIndex_pure bindR_eq_Inr)
  from hamt_index_shape [OF assms(1) groupBy_distinct [OF g] ib] obtain cbs where cbs: "blks = map snd cbs"
    "root = NMap [(''type'', NString ''hamt''), (''shardSize'', NInt 256), (''shards'', NList (map NLink (map fst cbs)))]"
    "list_all2 (\<lambda>s cb. sealBlock lib linkProtoDagCBOR (groups_node s) = Inr cb) (shards_of groups) cbs"
    by blast
  have "\<exists>m'. bs' = BMem m' \<and> mem_wf m' \<and> (\<forall>c \<in> set (map fst cbs). isOk (Mem_Get m' c))"
    if m: "block_doc lib" "mem_wf m" "bs = BMem m" for m
  proof -
    obtain m' where m': "bs' = BMem m'" using foldl_add_Mem [of m blks] bs' m(3) by auto
    with bs' m(3) have fm: "foldl backend_add (BMem m) blks = BMem m'" by simp
    have "isOk (Mem_Get m' (fst cb))" if "cb \<in> set cbs" for cb
    proof -
      from cbs(3) that obtain s where "sealBlock lib linkProtoDagCBOR (groups_node s) = Inr cb"
        by (auto simp: list_all2_conv_all_nth in_set_conv_nth)
      then show ?thesis
        using foldl_add_readable [OF m(1,2) fm, of _ "groups_node s" "fst cb" "snd cb"] cbs(1) that by auto
    qed
    moreover have "mem_wf m'" using backend_wf_foldl [of "BMem m" blks] m(2) fm by simp
    ultimately show ?thesis using m' by auto
  qed
  moreover have "list_all2 (\<lambda>s (c, blk). sealBlock lib linkProtoDagCBOR
      (NMap (map (\<lambda>g. (bg_versionedHash g, NList (map NLink (bg_metaCIDs g)))) s)) = Inr (c, blk)) (shards_of groups) cbs"
    using cbs(3) by (simp add: groups_node_def case_prod_unfold)
  moreover have "put_all backend_Put bs (map snd cbs) = Inr bs'"
    by (simp add: put_all_backend bs' cbs(1))
  ultimately show ?thesis using g cbs(2) shards_of_props [of groups] by (intro exI conjI) auto
qed

theorem buildHAMTBlobIndex_shards_witness:
  "\<exists>m'. buildHAMTBlobIndex demo_lib (BMem NewMemBlockstore) [demo_blob] [demo_result] =
      Inr (NMap [(''type'', NString ''hamt''), (''shardSize'', NInt 256), (''shards'', NList [NLink (Cid linkProtoDagCBOR [])])], BMem m') \<and>
     mem_wf m' \<and> isOk (Mem_Get m' (Cid linkProtoDagCBOR []))"
proof -
  have wf: "mem_wf NewMemBlockstore" by (simp add: mem_wf_def NewMemBlockstore_def)
  have g: "groupByVersionedHash [demo_blob] [demo_result] =
      Inr [\<lparr>bg_versionedHash = ''0x01'', bg_metaCIDs = [Cid linkProtoDagCBOR [1]]\<rparr>]"
    by (simp add: groupByVersionedHash_def demo_blob_def demo_result_def)
  have "\<exists>bs'. buildHAMTBlobIndex demo_lib (BMem NewMemBlockstore) [demo_blob] [demo_result] =
    Inr (NMap [(''type'', NString ''hamt''), (''shardSize'', NInt 256), (''shards'', NList [NLink (Cid linkProtoDagCBOR [])])], bs')"
    by (simp add: buildHAMTBlobIndex_def g hamt_loop_pure shards_of.simps shard_block_def appendGroupEntry_def
        seal_doc [OF demo_lib_doc(1,2)] EncoderChooser_def linkProtoDagCBOR_def)
      (simp add: demo_lib_def)
  then obtain bs' where b: "buildHAMTBlobIndex demo_lib (BMem NewMemBlockstore) [demo_blob] [demo_result] =
    Inr (NMap [(''type'', NString ''hamt''), (''shardSize'', NInt 256), (''shards'', NList [NLink (Cid linkProtoDagCBOR [])])], bs')"
    by blast
  from buildHAMTBlobIndex_shards [OF demo_lib_doc(3) b] b demo_lib_doc(2) wf show ?thesis by auto
qed

text \<open>
  C22. A built epoch node says what the epoch holds: its block is in the store under the returned
  CID, and it is the map of the epoch number, the first slot, the network, the 64-bit sum of the blob
  sizes, the blob count and the blob index. The index is the inline map from each versioned hash of
  the grouping to the links of its CIDs when there are fewer results than the threshold; otherwise it is
  the root of the sharded index, whose shards are runs of at most 256 groups that together are the
  grouping and can all be read in the store. For blobs of 131072 bytes, fewer than $2^{46}$ of them, the
  recorded size and count are exact.
\<close>

theorem BuildEpochNode_result:
  assumes "qp_doc lib" "block_doc lib" "mem_wf m"
    and "BuildEpochNode lib (BMem m) inp results network thr = Inr (r, bs')"
  shows "\<exists>m' groups idx blk. bs' = BMem m' \<and> mem_wf m' \<and> isOk (Mem_Get m' (er_CID r)) \<and>
     groupByVersionedHash (ei_Blobs inp) results = Inr groups \<and>
     (if sint thr \<le> sint (go_len results)
      then \<exists>shards cids. concat shards = groups \<and> (\<forall>s \<in> set shards. s \<noteq> [] \<and> length s \<le> 256) \<and>
        idx = NMap [(''type'', NString ''hamt''), (''shardSize'', NInt 256), (''shards'', NList (map NLink cids))] \<and>
        list_all2 (\<lambda>s c. isOk (Mem_Get m' c) \<and> (\<exists>sblk. sealBlock lib linkProtoDagCBOR
           (NMap (map (\<lambda>g. (bg_versionedHash g, NList (map NLink (bg_metaCIDs g)))) s)) = Inr (c, sblk))) shards cids
      else idx = NMap [(''type'', NString ''map''),
             (''entries'', NMap (map (\<lambda>g. (bg_versionedHash g, NList (map NLink (bg_metaCIDs g)))) groups))]) \<and>
     sealBlock lib linkProtoDagCBOR
       (NMap [(''epoch'', NInt (sint (ei_Epoch inp))), (''slot'', NInt (sint (ei_Slot inp))),
              (''network'', NString network),
              (''approximateSizeBytes'', NInt (sint (sum_list (map br_SizeBytes results)))),
              (''blobCount'', NInt (sint (go_len results))), (''blobs'', idx)]) = Inr (er_CID r, blk) \<and>
     er_Epoch r = ei_Epoch inp \<and> er_ApproximateSizeBytes r = sum_list (map br_SizeBytes results) \<and>
     (length results < 2 ^ 46 \<and> (\<forall>br \<in> set results. br_SizeBytes br = 131072) \<longrightarrow>
        sint (sum_list (map br_SizeBytes results)) = 131072 * int (length results) \<and>
        sint (go_len results) = int (length results))"
proof -
  from assms(4) obtain blks where eb: "epoch_blocks lib inp results network thr = Inr (r, blks)"
    and bs': "bs' = foldl backend_add (BMem m) blks"
    by (auto simp: BuildEpochNode_pure bindR_eq_Inr)
  obtain m' where m': "bs' = BMem m'" using foldl_add_Mem [of m blks] bs' by auto
  with bs' have fm: "foldl backend_add (BMem m) blks = BMem m'" by simp
  from eb obtain groups idx blks0 node c blk where g: "groupByVersionedHash (ei_Blobs inp) results = Inr groups"
    and ib: "index_blocks lib groups (sint thr \<le> sint (go_len results)) = Inr (idx, blks0)"
    and node: "qp_BuildMap lib (epoch_entries inp results network idx) = Inr node"
    and seal: "sealBlock lib linkProtoDagCBOR node = Inr (c, blk)" and blks: "blks = blks0 @ [blk]"
    and r: "r = \<lparr>er_Epoch = ei_Epoch inp, er_CID = c, er_CARPath = '''', er_ApproximateSizeBytes = sum_list (map br_SizeBytes results)\<rparr>"
    unfolding epoch_blocks_def by (fastforce simp: bindR_eq_Inr)
  have "distinct (map fst (epoch_entries inp results network idx))" by (simp add: epoch_entries_def)
  with node assms(1) have node': "node = NMap (epoch_entries inp results network idx)" by (simp add: qp_doc_def)
  have wf: "mem_wf m'" and get: "isOk (Mem_Get m' c)"
    using foldl_add_readable [OF assms(2,3) fm seal] blks by simp_all
  have idx: "if sint thr \<le> sint (go_len results)
      then \<exists>shards cids. concat shards = groups \<and> (\<forall>s \<in> set shards. s \<noteq> [] \<and> length s \<le> 256) \<and>
        idx = NMap [(''type'', NString ''hamt''), (''shardSize'', NInt 256), (''shards'', NList (map NLink cids))] \<and>
        list_all2 (\<lambda>s c. isOk (Mem_Get m' c) \<and>
          (\<exists>sblk. sealBlock lib linkProtoDagCBOR (groups_node s) = Inr (c, sblk))) shards cids
      else idx = NMap [(''type'', NString ''map''), (''entries'', groups_node groups)]"
  proof (cases "sint thr \<le> sint (go_len results)")
    case True
    with hamt_index_shape [OF assms(1) groupBy_distinct [OF g]] ib obtain cbs where cbs: "blks0 = map snd cbs"
      "idx = NMap [(''type'', NString ''hamt''), (''shardSize'', NInt 256), (''shards'', NList (map NLink (map fst cbs)))]"
      "list_all2 (\<lambda>s cb. sealBlock lib linkProtoDagCBOR (groups_node s) = Inr cb) (shards_of groups) cbs"
      by (auto simp del: map_map)
    have "list_all2 (\<lambda>s c. isOk (Mem_Get m' c) \<and>
        (\<exists>sblk. sealBlock lib linkProtoDagCBOR (groups_node s) = Inr (c, sblk))) (shards_of groups) (map fst cbs)"
      unfolding list.rel_map using cbs(3)
    proof (rule list.rel_mono_strong)
      fix s cb
      assume "cb \<in> set cbs" and s: "sealBlock lib linkProtoDagCBOR (groups_node s) = Inr cb"
      then have "snd cb \<in> set blks" by (simp add: blks cbs(1))
      with s foldl_add_readable [OF assms(2,3) fm, of linkProtoDagCBOR "groups_node s" "fst cb" "snd cb"]
      show "isOk (Mem_Get m' (fst cb)) \<and> (\<exists>sblk. sealBlock lib linkProtoDagCBOR (groups_node s) = Inr (fst cb, sblk))"
        by (metis prod.collapse)
    qed
    with True cbs(2) shards_of_props [of groups] show ?thesis by (simp only: if_True) blast
  next
    case False
    with map_index_shape [OF assms(1) groupBy_distinct [OF g]] ib show ?thesis by simp
  qed
  have exact: "sint (sum_list (map br_SizeBytes results)) = 131072 * int (length results) \<and>
      sint (go_len results) = int (length results)"
    if "length results < 2 ^ 46" "\<forall>br \<in> set results. br_SizeBytes br = 131072"
    using exact_sizes [OF that] by blast
  from node' seal have "sealBlock lib linkProtoDagCBOR
       (NMap [(''epoch'', NInt (sint (ei_Epoch inp))), (''slot'', NInt (sint (ei_Slot inp))),
              (''network'', NString network),
              (''approximateSizeBytes'', NInt (sint (sum_list (map br_SizeBytes results)))),
              (''blobCount'', NInt (sint (go_len results))), (''blobs'', idx)]) = Inr (c, blk)"
    by (simp add: epoch_entries_def)
  with m' wf get r g idx exact show ?thesis
    unfolding groups_node_def by (intro exI [of _ m'] exI [of _ groups] exI [of _ idx] exI [of _ blk] conjI) simp_all
qed

theorem BuildEpochNode_result_witness:
  "\<exists>r m'. BuildEpochNode demo_lib (BMem NewMemBlockstore)
       \<lparr>ei_Epoch = 1, ei_Slot = 32, ei_Blobs = [demo_blob]\<rparr> [demo_result\<lparr>br_SizeBytes := 131072\<rparr>] ''mainnet'' 5000 = Inr (r, BMem m') \<and>
     er_Epoch r = 1 \<and> sint (er_ApproximateSizeBytes r) = 131072 \<and> isOk (Mem_Get m' (er_CID r))"
proof -
  let ?inp = "\<lparr>ei_Epoch = 1, ei_Slot = 32, ei_Blobs = [demo_blob]\<rparr>" and ?rs = "[demo_result\<lparr>br_SizeBytes := 131072\<rparr>]"
  have wf: "mem_wf NewMemBlockstore" by (simp add: mem_wf_def NewMemBlockstore_def)
  have "isOk (BuildEpochNode demo_lib (BMem NewMemBlockstore) ?inp ?rs ''mainnet'' 5000)"
    by (simp add: BuildEpochNode_pure epoch_blocks_def groupByVersionedHash_def demo_blob_def demo_result_def go_len_def
        index_blocks_def epoch_entries_def appendGroupEntry_def seal_doc [OF demo_lib_doc(1,2)] EncoderChooser_def linkProtoDagCBOR_def)
      (simp add: demo_lib_def)
  then obtain r bs' where rb: "BuildEpochNode demo_lib (BMem NewMemBlockstore) ?inp ?rs ''mainnet'' 5000 = Inr (r, bs')"
    by (auto simp: isOk_iff)
  from BuildEpochNode_result [OF demo_lib_doc(3,2) wf rb] rb show ?thesis by auto
qed

end
