(* ===== verification/Network.thy ===== *)
theory Network
  imports Epoch
begin

text \<open>
  \<^verbatim>\<open>builder/network.go\<close> and \<^verbatim>\<open>builder/range.go\<close>: the paged network root over all known epochs, and
  the root node of a multi-epoch export.
\<close>

section \<open>The operations\<close>

definition epoch_link :: "EpochResult \<Rightarrow> string \<times> ipld_node" where
  "epoch_link e = (FormatUint (er_Epoch e), NLink (er_CID e))"

definition buildEpochPage ::
  "ipld_lib \<Rightarrow> blockstoreBackend \<Rightarrow> EpochResult list \<Rightarrow> (cid \<times> blockstoreBackend) res" where
  "buildEpochPage lib bs epochs =
     bindR (wrapR ''builder: build epoch page node''
              (bindR (qp_BuildMap lib (map epoch_link epochs))
                 (\<lambda>es. qp_BuildMap lib [(''epochs'', es)])))
       (\<lambda>node. wrapR ''builder: store epoch page'' (lsys_Store lib bs linkProtoDagCBOR node))"

definition page_start :: "uint64 \<Rightarrow> EpochResult \<Rightarrow> uint64" where
  "page_start ps e = (er_Epoch e div ps) * ps"

definition page_map :: "uint64 \<Rightarrow> EpochResult list \<Rightarrow> (uint64 \<times> EpochResult list) list" where
  "page_map ps srt =
     fold (\<lambda>e m. AList.map_default (page_start ps e) [e] (\<lambda>es. es @ [e]) m) srt []"

text \<open>Reading an absent key of a Go map of slices yields the empty slice.\<close>

definition page_at :: "(uint64 \<times> EpochResult list) list \<Rightarrow> uint64 \<Rightarrow> EpochResult list" where
  "page_at m start = (case map_of m start of None \<Rightarrow> [] | Some es \<Rightarrow> es)"

fun pages_loop ::
  "ipld_lib \<Rightarrow> blockstoreBackend \<Rightarrow> (uint64 \<times> EpochResult list) list \<Rightarrow> uint64 list \<Rightarrow>
   ((string \<times> cid) list \<times> blockstoreBackend) res" where
  "pages_loop lib bs m [] = Inr ([], bs)"
| "pages_loop lib bs m (start # starts) =
     bindR (wrapR (''builder: build epoch page '' @ FormatUint start) (buildEpochPage lib bs (page_at m start)))
       (\<lambda>(pageCID, bs1). bindR (pages_loop lib bs1 m starts)
          (\<lambda>(pages, bs2). Inr ((FormatUint start, pageCID) # pages, bs2)))"

definition effective_page_size :: "goint \<Rightarrow> goint" where
  "effective_page_size pageSize = (if sint pageSize < 1000 then 1000 else pageSize)"

definition latest_epoch :: "EpochResult list \<Rightarrow> uint64" where
  "latest_epoch srt = (if srt = [] then 0 else er_Epoch (last srt))"

definition BuildNetworkRoot ::
  "ipld_lib \<Rightarrow> blockstoreBackend \<Rightarrow> string \<Rightarrow> EpochResult list \<Rightarrow> goint \<Rightarrow>
   (NetworkRootResult \<times> blockstoreBackend) res" where
  "BuildNetworkRoot lib bs network epochs pageSize0 =
     (let pageSize = effective_page_size pageSize0;
          srt = sort_key er_Epoch epochs;
          latestEpoch = latest_epoch srt;
          totalSizeBytes = sum_list (map er_ApproximateSizeBytes srt);
          pageMap = page_map pageSize srt;
          pageStarts = sort (map fst pageMap)
      in bindR (pages_loop lib bs pageMap pageStarts)
           (\<lambda>(pages, bs1).
         bindR (wrapR ''builder: build network root''
                  (bindR (qp_BuildMap lib (map (\<lambda>(key, c). (key, NLink c)) pages))
                     (\<lambda>pagesNode. qp_BuildMap lib
                        [(''type'', NString ''paged''),
                         (''network'', NString network),
                         (''pageSize'', NInt (sint pageSize)),
                         (''latestEpoch'', NInt (sint latestEpoch)),
                         (''totalSizeBytes'', NInt (sint totalSizeBytes)),
                         (''pages'', pagesNode)])))
           (\<lambda>rootNode.
         bindR (wrapR ''builder: store network root'' (lsys_Store lib bs1 linkProtoDagCBOR rootNode))
           (\<lambda>(c, bs2). Inr (\<lparr>nr_CID = c, nr_PageCount = go_len pages\<rparr>, bs2)))))"

text \<open>\<^verbatim>\<open>srt[0]\<close> panics when there is no epoch.\<close>

definition BuildRangeNode ::
  "ipld_lib \<Rightarrow> blockstoreBackend \<Rightarrow> string \<Rightarrow> EpochResult list \<Rightarrow> (EpochResult \<times> blockstoreBackend) res" where
  "BuildRangeNode lib bs network epochs =
     (let srt = sort_key er_Epoch epochs;
          totalSize = sum_list (map er_ApproximateSizeBytes srt)
      in case srt of
           [] \<Rightarrow> Inl (GoPanic ''index out of range'')
         | first # rest \<Rightarrow>
             let firstEpoch = er_Epoch first; lastEpoch = er_Epoch (last srt)
             in bindR (wrapR ''builder: build range node''
                         (bindR (qp_BuildMap lib (map epoch_link srt))
                            (\<lambda>es. qp_BuildMap lib
                               [(''network'', NString network),
                                (''firstEpoch'', NInt (sint firstEpoch)),
                                (''lastEpoch'', NInt (sint lastEpoch)),
                                (''totalSizeBytes'', NInt (sint totalSize)),
                                (''epochs'', es)])))
                  (\<lambda>node.
                bindR (wrapR ''builder: store range node'' (lsys_Store lib bs linkProtoDagCBOR node))
                  (\<lambda>(c, bs1).
                Inr (\<lparr>er_Epoch = firstEpoch, er_CID = c, er_CARPath = '''', er_ApproximateSizeBytes = totalSize\<rparr>, bs1))))"

section \<open>Pages\<close>

text \<open>
  The reference for the paging: the page starts that occur, in increasing order, each with its
  epochs in increasing order.
\<close>

definition page_starts :: "uint64 \<Rightarrow> EpochResult list \<Rightarrow> uint64 list" where
  "page_starts ps epochs = sorted_list_of_set (page_start ps ` set epochs)"

definition page_epochs :: "uint64 \<Rightarrow> EpochResult list \<Rightarrow> uint64 \<Rightarrow> EpochResult list" where
  "page_epochs ps epochs start = filter (\<lambda>e. page_start ps e = start) (sort_key er_Epoch epochs)"

lemma map_of_group_fold:
  "map_of (fold (\<lambda>e m. AList.map_default (f e) [e] (\<lambda>es. es @ [e]) m) xs m) k =
     (if map_of m k = None \<and> filter (\<lambda>e. f e = k) xs = [] then None
      else Some ((case map_of m k of None \<Rightarrow> [] | Some es \<Rightarrow> es) @ filter (\<lambda>e. f e = k) xs))"
proof (induction xs arbitrary: m)
  case Nil
  then show ?case by (auto split: option.splits)
next
  case (Cons x xs)
  show ?case
    by (cases "map_of m k") (auto simp: Cons.IH map_of_map_default)
qed

lemma group_fold_keys:
  "distinct (map fst m) \<Longrightarrow>
   distinct (map fst (fold (\<lambda>e m. AList.map_default (f e) [e] (\<lambda>es. es @ [e]) m) xs m)) \<and>
   fst ` set (fold (\<lambda>e m. AList.map_default (f e) [e] (\<lambda>es. es @ [e]) m) xs m) = fst ` set m \<union> f ` set xs"
proof (induction xs arbitrary: m)
  case Nil
  then show ?case by simp
next
  case (Cons x xs)
  have "distinct (map fst (AList.map_default (f x) [x] (\<lambda>es. es @ [x]) m))"
    by (rule distinct_map_default [OF Cons.prems])
  from Cons.IH [OF this] show ?case by (simp add: dom_map_default)
qed

lemma page_at_map: "page_at (page_map ps xs) start = filter (\<lambda>e. page_start ps e = start) xs"
  by (auto simp: page_at_def page_map_def map_of_group_fold)

lemma page_map_starts: "sort (map fst (page_map ps xs)) = sorted_list_of_set (page_start ps ` set xs)"
proof -
  have d: "distinct (map fst (page_map ps xs))" and k: "fst ` set (page_map ps xs) = page_start ps ` set xs"
    using group_fold_keys [of "[]" "page_start ps" xs] by (simp_all add: page_map_def)
  have "sorted_list_of_set (set (map fst (page_map ps xs))) = sort (map fst (page_map ps xs))"
    using d by (simp only: sorted_list_of_set_sort_remdups distinct_remdups_id)
  with k show ?thesis by simp
qed

lemma page_at_sorted:
  "page_at (page_map ps (sort_key er_Epoch epochs)) start = page_epochs ps epochs start"
  by (simp add: page_at_map page_epochs_def)

lemma page_starts_sorted:
  "sort (map fst (page_map ps (sort_key er_Epoch epochs))) = page_starts ps epochs"
  by (simp add: page_map_starts page_starts_def)

section \<open>The pure part\<close>

definition page_block :: "ipld_lib \<Rightarrow> EpochResult list \<Rightarrow> (cid \<times> block) res" where
  "page_block lib epochs =
     bindR (wrapR ''builder: build epoch page node''
              (bindR (qp_BuildMap lib (map epoch_link epochs))
                 (\<lambda>es. qp_BuildMap lib [(''epochs'', es)])))
       (\<lambda>node. wrapR ''builder: store epoch page'' (sealBlock lib linkProtoDagCBOR node))"

definition named_page ::
  "ipld_lib \<Rightarrow> uint64 \<Rightarrow> EpochResult list \<Rightarrow> (string \<times> cid \<times> block) res" where
  "named_page lib start epochs =
     bindR (wrapR (''builder: build epoch page '' @ FormatUint start) (page_block lib epochs))
       (\<lambda>(c, blk). Inr (FormatUint start, c, blk))"

definition pages_blocks ::
  "ipld_lib \<Rightarrow> uint64 \<Rightarrow> EpochResult list \<Rightarrow> (string \<times> cid \<times> block) list res" where
  "pages_blocks lib ps epochs =
     mapR (\<lambda>start. named_page lib start (page_epochs ps epochs start)) (page_starts ps epochs)"

definition root_entries ::
  "string \<Rightarrow> EpochResult list \<Rightarrow> goint \<Rightarrow> ipld_node \<Rightarrow> (string \<times> ipld_node) list" where
  "root_entries network epochs ps pagesNode =
     [(''type'', NString ''paged''),
      (''network'', NString network),
      (''pageSize'', NInt (sint ps)),
      (''latestEpoch'', NInt (sint (latest_epoch (sort_key er_Epoch epochs)))),
      (''totalSizeBytes'', NInt (sint (sum_list (map er_ApproximateSizeBytes epochs)))),
      (''pages'', pagesNode)]"

definition root_blocks ::
  "ipld_lib \<Rightarrow> string \<Rightarrow> EpochResult list \<Rightarrow> goint \<Rightarrow> (NetworkRootResult \<times> block list) res" where
  "root_blocks lib network epochs pageSize0 =
     (let ps = effective_page_size pageSize0
      in bindR (pages_blocks lib ps epochs)
           (\<lambda>pages.
         bindR (wrapR ''builder: build network root''
                  (bindR (qp_BuildMap lib (map (\<lambda>(key, c, blk). (key, NLink c)) pages))
                     (\<lambda>pagesNode. qp_BuildMap lib (root_entries network epochs ps pagesNode))))
           (\<lambda>rootNode.
         bindR (wrapR ''builder: store network root'' (sealBlock lib linkProtoDagCBOR rootNode))
           (\<lambda>(c, blk). Inr (\<lparr>nr_CID = c, nr_PageCount = go_len pages\<rparr>, map (snd \<circ> snd) pages @ [blk])))))"

lemma sum_list_sort_key:
  fixes g :: "'a \<Rightarrow> 'b::comm_monoid_add"
  shows "sum_list (map g (sort_key f xs)) = sum_list (map g xs)"
proof -
  have "mset (map g (sort_key f xs)) = mset (map g xs)" by simp
  then show ?thesis
    using sum_mset_sum_list [of "map g (sort_key f xs)"] sum_mset_sum_list [of "map g xs"] by simp
qed

lemma buildEpochPage_pure:
  "buildEpochPage lib bs epochs = bindR (page_block lib epochs) (\<lambda>(c, b). Inr (c, backend_add bs b))"
  by (simp add: buildEpochPage_def page_block_def lsys_Store_seal bindR_def wrapR_def split: sum.splits prod.splits)

lemma pages_loop_Cons:
  "pages_loop lib bs m (start # starts) =
     bindR (named_page lib start (page_at m start))
       (\<lambda>(key, c, blk). bindR (pages_loop lib (backend_add bs blk) m starts)
          (\<lambda>(pages, bs2). Inr ((key, c) # pages, bs2)))"
  by (cases "page_block lib (page_at m start)") (auto simp: named_page_def buildEpochPage_pure)

declare pages_loop.simps(2) [simp del]

lemma pages_loop_pure:
  "pages_loop lib bs m starts =
     bindR (mapR (\<lambda>start. named_page lib start (page_at m start)) starts)
       (\<lambda>pages. Inr (map (\<lambda>(key, c, blk). (key, c)) pages, foldl backend_add bs (map (snd \<circ> snd) pages)))"
proof (induction starts arbitrary: bs)
  case Nil
  then show ?case by simp
next
  case (Cons start starts)
  show ?case
    by (simp add: pages_loop_Cons Cons.IH bindR_def split: sum.splits prod.splits)
qed

lemma BuildNetworkRoot_pure:
  "BuildNetworkRoot lib bs network epochs pageSize =
     bindR (root_blocks lib network epochs pageSize) (\<lambda>(r, blks). Inr (r, foldl backend_add bs blks))"
proof (cases "pages_blocks lib (effective_page_size pageSize) epochs")
  case (Inl e)
  then show ?thesis
    by (simp add: BuildNetworkRoot_def root_blocks_def pages_blocks_def Let_def pages_loop_pure page_at_sorted page_starts_sorted)
next
  case (Inr pages)
  have eq: "map (\<lambda>(key, c). (key, NLink c)) (map (\<lambda>(key, c, blk). (key, c)) pages) = map (\<lambda>(key, c, blk). (key, NLink c)) pages"
    by (induction pages) auto
  have loop: "pages_loop lib bs (page_map (effective_page_size pageSize) (sort_key er_Epoch epochs))
      (sort (map fst (page_map (effective_page_size pageSize) (sort_key er_Epoch epochs)))) =
      Inr (map (\<lambda>(key, c, blk). (key, c)) pages, foldl backend_add bs (map (snd \<circ> snd) pages))"
    using Inr by (simp add: pages_blocks_def pages_loop_pure page_at_sorted page_starts_sorted)
  show ?thesis
    using Inr
    by (simp add: BuildNetworkRoot_def root_blocks_def Let_def loop eq root_entries_def sum_list_sort_key
        lsys_Store_seal go_len_def bindR_def wrapR_def del: map_map split: sum.splits prod.splits)
qed

section \<open>Facts for the properties\<close>

lemma effective_page_size_bounds:
  "1000 \<le> sint (effective_page_size n)" "1000 \<le> unat (effective_page_size n)" "unat (effective_page_size n) < 2 ^ 63"
proof -
  let ?p = "effective_page_size n"
  show s: "1000 \<le> sint ?p" by (simp add: effective_page_size_def)
  have "sint ?p < 2 ^ (LENGTH(64) - 1)" by (rule sint_lt)
  then have lt: "sint ?p < 2 ^ 63" by simp
  have "uint ?p = take_bit LENGTH(64) (sint ?p)" by (rule uint_sint)
  also have "\<dots> = sint ?p mod 2 ^ 64" by (simp add: take_bit_eq_mod)
  also have "\<dots> = sint ?p" using s lt by (intro mod_pos_pos_trivial) auto
  finally have eq: "int (unat ?p) = sint ?p" by simp
  from s eq show "1000 \<le> unat ?p" by linarith
  have "int (unat ?p) < int (2 ^ 63)" using lt eq by simp
  then show "unat ?p < 2 ^ 63" by (simp only: of_nat_less_iff)
qed

lemma unat_page_start: "unat (page_start ps e) = unat (er_Epoch e) div unat ps * unat ps"
proof -
  have "unat (er_Epoch e) div unat ps * unat ps \<le> unat (er_Epoch e)" by (simp add: div_times_less_eq_dividend)
  also have "\<dots> < 2 ^ 64" using unsigned_less [of "er_Epoch e", where 'a = nat] by simp
  finally have "unat (er_Epoch e) div unat ps * unat ps < 2 ^ 64" .
  then show ?thesis by (simp add: page_start_def unat_word_ariths(2) unat_div_distrib)
qed

lemma page_epochs_range:
  assumes "e \<in> set (page_epochs ps epochs start)" and "0 < unat ps"
  shows "unat start \<le> unat (er_Epoch e) \<and> unat (er_Epoch e) < unat start + unat ps"
proof -
  from assms(1) have "unat start = unat (er_Epoch e) div unat ps * unat ps"
    using unat_page_start [of ps e] by (auto simp: page_epochs_def)
  with assms(2) show ?thesis
    by (metis add.commute div_mult_mod_eq div_times_less_eq_dividend mod_less_divisor nat_add_left_cancel_less)
qed

lemma page_epochs_distinct:
  assumes "distinct (map er_Epoch epochs)"
  shows "distinct (map er_Epoch (page_epochs ps epochs start))"
  unfolding page_epochs_def using assms by (intro distinct_map_filter) simp

lemma page_epochs_length:
  assumes "distinct (map er_Epoch epochs)" and "0 < unat ps"
  shows "length (page_epochs ps epochs start) \<le> unat ps"
proof -
  let ?es = "page_epochs ps epochs start"
  have "distinct (map (unat \<circ> er_Epoch) ?es)"
    using page_epochs_distinct [OF assms(1), of ps start]
    by (auto simp: distinct_map inj_on_def dest: unsigned_word_eqI)
  then have "length ?es = card (set (map (unat \<circ> er_Epoch) ?es))"
    by (metis distinct_card length_map)
  also have "\<dots> \<le> card {unat start ..< unat start + unat ps}"
    using page_epochs_range [OF _ assms(2)] by (intro card_mono) auto
  finally show ?thesis by simp
qed

lemma page_epochs_perm:
  assumes "mset epochs' = mset epochs" and "distinct (map er_Epoch epochs)"
  shows "page_epochs ps epochs' start = page_epochs ps epochs start"
  by (simp add: page_epochs_def sort_key_perm [OF assms])

lemma page_starts_perm: "mset epochs' = mset epochs \<Longrightarrow> page_starts ps epochs' = page_starts ps epochs"
  by (metis page_starts_def set_mset_mset)

lemma page_block_doc:
  assumes "qp_doc lib" and "distinct (map er_Epoch epochs)"
  shows "page_block lib epochs =
    wrapR ''builder: store epoch page'' (sealBlock lib linkProtoDagCBOR (NMap [(''epochs'', NMap (map epoch_link epochs))]))"
proof -
  have "distinct (map fst (map epoch_link epochs))"
    using assms(2) by (simp add: epoch_link_def comp_def distinct_map inj_on_def)
  with assms(1) show ?thesis by (simp add: page_block_def qp_doc_def)
qed

lemma map_of_epoch_link:
  assumes "distinct (map er_Epoch epochs)" and "e \<in> set epochs"
  shows "map_of (map epoch_link epochs) (FormatUint (er_Epoch e)) = Some (NLink (er_CID e))"
proof -
  have "distinct (map fst (map epoch_link epochs))"
    using assms(1) by (simp add: epoch_link_def comp_def distinct_map inj_on_def)
  moreover have "(FormatUint (er_Epoch e), NLink (er_CID e)) \<in> set (map epoch_link epochs)"
    using assms(2) by (force simp: epoch_link_def)
  ultimately show ?thesis by (rule map_of_is_SomeI)
qed

text \<open>What the root of a successful build looks like, page by page.\<close>

lemma BuildNetworkRoot_shape:
  assumes "qp_doc lib" and "distinct (map er_Epoch epochs)"
    and "BuildNetworkRoot lib bs network epochs pageSize = Inr (r, bs')"
  shows "\<exists>pages blk. pages_blocks lib (effective_page_size pageSize) epochs = Inr pages \<and>
     map fst pages = map FormatUint (page_starts (effective_page_size pageSize) epochs) \<and>
     sealBlock lib linkProtoDagCBOR
       (NMap (root_entries network epochs (effective_page_size pageSize)
                (NMap (map (\<lambda>(key, c, blk). (key, NLink c)) pages)))) = Inr (nr_CID r, blk) \<and>
     nr_PageCount r = go_len pages \<and> bs' = foldl backend_add bs (map (snd \<circ> snd) pages @ [blk])"
proof -
  let ?ps = "effective_page_size pageSize"
  from assms(3) obtain pages pagesNode rootNode c blk where
    pages: "pages_blocks lib ?ps epochs = Inr pages"
    and pn: "qp_BuildMap lib (map (\<lambda>(key, c, blk). (key, NLink c)) pages) = Inr pagesNode"
    and rn: "qp_BuildMap lib (root_entries network epochs ?ps pagesNode) = Inr rootNode"
    and seal: "sealBlock lib linkProtoDagCBOR rootNode = Inr (c, blk)"
    and r: "r = \<lparr>nr_CID = c, nr_PageCount = go_len pages\<rparr>"
    and bs': "bs' = foldl backend_add bs (map (snd \<circ> snd) pages @ [blk])"
    unfolding BuildNetworkRoot_pure root_blocks_def Let_def by (fastforce simp: bindR_eq_Inr)
  have "list_all2 (\<lambda>start p. fst p = FormatUint start) (page_starts ?ps epochs) pages"
    using pages unfolding pages_blocks_def mapR_eq_Inr
    by (rule list_all2_mono) (auto simp: named_page_def bindR_eq_Inr)
  then have keys: "map fst pages = map FormatUint (page_starts ?ps epochs)"
    by (induction rule: list_all2_induct) auto
  have "map fst (map (\<lambda>(key, c, blk). (key, NLink c)) pages) = map fst pages" by (induction pages) auto
  moreover have "distinct (map fst pages)"
    unfolding keys by (simp add: distinct_map inj_on_def page_starts_def)
  ultimately have "distinct (map fst (map (\<lambda>(key, c, blk). (key, NLink c)) pages))" by (simp only:)
  from qp_docD [OF assms(1) this] pn
  have "pagesNode = NMap (map (\<lambda>(key, c, blk). (key, NLink c)) pages)" by (simp only: Inr_inject)
  moreover have "rootNode = NMap (root_entries network epochs ?ps pagesNode)"
    using rn assms(1) by (simp add: qp_doc_def root_entries_def)
  ultimately show ?thesis using pages keys seal r bs' by auto
qed

lemma sorted_concat_blocks:
  fixes f :: "'a \<Rightarrow> 'b::linorder" and h :: "'b \<Rightarrow> 'c::linorder"
  assumes "sorted_wrt (<) starts" and "mono h"
    and "\<And>s. s \<in> set starts \<Longrightarrow> sorted (map f (g s)) \<and> (\<forall>x \<in> set (g s). h (f x) = s)"
  shows "sorted (map f (concat (map g starts)))"
  using assms(1,3)
proof (induction starts)
  case Nil
  then show ?case by simp
next
  case (Cons s starts)
  then have IH: "sorted (map f (concat (map g starts)))" by simp
  have "f x \<le> f y" if x: "x \<in> set (g s)" and y: "y \<in> set (concat (map g starts))" for x y
  proof -
    from y obtain t where t: "t \<in> set starts" "y \<in> set (g t)" by auto
    from Cons.prems(2) [of s] x have "h (f x) = s" by simp
    moreover from Cons.prems(2) [of t] t have "h (f y) = t" by simp
    moreover from Cons.prems(1) t(1) have "s < t" by simp
    ultimately have "h (f x) < h (f y)" by simp
    then show ?thesis using monoD [OF assms(2), of "f y" "f x"] by (meson leD le_cases)
  qed
  with IH Cons.prems(2) [of s] show ?case by (auto simp: sorted_append)
qed

lemma mono_page: "mono (\<lambda>w :: uint64. w div ps * ps)"
proof (rule monoI)
  fix a b :: uint64
  assume "a \<le> b"
  then have "unat a div unat ps * unat ps \<le> unat b div unat ps * unat ps"
    by (simp add: word_le_nat_alt div_le_mono)
  moreover have "unat (w div ps * ps) = unat w div unat ps * unat ps" for w :: uint64
    using unat_page_start [of ps "\<lparr>er_Epoch = w, er_CID = Undef, er_CARPath = '''', er_ApproximateSizeBytes = 0\<rparr>"]
    by (simp add: page_start_def)
  ultimately show "a div ps * ps \<le> b div ps * ps" by (simp add: word_le_nat_alt)
qed

lemma mset_concat_filter:
  assumes "distinct ss" and "\<And>x. x \<in> set xs \<Longrightarrow> f x \<in> set ss"
  shows "mset (concat (map (\<lambda>s. filter (\<lambda>x. f x = s) xs) ss)) = mset xs"
  using assms(2)
proof (induction xs)
  case Nil
  then show ?case by (induction ss) auto
next
  case (Cons x xs)
  then have IH: "mset (concat (map (\<lambda>s. filter (\<lambda>x. f x = s) xs) ss)) = mset xs" and "f x \<in> set ss" by simp_all
  have "mset (concat (map (\<lambda>s. filter (\<lambda>y. f y = s) (x # xs)) ss)) =
        mset (concat (map (\<lambda>s. filter (\<lambda>y. f y = s) xs) ss)) + (if f x \<in> set ss then {#x#} else {#})"
    using assms(1) by (induction ss) auto
  with IH \<open>f x \<in> set ss\<close> show ?case by simp
qed

lemma concat_pages:
  assumes "distinct (map er_Epoch epochs)"
  shows "concat (map (page_epochs ps epochs) (page_starts ps epochs)) = sort_key er_Epoch epochs"
proof (rule sort_key_unique [OF _ _ assms])
  let ?sorted = "sort_key er_Epoch epochs"
  have "mset (concat (map (\<lambda>s. filter (\<lambda>e. page_start ps e = s) ?sorted) (page_starts ps epochs))) = mset ?sorted"
    by (rule mset_concat_filter) (auto simp: page_starts_def)
  then show "mset (concat (map (page_epochs ps epochs) (page_starts ps epochs))) = mset epochs"
    by (simp add: page_epochs_def [abs_def])
  show "sorted (map er_Epoch (concat (map (page_epochs ps epochs) (page_starts ps epochs))))"
  proof (rule sorted_concat_blocks [OF _ mono_page [of ps]])
    show "sorted_wrt (<) (page_starts ps epochs)" by (simp add: page_starts_def)
    show "sorted (map er_Epoch (page_epochs ps epochs s)) \<and>
          (\<forall>x \<in> set (page_epochs ps epochs s). er_Epoch x div ps * ps = s)" for s
      by (auto simp: page_epochs_def page_start_def sorted_filter)
  qed
qed

section \<open>Properties\<close>

lemma page_starts_props:
  assumes "start \<in> set (page_starts ps epochs)"
  shows "unat start mod unat ps = 0 \<and> page_epochs ps epochs start \<noteq> []"
  using assms unat_page_start [of ps] by (auto simp: page_starts_def page_epochs_def filter_empty_conv)

text \<open>
  C9. Paging is a partition: for pairwise different epoch numbers and any configured page size
  (values below 1000 count as 1000), the pages concatenated in the order of their keys are the epochs
  in increasing order, every page is non-empty, starts at a multiple of the page size, holds only
  epochs of the range that begins there, and has at most page-size entries.
\<close>

theorem network_pages_partition:
  assumes "distinct (map er_Epoch epochs)"
  shows "let ps = effective_page_size pageSize;
        pageMap = page_map ps (sort_key er_Epoch epochs);
        pageStarts = sort (map fst pageMap)
    in concat (map (page_at pageMap) pageStarts) = sort_key er_Epoch epochs \<and>
    sorted_wrt (<) pageStarts \<and>
    (\<forall>start \<in> set pageStarts.
       unat start mod unat ps = 0 \<and> page_at pageMap start \<noteq> [] \<and> length (page_at pageMap start) \<le> unat ps \<and>
       (\<forall>e \<in> set (page_at pageMap start). unat start \<le> unat (er_Epoch e) \<and> unat (er_Epoch e) < unat start + unat ps))"
proof -
  define ps where "ps = effective_page_size pageSize"
  have starts: "sort (map fst (page_map ps (sort_key er_Epoch epochs))) = page_starts ps epochs"
    by (simp add: page_starts_sorted)
  have at: "page_at (page_map ps (sort_key er_Epoch epochs)) = page_epochs ps epochs"
    by (rule ext) (simp add: page_at_sorted)
  have pos: "0 < unat ps" using effective_page_size_bounds(2) [of pageSize] by (simp add: ps_def)
  have "sorted_wrt (<) (page_starts ps epochs)" by (simp add: page_starts_def)
  then show ?thesis
    unfolding ps_def [symmetric] Let_def starts at
    using concat_pages [OF assms] page_epochs_length [OF assms pos] page_epochs_range [OF _ pos]
      page_starts_props [of _ ps epochs]
    by blast
qed

definition demo_epoch :: "uint64 \<Rightarrow> EpochResult" where
  "demo_epoch n = \<lparr>er_Epoch = n, er_CID = Cid linkProtoDagCBOR [word_of_nat (unat n)], er_CARPath = '''', er_ApproximateSizeBytes = 131072\<rparr>"

theorem network_pages_partition_witness:
  "concat (map (page_at (page_map 1000 [demo_epoch 5, demo_epoch 2500])) [0, 2000]) = [demo_epoch 5, demo_epoch 2500]"
proof -
  have d: "distinct (map er_Epoch [demo_epoch 2500, demo_epoch 5])" by (simp add: demo_epoch_def)
  have ps: "effective_page_size 7 = 1000" by (simp add: effective_page_size_def)
  have srt: "sort_key er_Epoch [demo_epoch 2500, demo_epoch 5] = [demo_epoch 5, demo_epoch 2500]"
    by (simp add: demo_epoch_def)
  have st: "sort (map fst (page_map 1000 [demo_epoch 5, demo_epoch 2500])) = [0, 2000]"
    by (simp add: page_map_def page_start_def demo_epoch_def)
  show ?thesis
    using network_pages_partition [OF d, of 7] unfolding ps srt Let_def st by blast
qed

lemma latest_epoch_ge:
  assumes "e \<in> set epochs"
  shows "er_Epoch e \<le> latest_epoch (sort_key er_Epoch epochs)"
proof -
  let ?s = "sort_key er_Epoch epochs"
  have "e \<in> set ?s" using assms by simp
  then obtain i where i: "i < length ?s" "?s ! i = e" by (metis in_set_conv_nth)
  then have "map er_Epoch ?s ! i \<le> map er_Epoch ?s ! (length ?s - 1)"
    by (intro sorted_nth_mono) auto
  moreover have "?s \<noteq> []" using \<open>e \<in> set ?s\<close> by (metis empty_iff list.set(1))
  moreover from calculation have "map er_Epoch ?s ! (length ?s - 1) = er_Epoch (last ?s)"
    by (metis last_conv_nth last_map length_map map_is_Nil_conv)
  ultimately show ?thesis using i by (simp add: latest_epoch_def)
qed

text \<open>The page of an epoch: it is linked under its start, and it is the block of the epochs that share the start.\<close>

lemma page_of_epoch:
  assumes "qp_doc lib" and "distinct (map er_Epoch epochs)" and "e \<in> set epochs"
    and pages: "pages_blocks lib ps epochs = Inr pages" and keys: "map fst pages = map FormatUint (page_starts ps epochs)"
  shows "\<exists>c pb. (FormatUint (page_start ps e), c, pb) \<in> set pages \<and>
    map_of (map (\<lambda>(key, c, blk). (key, NLink c)) pages) (FormatUint (page_start ps e)) = Some (NLink c) \<and>
    sealBlock lib linkProtoDagCBOR (NMap [(''epochs'', NMap (map epoch_link (page_epochs ps epochs (page_start ps e))))]) = Inr (c, pb)"
proof -
  let ?start = "page_start ps e"
  let ?es = "page_epochs ps epochs ?start"
  have start: "?start \<in> set (page_starts ps epochs)" using assms(3) by (simp add: page_starts_def)
  have des: "distinct (map er_Epoch ?es)" by (rule page_epochs_distinct [OF assms(2)])
  from pages start obtain p where p: "p \<in> set pages" "named_page lib ?start ?es = Inr p"
    unfolding pages_blocks_def mapR_eq_Inr list_all2_conv_all_nth by (metis in_set_conv_nth)
  then obtain c pb where cp: "p = (FormatUint ?start, c, pb)" and pblk: "page_block lib ?es = Inr (c, pb)"
    by (auto simp: named_page_def bindR_eq_Inr)
  have fsts: "map fst (map (\<lambda>(key, c, blk). (key, NLink c)) pages) = map fst pages" by (induction pages) auto
  have "distinct (map fst pages)" unfolding keys by (simp add: distinct_map inj_on_def page_starts_def)
  then have "distinct (map fst (map (\<lambda>(key, c, blk). (key, NLink c)) pages))" by (simp only: fsts)
  moreover have "(FormatUint ?start, NLink c) \<in> set (map (\<lambda>(key, c, blk). (key, NLink c)) pages)"
    using p(1) cp by force
  ultimately have "map_of (map (\<lambda>(key, c, blk). (key, NLink c)) pages) (FormatUint ?start) = Some (NLink c)"
    by (rule map_of_is_SomeI)
  with p(1) cp pblk show ?thesis by (auto simp: page_block_doc [OF assms(1) des])
qed

text \<open>
  C11. Every epoch can be reached from the network root: for pairwise different epoch numbers, the root
  that a successful build returns maps the page start of an epoch, printed in decimal, to a page block,
  and that page maps the epoch number, printed in decimal, to the epoch's CID; both blocks are in the
  store, and \<^verbatim>\<open>latestEpoch\<close> in the root is the largest epoch.
\<close>

theorem network_root_reaches_epoch:
  assumes "qp_doc lib" "block_doc lib" "mem_wf m" and "distinct (map er_Epoch epochs)"
    and "BuildNetworkRoot lib (BMem m) network epochs pageSize = Inr (r, bs')" and "e \<in> set epochs"
    and "ps = effective_page_size pageSize"
  shows "\<exists>m' pages rootBlk c es pageBlk.
    bs' = BMem m' \<and> isOk (Mem_Get m' (nr_CID r)) \<and> isOk (Mem_Get m' c) \<and>
    sealBlock lib linkProtoDagCBOR (NMap (root_entries network epochs ps (NMap pages))) = Inr (nr_CID r, rootBlk) \<and>
    map_of pages (FormatUint (er_Epoch e div ps * ps)) = Some (NLink c) \<and>
    sealBlock lib linkProtoDagCBOR (NMap [(''epochs'', NMap es)]) = Inr (c, pageBlk) \<and>
    map_of es (FormatUint (er_Epoch e)) = Some (NLink (er_CID e)) \<and>
    er_Epoch e \<le> latest_epoch (sort_key er_Epoch epochs)"
proof -
  obtain pages blk where pages: "pages_blocks lib ps epochs = Inr pages"
    and keys: "map fst pages = map FormatUint (page_starts ps epochs)"
    and seal: "sealBlock lib linkProtoDagCBOR
       (NMap (root_entries network epochs ps (NMap (map (\<lambda>(key, c, blk). (key, NLink c)) pages)))) = Inr (nr_CID r, blk)"
    and bs': "bs' = foldl backend_add (BMem m) (map (snd \<circ> snd) pages @ [blk])"
    using BuildNetworkRoot_shape [OF assms(1,4,5)] unfolding assms(7) by blast
  let ?es = "page_epochs ps epochs (page_start ps e)"
  have e: "e \<in> set ?es" using assms(6) by (simp add: page_epochs_def)
  have des: "distinct (map er_Epoch ?es)" by (rule page_epochs_distinct [OF assms(4)])
  from page_of_epoch [OF assms(1,4,6) pages keys] obtain c pb where mem: "(FormatUint (page_start ps e), c, pb) \<in> set pages"
    and lookup: "map_of (map (\<lambda>(key, c, blk). (key, NLink c)) pages) (FormatUint (page_start ps e)) = Some (NLink c)"
    and pseal: "sealBlock lib linkProtoDagCBOR (NMap [(''epochs'', NMap (map epoch_link ?es))]) = Inr (c, pb)"
    by blast
  obtain m' where m': "bs' = BMem m'" using foldl_add_Mem bs' by blast
  then have put: "put_all Mem_Put m (map (snd \<circ> snd) pages @ [blk]) = Inr m'"
    using bs' by (simp only: put_all_Mem)
  have "isOk (Mem_Get m' (blkCid blk))" by (rule mem_bs.put_all_has [OF assms(3) put]) simp
  then have root: "isOk (Mem_Get m' (nr_CID r))" by (simp add: seal_cid [OF assms(2) seal])
  have "isOk (Mem_Get m' (blkCid pb))"
    by (rule mem_bs.put_all_has [OF assms(3) put]) (use mem in force)
  then have page: "isOk (Mem_Get m' c)" by (simp add: seal_cid [OF assms(2) pseal])
  show ?thesis
    by (intro exI conjI, rule m', rule root, rule page, rule seal, rule lookup [unfolded page_start_def],
        rule pseal, rule map_of_epoch_link [OF des e], rule latest_epoch_ge [OF assms(6)])
qed

theorem network_root_reaches_epoch_witness:
  "\<exists>r m' c. BuildNetworkRoot demo_lib (BMem NewMemBlockstore) ''mainnet'' [demo_epoch 2500] 0 = Inr (r, BMem m') \<and>
     isOk (Mem_Get m' (nr_CID r)) \<and> isOk (Mem_Get m' c) \<and>
     2500 \<le> latest_epoch (sort_key er_Epoch [demo_epoch 2500])"
proof -
  have wf: "mem_wf NewMemBlockstore" by (simp add: mem_wf_def NewMemBlockstore_def)
  have d: "distinct (map er_Epoch [demo_epoch 2500])" by simp
  have pe: "page_epochs 1000 [demo_epoch 2500] (page_start 1000 (demo_epoch 2500)) = [demo_epoch 2500]"
    by (simp add: page_epochs_def)
  have "isOk (BuildNetworkRoot demo_lib (BMem NewMemBlockstore) ''mainnet'' [demo_epoch 2500] 0)"
    by (simp add: BuildNetworkRoot_pure root_blocks_def pages_blocks_def page_starts_def named_page_def page_block_def
        pe root_entries_def effective_page_size_def seal_doc [OF demo_lib_doc(1,2)] EncoderChooser_def linkProtoDagCBOR_def)
      (simp add: demo_lib_def)
  then obtain r bs' where rb: "BuildNetworkRoot demo_lib (BMem NewMemBlockstore) ''mainnet'' [demo_epoch 2500] 0 = Inr (r, bs')"
    by (auto simp: isOk_iff)
  have e: "er_Epoch (demo_epoch 2500) = 2500" by (simp add: demo_epoch_def)
  show ?thesis
    using network_root_reaches_epoch [OF demo_lib_doc(3,2) wf d rb, of "demo_epoch 2500" 1000] rb
    by (auto simp: e effective_page_size_def)
qed

text \<open>
  The network root does not depend on the order in which the epochs are passed: for pairwise
  different epoch numbers, a permuted list writes the same blocks and returns the same CID.
\<close>

theorem BuildNetworkRoot_order_irrelevant:
  assumes "mset epochs' = mset epochs" and "distinct (map er_Epoch epochs)"
  shows "BuildNetworkRoot lib bs network epochs' pageSize = BuildNetworkRoot lib bs network epochs pageSize"
proof -
  have "mset (map er_ApproximateSizeBytes epochs') = mset (map er_ApproximateSizeBytes epochs)"
    using assms(1) by simp
  then have "sum_list (map er_ApproximateSizeBytes epochs') = sum_list (map er_ApproximateSizeBytes epochs)"
    by (metis sum_mset_sum_list)
  then have "root_blocks lib network epochs' pageSize = root_blocks lib network epochs pageSize"
    by (simp add: root_blocks_def pages_blocks_def root_entries_def page_starts_perm [OF assms(1)]
        page_epochs_perm [OF assms] sort_key_perm [OF assms])
  then show ?thesis by (simp add: BuildNetworkRoot_pure)
qed

theorem BuildNetworkRoot_order_irrelevant_witness:
  "BuildNetworkRoot demo_lib BNull ''mainnet'' [demo_epoch 9, demo_epoch 2] 1000 =
   BuildNetworkRoot demo_lib BNull ''mainnet'' [demo_epoch 2, demo_epoch 9] 1000"
  by (rule BuildNetworkRoot_order_irrelevant) (simp_all add: demo_epoch_def)


lemma BuildRangeNode_Cons:
  assumes "qp_doc lib" and "distinct (map er_Epoch epochs)" and "sort_key er_Epoch epochs = first # rest"
  shows "BuildRangeNode lib bs network epochs =
    bindR (wrapR ''builder: store range node'' (lsys_Store lib bs linkProtoDagCBOR
       (NMap [(''network'', NString network), (''firstEpoch'', NInt (sint (er_Epoch first))),
         (''lastEpoch'', NInt (sint (er_Epoch (last (first # rest))))),
         (''totalSizeBytes'', NInt (sint (sum_list (map er_ApproximateSizeBytes epochs)))),
         (''epochs'', NMap (map epoch_link (first # rest)))])))
     (\<lambda>(c, bs1). Inr (\<lparr>er_Epoch = er_Epoch first, er_CID = c, er_CARPath = '''',
         er_ApproximateSizeBytes = sum_list (map er_ApproximateSizeBytes epochs)\<rparr>, bs1))"
proof -
  have "distinct (map er_Epoch (first # rest))" using assms(2) by (metis assms(3) distinct_sort_key)
  then have "distinct (map fst (map epoch_link (first # rest)))"
    by (auto simp: epoch_link_def comp_def distinct_map inj_on_def)
  from qp_docD [OF assms(1) this] have es: "qp_BuildMap lib (map epoch_link (first # rest)) = Inr (NMap (map epoch_link (first # rest)))" .
  have tot: "sum_list (map er_ApproximateSizeBytes (first # rest)) = sum_list (map er_ApproximateSizeBytes epochs)"
    by (metis assms(3) sum_list_sort_key)
  show ?thesis
    unfolding BuildRangeNode_def Let_def assms(3) list.case es tot
    using assms(1) by (simp add: qp_doc_def)
qed

lemma sorted_last_Max: "sorted xs \<Longrightarrow> xs \<noteq> [] \<Longrightarrow> Max (set xs) = last xs"
  by (rule Max_eqI) (simp_all, auto simp: in_set_conv_nth last_conv_nth intro!: sorted_nth_mono)

text \<open>
  The range node of a multi-epoch export: for pairwise different epochs, a successful build
  returns the smallest epoch, records the smallest and the largest epoch and the summed size, links
  every epoch by its number in increasing order, and the node is in the store under the returned CID.
\<close>

theorem BuildRangeNode_result:
  assumes "qp_doc lib" "block_doc lib" "mem_wf m" and "distinct (map er_Epoch epochs)"
    and "BuildRangeNode lib (BMem m) network epochs = Inr (r, bs')"
  shows "\<exists>m' blk. bs' = BMem m' \<and> isOk (Mem_Get m' (er_CID r)) \<and>
     sealBlock lib linkProtoDagCBOR
       (NMap [(''network'', NString network), (''firstEpoch'', NInt (sint (Min (er_Epoch ` set epochs)))),
              (''lastEpoch'', NInt (sint (Max (er_Epoch ` set epochs)))),
              (''totalSizeBytes'', NInt (sint (er_ApproximateSizeBytes r))),
              (''epochs'', NMap (map epoch_link (sort_key er_Epoch epochs)))]) = Inr (er_CID r, blk) \<and>
     er_Epoch r = Min (er_Epoch ` set epochs) \<and>
     er_ApproximateSizeBytes r = sum_list (map er_ApproximateSizeBytes epochs)"
proof (cases "sort_key er_Epoch epochs")
  case Nil
  then show ?thesis using assms(5) by (simp add: BuildRangeNode_def)
next
  case (Cons first rest)
  have img: "er_Epoch ` set epochs = set (map er_Epoch (first # rest))"
    by (metis Cons list.set_map set_sort)
  have srt: "sorted (map er_Epoch (first # rest))" by (metis Cons sorted_sort_key)
  then have mn: "Min (er_Epoch ` set epochs) = er_Epoch first"
    unfolding img by (intro Min_eqI) auto
  have mx: "Max (er_Epoch ` set epochs) = er_Epoch (last (first # rest))"
    unfolding img using sorted_last_Max [OF srt] by (metis last_map list.distinct(1) map_is_Nil_conv)
  from assms(5) [unfolded BuildRangeNode_Cons [OF assms(1,4) Cons] lsys_Store_seal]
  obtain c blk where seal: "sealBlock lib linkProtoDagCBOR
       (NMap [(''network'', NString network), (''firstEpoch'', NInt (sint (er_Epoch first))),
         (''lastEpoch'', NInt (sint (er_Epoch (last (first # rest))))),
         (''totalSizeBytes'', NInt (sint (sum_list (map er_ApproximateSizeBytes epochs)))),
         (''epochs'', NMap (map epoch_link (first # rest)))]) = Inr (c, blk)"
    and r: "r = \<lparr>er_Epoch = er_Epoch first, er_CID = c, er_CARPath = '''',
         er_ApproximateSizeBytes = sum_list (map er_ApproximateSizeBytes epochs)\<rparr>"
    and bs': "bs' = backend_add (BMem m) blk"
    by (auto simp: bindR_eq_Inr simp del: list.map last.simps)
  obtain m' where m': "bs' = BMem m'" using bs' by simp
  have "isOk (Mem_Get m' (blkCid blk))"
    by (rule mem_bs.put_all_has [OF assms(3), of "[blk]"]) (use bs' m' in \<open>simp_all add: Mem_Put_def\<close>)
  with seal m' r seal_cid [OF assms(2) seal] show ?thesis by (auto simp: mn mx Cons)
qed

theorem BuildRangeNode_result_witness:
  "\<exists>r m'. BuildRangeNode demo_lib (BMem NewMemBlockstore) ''mainnet'' [demo_epoch 9, demo_epoch 2] = Inr (r, BMem m') \<and>
     er_Epoch r = Min {9, 2} \<and> er_ApproximateSizeBytes r = 262144"
proof -
  have wf: "mem_wf NewMemBlockstore" by (simp add: mem_wf_def NewMemBlockstore_def)
  have d: "distinct (map er_Epoch [demo_epoch 9, demo_epoch 2])" by (simp add: demo_epoch_def)
  have srt: "sort_key er_Epoch [demo_epoch 9, demo_epoch 2] = [demo_epoch 2, demo_epoch 9]" by (simp add: demo_epoch_def)
  have "isOk (BuildRangeNode demo_lib (BMem NewMemBlockstore) ''mainnet'' [demo_epoch 9, demo_epoch 2])"
    unfolding BuildRangeNode_Cons [OF demo_lib_doc(3) d srt] lsys_Store_seal
    by (simp add: seal_doc [OF demo_lib_doc(1,2)] EncoderChooser_def linkProtoDagCBOR_def) (simp add: demo_lib_def)
  then obtain r bs' where rb: "BuildRangeNode demo_lib (BMem NewMemBlockstore) ''mainnet'' [demo_epoch 9, demo_epoch 2] = Inr (r, bs')"
    by (auto simp: isOk_iff)
  show ?thesis
    using BuildRangeNode_result [OF demo_lib_doc(3,2) wf d rb] rb by (auto simp: demo_epoch_def)
qed

end
