(* ===== verification/Beacon.thy ===== *)
theory Beacon
  imports Golib
begin

text \<open>
  \<^verbatim>\<open>beacon/client.go\<close>: the consensus-layer REST client. Its state is the back-off and the request
  counters; one call of \<^verbatim>\<open>get\<close> is a step on that state, driven by what the environment does during
  the call (\<open>get_env\<close>: the clock, the limiter, the HTTP exchange). \<^verbatim>\<open>FetchEpochInput\<close> runs one task
  per slot; the tasks finish in some order, which is an argument of its model.
\<close>

section \<open>The client\<close>

record Client =
  cl_base :: string
  cl_timeout :: duration
  cl_slotWorkers :: goint
  cl_limiter :: bool
  cl_backoffBase :: duration
  cl_lastBackoffTime :: gotime
  cl_backoffDuration :: duration
  cl_rpcRequests :: int64
  cl_rpc429 :: int64
  cl_slotsPerEpoch :: uint64
  cl_secondsPerSlot :: uint64

text \<open>The rate limiter belongs to \<^verbatim>\<open>golang.org/x/time/rate\<close>; the client keeps whether it has one.\<close>

definition NewClient ::
  "string \<Rightarrow> duration \<Rightarrow> goint \<Rightarrow> bool \<Rightarrow> duration \<Rightarrow> uint64 \<Rightarrow> uint64 \<Rightarrow> Client" where
  "NewClient baseURL timeout slotWorkers rateLimited backoff429 slotsPerEpoch secondsPerSlot =
     \<lparr>cl_base = strings_TrimRight baseURL (CHR ''/''),
      cl_timeout = timeout,
      cl_slotWorkers = (if sint slotWorkers \<le> 0 then 8 else slotWorkers),
      cl_limiter = rateLimited,
      cl_backoffBase = (if sint backoff429 \<le> 0 then time_Second else backoff429),
      cl_lastBackoffTime = zeroTime,
      cl_backoffDuration = 0,
      cl_rpcRequests = 0,
      cl_rpc429 = 0,
      cl_slotsPerEpoch = (if slotsPerEpoch = 0 then 32 else slotsPerEpoch),
      cl_secondsPerSlot = (if secondsPerSlot = 0 then 12 else secondsPerSlot)\<rparr>"

section \<open>The HTTP helper\<close>

text \<open>An answer is a status code and a body, the body as text and, when it is JSON, as a document.\<close>

record http_response =
  hr_status :: int
  hr_body :: string
  hr_json :: "json option"

record get_env =
  ge_elapsed :: int
  ge_waitCanceled :: bool
  ge_limiterWait :: "unit res"
  ge_newRequest :: "unit res"
  ge_do :: "http_response res"
  ge_now :: gotime

definition next_backoff :: "Client \<Rightarrow> duration" where
  "next_backoff c =
     (if cl_backoffDuration c = 0 then cl_backoffBase c
      else let d = cl_backoffDuration c * 2
           in if sint (60 * time_Second) < sint d then 60 * time_Second else d)"

definition must_wait :: "Client \<Rightarrow> get_env \<Rightarrow> bool" where
  "must_wait c env \<longleftrightarrow> 0 < sint (cl_backoffDuration c) \<and> ge_elapsed env < sint (cl_backoffDuration c)"

definition handle_response ::
  "Client \<Rightarrow> get_env \<Rightarrow> string \<Rightarrow> (json \<Rightarrow> 'a res) \<Rightarrow> http_response \<Rightarrow> 'a res \<times> Client" where
  "handle_response c0 env url dec resp =
     (let c = c0\<lparr>cl_rpcRequests := cl_rpcRequests c0 + 1\<rparr>
      in if hr_status resp = 404 then (Inl (Errorf (''not found (404): '' @ url)), c)
         else if hr_status resp = 429 then
           (Inl (Errorf (''HTTP 429 (rate limited): '' @ hr_body resp)),
            c\<lparr>cl_rpc429 := cl_rpc429 c + 1, cl_backoffDuration := next_backoff c,
              cl_lastBackoffTime := ge_now env\<rparr>)
         else
           let c = c\<lparr>cl_backoffDuration := 0\<rparr>
           in if hr_status resp \<noteq> 200 then
                (if hr_status resp = 503 \<and> strings_Contains (hr_body resp) ''not sufficient to serve blob sidecars''
                 then Inl ErrInsufficientCustody
                 else Inl (Errorf (''HTTP '' @ fmt_int (hr_status resp) @ '': '' @ hr_body resp)), c)
              else ((case hr_json resp of None \<Rightarrow> Inl (Errorf ''invalid JSON'') | Some j \<Rightarrow> dec j), c))"

definition client_get :: "Client \<Rightarrow> get_env \<Rightarrow> string \<Rightarrow> (json \<Rightarrow> 'a res) \<Rightarrow> 'a res \<times> Client" where
  "client_get c env url dec =
     (if must_wait c env \<and> ge_waitCanceled env then (Inl ErrCanceled, c)
      else case (if cl_limiter c then ge_limiterWait env else Inr ()) of
             Inl e \<Rightarrow> (Inl e, c)
           | Inr _ \<Rightarrow>
               (case ge_newRequest env of
                  Inl e \<Rightarrow> (Inl e, c)
                | Inr _ \<Rightarrow>
                    (case ge_do env of
                       Inl e \<Rightarrow> (Inl e, c)
                     | Inr resp \<Rightarrow> handle_response c env url dec resp)))"

definition GetRPCRequestCount :: "Client \<Rightarrow> int64" where
  "GetRPCRequestCount c = cl_rpcRequests c"

definition Get429Count :: "Client \<Rightarrow> int64" where
  "Get429Count c = cl_rpc429 c"

definition isNotFound :: "error \<Rightarrow> bool" where
  "isNotFound e = strings_Contains (error_text e) ''not found (404)''"

section \<open>The requests\<close>

record FinalityCheckpoints =
  fc_FinalizedEpoch :: uint64
  fc_JustifiedEpoch :: uint64

definition dec_finality :: "json \<Rightarrow> (string \<times> string) res" where
  "dec_finality j =
     bindR (json_path [''data'', ''finalized''] j) (\<lambda>f.
     bindR (json_string ''epoch'' (f ''epoch'')) (\<lambda>fe.
     bindR (json_path [''data'', ''current_justified''] j) (\<lambda>cj.
     bindR (json_string ''epoch'' (cj ''epoch'')) (\<lambda>ce. Inr (fe, ce)))))"

definition GetFinalityCheckpoints ::
  "Client \<Rightarrow> get_env \<Rightarrow> string \<Rightarrow> FinalityCheckpoints res \<times> Client" where
  "GetFinalityCheckpoints c env stateID =
     (let url = cl_base c @ ''/eth/v1/beacon/states/'' @ stateID @ ''/finality_checkpoints'';
          (r, c') = client_get c env url dec_finality
      in (bindR (wrapR ''beacon: finality checkpoints'' r) (\<lambda>(fe, ce).
            bindR (wrapR ''beacon: parse finalized epoch'' (ParseUint fe)) (\<lambda>finalized.
            bindR (wrapR ''beacon: parse justified epoch'' (ParseUint ce)) (\<lambda>justified.
              Inr \<lparr>fc_FinalizedEpoch = finalized, fc_JustifiedEpoch = justified\<rparr>))), c'))"

record BlockHeader =
  bh_Slot :: uint64
  bh_ProposerIndex :: uint64
  bh_ParentRoot :: string
  bh_StateRoot :: string
  bh_BodyRoot :: string

definition dec_header :: "json \<Rightarrow> BlockHeader res" where
  "dec_header j =
     bindR (json_path [''data'', ''header'', ''message''] j) (\<lambda>m.
     bindR (json_string ''slot'' (m ''slot'')) (\<lambda>slot.
     bindR (json_string ''proposer_index'' (m ''proposer_index'')) (\<lambda>proposer.
     bindR (json_string ''parent_root'' (m ''parent_root'')) (\<lambda>parentRoot.
     bindR (json_string ''state_root'' (m ''state_root'')) (\<lambda>stateRoot.
     bindR (json_string ''body_root'' (m ''body_root'')) (\<lambda>bodyRoot.
       Inr \<lparr>bh_Slot = ParseUint_value slot, bh_ProposerIndex = ParseUint_value proposer,
            bh_ParentRoot = parentRoot, bh_StateRoot = stateRoot, bh_BodyRoot = bodyRoot\<rparr>))))))"

definition GetBlockHeader :: "Client \<Rightarrow> get_env \<Rightarrow> string \<Rightarrow> BlockHeader res \<times> Client" where
  "GetBlockHeader c env blockID =
     (let (r, c') = client_get c env (cl_base c @ ''/eth/v1/beacon/headers/'' @ blockID) dec_header
      in (wrapR (''beacon: block header '' @ blockID) r, c'))"

record BlobSidecar =
  sc_BlockRoot :: string
  sc_Index :: string
  sc_Slot :: string
  sc_BlockParentRoot :: string
  sc_ProposerIndex :: string
  sc_Blob :: string
  sc_KZGCommitment :: string
  sc_KZGProof :: string

definition dec_sidecar :: "json \<Rightarrow> BlobSidecar res" where
  "dec_sidecar j =
     bindR (json_object ''data'' (Some j)) (\<lambda>m.
     bindR (json_string ''block_root'' (m ''block_root'')) (\<lambda>blockRoot.
     bindR (json_string ''index'' (m ''index'')) (\<lambda>index.
     bindR (json_string ''slot'' (m ''slot'')) (\<lambda>slot.
     bindR (json_string ''block_parent_root'' (m ''block_parent_root'')) (\<lambda>parentRoot.
     bindR (json_string ''proposer_index'' (m ''proposer_index'')) (\<lambda>proposer.
     bindR (json_string ''blob'' (m ''blob'')) (\<lambda>blob.
     bindR (json_string ''kzg_commitment'' (m ''kzg_commitment'')) (\<lambda>commitment.
     bindR (json_string ''kzg_proof'' (m ''kzg_proof'')) (\<lambda>pf.
       Inr \<lparr>sc_BlockRoot = blockRoot, sc_Index = index, sc_Slot = slot, sc_BlockParentRoot = parentRoot,
            sc_ProposerIndex = proposer, sc_Blob = blob, sc_KZGCommitment = commitment, sc_KZGProof = pf\<rparr>)))))))))"

definition dec_sidecars :: "json \<Rightarrow> BlobSidecar list res" where
  "dec_sidecars j =
     bindR (json_path [] j) (\<lambda>m. bindR (json_list ''data'' (m ''data'')) (mapR dec_sidecar))"

definition GetBlobSidecars :: "Client \<Rightarrow> get_env \<Rightarrow> string \<Rightarrow> BlobSidecar list res \<times> Client" where
  "GetBlobSidecars c env blockID =
     (let (r, c') = client_get c env (cl_base c @ ''/eth/v1/beacon/blob_sidecars/'' @ blockID) dec_sidecars
      in (wrapR (''beacon: blob sidecars '' @ blockID) r, c'))"

record ExecutionPayloadInfo =
  ep_BlockHash :: string
  ep_BlockNumber :: uint64

definition dec_payload :: "json \<Rightarrow> (string \<times> string) res" where
  "dec_payload j =
     bindR (json_path [''data'', ''message'', ''body'', ''execution_payload''] j) (\<lambda>m.
     bindR (json_string ''block_hash'' (m ''block_hash'')) (\<lambda>h.
     bindR (json_string ''block_number'' (m ''block_number'')) (\<lambda>n. Inr (h, n))))"

definition GetExecutionPayloadInfo ::
  "Client \<Rightarrow> get_env \<Rightarrow> string \<Rightarrow> ExecutionPayloadInfo res \<times> Client" where
  "GetExecutionPayloadInfo c env blockID =
     (let (r, c') = client_get c env (cl_base c @ ''/eth/v2/beacon/blocks/'' @ blockID) dec_payload
      in (bindR (wrapR (''beacon: block '' @ blockID) r) (\<lambda>(blockHash, blockNumber).
            if blockHash = '''' then Inl ErrNoExecutionPayload
            else bindR (wrapR (''beacon: parse execution block_number for '' @ blockID) (ParseUint blockNumber))
                   (\<lambda>number. Inr \<lparr>ep_BlockHash = blockHash, ep_BlockNumber = number\<rparr>)), c'))"

definition dec_genesis :: "json \<Rightarrow> string res" where
  "dec_genesis j = bindR (json_path [''data''] j) (\<lambda>m. json_string ''genesis_time'' (m ''genesis_time''))"

definition GetGenesisTime :: "Client \<Rightarrow> get_env \<Rightarrow> gotime res \<times> Client" where
  "GetGenesisTime c env =
     (let (r, c') = client_get c env (cl_base c @ ''/eth/v1/beacon/genesis'') dec_genesis
      in (bindR (wrapR ''beacon: genesis'' r) (\<lambda>s.
            bindR (wrapR ''beacon: parse genesis_time'' (ParseInt s)) (\<lambda>secs. Inr (time_Unix secs))), c'))"

definition dec_spec :: "json \<Rightarrow> string res" where
  "dec_spec j = bindR (json_path [''data''] j) (\<lambda>m. json_string ''CONFIG_NAME'' (m ''CONFIG_NAME''))"

definition GetNetworkName :: "Client \<Rightarrow> get_env \<Rightarrow> string res \<times> Client" where
  "GetNetworkName c env =
     (let (r, c') = client_get c env (cl_base c @ ''/eth/v1/config/spec'') dec_spec
      in (bindR (wrapR ''beacon: config spec'' r) (\<lambda>name.
            if name = '''' then Inl (Errorf ''beacon: config spec: CONFIG_NAME is empty'')
            else Inr (strings_ToLower name)), c'))"

section \<open>Slots and epochs\<close>

definition SlotTime :: "gotime \<Rightarrow> uint64 \<Rightarrow> uint64 \<Rightarrow> gotime" where
  "SlotTime genesisTime slot secondsPerSlot = time_Add genesisTime (slot * secondsPerSlot * time_Second)"

definition EpochToFirstSlot :: "uint64 \<Rightarrow> uint64 \<Rightarrow> uint64" where
  "EpochToFirstSlot epoch slotsPerEpoch = epoch * slotsPerEpoch"

text \<open>Go's integer division panics on 0, which \<^verbatim>\<open>NewClient\<close> rules out for the client's own parameter.\<close>

definition SlotToEpoch :: "uint64 \<Rightarrow> uint64 \<Rightarrow> uint64 res" where
  "SlotToEpoch slot slotsPerEpoch =
     (if slotsPerEpoch = 0 then Inl (GoPanic ''integer divide by zero'') else Inr (slot div slotsPerEpoch))"

section \<open>Hexadecimal\<close>

definition hexVal :: "char \<Rightarrow> byte" where
  "hexVal c =
     (let n = of_char c :: nat
      in if 48 \<le> n \<and> n \<le> 57 then word_of_nat (n - 48)
         else if 97 \<le> n \<and> n \<le> 102 then word_of_nat (n - 97 + 10)
         else if 65 \<le> n \<and> n \<le> 70 then word_of_nat (n - 65 + 10)
         else 255)"

fun hexToBytes_loop :: "nat \<Rightarrow> string \<Rightarrow> bytes res" where
  "hexToBytes_loop i (c # d # cs) =
     (let hi = hexVal c; lo = hexVal d
      in if 15 < hi \<or> 15 < lo then Inl (Errorf (''invalid hex char at position '' @ fmt_nat (2 * i)))
         else bindR (hexToBytes_loop (i + 1) cs) (\<lambda>bs. Inr ((push_bit 4 hi OR lo) # bs)))"
| "hexToBytes_loop i _ = Inr []"

definition hexToBytes :: "string \<Rightarrow> bytes res" where
  "hexToBytes h0 =
     (let h = strings_TrimPrefix h0 ''0x'';
          h = (if length h mod 2 \<noteq> 0 then CHR ''0'' # h else h)
      in hexToBytes_loop 0 h)"

text \<open>\<^verbatim>\<open>sha256.Sum256\<close> is an argument: the digest has 32 bytes.\<close>

definition kzgCommitmentToVersionedHash :: "(bytes \<Rightarrow> bytes) \<Rightarrow> string \<Rightarrow> string res" where
  "kzgCommitmentToVersionedHash sha256 commitment =
     bindR (wrapR (''decode commitment '' @ go_quote commitment) (hex_DecodeString (strings_TrimPrefix commitment ''0x'')))
       (\<lambda>raw. Inr (''0x'' @ hex_EncodeToString ((sha256 raw)[0 := 1])))"

section \<open>FetchEpochInput\<close>

record ELBlobData =
  el_TxHash :: string
  el_BlockNumber :: uint64
  el_BlockHash :: string

text \<open>
  The task of one slot. \<open>sidecars\<close> is what its call of \<^verbatim>\<open>GetBlobSidecars\<close> returned and \<open>el\<close> what
  \<^verbatim>\<open>el.GetBlobTxData\<close> answers to it, \<^term>\<open>None\<close> for a nil client. \<^term>\<open>Inr None\<close> is the missed slot,
  whose entry stays nil.
\<close>

definition el_enrich ::
  "(string \<Rightarrow> string \<Rightarrow> ELBlobData res) option \<Rightarrow> string \<Rightarrow> string \<Rightarrow> BlobInput \<Rightarrow> BlobInput" where
  "el_enrich el blockRoot versionedHash bi =
     (case el of
        None \<Rightarrow> bi
      | Some GetBlobTxData \<Rightarrow>
          (case GetBlobTxData blockRoot versionedHash of
             Inl _ \<Rightarrow> bi
           | Inr elData \<Rightarrow> bi\<lparr>bi_TxHash := el_TxHash elData, bi_BlockNumber := el_BlockNumber elData,
                             bi_BlockHash := el_BlockHash elData\<rparr>))"

definition slot_blob ::
  "(bytes \<Rightarrow> bytes) \<Rightarrow> (string \<Rightarrow> string \<Rightarrow> ELBlobData res) option \<Rightarrow> uint64 \<Rightarrow> uint64 \<Rightarrow> BlobSidecar \<Rightarrow> BlobInput res" where
  "slot_blob sha256 el epoch slot sc =
     bindR (wrapR (''beacon: decode blob hex slot '' @ FormatUint slot) (hexToBytes (sc_Blob sc))) (\<lambda>blobData.
     bindR (wrapR (''beacon: versioned hash slot '' @ FormatUint slot)
              (kzgCommitmentToVersionedHash sha256 (sc_KZGCommitment sc))) (\<lambda>versionedHash.
       let bi = \<lparr>bi_Commitment = sc_KZGCommitment sc, bi_VersionedHash = versionedHash, bi_TxHash = '''',
                 bi_BlockNumber = 0, bi_BlockHash = sc_BlockRoot sc, bi_Slot = slot, bi_Epoch = epoch,
                 bi_Index = Atoi_value (sc_Index sc), bi_Data = blobData, bi_Size = 0\<rparr>
       in Inr (el_enrich el (sc_BlockRoot sc) versionedHash bi)))"

definition slot_task ::
  "(bytes \<Rightarrow> bytes) \<Rightarrow> (string \<Rightarrow> string \<Rightarrow> ELBlobData res) option \<Rightarrow> uint64 \<Rightarrow> uint64 \<Rightarrow>
   BlobSidecar list res \<Rightarrow> BlobInput list option res" where
  "slot_task sha256 el epoch slot sidecars =
     (case sidecars of
        Inl e \<Rightarrow> if isNotFound e then Inr None
                 else Inl (wrapErr (''beacon: fetch slot '' @ FormatUint slot) e)
      | Inr scs \<Rightarrow> bindR (mapR (slot_blob sha256 el epoch slot) scs) (\<lambda>blobs. Inr (Some blobs)))"

text \<open>
  \<^verbatim>\<open>errgroup\<close>: the tasks finish in the order \<open>order\<close>; each writes its own entry of \<^verbatim>\<open>slotBlobs\<close>, and
  the first error is the one that \<^verbatim>\<open>Wait\<close> returns.
\<close>

fun fetch_run ::
  "(nat \<Rightarrow> BlobInput list option res) \<Rightarrow> nat list \<Rightarrow> BlobInput list list \<times> error option \<Rightarrow>
   BlobInput list list \<times> error option" where
  "fetch_run task [] s = s"
| "fetch_run task (i # order) (slotBlobs, err) =
     (case task i of
        Inl e \<Rightarrow> fetch_run task order (slotBlobs, case err of None \<Rightarrow> Some e | Some e0 \<Rightarrow> Some e0)
      | Inr None \<Rightarrow> fetch_run task order (slotBlobs, err)
      | Inr (Some blobs) \<Rightarrow> fetch_run task order (slotBlobs[i := blobs], err))"

definition FetchEpochInput ::
  "(bytes \<Rightarrow> bytes) \<Rightarrow> Client \<Rightarrow> (nat \<Rightarrow> (string \<Rightarrow> string \<Rightarrow> ELBlobData res) option) \<Rightarrow>
   (uint64 \<Rightarrow> BlobSidecar list res) \<Rightarrow> nat list \<Rightarrow> uint64 \<Rightarrow> EpochInput res" where
  "FetchEpochInput sha256 c el sidecars order epoch =
     (let firstSlot = EpochToFirstSlot epoch (cl_slotsPerEpoch c);
          task = (\<lambda>i. let slot = firstSlot + word_of_nat i
                      in slot_task sha256 (el i) epoch slot (sidecars slot));
          (slotBlobs, err) = fetch_run task order (replicate (unat (cl_slotsPerEpoch c)) [], None)
      in case err of
           Some e \<Rightarrow> Inl e
         | None \<Rightarrow> Inr \<lparr>ei_Epoch = epoch, ei_Slot = firstSlot, ei_Blobs = concat slotBlobs\<rparr>)"

section \<open>Facts on hexadecimal\<close>

lemma hexVal_nibble: "hexVal c = (case hex_nibble c of None \<Rightarrow> 255 | Some d \<Rightarrow> word_of_nat d)"
  by (auto simp: hexVal_def hex_nibble_def Let_def)

lemma nibble_word_gt: "d < 16 \<Longrightarrow> \<not> 15 < (word_of_nat d :: byte)"
  by (auto simp: word_less_nat_alt unat_of_nat)

lemma nibbles_or:
  assumes "hi < 16" "lo < 16"
  shows "push_bit 4 (word_of_nat hi :: byte) OR word_of_nat lo = word_of_nat (16 * hi + lo)"
  using nat16_cases [OF assms(1)] nat16_cases [OF assms(2)] by (elim disjE) simp_all

lemma hexToBytes_loop_decode:
  "even (length h) \<Longrightarrow> hexToBytes_loop i h = Inr bs \<longleftrightarrow> hex_DecodeString h = Inr bs"
proof (induction i h arbitrary: bs rule: hexToBytes_loop.induct)
  case (1 i c d cs)
  show ?case
  proof (cases "hex_nibble c = None \<or> hex_nibble d = None")
    case True
    then show ?thesis by (auto simp: hexVal_nibble split: option.splits)
  next
    case False
    then obtain hi lo where n: "hex_nibble c = Some hi" "hex_nibble d = Some lo" by auto
    then have lt: "hi < 16" "lo < 16" by (auto dest: hex_nibble_less)
    have v: "hexVal c = word_of_nat hi" "hexVal d = word_of_nat lo" using n by (simp_all add: hexVal_nibble)
    have c: "\<not> (15 < hexVal c \<or> 15 < hexVal d)" using lt by (simp add: v nibble_word_gt)
    have ev: "even (length cs)" using "1.prems" by simp
    have IH: "hexToBytes_loop (i + 1) cs = Inr bs' \<longleftrightarrow> hex_DecodeString cs = Inr bs'" for bs'
      by (rule "1.IH" [OF refl refl c ev])
    show ?thesis
      using c unfolding hexToBytes_loop.simps Let_def v nibbles_or [OF lt]
      by (auto simp: n bindR_eq_Inr IH [simplified])
  qed
qed auto

lemma hexToBytes_0x_even: "even (length s) \<Longrightarrow> hexToBytes (''0x'' @ s) = hexToBytes_loop 0 s"
  using TrimPrefix_append [of "''0x''" s] by (simp add: hexToBytes_def)

text \<open>
  \<^verbatim>\<open>hexToBytes\<close> decodes what the standard library decodes: it accepts exactly the strings whose
  digits, after an optional \<^verbatim>\<open>0x\<close> and a \<^verbatim>\<open>0\<close> put in front of an odd number of them, \<^verbatim>\<open>hex.DecodeString\<close>
  accepts, with the same bytes; and it inverts the encoder behind \<^verbatim>\<open>0x\<close>.
\<close>

theorem hexToBytes_decodes:
  "(hexToBytes h = Inr bs \<longleftrightarrow>
      hex_DecodeString ((if odd (length (strings_TrimPrefix h ''0x'')) then ''0'' else '''') @ strings_TrimPrefix h ''0x'') = Inr bs) \<and>
   hexToBytes (''0x'' @ hex_EncodeToString data) = Inr data"
proof
  show "hexToBytes h = Inr bs \<longleftrightarrow>
      hex_DecodeString ((if odd (length (strings_TrimPrefix h ''0x'')) then ''0'' else '''') @ strings_TrimPrefix h ''0x'') = Inr bs"
    using hexToBytes_loop_decode [of "CHR ''0'' # strings_TrimPrefix h ''0x''" 0 bs]
      hexToBytes_loop_decode [of "strings_TrimPrefix h ''0x''" 0 bs]
    by (cases "even (length (strings_TrimPrefix h ''0x''))") (simp_all add: hexToBytes_def odd_iff_mod_2_eq_one)
  show "hexToBytes (''0x'' @ hex_EncodeToString data) = Inr data"
    by (subst hexToBytes_0x_even) (simp_all add: hexToBytes_loop_decode)
qed

lemma hex_DecodeString_lower: "hex_DecodeString (map lower_char s) = hex_DecodeString s"
  using hex_Decode_lower [of s] by (simp only: strings_ToLower_def)

text \<open>
  A versioned hash is 66 characters of lower-case hexadecimal that begin with \<^verbatim>\<open>0x01\<close>, followed by
  the SHA-256 digest of the commitment's bytes without its first byte; it depends on the bytes only,
  not on the case in which the commitment is written or on the \<^verbatim>\<open>0x\<close> in front; and a commitment that is
  not hexadecimal is an error.
\<close>

theorem versioned_hash_form:
  assumes "\<forall>raw. length (sha256 raw) = 32"
  shows "kzgCommitmentToVersionedHash sha256 (''0x'' @ hex_EncodeToString raw) =
           Inr (''0x01'' @ hex_EncodeToString (tl (sha256 raw))) \<and>
    (\<forall>s. \<not> strings_HasPrefix s ''0x'' \<and> hex_DecodeString s = Inr raw \<longrightarrow>
       kzgCommitmentToVersionedHash sha256 s = Inr (''0x01'' @ hex_EncodeToString (tl (sha256 raw)))) \<and>
    length (''0x01'' @ hex_EncodeToString (tl (sha256 raw))) = 66 \<and>
    (\<forall>s e. hex_DecodeString (strings_TrimPrefix s ''0x'') = Inl e \<longrightarrow>
       \<not> isOk (kzgCommitmentToVersionedHash sha256 s))"
proof -
  from assms obtain b rest where d: "sha256 raw = b # rest" by (metis length_greater_0_conv list.exhaust zero_less_numeral)
  then have "length (b # rest) = 32" using assms by metis
  then have len: "length rest = 31" by simp
  have hd: "hex_EncodeToString ((sha256 raw)[0 := 1]) = ''01'' @ hex_EncodeToString (tl (sha256 raw))"
    by (simp add: d nibble_char_def char_of_def bit_Suc_0_iff)
  have dec: "kzgCommitmentToVersionedHash sha256 s = Inr (''0x01'' @ hex_EncodeToString (tl (sha256 raw)))"
    if "hex_DecodeString (strings_TrimPrefix s ''0x'') = Inr raw" for s
    using that by (simp add: kzgCommitmentToVersionedHash_def hd)
  have "kzgCommitmentToVersionedHash sha256 (''0x'' @ hex_EncodeToString raw) =
           Inr (''0x01'' @ hex_EncodeToString (tl (sha256 raw)))"
    by (rule dec) (simp only: TrimPrefix_append hex_Decode_Encode)
  moreover have "kzgCommitmentToVersionedHash sha256 s = Inr (''0x01'' @ hex_EncodeToString (tl (sha256 raw)))"
    if "\<not> strings_HasPrefix s ''0x'' \<and> hex_DecodeString s = Inr raw" for s
    using that by (intro dec) (simp add: strings_TrimPrefix_def)
  moreover have "length (''0x01'' @ hex_EncodeToString (tl (sha256 raw))) = 66" by (simp add: d len)
  moreover have "\<not> isOk (kzgCommitmentToVersionedHash sha256 s)"
    if "hex_DecodeString (strings_TrimPrefix s ''0x'') = Inl e" for s e
    using that by (simp add: kzgCommitmentToVersionedHash_def)
  ultimately show ?thesis by blast
qed

theorem versioned_hash_form_witness:
  "kzgCommitmentToVersionedHash (\<lambda>raw. replicate 32 0xAB) ''C0'' = Inr (''0x01'' @ hex_EncodeToString (replicate 31 0xAB))"
proof -
  have "\<forall>raw :: bytes. length (replicate 32 (0xAB :: byte)) = 32" by simp
  moreover have "\<not> strings_HasPrefix ''C0'' ''0x'' \<and> hex_DecodeString ''C0'' = Inr [0xC0]"
    by (simp add: strings_HasPrefix_def hex_nibble_def)
  moreover have "tl (replicate 32 (0xAB :: byte)) = replicate 31 0xAB" by (simp only: tl_replicate) simp
  ultimately show ?thesis using versioned_hash_form [of "\<lambda>raw. replicate 32 0xAB" "[0xC0]"] by metis
qed

section \<open>Facts on the slot tasks\<close>

definition task_blobs :: "BlobInput list option res \<Rightarrow> BlobInput list" where
  "task_blobs r = (case r of Inr (Some blobs) \<Rightarrow> blobs | _ \<Rightarrow> [])"

lemma fetch_run_err: "snd (fetch_run task order (slotBlobs, Some e)) = Some e"
  by (induction order arbitrary: slotBlobs) (auto split: sum.splits option.splits)

lemma fetch_run_fail:
  "\<exists>i \<in> set order. \<not> isOk (task i) \<Longrightarrow>
   \<exists>i \<in> set order. \<exists>e. task i = Inl e \<and> snd (fetch_run task order (slotBlobs, None)) = Some e"
proof (induction order arbitrary: slotBlobs)
  case (Cons i order)
  show ?case
  proof (cases "task i")
    case (Inl e)
    then show ?thesis by (auto simp: fetch_run_err)
  next
    case (Inr r)
    then have "\<exists>i \<in> set order. \<not> isOk (task i)" using Cons.prems by auto
    from Cons.IH [OF this] show ?thesis using Inr by (auto split: option.splits)
  qed
qed simp

lemma fetch_run_ok:
  "\<forall>i \<in> set order. isOk (task i) \<and> i < length slotBlobs \<Longrightarrow>
   \<exists>slotBlobs'. fetch_run task order (slotBlobs, None) = (slotBlobs', None) \<and> length slotBlobs' = length slotBlobs \<and>
     (\<forall>k < length slotBlobs. slotBlobs' ! k =
        (if k \<in> set order \<and> task k \<noteq> Inr None then task_blobs (task k) else slotBlobs ! k))"
proof (induction order arbitrary: slotBlobs)
  case (Cons i order)
  then obtain r where r: "task i = Inr r" by (auto simp: isOk_iff)
  let ?s = "case r of None \<Rightarrow> slotBlobs | Some blobs \<Rightarrow> slotBlobs[i := blobs]"
  have "fetch_run task (i # order) (slotBlobs, None) = fetch_run task order (?s, None)"
    using r by (cases r) auto
  moreover have "length ?s = length slotBlobs" by (cases r) auto
  moreover have "?s ! k = (if k = i \<and> task k \<noteq> Inr None then task_blobs (task k) else slotBlobs ! k)"
    if "k < length slotBlobs" for k
    using r that by (cases r) (auto simp: task_blobs_def nth_list_update)
  moreover have "\<forall>i \<in> set order. isOk (task i) \<and> i < length ?s" using Cons.prems calculation(2) by auto
  ultimately show ?case using Cons.IH [of ?s] by auto
qed auto

definition epoch_task ::
  "(bytes \<Rightarrow> bytes) \<Rightarrow> Client \<Rightarrow> (nat \<Rightarrow> (string \<Rightarrow> string \<Rightarrow> ELBlobData res) option) \<Rightarrow>
   (uint64 \<Rightarrow> BlobSidecar list res) \<Rightarrow> uint64 \<Rightarrow> nat \<Rightarrow> BlobInput list option res" where
  "epoch_task sha256 c el sidecars epoch i =
     (let slot = epoch * cl_slotsPerEpoch c + word_of_nat i
      in slot_task sha256 (el i) epoch slot (sidecars slot))"

lemma FetchEpochInput_eq:
  assumes "set order = {..<unat (cl_slotsPerEpoch c)}"
    and "\<forall>i < unat (cl_slotsPerEpoch c). isOk (epoch_task sha256 c el sidecars epoch i)"
  shows "FetchEpochInput sha256 c el sidecars order epoch =
    Inr \<lparr>ei_Epoch = epoch, ei_Slot = epoch * cl_slotsPerEpoch c,
         ei_Blobs = concat (map (\<lambda>i. task_blobs (epoch_task sha256 c el sidecars epoch i)) [0..<unat (cl_slotsPerEpoch c)])\<rparr>"
proof -
  let ?n = "unat (cl_slotsPerEpoch c)" and ?t = "epoch_task sha256 c el sidecars epoch"
  obtain sb where sb: "fetch_run ?t order (replicate ?n [], None) = (sb, None)" "length sb = ?n"
    "\<forall>k < ?n. sb ! k = (if k \<in> set order \<and> ?t k \<noteq> Inr None then task_blobs (?t k) else replicate ?n [] ! k)"
    using fetch_run_ok [of order ?t "replicate ?n []"] assms by auto
  have "sb = map (\<lambda>i. task_blobs (?t i)) [0..<?n]"
    by (rule nth_equalityI) (use sb assms(1) in \<open>auto simp: task_blobs_def\<close>)
  with sb(1) show ?thesis
    by (simp add: FetchEpochInput_def EpochToFirstSlot_def Let_def epoch_task_def [abs_def])
qed

lemma FetchEpochInput_fail:
  assumes "set order = {..<unat (cl_slotsPerEpoch c)}"
    and "\<exists>i < unat (cl_slotsPerEpoch c). \<not> isOk (epoch_task sha256 c el sidecars epoch i)"
  shows "\<exists>i < unat (cl_slotsPerEpoch c). \<exists>e. epoch_task sha256 c el sidecars epoch i = Inl e \<and>
    FetchEpochInput sha256 c el sidecars order epoch = Inl e"
proof -
  let ?t = "epoch_task sha256 c el sidecars epoch"
  from assms have "\<exists>i \<in> set order. \<not> isOk (?t i)" by auto
  from fetch_run_fail [OF this, of "replicate (unat (cl_slotsPerEpoch c)) []"] obtain i e sb where
    "i \<in> set order" "?t i = Inl e" "fetch_run ?t order (replicate (unat (cl_slotsPerEpoch c)) [], None) = (sb, Some e)"
    by (metis prod.collapse)
  with assms(1) show ?thesis
    by (auto simp: FetchEpochInput_def EpochToFirstSlot_def Let_def epoch_task_def [abs_def])
qed

text \<open>
  Fetching an epoch is deterministic: in whatever order the tasks of the slots finish, when all
  succeed the blobs are those of the slots in slot order, a missed slot contributing none, and when
  some fail the result is the error of one of them.
\<close>

theorem FetchEpochInput_order_irrelevant:
  assumes "distinct order" and "set order = {..<unat (cl_slotsPerEpoch c)}"
  shows "((\<forall>i < unat (cl_slotsPerEpoch c). isOk (epoch_task sha256 c el sidecars epoch i)) \<longrightarrow>
      FetchEpochInput sha256 c el sidecars order epoch =
      Inr \<lparr>ei_Epoch = epoch, ei_Slot = epoch * cl_slotsPerEpoch c,
           ei_Blobs = concat (map (\<lambda>i. task_blobs (epoch_task sha256 c el sidecars epoch i)) [0..<unat (cl_slotsPerEpoch c)])\<rparr>) \<and>
    ((\<exists>i < unat (cl_slotsPerEpoch c). \<not> isOk (epoch_task sha256 c el sidecars epoch i)) \<longrightarrow>
      (\<exists>i < unat (cl_slotsPerEpoch c). \<exists>e. epoch_task sha256 c el sidecars epoch i = Inl e \<and>
         FetchEpochInput sha256 c el sidecars order epoch = Inl e))"
  using FetchEpochInput_fail [OF assms(2)] FetchEpochInput_eq [OF assms(2)] by blast

definition demo_client :: Client where
  "demo_client = NewClient ''http://localhost:5052/'' (30 * time_Second) 8 False 0 2 12"

theorem FetchEpochInput_order_irrelevant_witness:
  "FetchEpochInput id demo_client (\<lambda>_. None)
     (\<lambda>slot. if slot = 10 then Inl (Errorf ''not found (404): slot'') else Inr []) [1, 0] 5 =
   Inr \<lparr>ei_Epoch = 5, ei_Slot = 10, ei_Blobs = []\<rparr>"
proof -
  have n: "unat (cl_slotsPerEpoch demo_client) = 2" by (simp add: demo_client_def NewClient_def)
  have s: "cl_slotsPerEpoch demo_client = 2" by (simp add: demo_client_def NewClient_def)
  have d: "distinct [1, 0 :: nat]" "set [1, 0] = {..<unat (cl_slotsPerEpoch demo_client)}" by (auto simp: n)
  let ?t = "epoch_task id demo_client (\<lambda>_. None) (\<lambda>slot. if slot = 10 then Inl (Errorf ''not found (404): slot'') else Inr []) 5"
  have t0: "?t 0 = Inr None" by (simp add: epoch_task_def slot_task_def s isNotFound_def strings_HasPrefix_def)
  have t1: "?t (Suc 0) = Inr (Some [])" by (simp add: epoch_task_def slot_task_def s)
  have "\<forall>i < unat (cl_slotsPerEpoch demo_client). isOk (?t i)"
    using t0 t1 by (auto simp: n less_2_cases_iff)
  note eq = FetchEpochInput_order_irrelevant [OF d, THEN conjunct1, THEN mp, OF this]
  have u: "[0..<unat (cl_slotsPerEpoch demo_client)] = [0, Suc 0]" by (simp add: n upt_rec)
  show ?thesis unfolding eq u by (simp add: t0 t1 task_blobs_def) (simp add: s)
qed

section \<open>Back-off\<close>

text \<open>A sequence of requests of one client, one environment per request.\<close>

definition get_all :: "Client \<Rightarrow> (get_env \<times> string) list \<Rightarrow> Client" where
  "get_all c reqs = foldl (\<lambda>c (env, url). snd (client_get c env url (\<lambda>j. Inr j))) c reqs"

definition sixtySeconds :: duration where
  "sixtySeconds = 60 * time_Second"

definition backoff_ok :: "Client \<Rightarrow> bool" where
  "backoff_ok c \<longleftrightarrow> 0 < unat (cl_backoffBase c) \<and> unat (cl_backoffBase c) \<le> unat sixtySeconds \<and>
     unat (cl_backoffDuration c) \<le> unat sixtySeconds"

definition answered_429 :: "get_env \<Rightarrow> bool" where
  "answered_429 env \<longleftrightarrow> \<not> ge_waitCanceled env \<and> ge_limiterWait env = Inr () \<and> ge_newRequest env = Inr () \<and>
     (case ge_do env of Inl _ \<Rightarrow> False | Inr r \<Rightarrow> hr_status r = 429)"

lemma unat_sixty: "unat sixtySeconds = 60000000000" "unat time_Second = 1000000000"
  by (simp_all add: sixtySeconds_def time_Second_def)

lemma unat_next_backoff:
  assumes "backoff_ok c"
  shows "unat (next_backoff c) =
    (if cl_backoffDuration c = 0 then unat (cl_backoffBase c)
     else min (2 * unat (cl_backoffDuration c)) (unat sixtySeconds))"
proof -
  let ?d = "cl_backoffDuration c"
  have le: "unat ?d \<le> 60000000000" using assms by (simp add: backoff_ok_def unat_sixty)
  then have dbl: "unat (?d * 2) = 2 * unat ?d" by (simp add: unat_word_ariths(2))
  then have "sint (?d * 2) = int (2 * unat ?d)" using le by (subst sint_eq_unat) simp_all
  moreover have "sint (60 * time_Second) = int (unat sixtySeconds)"
    using unat_sixty by (fold sixtySeconds_def) (subst sint_eq_unat, simp_all)
  ultimately have "sint (60 * time_Second) < sint (?d * 2) \<longleftrightarrow> unat sixtySeconds < 2 * unat ?d"
    by (simp only: of_nat_less_iff)
  then show ?thesis
    using dbl by (auto simp: next_backoff_def sixtySeconds_def Let_def)
qed

lemma client_get_frame [simp]:
  "cl_backoffBase (snd (client_get c env url dec)) = cl_backoffBase c"
  "cl_slotsPerEpoch (snd (client_get c env url dec)) = cl_slotsPerEpoch c"
  "cl_base (snd (client_get c env url dec)) = cl_base c"
  by (auto simp: client_get_def handle_response_def Let_def split: sum.splits if_splits)

lemma client_get_backoff:
  "cl_backoffDuration (snd (client_get c env url dec)) \<in> {cl_backoffDuration c, 0, next_backoff c}"
proof -
  have nb: "next_backoff (c\<lparr>cl_rpcRequests := n\<rparr>) = next_backoff c" for n by (simp add: next_backoff_def)
  show ?thesis by (auto simp: client_get_def handle_response_def Let_def nb split: sum.splits if_splits)
qed

lemma backoff_ok_get: "backoff_ok c \<Longrightarrow> backoff_ok (snd (client_get c env url dec))"
  using client_get_backoff [of c env url dec] unat_next_backoff [of c]
  by (auto simp: backoff_ok_def)

lemma backoff_ok_get_all: "backoff_ok c \<Longrightarrow> backoff_ok (get_all c reqs)"
  by (induction reqs arbitrary: c) (auto simp: get_all_def backoff_ok_get)

lemma client_get_429:
  assumes "answered_429 env"
  shows "cl_backoffDuration (snd (client_get c env url dec)) = next_backoff c \<and>
         cl_rpc429 (snd (client_get c env url dec)) = cl_rpc429 c + 1 \<and>
         cl_rpcRequests (snd (client_get c env url dec)) = cl_rpcRequests c + 1"
proof -
  have nb: "next_backoff (c\<lparr>cl_rpcRequests := n\<rparr>) = next_backoff c" for n by (simp add: next_backoff_def)
  show ?thesis
    using assms by (auto simp: answered_429_def client_get_def handle_response_def Let_def nb split: sum.splits)
qed

lemma min_times_cap:
  fixes p :: nat
  assumes "1 \<le> p"
  shows "min (p * min d s) s = min (p * d) s"
proof -
  have "s \<le> p * s" using assms by simp
  then show ?thesis by (simp add: nat_mult_min_right min.assoc min_absorb2)
qed

lemma get_all_429:
  assumes "backoff_ok c" and "\<forall>(env, url) \<in> set reqs. answered_429 env"
    and "cl_backoffDuration c \<noteq> 0"
  shows "unat (cl_backoffDuration (get_all c reqs)) =
    min (2 ^ length reqs * unat (cl_backoffDuration c)) (unat sixtySeconds)"
  using assms
proof (induction reqs arbitrary: c)
  case Nil
  then show ?case by (simp add: get_all_def backoff_ok_def)
next
  case (Cons req reqs)
  obtain env url where req: "req = (env, url)" by (cases req)
  let ?c = "snd (client_get c env url (\<lambda>j. Inr j))"
  have d: "cl_backoffDuration ?c = next_backoff c" using client_get_429 [of env c url] Cons.prems(2) req by auto
  then have v: "unat (cl_backoffDuration ?c) = min (2 * unat (cl_backoffDuration c)) (unat sixtySeconds)"
    using unat_next_backoff [OF Cons.prems(1)] Cons.prems(3) by simp
  moreover have "0 < unat (cl_backoffDuration c)" using Cons.prems(3) by (simp add: unat_gt_0)
  ultimately have "cl_backoffDuration ?c \<noteq> 0" using unat_sixty by (metis min_less_iff_conj nat_0_less_mult_iff unat_0 less_irrefl zero_less_numeral)
  from Cons.IH [OF backoff_ok_get [OF Cons.prems(1)] _ this] Cons.prems(2)
  have "unat (cl_backoffDuration (get_all ?c reqs)) = min (2 ^ length reqs * unat (cl_backoffDuration ?c)) (unat sixtySeconds)"
    by simp
  also have "\<dots> = min (2 ^ length (req # reqs) * unat (cl_backoffDuration c)) (unat sixtySeconds)"
    unfolding v by (simp add: min_times_cap mult.assoc mult.left_commute)
  finally show ?case by (simp add: get_all_def req)
qed

lemma client_get_ok_resets: "isOk (fst (client_get c env url dec)) \<Longrightarrow> cl_backoffDuration (snd (client_get c env url dec)) = 0"
  by (auto simp: client_get_def handle_response_def Let_def split: sum.splits if_splits option.splits)

lemma get_all_Cons: "get_all c ((env, url) # reqs) = get_all (snd (client_get c env url (\<lambda>j. Inr j))) reqs"
  by (simp add: get_all_def)

text \<open>
  The back-off after consecutive rate-limit answers: from a client that is not backing off, with a
  base of at most 60 seconds, the $k$-th \<^verbatim>\<open>429\<close> in a row sets the back-off to the base times
  $2^{k-1}$, capped at 60 seconds; every sequence of requests whatever keeps it between 0 and 60
  seconds; and a request that succeeds resets it to 0.
\<close>

theorem backoff_doubles:
  assumes "0 < unat (cl_backoffBase c)" "unat (cl_backoffBase c) \<le> unat sixtySeconds" "cl_backoffDuration c = 0"
  shows "(reqs \<noteq> [] \<and> (\<forall>(env, url) \<in> set reqs. answered_429 env) \<longrightarrow>
      unat (cl_backoffDuration (get_all c reqs)) =
        min (2 ^ (length reqs - 1) * unat (cl_backoffBase c)) (unat sixtySeconds)) \<and>
    unat (cl_backoffDuration (get_all c reqs')) \<le> unat sixtySeconds \<and>
    (isOk (fst (client_get (get_all c reqs') env url dec)) \<longrightarrow>
       cl_backoffDuration (snd (client_get (get_all c reqs') env url dec)) = 0)"
proof -
  have ok: "backoff_ok c" using assms by (simp add: backoff_ok_def)
  have "unat (cl_backoffDuration (get_all c reqs)) = min (2 ^ (length reqs - 1) * unat (cl_backoffBase c)) (unat sixtySeconds)"
    if "reqs \<noteq> []" "\<forall>(env, url) \<in> set reqs. answered_429 env"
  proof -
    from that(1) obtain env url rest where reqs: "reqs = (env, url) # rest" by (cases reqs) auto
    let ?c = "snd (client_get c env url (\<lambda>j. Inr j))"
    have d: "cl_backoffDuration ?c = cl_backoffBase c"
      using client_get_429 [of env c url] that(2) reqs assms(3) by (auto simp: next_backoff_def)
    moreover have "cl_backoffBase c \<noteq> 0" using assms(1) by auto
    ultimately show ?thesis
      using get_all_429 [OF backoff_ok_get [OF ok], of rest env url "\<lambda>j. Inr j"] that(2) by (simp add: reqs get_all_Cons)
  qed
  moreover have "unat (cl_backoffDuration (get_all c reqs')) \<le> unat sixtySeconds"
    using backoff_ok_get_all [OF ok, of reqs'] by (simp add: backoff_ok_def)
  ultimately show ?thesis using client_get_ok_resets by blast
qed

definition demo_429 :: get_env where
  "demo_429 = \<lparr>ge_elapsed = 0, ge_waitCanceled = False, ge_limiterWait = Inr (), ge_newRequest = Inr (),
     ge_do = Inr \<lparr>hr_status = 429, hr_body = ''slow down'', hr_json = None\<rparr>, ge_now = 7\<rparr>"

theorem backoff_doubles_witness:
  "unat (cl_backoffDuration (get_all demo_client [(demo_429, ''a''), (demo_429, ''b''), (demo_429, ''c'')])) = 4000000000"
proof -
  have b: "0 < unat (cl_backoffBase demo_client)" "unat (cl_backoffBase demo_client) \<le> unat sixtySeconds"
    "cl_backoffDuration demo_client = 0" "unat (cl_backoffBase demo_client) = 1000000000"
    by (simp_all add: demo_client_def NewClient_def time_Second_def sixtySeconds_def)
  have a: "answered_429 demo_429" by (simp add: answered_429_def demo_429_def)
  show ?thesis
    using backoff_doubles [OF b(1-3), of "[(demo_429, ''a''), (demo_429, ''b''), (demo_429, ''c'')]"] a
    by (simp add: b(4) unat_sixty) blast
qed

section \<open>Slot arithmetic\<close>

lemma sorted_concat_upt:
  fixes key :: "nat \<Rightarrow> 'b::linorder"
  assumes "\<And>x i. x \<in> set (g i) \<Longrightarrow> f x = key i" and "\<And>i j. i \<le> j \<Longrightarrow> j < n \<Longrightarrow> key i \<le> key j"
  shows "sorted (map f (concat (map g [0..<n])))"
  using assms(2)
proof (induction n)
  case (Suc n)
  have "sorted (map f (g n))" using assms(1) [of _ n] by (simp add: sorted_iff_nth_mono)
  moreover have "f x \<le> f y" if "x \<in> set (g i)" "i < n" "y \<in> set (g n)" for x y i
    using assms(1) [OF that(1)] assms(1) [OF that(3)] Suc.prems [of i n] that(2) by simp
  ultimately show ?case using Suc by (auto simp: sorted_append)
qed simp

lemma slot_in_epoch:
  assumes "unat epoch * unat spe + i < 2 ^ 64" and "i < unat spe"
  shows "unat (epoch * spe + word_of_nat i) = unat epoch * unat spe + i \<and>
         SlotToEpoch (epoch * spe + word_of_nat i) spe = Inr epoch"
proof -
  have "unat (epoch * spe) = unat epoch * unat spe" using assms(1) by (simp add: unat_word_ariths(2))
  moreover have "unat (word_of_nat i :: uint64) = i" using assms(1) by (simp add: unat_of_nat)
  ultimately have u: "unat (epoch * spe + word_of_nat i) = unat epoch * unat spe + i"
    using assms(1) by (simp add: unat_word_ariths(1))
  have "unat ((epoch * spe + word_of_nat i) div spe) = unat epoch"
    unfolding unat_div_distrib u using assms(2) by simp
  then have "(epoch * spe + word_of_nat i) div spe = epoch" by (rule unsigned_word_eqI)
  with u assms(2) show ?thesis by (auto simp: SlotToEpoch_def)
qed

lemma el_enrich_frame [simp]:
  "bi_Commitment (el_enrich el root vh bi) = bi_Commitment bi"
  "bi_VersionedHash (el_enrich el root vh bi) = bi_VersionedHash bi"
  "bi_Slot (el_enrich el root vh bi) = bi_Slot bi"
  "bi_Epoch (el_enrich el root vh bi) = bi_Epoch bi"
  "bi_Index (el_enrich el root vh bi) = bi_Index bi"
  "bi_Data (el_enrich el root vh bi) = bi_Data bi"
  "bi_Size (el_enrich el root vh bi) = bi_Size bi"
  by (simp_all add: el_enrich_def split: option.splits sum.splits)

lemma slot_task_blobs:
  assumes "slot_task sha256 el epoch slot sidecars = r" "bi \<in> set (task_blobs r)"
  shows "bi_Slot bi = slot \<and> bi_Epoch bi = epoch \<and> bi_Size bi = 0 \<and>
    (\<exists>sc. kzgCommitmentToVersionedHash sha256 (bi_Commitment bi) = Inr (bi_VersionedHash bi) \<and>
          hexToBytes (sc_Blob sc) = Inr (bi_Data bi) \<and> sc_KZGCommitment sc = bi_Commitment bi \<and>
          (\<exists>scs. sidecars = Inr scs \<and> sc \<in> set scs))"
proof -
  from assms obtain scs blobs where r: "sidecars = Inr scs" "mapR (slot_blob sha256 el epoch slot) scs = Inr blobs" "bi \<in> set blobs"
    by (auto simp: slot_task_def task_blobs_def bindR_def split: sum.splits if_splits option.splits)
  then obtain sc where sc: "sc \<in> set scs" "slot_blob sha256 el epoch slot sc = Inr bi"
    using mapR_in_set [OF r(2,3)] by blast
  then show ?thesis
    using r(1) by (auto simp: slot_blob_def bindR_eq_Inr Let_def intro!: exI [of _ sc])
qed

text \<open>
  C24. What a fetched epoch contains, when the slot numbers of the epoch fit in 64 bits: every blob
  carries the epoch and a slot of that epoch, its versioned hash is the one of its commitment, its data
  is what the sidecar of that slot encodes, and the blobs come in slot order.
\<close>

theorem FetchEpochInput_blobs:
  assumes "distinct order" and "set order = {..<unat (cl_slotsPerEpoch c)}"
    and "(unat epoch + 1) * unat (cl_slotsPerEpoch c) \<le> 2 ^ 64"
    and "FetchEpochInput sha256 c el sidecars order epoch = Inr inp"
  shows "ei_Epoch inp = epoch \<and> unat (ei_Slot inp) = unat epoch * unat (cl_slotsPerEpoch c) \<and>
    sorted (map bi_Slot (ei_Blobs inp)) \<and>
    (\<forall>bi \<in> set (ei_Blobs inp). bi_Epoch bi = epoch \<and> SlotToEpoch (bi_Slot bi) (cl_slotsPerEpoch c) = Inr epoch \<and>
       kzgCommitmentToVersionedHash sha256 (bi_Commitment bi) = Inr (bi_VersionedHash bi) \<and>
       (\<exists>scs sc. sidecars (bi_Slot bi) = Inr scs \<and> sc \<in> set scs \<and> sc_KZGCommitment sc = bi_Commitment bi \<and>
          hexToBytes (sc_Blob sc) = Inr (bi_Data bi)))"
proof -
  let ?n = "unat (cl_slotsPerEpoch c)" and ?t = "epoch_task sha256 c el sidecars epoch"
  let ?slot = "\<lambda>i. epoch * cl_slotsPerEpoch c + word_of_nat i"
  have all: "\<forall>i < ?n. isOk (?t i)"
    using FetchEpochInput_fail [OF assms(2), of sha256 el sidecars epoch] assms(4) by auto
  have inp: "inp = \<lparr>ei_Epoch = epoch, ei_Slot = epoch * cl_slotsPerEpoch c,
         ei_Blobs = concat (map (\<lambda>i. task_blobs (?t i)) [0..<?n])\<rparr>"
    using FetchEpochInput_eq [OF assms(2) all] assms(4) by simp
  have slot: "unat (?slot i) = unat epoch * ?n + i \<and> SlotToEpoch (?slot i) (cl_slotsPerEpoch c) = Inr epoch"
    if "i < ?n" for i
    by (rule slot_in_epoch) (use that assms(3) in \<open>simp_all add: distrib_right\<close>)
  have first: "unat (ei_Slot inp) = unat epoch * ?n"
    using slot [of 0] assms(3) by (cases "?n = 0") (auto simp: inp unat_eq_zero)
  have srt: "sorted (map bi_Slot (concat (map (\<lambda>i. task_blobs (?t i)) [0..<?n])))"
  proof (rule sorted_concat_upt [where key = ?slot])
    show "bi_Slot x = ?slot i" if "x \<in> set (task_blobs (?t i))" for x i
      using slot_task_blobs [OF refl, of x] that by (simp add: epoch_task_def Let_def)
    show "?slot i \<le> ?slot j" if "i \<le> j" "j < ?n" for i j
      using slot [of i] slot [of j] that by (simp add: word_le_nat_alt)
  qed
  have el: "bi_Epoch bi = epoch \<and> SlotToEpoch (bi_Slot bi) (cl_slotsPerEpoch c) = Inr epoch \<and>
       kzgCommitmentToVersionedHash sha256 (bi_Commitment bi) = Inr (bi_VersionedHash bi) \<and>
       (\<exists>scs sc. sidecars (bi_Slot bi) = Inr scs \<and> sc \<in> set scs \<and> sc_KZGCommitment sc = bi_Commitment bi \<and>
          hexToBytes (sc_Blob sc) = Inr (bi_Data bi))"
    if bi: "bi \<in> set (ei_Blobs inp)" for bi
  proof -
    from bi obtain i where i: "i < ?n" "bi \<in> set (task_blobs (?t i))" by (auto simp: inp)
    from slot_task_blobs [OF refl, of bi sha256 "el i" epoch "?slot i" "sidecars (?slot i)"] i(2) slot [OF i(1)]
    show ?thesis by (auto simp: epoch_task_def Let_def)
  qed
  show ?thesis using first srt el inp by auto
qed

definition demo_sidecar :: BlobSidecar where
  "demo_sidecar = \<lparr>sc_BlockRoot = ''0xr'', sc_Index = ''3'', sc_Slot = ''11'', sc_BlockParentRoot = '''',
     sc_ProposerIndex = ''1'', sc_Blob = ''0x0102'', sc_KZGCommitment = ''0xC0'', sc_KZGProof = ''''\<rparr>"

lemma demo_fetch:
  "FetchEpochInput id demo_client (\<lambda>_. None) (\<lambda>slot. if slot = 11 then Inr [demo_sidecar] else Inr []) [1, 0] 5 =
   Inr \<lparr>ei_Epoch = 5, ei_Slot = 10, ei_Blobs =
     [\<lparr>bi_Commitment = ''0xC0'', bi_VersionedHash = ''0x01'', bi_TxHash = '''', bi_BlockNumber = 0, bi_BlockHash = ''0xr'',
       bi_Slot = 11, bi_Epoch = 5, bi_Index = 3, bi_Data = [1, 2], bi_Size = 0\<rparr>]\<rparr>"
proof -
  have s: "cl_slotsPerEpoch demo_client = 2" "unat (cl_slotsPerEpoch demo_client) = 2"
    by (simp_all add: demo_client_def NewClient_def)
  have h: "hexToBytes ''0x0102'' = Inr [1, 2]"
    by (simp add: hexToBytes_def strings_TrimPrefix_def strings_HasPrefix_def hexVal_def)
  have k: "kzgCommitmentToVersionedHash id ''0xC0'' = Inr ''0x01''"
    by (simp add: kzgCommitmentToVersionedHash_def strings_TrimPrefix_def strings_HasPrefix_def hex_nibble_def
        nibble_char_def char_of_def bit_Suc_0_iff)
  have i: "Atoi_value ''3'' = 3" by (simp add: Atoi_value_def parse_int_def parse_nat_def char_digit_def)
  show ?thesis
    by (simp add: FetchEpochInput_def EpochToFirstSlot_def s slot_task_def slot_blob_def demo_sidecar_def h k i
        el_enrich_def)
      (simp add: numeral_2_eq_2)
qed

theorem FetchEpochInput_blobs_witness:
  "\<exists>inp. FetchEpochInput id demo_client (\<lambda>_. None) (\<lambda>slot. if slot = 11 then Inr [demo_sidecar] else Inr []) [1, 0] 5 = Inr inp \<and>
     ei_Blobs inp \<noteq> [] \<and> (\<forall>bi \<in> set (ei_Blobs inp). SlotToEpoch (bi_Slot bi) 2 = Inr 5)"
proof -
  have n: "unat (cl_slotsPerEpoch demo_client) = 2" "cl_slotsPerEpoch demo_client = 2"
    by (simp_all add: demo_client_def NewClient_def)
  have d: "distinct [1, 0 :: nat]" "set [1, 0] = {..<unat (cl_slotsPerEpoch demo_client)}" by (auto simp: n)
  have b: "(unat (5 :: uint64) + 1) * unat (cl_slotsPerEpoch demo_client) \<le> 2 ^ 64" by (simp add: n)
  show ?thesis using FetchEpochInput_blobs [OF d b demo_fetch] demo_fetch by (simp add: n)
qed

text \<open>
  The time of a slot is exact and increases with the slot as long as the product of slot number and
  slot length stays below $2^{63}$ nanoseconds; and on a zero genesis time it is the zero time for slot
  0 only, so that a caller that tests the result for the zero time does not see a missing genesis.
\<close>

theorem SlotTime_exact:
  assumes "unat slot * unat sps * 1000000000 < 2 ^ 63" "0 < unat sps"
  shows "SlotTime g slot sps = g + int (unat slot * unat sps * 1000000000) \<and>
    (slot' < slot \<longrightarrow> SlotTime g slot' sps < SlotTime g slot sps) \<and>
    (SlotTime zeroTime slot sps = zeroTime \<longleftrightarrow> slot = 0)"
proof -
  have ex: "SlotTime g s sps = g + int (unat s * unat sps * 1000000000)" if "unat s \<le> unat slot" for s g
  proof -
    have b: "unat s * unat sps * 1000000000 < 2 ^ 63"
      by (rule le_less_trans [OF _ assms(1)]) (use that in \<open>simp add: mult_le_mono\<close>)
    then have "unat (s * sps) = unat s * unat sps" by (simp add: unat_word_ariths(2))
    with b have "unat (s * sps * time_Second) = unat s * unat sps * 1000000000"
      by (simp add: unat_word_ariths(2) unat_sixty)
    moreover from this b have "sint (s * sps * time_Second) = int (unat (s * sps * time_Second))"
      by (intro sint_eq_unat) simp
    ultimately show ?thesis by (simp add: SlotTime_def time_Add_def)
  qed
  have "SlotTime g slot' sps < SlotTime g slot sps" if "slot' < slot"
  proof -
    have lt: "unat slot' < unat slot" using that by (simp add: word_less_nat_alt)
    then have "unat slot' * unat sps * 1000000000 < unat slot * unat sps * 1000000000" using assms(2) by simp
    then show ?thesis using ex [of slot' g] ex [of slot g] lt by linarith
  qed
  moreover have "SlotTime zeroTime slot sps = zeroTime \<longleftrightarrow> unat slot * unat sps * 1000000000 = 0"
    using ex [of slot zeroTime] by linarith
  moreover have "unat slot * unat sps * 1000000000 = 0 \<longleftrightarrow> slot = 0"
    using assms(2) by (auto simp: unat_eq_zero)
  ultimately show ?thesis using ex [OF le_refl, of g] by metis
qed

theorem SlotTime_exact_witness: "SlotTime 5 320 12 = 3840000000005"
  using SlotTime_exact [of 320 12 5 0] by simp

end
