(* ===== verification/ElClient.thy ===== *)
theory ElClient
  imports Beacon "HOL-Library.AList"
begin

text \<open>
  \<^verbatim>\<open>beacon/elclient.go\<close>: the execution-layer client, which resolves a blob to its transaction through
  the beacon block's execution payload and one \<^verbatim>\<open>eth_getBlockByHash\<close> call per block, and keeps the
  result in a cache keyed by the beacon block root. The cache is an association list; the client state
  it shares with the beacon client is passed beside it.
\<close>

section \<open>Data\<close>

record blockBlobIndex =
  bx_blockHash :: string
  bx_blockNumber :: uint64
  bx_txByVHash :: "(string \<times> string) list"

record ExecutionClient =
  ec_rpcURL :: string
  ec_timeout :: duration
  ec_cache :: "(string \<times> blockBlobIndex) list"

record rpcTransaction =
  tx_Hash :: string
  tx_Type :: string
  tx_BlobVersionedHashes :: "string list"

definition NewExecutionClient :: "string \<Rightarrow> duration \<Rightarrow> ExecutionClient" where
  "NewExecutionClient rpcURL timeout =
     \<lparr>ec_rpcURL = rpcURL, ec_timeout = (if sint timeout \<le> 0 then 30 * time_Second else timeout), ec_cache = []\<rparr>"

section \<open>The JSON-RPC call\<close>

text \<open>
  What happens during one call: building the request can fail, the exchange can fail, or there is an
  answer. A JSON-RPC answer has a \<^verbatim>\<open>result\<close> and an \<^verbatim>\<open>error\<close> member.
\<close>

record call_env =
  ce_marshal :: "unit res"
  ce_newRequest :: "unit res"
  ce_do :: "http_response res"

fun json_int :: "string \<Rightarrow> json option \<Rightarrow> int res" where
  "json_int k None = Inr 0"
| "json_int k (Some JNull) = Inr 0"
| "json_int k (Some (JInt i)) = (if - (2 ^ 63) \<le> i \<and> i < 2 ^ 63 then Inr i else Inl (json_type_error k))"
| "json_int k (Some _) = Inl (json_type_error k)"

fun dec_rpc_error :: "json option \<Rightarrow> (int \<times> string) option res" where
  "dec_rpc_error None = Inr None"
| "dec_rpc_error (Some JNull) = Inr None"
| "dec_rpc_error (Some j) =
     bindR (json_object ''error'' (Some j)) (\<lambda>m.
     bindR (json_int ''code'' (m ''code'')) (\<lambda>code.
     bindR (json_string ''message'' (m ''message'')) (\<lambda>msg. Inr (Some (code, msg)))))"

definition el_call :: "call_env \<Rightarrow> (json \<Rightarrow> 'a res) \<Rightarrow> 'a res" where
  "el_call env dec =
     bindR (ce_marshal env) (\<lambda>_.
     bindR (ce_newRequest env) (\<lambda>_.
     bindR (ce_do env) (\<lambda>resp.
       if hr_status resp \<noteq> 200 then Inl (Errorf (''HTTP '' @ fmt_int (hr_status resp) @ '': '' @ hr_body resp))
       else case hr_json resp of
              None \<Rightarrow> Inl (Errorf ''invalid JSON'')
            | Some j \<Rightarrow>
                bindR (json_object '''' (Some j)) (\<lambda>m.
                bindR (dec_rpc_error (m ''error'')) (\<lambda>rpcErr.
                  case rpcErr of
                    Some (code, msg) \<Rightarrow> Inl (Errorf (''rpc error '' @ fmt_int code @ '': '' @ msg))
                  | None \<Rightarrow>
                      (case m ''result'' of
                         None \<Rightarrow> Inl (Errorf ''rpc result is null'')
                       | Some JNull \<Rightarrow> Inl (Errorf ''rpc result is null'')
                       | Some res \<Rightarrow> dec res))))))"

definition dec_transaction :: "json \<Rightarrow> rpcTransaction res" where
  "dec_transaction j =
     bindR (json_object ''transactions'' (Some j)) (\<lambda>m.
     bindR (json_string ''hash'' (m ''hash'')) (\<lambda>h.
     bindR (json_string ''type'' (m ''type'')) (\<lambda>t.
     bindR (json_list ''blobVersionedHashes'' (m ''blobVersionedHashes'')) (\<lambda>vs.
     bindR (mapR (\<lambda>v. json_string ''blobVersionedHashes'' (Some v)) vs) (\<lambda>vhs.
       Inr \<lparr>tx_Hash = h, tx_Type = t, tx_BlobVersionedHashes = vhs\<rparr>)))))"

definition dec_block :: "json \<Rightarrow> rpcTransaction list res" where
  "dec_block j =
     bindR (json_object '''' (Some j)) (\<lambda>m.
     bindR (json_list ''transactions'' (m ''transactions'')) (mapR dec_transaction))"

section \<open>The block index\<close>

definition index_tx :: "rpcTransaction \<Rightarrow> (string \<times> string) list \<Rightarrow> (string \<times> string) list" where
  "index_tx tx m =
     (if tx_BlobVersionedHashes tx = [] then m
      else fold (\<lambda>vh. AList.update (strings_ToLower vh) (tx_Hash tx)) (tx_BlobVersionedHashes tx) m)"

definition buildBlockIndex :: "call_env \<Rightarrow> ExecutionPayloadInfo \<Rightarrow> blockBlobIndex res" where
  "buildBlockIndex env payload =
     bindR (wrapR (''el: eth_getBlockByHash '' @ ep_BlockHash payload) (el_call env dec_block))
       (\<lambda>txs. Inr \<lparr>bx_blockHash = ep_BlockHash payload, bx_blockNumber = ep_BlockNumber payload,
                  bx_txByVHash = fold index_tx txs []\<rparr>)"

definition blockIndex ::
  "Client \<Rightarrow> ExecutionClient \<Rightarrow> get_env \<Rightarrow> call_env \<Rightarrow> string \<Rightarrow> blockBlobIndex res \<times> Client \<times> ExecutionClient" where
  "blockIndex c e genv cenv blockRoot =
     (case map_of (ec_cache e) blockRoot of
        Some idx \<Rightarrow> (Inr idx, c, e)
      | None \<Rightarrow>
          (let (p, c') = GetExecutionPayloadInfo c genv blockRoot
           in case bindR (wrapR (''el: resolve execution payload for '' @ blockRoot) p) (buildBlockIndex cenv) of
                Inl err \<Rightarrow> (Inl err, c', e)
              | Inr idx \<Rightarrow> (Inr idx, c', e\<lparr>ec_cache := AList.update blockRoot idx (ec_cache e)\<rparr>)))"

definition GetBlobTxData ::
  "Client \<Rightarrow> ExecutionClient \<Rightarrow> get_env \<Rightarrow> call_env \<Rightarrow> string \<Rightarrow> string \<Rightarrow> ELBlobData res \<times> Client \<times> ExecutionClient" where
  "GetBlobTxData c e genv cenv blockRoot versionedHash =
     (let (r, c', e') = blockIndex c e genv cenv blockRoot
      in (bindR r (\<lambda>idx.
            case map_of (bx_txByVHash idx) (strings_ToLower versionedHash) of
              None \<Rightarrow> Inl (Errorf (''el: versioned hash '' @ versionedHash @ '' not found in block '' @ bx_blockHash idx))
            | Some txHash \<Rightarrow> Inr \<lparr>el_TxHash = txHash, el_BlockNumber = bx_blockNumber idx, el_BlockHash = bx_blockHash idx\<rparr>),
          c', e'))"

section \<open>Facts\<close>

text \<open>The transaction that carries a versioned hash: the last one of the block that lists it.\<close>

definition carrier :: "rpcTransaction list \<Rightarrow> string \<Rightarrow> rpcTransaction option" where
  "carrier txs vh = find (\<lambda>tx. strings_ToLower vh \<in> set (map strings_ToLower (tx_BlobVersionedHashes tx))) (rev txs)"

lemma find_append: "find P (xs @ ys) = (case find P xs of None \<Rightarrow> find P ys | Some x \<Rightarrow> Some x)"
  by (induction xs) auto

lemma map_of_index_tx:
  "map_of (index_tx tx m) k =
     (if k \<in> set (map strings_ToLower (tx_BlobVersionedHashes tx)) then Some (tx_Hash tx) else map_of m k)"
proof -
  have "map_of (fold (\<lambda>vh. AList.update (strings_ToLower vh) h) vhs m) k =
     (if k \<in> set (map strings_ToLower vhs) then Some h else map_of m k)" for h vhs
    by (induction vhs arbitrary: m) (auto simp: update_conv')
  then show ?thesis by (simp add: index_tx_def)
qed

lemma map_of_fold_index_tx:
  "map_of (fold index_tx txs m) (strings_ToLower vh) =
     (case carrier txs vh of Some tx \<Rightarrow> Some (tx_Hash tx) | None \<Rightarrow> map_of m (strings_ToLower vh))"
proof (induction txs arbitrary: m)
  case Nil
  then show ?case by (simp add: carrier_def)
next
  case (Cons tx txs)
  have "carrier (tx # txs) vh = (case carrier txs vh of Some t \<Rightarrow> Some t
      | None \<Rightarrow> if strings_ToLower vh \<in> set (map strings_ToLower (tx_BlobVersionedHashes tx)) then Some tx else None)"
    by (simp add: carrier_def find_append del: set_map split: option.splits)
  then show ?case by (simp add: Cons.IH map_of_index_tx del: set_map split: option.splits)
qed

text \<open>
  The transaction data of a blob is that of the last transaction of the execution block that lists
  its versioned hash (letter case ignored), with the payload's block hash and number; a hash that no
  transaction lists is an error. A successful lookup caches the block: every later lookup in that block
  is answered without a request, leaving the beacon client and the cache as they are.
\<close>

theorem GetBlobTxData_correct:
  assumes "map_of (ec_cache e) blockRoot = None"
    and "fst (GetExecutionPayloadInfo c genv blockRoot) = Inr payload" and "el_call cenv dec_block = Inr txs"
    and "GetBlobTxData c e genv cenv blockRoot vh = (r, c', e')"
  shows "(case carrier txs vh of
            Some tx \<Rightarrow> r = Inr \<lparr>el_TxHash = tx_Hash tx, el_BlockNumber = ep_BlockNumber payload, el_BlockHash = ep_BlockHash payload\<rparr>
          | None \<Rightarrow> \<not> isOk r) \<and>
    (\<forall>genv' cenv' vh'. \<exists>r'. GetBlobTxData c' e' genv' cenv' blockRoot vh' = (r', c', e') \<and>
       (case carrier txs vh' of
          Some tx \<Rightarrow> r' = Inr \<lparr>el_TxHash = tx_Hash tx, el_BlockNumber = ep_BlockNumber payload, el_BlockHash = ep_BlockHash payload\<rparr>
        | None \<Rightarrow> \<not> isOk r'))"
proof -
  let ?idx = "\<lparr>bx_blockHash = ep_BlockHash payload, bx_blockNumber = ep_BlockNumber payload, bx_txByVHash = fold index_tx txs []\<rparr>"
  have b: "buildBlockIndex cenv payload = Inr ?idx" using assms(3) by (simp add: buildBlockIndex_def)
  obtain c1 where p: "GetExecutionPayloadInfo c genv blockRoot = (Inr payload, c1)" using assms(2) by (metis prod.collapse)
  have fresh: "blockIndex c e genv cenv blockRoot = (Inr ?idx, c1, e\<lparr>ec_cache := AList.update blockRoot ?idx (ec_cache e)\<rparr>)"
    using assms(1) by (simp add: blockIndex_def p b)
  then have st: "c' = c1" "e' = e\<lparr>ec_cache := AList.update blockRoot ?idx (ec_cache e)\<rparr>"
    using assms(4) by (auto simp: GetBlobTxData_def)
  have again: "blockIndex c' e' genv' cenv' blockRoot = (Inr ?idx, c', e')" for genv' cenv'
    by (simp add: blockIndex_def st update_conv')
  have look: "map_of (fold index_tx txs []) (strings_ToLower v) = map_option tx_Hash (carrier txs v)" for v
    by (simp add: map_of_fold_index_tx split: option.splits)
  show ?thesis
    using assms(4) fresh by (auto simp: GetBlobTxData_def again look split: option.splits)
qed

definition demo_tx :: rpcTransaction where
  "demo_tx = \<lparr>tx_Hash = ''0xt'', tx_Type = ''0x3'', tx_BlobVersionedHashes = [''0x01AB'']\<rparr>"

definition demo_block_env :: call_env where
  "demo_block_env = \<lparr>ce_marshal = Inr (), ce_newRequest = Inr (), ce_do = Inr \<lparr>hr_status = 200, hr_body = '''',
     hr_json = Some (JObj [(''result'', JObj [(''transactions'', JArr [JObj [(''hash'', JStr ''0xt''), (''type'', JStr ''0x3''),
       (''blobVersionedHashes'', JArr [JStr ''0x01AB''])]])])])\<rparr>\<rparr>"

definition demo_payload_env :: get_env where
  "demo_payload_env = \<lparr>ge_elapsed = 0, ge_waitCanceled = False, ge_limiterWait = Inr (), ge_newRequest = Inr (),
     ge_do = Inr \<lparr>hr_status = 200, hr_body = '''', hr_json = Some (JObj [(''data'', JObj [(''message'', JObj [(''body'',
       JObj [(''execution_payload'', JObj [(''block_hash'', JStr ''0xh''), (''block_number'', JStr ''77'')])])])])])\<rparr>, ge_now = 7\<rparr>"

theorem GetBlobTxData_correct_witness:
  "fst (GetBlobTxData demo_client (NewExecutionClient '''' 0) demo_payload_env demo_block_env ''0xr'' ''0x01ab'') =
   Inr \<lparr>el_TxHash = ''0xt'', el_BlockNumber = 77, el_BlockHash = ''0xh''\<rparr>"
proof -
  have c: "map_of (ec_cache (NewExecutionClient '''' 0)) ''0xr'' = None" by (simp add: NewExecutionClient_def)
  have n: "ParseUint ''77'' = Inr 77" by (simp add: ParseUint_def parse_nat_def char_digit_def)
  have p: "fst (GetExecutionPayloadInfo demo_client demo_payload_env ''0xr'') = Inr \<lparr>ep_BlockHash = ''0xh'', ep_BlockNumber = 77\<rparr>"
    by (simp add: GetExecutionPayloadInfo_def client_get_def must_wait_def demo_client_def NewClient_def demo_payload_env_def
        handle_response_def dec_payload_def n)
  have t: "el_call demo_block_env dec_block = Inr [demo_tx]"
    by (simp add: el_call_def demo_block_env_def dec_block_def dec_transaction_def demo_tx_def)
  obtain r c' e' where g: "GetBlobTxData demo_client (NewExecutionClient '''' 0) demo_payload_env demo_block_env ''0xr'' ''0x01ab'' = (r, c', e')"
    by (metis prod.collapse)
  have k: "carrier [demo_tx] ''0x01ab'' = Some demo_tx"
    by (simp add: carrier_def demo_tx_def strings_ToLower_def lower_char_def char_of_def bit_Suc_0_iff)
  show ?thesis
    using GetBlobTxData_correct [OF c p t g, THEN conjunct1, unfolded k option.case] g by (simp add: demo_tx_def)
qed

end
