(* ===== verification/Config.thy ===== *)
theory Config
  imports Golib Complex_Main
begin

text \<open>
  \<^verbatim>\<open>config/config.go\<close>: the configuration is read from the environment, validated, and completed with
  defaults. The environment is a function from names to values, the empty string for an unset variable,
  as \<^verbatim>\<open>os.Getenv\<close> returns it. \<^verbatim>\<open>time.ParseDuration\<close> and \<^verbatim>\<open>strconv.ParseFloat\<close> are arguments; a
  \<^verbatim>\<open>float64\<close> is only compared with 0 here and is a rational number.
\<close>

section \<open>The configuration\<close>

type_synonym float64 = rat

record NetworkConfig =
  nc_Name :: string
  nc_BeaconRPC :: string
  nc_ExecutionRPC :: string
  nc_BeaconTimeout :: duration
  nc_BeaconRateLimit :: float64
  nc_BeaconRateBurst :: goint
  nc_Beacon429Backoff :: duration
  nc_SlotsPerEpoch :: uint64
  nc_SecondsPerSlot :: uint64

record IPFSConfig =
  ic_APIAddr :: string
  ic_PinOnAdd :: bool
  ic_Timeout :: duration
  ic_SkipUpload :: bool
  ic_UploadWorkers :: goint

record StorageConfig =
  sg_DataDir :: string
  sg_CARDir :: string
  sg_PostgresDSN :: string

record GeneratorConfig =
  gc_HAMTThreshold :: goint
  gc_PollInterval :: duration
  gc_StartEpoch :: uint64
  gc_startEpochSet :: bool
  gc_Workers :: goint
  gc_BeaconWorkers :: goint
  gc_BackfillEpochWorkers :: goint
  gc_SkipExistingEpochs :: bool
  gc_APIListen :: string
  gc_NetworkRootPageSize :: goint

record BlobscanConfig =
  bc_APIURL :: string
  bc_APIKey :: string

record SentryConfig =
  se_DSN :: string
  se_Environment :: string
  se_Release :: string
  se_SampleRate :: float64

record Config =
  cf_Network :: NetworkConfig
  cf_IPFS :: IPFSConfig
  cf_Storage :: StorageConfig
  cf_Generator :: GeneratorConfig
  cf_Blobscan :: BlobscanConfig
  cf_Sentry :: SentryConfig

definition zeroConfig :: Config where
  "zeroConfig =
     \<lparr>cf_Network = \<lparr>nc_Name = '''', nc_BeaconRPC = '''', nc_ExecutionRPC = '''', nc_BeaconTimeout = 0, nc_BeaconRateLimit = 0,
        nc_BeaconRateBurst = 0, nc_Beacon429Backoff = 0, nc_SlotsPerEpoch = 0, nc_SecondsPerSlot = 0\<rparr>,
      cf_IPFS = \<lparr>ic_APIAddr = '''', ic_PinOnAdd = False, ic_Timeout = 0, ic_SkipUpload = False, ic_UploadWorkers = 0\<rparr>,
      cf_Storage = \<lparr>sg_DataDir = '''', sg_CARDir = '''', sg_PostgresDSN = ''''\<rparr>,
      cf_Generator = \<lparr>gc_HAMTThreshold = 0, gc_PollInterval = 0, gc_StartEpoch = 0, gc_startEpochSet = False, gc_Workers = 0,
        gc_BeaconWorkers = 0, gc_BackfillEpochWorkers = 0, gc_SkipExistingEpochs = False, gc_APIListen = '''',
        gc_NetworkRootPageSize = 0\<rparr>,
      cf_Blobscan = \<lparr>bc_APIURL = '''', bc_APIKey = ''''\<rparr>,
      cf_Sentry = \<lparr>se_DSN = '''', se_Environment = '''', se_Release = '''', se_SampleRate = 0\<rparr>\<rparr>"

section \<open>Reading the environment\<close>

type_synonym environment = "string \<Rightarrow> string"

record parse_lib =
  time_ParseDuration :: "string \<Rightarrow> duration res"
  strconv_ParseFloat :: "string \<Rightarrow> float64 res"

text \<open>\<^verbatim>\<open>if v := os.Getenv(k); v != "" { ... }\<close>, without and with a parse whose error is dropped.\<close>

definition env_set :: "environment \<Rightarrow> string \<Rightarrow> (string \<Rightarrow> 'c \<Rightarrow> 'c) \<Rightarrow> 'c \<Rightarrow> 'c" where
  "env_set env k upd c = (if env k \<noteq> '''' then upd (env k) c else c)"

definition env_parse :: "(string \<Rightarrow> 'v res) \<Rightarrow> environment \<Rightarrow> string \<Rightarrow> ('v \<Rightarrow> 'c \<Rightarrow> 'c) \<Rightarrow> 'c \<Rightarrow> 'c" where
  "env_parse parse env k upd c =
     (if env k \<noteq> '''' then (case parse (env k) of Inr v \<Rightarrow> upd v c | Inl _ \<Rightarrow> c) else c)"

definition env_flag :: "environment \<Rightarrow> string \<Rightarrow> ('c \<Rightarrow> 'c) \<Rightarrow> 'c \<Rightarrow> 'c" where
  "env_flag env k upd c = (if env k = ''true'' \<or> env k = ''1'' then upd c else c)"

definition env_Network :: "parse_lib \<Rightarrow> environment \<Rightarrow> NetworkConfig \<Rightarrow> NetworkConfig" where
  "env_Network pl env c0 =
     (let c = env_set env ''NETWORK_NAME'' (\<lambda>v. nc_Name_update (\<lambda>_. v)) c0;
          c = env_set env ''BEACON_RPC'' (\<lambda>v. nc_BeaconRPC_update (\<lambda>_. v)) c;
          c = env_set env ''EXECUTION_RPC'' (\<lambda>v. nc_ExecutionRPC_update (\<lambda>_. v)) c;
          c = env_parse (time_ParseDuration pl) env ''BEACON_TIMEOUT'' (\<lambda>d. nc_BeaconTimeout_update (\<lambda>_. d)) c;
          c = env_parse (strconv_ParseFloat pl) env ''BEACON_RATE_LIMIT'' (\<lambda>f. nc_BeaconRateLimit_update (\<lambda>_. f)) c;
          c = env_parse Atoi env ''BEACON_RATE_BURST'' (\<lambda>i. nc_BeaconRateBurst_update (\<lambda>_. i)) c
      in env_parse (time_ParseDuration pl) env ''BEACON_429_BACKOFF'' (\<lambda>d. nc_Beacon429Backoff_update (\<lambda>_. d)) c)"

definition env_Storage :: "environment \<Rightarrow> StorageConfig \<Rightarrow> StorageConfig" where
  "env_Storage env c0 =
     (let c = env_set env ''POSTGRES_DSN'' (\<lambda>v. sg_PostgresDSN_update (\<lambda>_. v)) c0;
          c = env_set env ''DATA_DIR'' (\<lambda>v. sg_DataDir_update (\<lambda>_. v)) c
      in env_set env ''CAR_DIR'' (\<lambda>v. sg_CARDir_update (\<lambda>_. v)) c)"

definition env_IPFS :: "environment \<Rightarrow> IPFSConfig \<Rightarrow> IPFSConfig" where
  "env_IPFS env c0 =
     (let c = env_set env ''IPFS_API_ADDR'' (\<lambda>v. ic_APIAddr_update (\<lambda>_. v)) c0;
          c = env_flag env ''IPFS_SKIP_UPLOAD'' (ic_SkipUpload_update (\<lambda>_. True)) c
      in env_parse Atoi env ''IPFS_UPLOAD_WORKERS'' (\<lambda>i. ic_UploadWorkers_update (\<lambda>_. i)) c)"

definition env_Generator :: "parse_lib \<Rightarrow> environment \<Rightarrow> GeneratorConfig \<Rightarrow> GeneratorConfig" where
  "env_Generator pl env c0 =
     (let c = env_parse Atoi env ''GENERATOR_WORKERS'' (\<lambda>i. gc_Workers_update (\<lambda>_. i)) c0;
          c = env_parse Atoi env ''GENERATOR_BEACON_WORKERS'' (\<lambda>i. gc_BeaconWorkers_update (\<lambda>_. i)) c;
          c = env_parse Atoi env ''BACKFILL_EPOCH_WORKERS'' (\<lambda>i. gc_BackfillEpochWorkers_update (\<lambda>_. i)) c;
          c = env_parse (time_ParseDuration pl) env ''GENERATOR_POLL_INTERVAL'' (\<lambda>d. gc_PollInterval_update (\<lambda>_. d)) c;
          c = env_parse ParseUint env ''GENERATOR_START_EPOCH''
                (\<lambda>i c. c\<lparr>gc_StartEpoch := i, gc_startEpochSet := True\<rparr>) c;
          c = env_parse Atoi env ''GENERATOR_HAMT_THRESHOLD'' (\<lambda>i. gc_HAMTThreshold_update (\<lambda>_. i)) c;
          c = env_flag env ''GENERATOR_SKIP_EXISTING_EPOCHS'' (gc_SkipExistingEpochs_update (\<lambda>_. True)) c;
          c = env_set env ''GENERATOR_API_LISTEN'' (\<lambda>v. gc_APIListen_update (\<lambda>_. v)) c
      in env_parse Atoi env ''NETWORK_ROOT_PAGE_SIZE'' (\<lambda>i. gc_NetworkRootPageSize_update (\<lambda>_. i)) c)"

definition env_Blobscan :: "environment \<Rightarrow> BlobscanConfig \<Rightarrow> BlobscanConfig" where
  "env_Blobscan env c0 =
     (let c = env_set env ''BLOBSCAN_API_URL'' (\<lambda>v. bc_APIURL_update (\<lambda>_. v)) c0
      in env_set env ''BLOBSCAN_API_KEY'' (\<lambda>v. bc_APIKey_update (\<lambda>_. v)) c)"

definition env_Sentry :: "parse_lib \<Rightarrow> environment \<Rightarrow> SentryConfig \<Rightarrow> SentryConfig" where
  "env_Sentry pl env c0 =
     (let c = env_set env ''SENTRY_DSN'' (\<lambda>v. se_DSN_update (\<lambda>_. v)) c0;
          c = env_set env ''SENTRY_ENVIRONMENT'' (\<lambda>v. se_Environment_update (\<lambda>_. v)) c;
          c = env_set env ''SENTRY_RELEASE'' (\<lambda>v. se_Release_update (\<lambda>_. v)) c
      in env_parse (strconv_ParseFloat pl) env ''SENTRY_SAMPLE_RATE'' (\<lambda>f. se_SampleRate_update (\<lambda>_. f)) c)"

definition applyEnv :: "parse_lib \<Rightarrow> environment \<Rightarrow> Config \<Rightarrow> Config" where
  "applyEnv pl env c =
     \<lparr>cf_Network = env_Network pl env (cf_Network c),
      cf_IPFS = env_IPFS env (cf_IPFS c),
      cf_Storage = env_Storage env (cf_Storage c),
      cf_Generator = env_Generator pl env (cf_Generator c),
      cf_Blobscan = env_Blobscan env (cf_Blobscan c),
      cf_Sentry = env_Sentry pl env (cf_Sentry c)\<rparr>"

section \<open>Validation and defaults\<close>

definition validate :: "Config \<Rightarrow> unit res" where
  "validate c =
     (if nc_Name (cf_Network c) = '''' then Inl (Errorf ''NETWORK_NAME is required'')
      else if ic_APIAddr (cf_IPFS c) = '''' \<and> \<not> ic_SkipUpload (cf_IPFS c)
      then Inl (Errorf ''IPFS_API_ADDR is required (or set IPFS_SKIP_UPLOAD=true)'')
      else if sg_DataDir (cf_Storage c) = '''' then Inl (Errorf ''DATA_DIR is required'')
      else if gc_NetworkRootPageSize (cf_Generator c) \<noteq> 0 \<and> sint (gc_NetworkRootPageSize (cf_Generator c)) < 1000
      then Inl (Errorf (''NETWORK_ROOT_PAGE_SIZE must be >= 1000 (got '' @
                        fmt_int (sint (gc_NetworkRootPageSize (cf_Generator c))) @ '')''))
      else Inr ())"

definition networkChainParams :: "string \<Rightarrow> uint64 \<times> uint64" where
  "networkChainParams network = (if network = ''gnosis'' then (16, 5) else (32, 12))"

definition dencunEpoch :: "string \<Rightarrow> uint64 option" where
  "dencunEpoch network =
     (if network = ''mainnet'' then Some 269568
      else if network = ''sepolia'' then Some 132608
      else if network = ''gnosis'' then Some 889856
      else if network = ''hoodi'' then Some 0
      else None)"

definition default_if_zero :: "'a::zero \<Rightarrow> 'a \<Rightarrow> 'a" where
  "default_if_zero d x = (if x = 0 then d else x)"

definition defaults_Network :: "NetworkConfig \<Rightarrow> NetworkConfig" where
  "defaults_Network n0 =
     (let n = (if nc_SlotsPerEpoch n0 = 0 \<or> nc_SecondsPerSlot n0 = 0
               then let (spe, sps) = networkChainParams (nc_Name n0)
                    in n0\<lparr>nc_SlotsPerEpoch := spe, nc_SecondsPerSlot := sps\<rparr>
               else n0)
      in n\<lparr>nc_BeaconTimeout := default_if_zero (60 * time_Second) (nc_BeaconTimeout n),
           nc_BeaconRateLimit := default_if_zero 100 (nc_BeaconRateLimit n),
           nc_BeaconRateBurst := default_if_zero 32 (nc_BeaconRateBurst n),
           nc_Beacon429Backoff := default_if_zero (1 * time_Second) (nc_Beacon429Backoff n)\<rparr>)"

text \<open>The poll interval's default is the slot length of the completed network section.\<close>

definition defaults_Generator :: "NetworkConfig \<Rightarrow> GeneratorConfig \<Rightarrow> GeneratorConfig" where
  "defaults_Generator n g =
     g\<lparr>gc_HAMTThreshold := default_if_zero 5000 (gc_HAMTThreshold g),
       gc_PollInterval := default_if_zero (nc_SecondsPerSlot n * time_Second) (gc_PollInterval g),
       gc_Workers := default_if_zero 16 (gc_Workers g),
       gc_BeaconWorkers := default_if_zero 16 (gc_BeaconWorkers g),
       gc_BackfillEpochWorkers := default_if_zero 4 (gc_BackfillEpochWorkers g),
       gc_NetworkRootPageSize := default_if_zero 10000 (gc_NetworkRootPageSize g),
       gc_StartEpoch := (if gc_startEpochSet g then gc_StartEpoch g
                         else case dencunEpoch (nc_Name n) of Some epoch \<Rightarrow> epoch | None \<Rightarrow> gc_StartEpoch g)\<rparr>"

definition applyDefaults :: "environment \<Rightarrow> Config \<Rightarrow> Config" where
  "applyDefaults env c =
     (let n = defaults_Network (cf_Network c); st = cf_Storage c; ip = cf_IPFS c; se = cf_Sentry c
      in c\<lparr>cf_Network := n,
           cf_Generator := defaults_Generator n (cf_Generator c),
           cf_Storage := (if sg_CARDir st = '''' then st\<lparr>sg_CARDir := sg_DataDir st @ ''/car''\<rparr> else st),
           cf_IPFS := ip\<lparr>ic_Timeout := default_if_zero (30 * time_Second) (ic_Timeout ip),
                         ic_PinOnAdd := \<not> (env ''IPFS_PIN_ON_ADD'' = ''false'' \<or> env ''IPFS_PIN_ON_ADD'' = ''0''),
                         ic_UploadWorkers := default_if_zero 16 (ic_UploadWorkers ip)\<rparr>,
           cf_Sentry := se\<lparr>se_SampleRate := default_if_zero 1 (se_SampleRate se),
                           se_Environment := (if se_Environment se = '''' then nc_Name n else se_Environment se)\<rparr>\<rparr>)"

definition Load :: "parse_lib \<Rightarrow> environment \<Rightarrow> Config res" where
  "Load pl env =
     (let cfg = applyEnv pl env zeroConfig
      in bindR (wrapR ''config'' (validate cfg)) (\<lambda>_. Inr (applyDefaults env cfg)))"

section \<open>What the sections contain\<close>

text \<open>
  Reading a field after a conditional update; instantiated with the field, these push the read
  through the chain of updates one step at a time.
\<close>

lemma env_set_read: "f (env_set env k upd c) = (if env k = '''' then f c else f (upd (env k) c))"
  by (simp add: env_set_def)

lemma env_parse_read:
  "f (env_parse parse env k upd c) =
     (if env k = '''' then f c else case parse (env k) of Inl _ \<Rightarrow> f c | Inr v \<Rightarrow> f (upd v c))"
  by (simp add: env_parse_def split: sum.split)

lemma env_flag_read: "f (env_flag env k upd c) = (if env k = ''true'' \<or> env k = ''1'' then f (upd c) else f c)"
  by (simp add: env_flag_def)

lemma env_set_keep: "(\<And>v c. f (upd v c) = f c) \<Longrightarrow> f (env_set env k upd c) = f c"
  by (simp add: env_set_def)

lemma env_parse_keep: "(\<And>v c. f (upd v c) = f c) \<Longrightarrow> f (env_parse parse env k upd c) = f c"
  by (simp add: env_parse_def split: sum.split)

lemma env_flag_keep: "(\<And>c. f (upd c) = f c) \<Longrightarrow> f (env_flag env k upd c) = f c"
  by (simp add: env_flag_def)

lemmas keep_Network =
  env_set_keep [where f = nc_Name] env_parse_keep [where f = nc_Name] env_flag_keep [where f = nc_Name]
  env_set_keep [where f = nc_SlotsPerEpoch] env_parse_keep [where f = nc_SlotsPerEpoch] env_flag_keep [where f = nc_SlotsPerEpoch]
  env_set_keep [where f = nc_SecondsPerSlot] env_parse_keep [where f = nc_SecondsPerSlot] env_flag_keep [where f = nc_SecondsPerSlot]

lemmas keep_Storage =
  env_set_keep [where f = sg_DataDir] env_parse_keep [where f = sg_DataDir] env_flag_keep [where f = sg_DataDir]

lemmas keep_IPFS =
  env_set_keep [where f = ic_APIAddr] env_parse_keep [where f = ic_APIAddr] env_flag_keep [where f = ic_APIAddr]
  env_set_keep [where f = ic_SkipUpload] env_parse_keep [where f = ic_SkipUpload] env_flag_keep [where f = ic_SkipUpload]

lemmas keep_Generator =
  env_set_keep [where f = gc_NetworkRootPageSize] env_parse_keep [where f = gc_NetworkRootPageSize] env_flag_keep [where f = gc_NetworkRootPageSize]
  env_set_keep [where f = gc_startEpochSet] env_parse_keep [where f = gc_startEpochSet] env_flag_keep [where f = gc_startEpochSet]
  env_set_keep [where f = gc_StartEpoch] env_parse_keep [where f = gc_StartEpoch] env_flag_keep [where f = gc_StartEpoch]

lemma env_Network_fields:
  "nc_Name (env_Network pl env (cf_Network zeroConfig)) = env ''NETWORK_NAME''"
  "nc_SlotsPerEpoch (env_Network pl env (cf_Network zeroConfig)) = 0"
  "nc_SecondsPerSlot (env_Network pl env (cf_Network zeroConfig)) = 0"
  by (simp_all add: env_Network_def Let_def keep_Network env_set_read [of nc_Name]) (simp_all add: zeroConfig_def)

lemma env_Storage_fields: "sg_DataDir (env_Storage env (cf_Storage zeroConfig)) = env ''DATA_DIR''"
  by (simp add: env_Storage_def Let_def keep_Storage env_set_read [of sg_DataDir]) (simp add: zeroConfig_def)

lemma env_IPFS_fields:
  "ic_APIAddr (env_IPFS env (cf_IPFS zeroConfig)) = env ''IPFS_API_ADDR''"
  "ic_SkipUpload (env_IPFS env (cf_IPFS zeroConfig)) \<longleftrightarrow> env ''IPFS_SKIP_UPLOAD'' = ''true'' \<or> env ''IPFS_SKIP_UPLOAD'' = ''1''"
  by (simp_all add: env_IPFS_def Let_def keep_IPFS env_set_read [of ic_APIAddr] env_flag_read [of ic_SkipUpload]) (auto simp: zeroConfig_def)

lemma parse_empty: "\<not> isOk (Atoi '''')" "\<not> isOk (ParseUint '''')"
  by (simp_all add: Atoi_def parse_int_def ParseUint_def parse_nat_def)

lemma env_Generator_PageSize:
  "gc_NetworkRootPageSize (env_Generator pl env (cf_Generator zeroConfig)) =
     (case Atoi (env ''NETWORK_ROOT_PAGE_SIZE'') of Inr i \<Rightarrow> i | Inl _ \<Rightarrow> 0)"
  using parse_empty
  by (simp add: env_Generator_def Let_def keep_Generator, subst env_parse_read [of gc_NetworkRootPageSize],
      auto simp: keep_Generator split: sum.split) (auto simp: zeroConfig_def)

lemma env_Generator_startEpochSet:
  "gc_startEpochSet (env_Generator pl env (cf_Generator zeroConfig)) \<longleftrightarrow> isOk (ParseUint (env ''GENERATOR_START_EPOCH''))"
  using parse_empty
  by (simp add: env_Generator_def Let_def keep_Generator, subst env_parse_read [of gc_startEpochSet],
      auto simp: keep_Generator split: sum.split) (auto simp: zeroConfig_def)

lemma env_Generator_StartEpoch:
  "gc_StartEpoch (env_Generator pl env (cf_Generator zeroConfig)) =
     (case ParseUint (env ''GENERATOR_START_EPOCH'') of Inr i \<Rightarrow> i | Inl _ \<Rightarrow> 0)"
  using parse_empty
  by (simp add: env_Generator_def Let_def keep_Generator, subst env_parse_read [of gc_StartEpoch],
      auto simp: keep_Generator split: sum.split) (auto simp: zeroConfig_def)

section \<open>Properties\<close>

lemma Load_eq:
  "Load pl env = bindR (wrapR ''config'' (validate (applyEnv pl env zeroConfig)))
     (\<lambda>_. Inr (applyDefaults env (applyEnv pl env zeroConfig)))"
  by (simp add: Load_def Let_def)

lemmas loaded_fields = env_Network_fields env_Storage_fields env_IPFS_fields env_Generator_PageSize
  env_Generator_startEpochSet env_Generator_StartEpoch

text \<open>
  C33. Exactly which environments load: the network name and the data directory are set, the IPFS address
  is set or uploading is switched off, and the page size, where it is a number, is 0 or at least 1000. A
  value that does not parse is ignored. This is what the code checks; the documentation
  (\<^verbatim>\<open>docs/configuration.md\<close>, validation rules) says that the process exits unless the page size, if set, is at
  least 1000, but an explicit 0, or a text that is not a number, loads and is replaced by the default 10000.
\<close>

theorem Load_succeeds_iff:
  "isOk (Load pl env) \<longleftrightarrow>
     env ''NETWORK_NAME'' \<noteq> '''' \<and> env ''DATA_DIR'' \<noteq> '''' \<and>
     (env ''IPFS_API_ADDR'' \<noteq> '''' \<or> env ''IPFS_SKIP_UPLOAD'' = ''true'' \<or> env ''IPFS_SKIP_UPLOAD'' = ''1'') \<and>
     (case Atoi (env ''NETWORK_ROOT_PAGE_SIZE'') of Inl _ \<Rightarrow> True | Inr i \<Rightarrow> i = 0 \<or> 1000 \<le> sint i)"
  by (auto simp: Load_eq validate_def applyEnv_def loaded_fields split: sum.splits)

lemma sint_page_size:
  "sint (default_if_zero 10000 i) \<ge> 1000" if "(i :: goint) = 0 \<or> 1000 \<le> sint i"
  using that by (auto simp: default_if_zero_def)

text \<open>
  A loaded configuration is complete: the page size is at least 1000, the chain parameters are those
  of the network and not 0, worker counts, time-outs and the HAMT threshold are not 0, the CAR directory
  is set, pinning is on unless it is switched off, and the start epoch is the explicit one when
  \<^verbatim>\<open>GENERATOR_START_EPOCH\<close> is a number (0 included), otherwise the first blob epoch of a known network,
  otherwise 0.
\<close>

theorem Load_complete:
  assumes "Load pl env = Inr cfg"
  shows "nc_Name (cf_Network cfg) = env ''NETWORK_NAME'' \<and>
    1000 \<le> sint (gc_NetworkRootPageSize (cf_Generator cfg)) \<and>
    (nc_SlotsPerEpoch (cf_Network cfg), nc_SecondsPerSlot (cf_Network cfg)) =
      (if env ''NETWORK_NAME'' = ''gnosis'' then (16, 5) else (32, 12)) \<and>
    nc_BeaconTimeout (cf_Network cfg) \<noteq> 0 \<and> nc_BeaconRateBurst (cf_Network cfg) \<noteq> 0 \<and>
    nc_Beacon429Backoff (cf_Network cfg) \<noteq> 0 \<and> nc_BeaconRateLimit (cf_Network cfg) \<noteq> 0 \<and>
    gc_HAMTThreshold (cf_Generator cfg) \<noteq> 0 \<and> gc_PollInterval (cf_Generator cfg) \<noteq> 0 \<and>
    gc_Workers (cf_Generator cfg) \<noteq> 0 \<and> gc_BeaconWorkers (cf_Generator cfg) \<noteq> 0 \<and>
    gc_BackfillEpochWorkers (cf_Generator cfg) \<noteq> 0 \<and> ic_UploadWorkers (cf_IPFS cfg) \<noteq> 0 \<and>
    ic_Timeout (cf_IPFS cfg) \<noteq> 0 \<and> sg_CARDir (cf_Storage cfg) \<noteq> '''' \<and>
    (ic_PinOnAdd (cf_IPFS cfg) \<longleftrightarrow> env ''IPFS_PIN_ON_ADD'' \<notin> {''false'', ''0''}) \<and>
    gc_StartEpoch (cf_Generator cfg) =
      (case ParseUint (env ''GENERATOR_START_EPOCH'') of
         Inr i \<Rightarrow> i
       | Inl _ \<Rightarrow> (case dencunEpoch (env ''NETWORK_NAME'') of Some e \<Rightarrow> e | None \<Rightarrow> 0))"
proof -
  have cfg: "cfg = applyDefaults env (applyEnv pl env zeroConfig)"
    using assms by (simp add: Load_eq bindR_eq_Inr)
  from assms have "isOk (Load pl env)" by simp
  then have ok: "env ''NETWORK_NAME'' \<noteq> ''''" "case Atoi (env ''NETWORK_ROOT_PAGE_SIZE'') of Inl _ \<Rightarrow> True | Inr i \<Rightarrow> i = 0 \<or> 1000 \<le> sint i"
    unfolding isOk_iff Load_eq bindR_eq_Inr wrapR_eq_Inr
    by (auto simp: validate_def applyEnv_def loaded_fields split: sum.splits if_splits)
  have secs: "(5 :: uint64) * time_Second \<noteq> 0" "(12 :: uint64) * time_Second \<noteq> 0" "time_Second \<noteq> (0 :: uint64)"
    "(30 :: uint64) * time_Second \<noteq> 0" "(60 :: uint64) * time_Second \<noteq> 0"
    by (simp_all add: time_Second_def)
  have page: "1000 \<le> sint (gc_NetworkRootPageSize (cf_Generator cfg))"
    using ok(2) by (auto simp: cfg applyDefaults_def Let_def applyEnv_def defaults_Generator_def loaded_fields
        intro!: sint_page_size split: sum.splits)
  have chain: "nc_SlotsPerEpoch (cf_Network cfg) = (if env ''NETWORK_NAME'' = ''gnosis'' then 16 else 32)"
    "nc_SecondsPerSlot (cf_Network cfg) = (if env ''NETWORK_NAME'' = ''gnosis'' then 5 else 12)"
    "nc_Name (cf_Network cfg) = env ''NETWORK_NAME''"
    by (simp_all add: cfg applyDefaults_def Let_def applyEnv_def defaults_Network_def networkChainParams_def loaded_fields)
  have rest: "nc_BeaconTimeout (cf_Network cfg) \<noteq> 0 \<and> nc_BeaconRateBurst (cf_Network cfg) \<noteq> 0 \<and>
    nc_Beacon429Backoff (cf_Network cfg) \<noteq> 0 \<and> nc_BeaconRateLimit (cf_Network cfg) \<noteq> 0"
    "gc_HAMTThreshold (cf_Generator cfg) \<noteq> 0 \<and> gc_Workers (cf_Generator cfg) \<noteq> 0 \<and> gc_BeaconWorkers (cf_Generator cfg) \<noteq> 0 \<and>
    gc_BackfillEpochWorkers (cf_Generator cfg) \<noteq> 0 \<and> ic_UploadWorkers (cf_IPFS cfg) \<noteq> 0"
    "ic_Timeout (cf_IPFS cfg) \<noteq> 0 \<and> sg_CARDir (cf_Storage cfg) \<noteq> ''''"
    "ic_PinOnAdd (cf_IPFS cfg) \<longleftrightarrow> env ''IPFS_PIN_ON_ADD'' \<notin> {''false'', ''0''}"
    using secs by (simp_all add: cfg applyDefaults_def Let_def defaults_Network_def defaults_Generator_def default_if_zero_def
        networkChainParams_def split: prod.splits)
  have poll: "gc_PollInterval (cf_Generator cfg) \<noteq> 0"
    using secs chain(2) by (simp add: cfg applyDefaults_def Let_def defaults_Generator_def default_if_zero_def split: if_splits)
  have start: "gc_StartEpoch (cf_Generator cfg) =
      (case ParseUint (env ''GENERATOR_START_EPOCH'') of
         Inr i \<Rightarrow> i | Inl _ \<Rightarrow> (case dencunEpoch (env ''NETWORK_NAME'') of Some e \<Rightarrow> e | None \<Rightarrow> 0))"
    using chain(3) by (simp add: cfg applyDefaults_def Let_def applyEnv_def defaults_Generator_def loaded_fields isOk_def
        split: sum.split option.split)
  show ?thesis using page chain rest poll start by simp
qed

definition demo_parse_lib :: parse_lib where
  "demo_parse_lib = \<lparr>time_ParseDuration = (\<lambda>s. Inl (Errorf ''time: invalid duration'')), strconv_ParseFloat = (\<lambda>s. Inl (Errorf ''invalid syntax''))\<rparr>"

definition demo_environment :: environment where
  "demo_environment = (\<lambda>k. if k = ''NETWORK_NAME'' then ''gnosis'' else if k = ''DATA_DIR'' then ''/data''
     else if k = ''IPFS_SKIP_UPLOAD'' then ''1'' else '''')"

theorem Load_complete_witness:
  "\<exists>cfg. Load demo_parse_lib demo_environment = Inr cfg \<and> nc_SlotsPerEpoch (cf_Network cfg) = 16 \<and>
     gc_StartEpoch (cf_Generator cfg) = 889856 \<and> ic_PinOnAdd (cf_IPFS cfg)"
proof -
  have "isOk (Load demo_parse_lib demo_environment)"
    unfolding isOk_iff Load_eq bindR_eq_Inr wrapR_eq_Inr
    by (simp add: validate_def applyEnv_def loaded_fields demo_environment_def Atoi_def parse_int_def)
  then obtain cfg where cfg: "Load demo_parse_lib demo_environment = Inr cfg" by (auto simp: isOk_iff)
  have env: "demo_environment ''NETWORK_NAME'' = ''gnosis''" "demo_environment ''GENERATOR_START_EPOCH'' = ''''"
    "demo_environment ''IPFS_PIN_ON_ADD'' = ''''"
    by (simp_all add: demo_environment_def)
  show ?thesis
    using Load_complete [OF cfg] cfg by (simp add: env ParseUint_def parse_nat_def dencunEpoch_def)
qed

theorem Load_succeeds_iff_witness:
  "isOk (Load demo_parse_lib demo_environment) \<and> \<not> isOk (Load demo_parse_lib (demo_environment(''DATA_DIR'' := '''')))"
  unfolding Load_succeeds_iff by (simp add: demo_environment_def Atoi_def parse_int_def)

end
