(* ===== verification/DbQueries.thy ===== *)
theory DbQueries
  imports Db Complex_Main
begin

text \<open>
  \<^verbatim>\<open>db/db.go\<close>: the analytics and health-check queries, as functions of the tables. A query fails as a
  whole or returns its rows; scanning a negative number into a \<^verbatim>\<open>uint64\<close> fails.
\<close>

section \<open>Summary\<close>

record SummaryStats =
  ss_EpochCount :: int
  ss_EmptyEpochCount :: int
  ss_FirstEpoch :: uint64
  ss_LastEpoch :: uint64
  ss_ExpectedEpochCount :: int
  ss_GapCount :: int
  ss_TotalBlobs :: int
  ss_TotalSizeBytes :: int
  ss_AvgBlobsPerEpoch :: rat
  ss_MaxBlobsPerEpoch :: int
  ss_MaxBlobsEpoch :: uint64
  ss_FirstEpochTime :: "gotime option"
  ss_LastEpochTime :: "gotime option"
  ss_LiveCursor :: uint64
  ss_BackfillCursor :: uint64

text \<open>
  \<^verbatim>\<open>ROUND(AVG(blob_count)::numeric, 1)\<close>: one decimal, halves away from zero. Among the epochs with the
  most blobs the statement leaves open which one is returned; the model takes the first.
\<close>

definition round1 :: "rat \<Rightarrow> rat" where
  "round1 x = (if 0 \<le> x then of_int \<lfloor>10 * x + 1 / 2\<rfloor> / 10 else - (of_int \<lfloor>10 * (- x) + 1 / 2\<rfloor> / 10))"

definition sql_avg :: "int list \<Rightarrow> rat option" where
  "sql_avg xs = (if xs = [] then None else Some (of_int (sum_list xs) / of_nat (length xs)))"

definition max_blobs_epoch :: "epoch_row list \<Rightarrow> int" where
  "max_blobs_epoch rows = (case sort_key (\<lambda>r. - ew_blob_count r) rows of [] \<Rightarrow> 0 | r # _ \<Rightarrow> ew_epoch r)"

definition epoch_times :: "epoch_row list \<Rightarrow> int list" where
  "epoch_times rows = [t. Some t \<leftarrow> map ew_epoch_time rows]"

definition cursor_value :: "tables \<Rightarrow> string \<Rightarrow> uint64 res" where
  "cursor_value t key = (case map_of (tb_state t) key of None \<Rightarrow> Inr 0 | Some v \<Rightarrow> wrapR ''db: summary cursor scan'' (scan_uint64 v))"

definition GetSummaryStats :: "faults \<Rightarrow> tables \<Rightarrow> string \<Rightarrow> SummaryStats res" where
  "GetSummaryStats flt t network =
     (let rows = network_epochs t network; eps = map ew_epoch rows;
          expected = coalesce (case (sql_max eps, sql_min eps) of (Some hi, Some lo) \<Rightarrow> Some (hi - lo + 1) | _ \<Rightarrow> None) 0
      in bindR (wrapR ''db: summary stats'' (fault flt ''query'')) (\<lambda>_.
         bindR (wrapR ''db: summary stats'' (scan_uint64 (coalesce (sql_min eps) 0))) (\<lambda>first.
         bindR (wrapR ''db: summary stats'' (scan_uint64 (coalesce (sql_max eps) 0))) (\<lambda>last.
         bindR (wrapR ''db: summary stats'' (scan_uint64 (max_blobs_epoch rows))) (\<lambda>maxEpoch.
         bindR (wrapR ''db: summary cursors'' (fault flt ''cursors'')) (\<lambda>_.
         bindR (cursor_value t (live_key network)) (\<lambda>live.
         bindR (cursor_value t (backfill_key network)) (\<lambda>back.
           Inr \<lparr>ss_EpochCount = int (length rows),
                ss_EmptyEpochCount = int (length (filter (\<lambda>r. ew_blob_count r = 0) rows)),
                ss_FirstEpoch = first, ss_LastEpoch = last, ss_ExpectedEpochCount = expected,
                ss_GapCount = expected - int (length rows),
                ss_TotalBlobs = sum_list (map ew_blob_count rows), ss_TotalSizeBytes = sum_list (map ew_size_bytes rows),
                ss_AvgBlobsPerEpoch = coalesce (map_option round1 (sql_avg (map ew_blob_count rows))) 0,
                ss_MaxBlobsPerEpoch = coalesce (sql_max (map ew_blob_count rows)) 0, ss_MaxBlobsEpoch = maxEpoch,
                ss_FirstEpochTime = sql_min (epoch_times rows), ss_LastEpochTime = sql_max (epoch_times rows),
                ss_LiveCursor = live, ss_BackfillCursor = back\<rparr>))))))))"

section \<open>Gaps\<close>

record GapRange =
  gr_Start :: uint64
  gr_End :: uint64

definition Gap_Count :: "GapRange \<Rightarrow> uint64" where
  "Gap_Count g = gr_End g - gr_Start g + 1"

text \<open>\<^verbatim>\<open>LEAD(epoch) OVER (ORDER BY epoch)\<close>: each epoch with the next larger one.\<close>

fun lead_pairs :: "int list \<Rightarrow> (int \<times> int) list" where
  "lead_pairs (a # b # xs) = (a, b) # lead_pairs (b # xs)"
| "lead_pairs _ = []"

definition gap_rows :: "int list \<Rightarrow> (int \<times> int) list" where
  "gap_rows eps = map (\<lambda>(a, b). (a + 1, b - 1)) (filter (\<lambda>(a, b). b > a + 1) (lead_pairs (sort eps)))"

definition GetEpochGapRanges :: "faults \<Rightarrow> tables \<Rightarrow> string \<Rightarrow> GapRange list res" where
  "GetEpochGapRanges flt t network =
     bindR (wrapR ''db: epoch gap ranges'' (fault flt ''query''))
       (\<lambda>_. mapR (\<lambda>(a, b). wrapR ''db: epoch gap scan''
                 (bindR (scan_uint64 a) (\<lambda>s. bindR (scan_uint64 b) (\<lambda>e. Inr \<lparr>gr_Start = s, gr_End = e\<rparr>))))
          (gap_rows (map ew_epoch (network_epochs t network))))"

section \<open>Top epochs and months\<close>

record EpochTopRow =
  tr_Epoch :: uint64
  tr_BlobCount :: int
  tr_SizeBytes :: int
  tr_EpochTime :: "gotime option"

text \<open>A negative limit is an error of the server.\<close>

definition GetTopEpochsByBlobCount :: "faults \<Rightarrow> tables \<Rightarrow> string \<Rightarrow> goint \<Rightarrow> EpochTopRow list res" where
  "GetTopEpochsByBlobCount flt t network limit =
     bindR (wrapR ''db: top epochs''
              (bindR (fault flt ''query'') (\<lambda>_. if sint limit < 0 then Inl (Errorf ''LIMIT must not be negative'') else Inr ())))
       (\<lambda>_. mapR (\<lambda>r. wrapR ''db: top epoch scan''
                 (bindR (scan_uint64 (ew_epoch r)) (\<lambda>ep.
                    Inr \<lparr>tr_Epoch = ep, tr_BlobCount = ew_blob_count r, tr_SizeBytes = ew_size_bytes r, tr_EpochTime = ew_epoch_time r\<rparr>)))
          (take (nat (sint limit)) (sort_key (\<lambda>r. - ew_blob_count r) (network_epochs t network))))"

record MonthlyBlobStat =
  ms_Month :: gotime
  ms_EpochCount :: int
  ms_BlobCount :: int
  ms_SizeBytes :: int

text \<open>\<open>month\<close> is the server's \<^verbatim>\<open>DATE_TRUNC('month', ...)\<close>.\<close>

definition GetMonthlyStats :: "(gotime \<Rightarrow> gotime) \<Rightarrow> faults \<Rightarrow> tables \<Rightarrow> string \<Rightarrow> MonthlyBlobStat list res" where
  "GetMonthlyStats month flt t network =
     bindR (wrapR ''db: monthly stats'' (fault flt ''query''))
       (\<lambda>_. let rows = filter (\<lambda>r. ew_epoch_time r \<noteq> None) (network_epochs t network);
                month_of = (\<lambda>r. month (the (ew_epoch_time r)))
            in Inr (map (\<lambda>mo. let rs = filter (\<lambda>r. month_of r = mo) rows
                              in \<lparr>ms_Month = mo, ms_EpochCount = int (length rs), ms_BlobCount = sum_list (map ew_blob_count rs),
                                  ms_SizeBytes = sum_list (map ew_size_bytes rs)\<rparr>)
                      (sort (remdups (map month_of rows)))))"

section \<open>Health-check queries\<close>

record EpochCountMismatch =
  cm_Epoch :: uint64
  cm_Stored :: int
  cm_Actual :: int

definition GetBlobCountMismatches :: "faults \<Rightarrow> tables \<Rightarrow> string \<Rightarrow> EpochCountMismatch list res" where
  "GetBlobCountMismatches flt t network =
     bindR (wrapR ''db: get blob_count mismatches'' (fault flt ''query''))
       (\<lambda>_. mapR (\<lambda>e. wrapR ''db: scan blob_count mismatch''
                 (bindR (scan_uint64 (ew_epoch e)) (\<lambda>ep.
                    Inr \<lparr>cm_Epoch = ep, cm_Stored = ew_blob_count e,
                         cm_Actual = int (length (epoch_blobs t network (ew_epoch e)))\<rparr>)))
          (sort_key ew_epoch
             (filter (\<lambda>e. ew_blob_count e \<noteq> int (length (epoch_blobs t network (ew_epoch e)))) (network_epochs t network))))"

definition blob_size_sum :: "tables \<Rightarrow> string \<Rightarrow> int \<Rightarrow> int" where
  "blob_size_sum t network ep = sum_list (map bw_size_bytes (epoch_blobs t network ep))"

record EpochSizeMismatch =
  zm_Epoch :: uint64
  zm_Stored :: int
  zm_Actual :: int

definition GetSizeMismatches :: "faults \<Rightarrow> tables \<Rightarrow> string \<Rightarrow> EpochSizeMismatch list res" where
  "GetSizeMismatches flt t network =
     bindR (wrapR ''db: get size mismatches'' (fault flt ''query''))
       (\<lambda>_. mapR (\<lambda>e. wrapR ''db: scan size mismatch''
                 (bindR (scan_uint64 (ew_epoch e)) (\<lambda>ep.
                    Inr \<lparr>zm_Epoch = ep, zm_Stored = ew_size_bytes e, zm_Actual = blob_size_sum t network (ew_epoch e)\<rparr>)))
          (sort_key ew_epoch
             (filter (\<lambda>e. ew_size_bytes e \<noteq> blob_size_sum t network (ew_epoch e)) (network_epochs t network))))"

record EpochAnomaly =
  an_Epoch :: uint64
  an_Count :: int

text \<open>\<^verbatim>\<open>SELECT epoch, COUNT(*) ... GROUP BY epoch ORDER BY epoch\<close> over the given blob rows.\<close>

definition group_counts :: "blob_row list \<Rightarrow> (int \<times> int) list" where
  "group_counts rows =
     map (\<lambda>ep. (ep, int (length (filter (\<lambda>r. bw_epoch r = ep) rows)))) (sort (remdups (map bw_epoch rows)))"

definition scanEpochAnomalies :: "string \<Rightarrow> (int \<times> int) list \<Rightarrow> EpochAnomaly list res" where
  "scanEpochAnomalies what =
     mapR (\<lambda>(ep, n). wrapR (''db: scan '' @ what) (bindR (scan_uint64 ep) (\<lambda>e. Inr \<lparr>an_Epoch = e, an_Count = n\<rparr>)))"

definition GetNetworkMismatches :: "faults \<Rightarrow> tables \<Rightarrow> string \<Rightarrow> EpochAnomaly list res" where
  "GetNetworkMismatches flt t network =
     bindR (wrapR ''db: get network mismatches'' (fault flt ''query''))
       (\<lambda>_. scanEpochAnomalies ''network mismatch''
          (group_counts (filter (\<lambda>b. bw_network b \<noteq> network \<and>
              (\<exists>e \<in> set (tb_epochs t). ew_epoch e = bw_epoch b \<and> ew_network e = network)) (tb_blobs t))))"

definition GetOrphanBlobs :: "faults \<Rightarrow> tables \<Rightarrow> string \<Rightarrow> EpochAnomaly list res" where
  "GetOrphanBlobs flt t network =
     bindR (wrapR ''db: get orphan blobs'' (fault flt ''query''))
       (\<lambda>_. scanEpochAnomalies ''orphan blobs''
          (group_counts (filter (\<lambda>b. bw_network b = network \<and>
              \<not> (\<exists>e \<in> set (tb_epochs t). ew_epoch e = bw_epoch b \<and> ew_network e = network)) (tb_blobs t))))"

record BlobIndexAnomaly =
  ia_Epoch :: uint64
  ia_Rows :: int
  ia_DistinctIdx :: int
  ia_MaxIdx :: int

definition index_anomaly_rows :: "tables \<Rightarrow> string \<Rightarrow> (int \<times> int \<times> int \<times> int) list" where
  "index_anomaly_rows t network =
     (let rows = filter (\<lambda>r. bw_network r = network) (tb_blobs t);
          groups = map (\<lambda>ep. let idx = map bw_blob_index (filter (\<lambda>r. bw_epoch r = ep) rows)
                             in (ep, int (length idx), int (card (set idx)), coalesce (sql_max idx) 0))
                     (sort (remdups (map bw_epoch rows)))
      in filter (\<lambda>(ep, n, d, m). n \<noteq> d \<or> m + 1 \<noteq> d) groups)"

definition GetBlobIndexAnomalies :: "faults \<Rightarrow> tables \<Rightarrow> string \<Rightarrow> BlobIndexAnomaly list res" where
  "GetBlobIndexAnomalies flt t network =
     bindR (wrapR ''db: get blob_index anomalies'' (fault flt ''query''))
       (\<lambda>_. mapR (\<lambda>(ep, n, d, m). wrapR ''db: scan blob_index anomaly''
                 (bindR (scan_uint64 ep) (\<lambda>e. Inr \<lparr>ia_Epoch = e, ia_Rows = n, ia_DistinctIdx = d, ia_MaxIdx = m\<rparr>)))
          (index_anomaly_rows t network))"

section \<open>Facts on gaps\<close>

lemma lead_pairs_gap:
  "sorted_wrt (<) xs \<Longrightarrow>
   (\<exists>(a, b) \<in> set (lead_pairs xs). a < x \<and> x < b) \<longleftrightarrow> xs \<noteq> [] \<and> hd xs < x \<and> x < last xs \<and> x \<notin> set xs"
proof (induction xs rule: lead_pairs.induct)
  case (1 a b xs)
  have srt: "sorted_wrt (<) (b # xs)" "a < b" using "1.prems" by auto
  have last: "b \<le> last (b # xs)" using srt(1) by (cases xs) (auto dest: last_in_set order.strict_implies_order)
  show ?case using "1.IH" [OF srt(1)] srt last by (auto simp: not_less) 
qed auto

lemma lead_pairs_mem: "(a, b) \<in> set (lead_pairs xs) \<Longrightarrow> a \<in> set xs \<and> b \<in> set xs"
  by (induction xs rule: lead_pairs.induct) auto

lemma lead_pairs_sorted:
  "sorted_wrt (<) xs \<Longrightarrow> sorted_wrt (\<lambda>(a, b) (a', b'). b \<le> a') (lead_pairs xs) \<and> (\<forall>(a, b) \<in> set (lead_pairs xs). hd xs \<le> a)"
proof (induction xs rule: lead_pairs.induct)
  case (1 a b xs)
  then have "sorted_wrt (<) (b # xs)" by simp
  from "1.IH" [OF this] "1.prems" show ?case by fastforce
qed auto

lemma sorted_hd_last: "sorted xs \<Longrightarrow> a \<in> set xs \<Longrightarrow> hd xs \<le> a \<and> a \<le> last xs"
proof (induction xs)
  case (Cons b xs)
  then show ?case by (cases "xs = []") (auto intro: last_in_set)
qed simp

lemma gap_rows_iff:
  assumes "distinct eps"
  shows "(\<exists>(s, e) \<in> set (gap_rows eps). s \<le> x \<and> x \<le> e) \<longleftrightarrow> (\<exists>a \<in> set eps. a < x) \<and> (\<exists>b \<in> set eps. x < b) \<and> x \<notin> set eps"
proof -
  let ?xs = "sort eps"
  have srt: "sorted_wrt (<) ?xs" using assms by (simp add: strict_sorted_iff)
  have "(\<exists>(s, e) \<in> set (gap_rows eps). s \<le> x \<and> x \<le> e) \<longleftrightarrow> (\<exists>(a, b) \<in> set (lead_pairs ?xs). a < x \<and> x < b)"
    by (force simp: gap_rows_def)
  also have "\<dots> \<longleftrightarrow> ?xs \<noteq> [] \<and> hd ?xs < x \<and> x < last ?xs \<and> x \<notin> set eps"
    using lead_pairs_gap [OF srt] by simp
  also have "\<dots> \<longleftrightarrow> (\<exists>a \<in> set eps. a < x) \<and> (\<exists>b \<in> set eps. x < b) \<and> x \<notin> set eps"
  proof -
    have "hd ?xs \<le> a \<and> a \<le> last ?xs" if "a \<in> set eps" for a
      using that by (intro sorted_hd_last) simp_all
    moreover have "hd ?xs \<in> set eps \<and> last ?xs \<in> set eps" if "?xs \<noteq> []" using that by (metis hd_in_set last_in_set set_sort)
    moreover have "?xs \<noteq> []" if "a \<in> set eps" for a using that by (metis empty_iff list.set(1) set_sort)
    ultimately show ?thesis by (meson le_less_trans less_le_trans)
  qed
  finally show ?thesis .
qed

lemma gap_rows_bounds:
  assumes "db_wf t" and "\<forall>r \<in> set (network_epochs t network). 0 \<le> ew_epoch r"
    and "(a, b) \<in> set (gap_rows (map ew_epoch (network_epochs t network)))"
  shows "0 < a \<and> b < 2 ^ 63 - 1 \<and> a \<le> b"
proof -
  let ?eps = "map ew_epoch (network_epochs t network)"
  have rng: "i \<in> bigint \<and> 0 \<le> i" if "i \<in> set ?eps" for i
    using that assms(1,2) by (auto simp: db_wf_def network_epochs_def)
  from assms(3) obtain c d where "a = c + 1" "b = d - 1" "d > c + 1" "(c, d) \<in> set (lead_pairs (sort ?eps))"
    by (auto simp: gap_rows_def)
  with lead_pairs_mem [of c d "sort ?eps"] rng [of c] rng [of d] show ?thesis by (auto simp: bigint_def)
qed

lemma gap_ranges_rows:
  assumes "GetEpochGapRanges flt t network = Inr gaps"
  shows "gaps = map (\<lambda>(a, b). \<lparr>gr_Start = word_of_int a, gr_End = word_of_int b\<rparr>) (gap_rows (map ew_epoch (network_epochs t network)))"
proof -
  let ?eps = "map ew_epoch (network_epochs t network)"
  from assms have "list_all2 (\<lambda>p g. (\<lambda>(a, b). wrapR ''db: epoch gap scan''
               (bindR (scan_uint64 a) (\<lambda>s. bindR (scan_uint64 b) (\<lambda>e. Inr \<lparr>gr_Start = s, gr_End = e\<rparr>)))) p = Inr g) (gap_rows ?eps) gaps"
    by (auto simp: GetEpochGapRanges_def bindR_eq_Inr mapR_eq_Inr)
  then have "list_all2 (\<lambda>(a, b) g. g = \<lparr>gr_Start = word_of_int a, gr_End = word_of_int b\<rparr>) (gap_rows ?eps) gaps"
    by (rule list_all2_mono) (auto simp: bindR_eq_Inr scan_uint64_def split: if_splits)
  then show ?thesis by (induction rule: list_all2_induct) auto
qed

text \<open>
  C26. The gap ranges are exactly the missing epochs: for non-negative epoch numbers, a number lies in one of
  the returned ranges if and only if the network has a smaller and a larger epoch but not that one.
\<close>

theorem GetEpochGapRanges_exact:
  assumes "db_wf t" and "\<forall>r \<in> set (network_epochs t network). 0 \<le> ew_epoch r"
    and "GetEpochGapRanges noFaults t network = Inr gaps"
  shows "(\<exists>g \<in> set gaps. gr_Start g \<le> x \<and> x \<le> gr_End g) \<longleftrightarrow>
    (\<exists>r \<in> set (network_epochs t network). ew_epoch r < uint x) \<and>
    (\<exists>r \<in> set (network_epochs t network). uint x < ew_epoch r) \<and>
    (\<forall>r \<in> set (network_epochs t network). ew_epoch r \<noteq> uint x)"
proof -
  let ?eps = "map ew_epoch (network_epochs t network)"
  have ab: "0 \<le> a \<and> b < 2 ^ 63 \<and> a \<le> b" if "(a, b) \<in> set (gap_rows ?eps)" for a b
    using gap_rows_bounds [OF assms(1,2) that] by simp
  have u: "uint (word_of_int i :: uint64) = i" if "0 \<le> i" "i < 2 ^ 63" for i
    using that by (simp add: unsigned_of_int take_bit_eq_mod)
  have "gaps = map (\<lambda>(a, b). \<lparr>gr_Start = word_of_int a, gr_End = word_of_int b\<rparr>) (gap_rows ?eps)"
    by (rule gap_ranges_rows [OF assms(3)])
  then have "(\<exists>g \<in> set gaps. gr_Start g \<le> x \<and> x \<le> gr_End g) \<longleftrightarrow> (\<exists>(a, b) \<in> set (gap_rows ?eps). a \<le> uint x \<and> uint x \<le> b)"
  proof -
    have "(case p of (a, b) \<Rightarrow> (word_of_int a :: uint64) \<le> x \<and> x \<le> word_of_int b) = (case p of (a, b) \<Rightarrow> a \<le> uint x \<and> uint x \<le> b)"
      if "p \<in> set (gap_rows ?eps)" for p
    proof (cases p)
      case (Pair a b)
      with ab that have "0 \<le> a" "a < 2 ^ 63" "0 \<le> b" "b < 2 ^ 63" by fastforce+
      then show ?thesis using u [of a] u [of b] Pair by (simp add: word_le_def)
    qed
    then show ?thesis using \<open>gaps = _\<close> by (simp add: case_prod_unfold cong: bex_cong_simp)
  qed
  also have "\<dots> \<longleftrightarrow> (\<exists>a \<in> set ?eps. a < uint x) \<and> (\<exists>b \<in> set ?eps. uint x < b) \<and> uint x \<notin> set ?eps"
    using assms(1) by (intro gap_rows_iff) (simp add: db_wf_def network_epochs_def distinct_map_filter)
  finally show ?thesis by (auto simp: image_iff)
qed

definition demo_row :: "int \<Rightarrow> epoch_row" where
  "demo_row n = \<lparr>ew_epoch = n, ew_network = ''mainnet'', ew_slot = 32 * n, ew_epoch_time = None,
     ew_cid = ''cid'', ew_car_path = '''', ew_blob_count = 0, ew_size_bytes = 0\<rparr>"

theorem GetEpochGapRanges_exact_witness:
  "\<exists>gaps. GetEpochGapRanges noFaults (schema_empty\<lparr>tb_epochs := [demo_row 9, demo_row 5]\<rparr>) ''mainnet'' = Inr gaps \<and>
     (\<exists>g \<in> set gaps. gr_Start g \<le> 7 \<and> 7 \<le> gr_End g)"
proof -
  let ?t = "schema_empty\<lparr>tb_epochs := [demo_row 9, demo_row 5]\<rparr>"
  have wf: "db_wf ?t" by (simp add: db_wf_def schema_empty_def demo_row_def bigint_def)
  have rows: "network_epochs ?t ''mainnet'' = [demo_row 9, demo_row 5]" by (simp add: network_epochs_def demo_row_def)
  have pos: "\<forall>r \<in> set (network_epochs ?t ''mainnet''). 0 \<le> ew_epoch r" unfolding rows by (simp add: demo_row_def)
  have gaps: "GetEpochGapRanges noFaults ?t ''mainnet'' = Inr [\<lparr>gr_Start = 6, gr_End = 8\<rparr>]"
    unfolding GetEpochGapRanges_def rows by (simp add: fault_def gap_rows_def demo_row_def scan_uint64_def)
  from GetEpochGapRanges_exact [OF wf pos gaps, of 7] gaps show ?thesis
    unfolding rows by (simp add: demo_row_def)
qed

text \<open>
  The blob-index check reports healthy epochs: the index of a blob counts within its block, so an epoch
  with two blobs of the same index (two blocks that carry blobs) has fewer different indices than rows
  and is always among the reported anomalies.
\<close>

theorem index_anomaly_reports_two_blocks:
  assumes "b1 \<in> set (tb_blobs t)" "b2 \<in> set (tb_blobs t)" "b1 \<noteq> b2"
    and "bw_network b1 = network" "bw_network b2 = network" "bw_epoch b1 = bw_epoch b2"
    and "bw_blob_index b1 = bw_blob_index b2"
  shows "\<exists>n d m. (bw_epoch b1, n, d, m) \<in> set (index_anomaly_rows t network) \<and> d < n"
proof -
  let ?rows = "filter (\<lambda>r. bw_network r = network) (tb_blobs t)"
  let ?grp = "filter (\<lambda>r. bw_epoch r = bw_epoch b1) ?rows"
  let ?idx = "map bw_blob_index ?grp"
  have mem: "b1 \<in> set ?grp" "b2 \<in> set ?grp" using assms by auto
  have "\<not> distinct ?idx"
    using mem assms(3,7) by (auto simp: distinct_map inj_on_def)
  then have lt: "card (set ?idx) < length ?idx" by (metis card_distinct card_length le_neq_implies_less)
  have "bw_epoch b1 \<in> set (sort (remdups (map bw_epoch ?rows)))" using mem(1) by auto
  then have "(bw_epoch b1, int (length ?idx), int (card (set ?idx)), coalesce (sql_max ?idx) 0) \<in> set (index_anomaly_rows t network)"
    using lt by (auto simp: index_anomaly_rows_def Let_def)
  with lt show ?thesis by (metis of_nat_less_iff)
qed

definition demo_brow :: "string \<Rightarrow> int \<Rightarrow> blob_row" where
  "demo_brow c slot = \<lparr>bw_commitment = c, bw_epoch = 7, bw_slot = slot, bw_slot_time = None, bw_network = ''mainnet'', bw_blob_index = 0,
     bw_data_cid = '''', bw_meta_cid = '''', bw_versioned_hash = '''', bw_tx_hash = '''', bw_block_number = 0, bw_block_hash = '''', bw_size_bytes = 131072\<rparr>"

theorem index_anomaly_reports_two_blocks_witness:
  "\<exists>n d m. (7, n, d, m) \<in> set (index_anomaly_rows (schema_empty\<lparr>tb_blobs := [demo_brow ''a'' 224, demo_brow ''b'' 225]\<rparr>) ''mainnet'') \<and> d < n"
  using index_anomaly_reports_two_blocks [of "demo_brow ''a'' 224" "schema_empty\<lparr>tb_blobs := [demo_brow ''a'' 224, demo_brow ''b'' 225]\<rparr>"
      "demo_brow ''b'' 225" "''mainnet''"]
  by (simp add: demo_brow_def)

end
