(* ===== verification/Ipfs.thy ===== *)
theory Ipfs
  imports Store Golib
begin

text \<open>
  \<^verbatim>\<open>ipfs/client.go\<close>: the client of the IPFS node's HTTP API, and \<^verbatim>\<open>blobscan/notifier.go\<close>, which registers
  the CIDs of new blobs with the blobscan API. The servers are outside the program: an \<open>http_env\<close> says what
  becomes of each request, and the model says which requests are sent, with their URLs and bodies, and what
  is made of the answers. Connection pools and time-outs only show up as failed requests.
\<close>

section \<open>The client\<close>

record ipfsClient =
  ic_base :: string
  ic_timeout :: duration
  ic_pinOnAdd :: bool
  ic_uploadWorkers :: goint

fun strings_Split :: "char \<Rightarrow> string \<Rightarrow> string list" where
  "strings_Split sep [] = [[]]"
| "strings_Split sep (c # cs) =
     (if c = sep then [] # strings_Split sep cs
      else case strings_Split sep cs of [] \<Rightarrow> [[c]] | p # ps \<Rightarrow> (c # p) # ps)"

definition normalizeAddr :: "string \<Rightarrow> string" where
  "normalizeAddr addr =
     (if strings_HasPrefix addr ''http://'' \<or> strings_HasPrefix addr ''https://''
      then strings_TrimRight addr (CHR ''/'')
      else let parts = strings_Split (CHR ''/'') (strings_TrimPrefix addr ''/'')
           in if 4 \<le> length parts then ''http://'' @ parts ! 1 @ '':'' @ parts ! 3
              else ''http://'' @ addr)"

definition NewIpfsClient :: "string \<Rightarrow> duration \<Rightarrow> bool \<Rightarrow> goint \<Rightarrow> ipfsClient" where
  "NewIpfsClient apiAddr timeout pinOnAdd uploadWorkers =
     \<lparr>ic_base = normalizeAddr apiAddr, ic_timeout = timeout, ic_pinOnAdd = pinOnAdd,
      ic_uploadWorkers = (if sint uploadWorkers \<le> 0 then 1 else uploadWorkers)\<rparr>"

definition codecName :: "uint64 \<Rightarrow> string" where
  "codecName codec =
     (if codec = 0x55 then ''raw'' else if codec = 0x71 then ''dag-cbor'' else if codec = 0x70 then ''dag-pb''
      else ''0x'' @ fmt_hex (unat codec))"

definition mhName :: "uint64 \<Rightarrow> string" where
  "mhName mhType =
     (if mhType = 0x12 then ''sha2-256'' else if mhType = 0x14 then ''sha3-512'' else if mhType = 0x1b then ''keccak-256''
      else ''0x'' @ fmt_hex (unat mhType))"

section \<open>Requests\<close>

text \<open>
  A POST request with its URL and the payload of its body. The answer has a status, the text that an error
  message quotes, the bytes that \<^verbatim>\<open>io.ReadAll\<close> delivers, and the JSON documents that a decoder reads
  one after the other, \<^term>\<open>None\<close> being one that does not parse.
\<close>

record api_request =
  rq_url :: string
  rq_body :: "bytes option"

record api_response =
  ar_status :: int
  ar_text :: string
  ar_data :: "bytes res"
  ar_docs :: "json option list"

record http_env =
  he_newRequest :: "string \<Rightarrow> unit res"
  he_do :: "api_request \<Rightarrow> api_response res"

definition send :: "string \<Rightarrow> http_env \<Rightarrow> api_request \<Rightarrow> api_response res" where
  "send what env req =
     bindR (wrapR (''ipfs: build '' @ what @ '' request'') (he_newRequest env (rq_url req))) (\<lambda>_.
       wrapR (''ipfs: '' @ what @ '' request'') (he_do env req))"

definition send_ok :: "string \<Rightarrow> http_env \<Rightarrow> api_request \<Rightarrow> api_response res" where
  "send_ok what env req =
     bindR (send what env req) (\<lambda>resp.
       if ar_status resp \<noteq> 200
       then Inl (Errorf (''ipfs: '' @ what @ '' HTTP '' @ fmt_int (ar_status resp) @ '': '' @ ar_text resp))
       else Inr resp)"

definition call_json :: "string \<Rightarrow> http_env \<Rightarrow> string \<Rightarrow> ((string \<rightharpoonup> json) \<Rightarrow> 'a res) \<Rightarrow> 'a res" where
  "call_json what env url dec =
     bindR (send_ok what env \<lparr>rq_url = url, rq_body = None\<rparr>) (\<lambda>resp.
       wrapR (''ipfs: '' @ what @ '' decode'')
         (case ar_docs resp of
            [] \<Rightarrow> Inl (Errorf ''EOF'')
          | None # _ \<Rightarrow> Inl (Errorf ''invalid JSON'')
          | Some j # _ \<Rightarrow> bindR (json_path [] j) dec))"

definition HasBlock :: "ipld_lib \<Rightarrow> ipfsClient \<Rightarrow> http_env \<Rightarrow> cid \<Rightarrow> bool res" where
  "HasBlock lib c env id' =
     bindR (send ''block/stat'' env
              \<lparr>rq_url = ic_base c @ ''/api/v0/block/stat?arg='' @ cid_String lib id' @ ''&offline=true'', rq_body = None\<rparr>)
       (\<lambda>resp. Inr (ar_status resp = 200))"

definition canonical_pin :: "ipld_lib \<Rightarrow> string \<Rightarrow> string" where
  "canonical_pin lib raw = (case cid_Decode lib raw of Inl _ \<Rightarrow> raw | Inr c \<Rightarrow> cid_String lib c)"

definition dec_pins :: "(string \<rightharpoonup> json) \<Rightarrow> string list res" where
  "dec_pins m =
     (case m ''Keys'' of
        None \<Rightarrow> Inr []
      | Some JNull \<Rightarrow> Inr []
      | Some (JObj ks) \<Rightarrow>
          bindR (mapR (\<lambda>(k, v). bindR (json_object ''Keys'' (Some v)) (\<lambda>o'. json_string ''Type'' (o' ''Type''))) ks)
            (\<lambda>_. Inr (map fst ks))
      | Some _ \<Rightarrow> Inl (json_type_error ''Keys''))"

definition ListRecursivePins :: "ipld_lib \<Rightarrow> ipfsClient \<Rightarrow> http_env \<Rightarrow> string set res" where
  "ListRecursivePins lib c env =
     bindR (call_json ''pin/ls'' env (ic_base c @ ''/api/v0/pin/ls?type=recursive'') dec_pins)
       (\<lambda>raws. Inr (set (map (canonical_pin lib) raws)))"

section \<open>Uploads\<close>

record put_request =
  pr_codec :: string
  pr_mhtype :: string
  pr_mhlen :: string
  pr_pin :: string
  pr_data :: bytes

definition fmt_bool :: "bool \<Rightarrow> string" where
  "fmt_bool b = (if b then ''true'' else ''false'')"

definition put_request_of :: "ipfsClient \<Rightarrow> block \<Rightarrow> put_request" where
  "put_request_of c blk =
     (let prefix = cid_Prefix (blkCid blk)
      in \<lparr>pr_codec = codecName (pfCodec prefix), pr_mhtype = mhName (pfMhType prefix),
          pr_mhlen = fmt_int (sint (pfMhLength prefix)), pr_pin = fmt_bool (ic_pinOnAdd c),
          pr_data = blkData blk\<rparr>)"

definition put_http :: "ipfsClient \<Rightarrow> put_request \<Rightarrow> api_request" where
  "put_http c r =
     \<lparr>rq_url = ic_base c @ ''/api/v0/block/put?'' @
        url_Encode [(''cid-codec'', pr_codec r), (''mhtype'', pr_mhtype r), (''mhlen'', pr_mhlen r), (''pin'', pr_pin r)],
      rq_body = Some (pr_data r)\<rparr>"

text \<open>The result and the requests that the node accepted. Writing the form to its buffer does not fail.\<close>

definition PutBlock :: "ipfsClient \<Rightarrow> http_env \<Rightarrow> block \<Rightarrow> unit res \<times> put_request list" where
  "PutBlock c env blk =
     (let r = put_request_of c blk
      in case send_ok ''block/put'' env (put_http c r) of
           Inl e \<Rightarrow> (Inl e, [])
         | Inr _ \<Rightarrow> (Inr (), [r]))"

text \<open>
  \<^verbatim>\<open>PutBlockstore\<close>: one task per block under an error group. \<open>order\<close> is the order in which the tasks
  finish and \<open>env i\<close> what happens to the request of block \<open>i\<close>; after a first error the group's
  context is cancelled, which shows as failing later requests. The first error is the result.
\<close>

definition upload_task :: "ipld_lib \<Rightarrow> ipfsClient \<Rightarrow> (nat \<Rightarrow> http_env) \<Rightarrow> block list \<Rightarrow> nat \<Rightarrow> unit res \<times> put_request list" where
  "upload_task lib c env blks i =
     (let (r, acc) = PutBlock c (env i) (blks ! i)
      in (wrapR (''ipfs: put block '' @ fmt_nat (i + 1) @ ''/'' @ fmt_nat (length blks) @ '' ('' @
                 cid_String lib (blkCid (blks ! i)) @ '')'') r, acc))"

fun first_error :: "unit res list \<Rightarrow> unit res" where
  "first_error [] = Inr ()"
| "first_error (Inl e # rs) = Inl e"
| "first_error (Inr _ # rs) = first_error rs"

definition PutBlockstore ::
  "ipld_lib \<Rightarrow> ipfsClient \<Rightarrow> (nat \<Rightarrow> http_env) \<Rightarrow> nat list \<Rightarrow> MemBlockstore \<Rightarrow> unit res \<times> put_request list" where
  "PutBlockstore lib c env order bs =
     (let blks = Mem_All bs
      in if blks = [] then (Inr (), [])
         else let outs = map (upload_task lib c env blks) order
              in (first_error (map fst outs), concat (map snd outs)))"

definition GetBlock :: "ipld_lib \<Rightarrow> ipfsClient \<Rightarrow> http_env \<Rightarrow> cid \<Rightarrow> block res" where
  "GetBlock lib c env id' =
     bindR (send_ok ''block/get'' env
              \<lparr>rq_url = ic_base c @ ''/api/v0/block/get?arg='' @ cid_String lib id', rq_body = None\<rparr>) (\<lambda>resp.
     bindR (wrapR ''ipfs: block/get read body'' (ar_data resp)) (\<lambda>data. NewBlockWithCid lib data id'))"

fun GetBlocks :: "ipld_lib \<Rightarrow> ipfsClient \<Rightarrow> http_env \<Rightarrow> MemBlockstore \<Rightarrow> cid list \<Rightarrow> unit res \<times> MemBlockstore" where
  "GetBlocks lib c env bs [] = (Inr (), bs)"
| "GetBlocks lib c env bs (id' # ids) =
     (case wrapR (''ipfs: get block '' @ cid_String lib id') (GetBlock lib c env id') of
        Inl e \<Rightarrow> (Inl e, bs)
      | Inr blk \<Rightarrow>
          (case wrapR (''ipfs: put block '' @ cid_String lib id' @ '' into store'') (Mem_Put bs blk) of
             Inl e \<Rightarrow> (Inl e, bs)
           | Inr bs' \<Rightarrow> GetBlocks lib c env bs' ids))"

section \<open>Pins and verification\<close>

definition Pin :: "ipld_lib \<Rightarrow> ipfsClient \<Rightarrow> http_env \<Rightarrow> cid \<Rightarrow> unit res" where
  "Pin lib c env c2 =
     bindR (send_ok ''pin/add'' env
              \<lparr>rq_url = ic_base c @ ''/api/v0/pin/add?arg='' @ cid_String lib c2 @ ''&recursive=true'', rq_body = None\<rparr>)
       (\<lambda>_. Inr ())"

fun refs_stream :: "string \<Rightarrow> json option list \<Rightarrow> unit res" where
  "refs_stream root [] = Inr ()"
| "refs_stream root (None # ds) = Inl (wrapErr ''ipfs: refs decode'' (Errorf ''invalid JSON''))"
| "refs_stream root (Some j # ds) =
     bindR (wrapR ''ipfs: refs decode''
              (bindR (json_path [] j) (\<lambda>m.
               bindR (json_string ''Ref'' (m ''Ref'')) (\<lambda>_. json_string ''Err'' (m ''Err''))))) (\<lambda>err.
       if err \<noteq> '''' then Inl (Errorf (''ipfs: block missing locally under '' @ root @ '': '' @ err))
       else refs_stream root ds)"

definition VerifyLocal :: "ipld_lib \<Rightarrow> ipfsClient \<Rightarrow> http_env \<Rightarrow> cid \<Rightarrow> unit res" where
  "VerifyLocal lib c env root =
     bindR (send_ok ''refs'' env
              \<lparr>rq_url = ic_base c @ ''/api/v0/refs?arg='' @ cid_String lib root @ ''&recursive=true&unique=true&offline=true'',
               rq_body = None\<rparr>)
       (\<lambda>resp. refs_stream (cid_String lib root) (ar_docs resp))"

section \<open>Other queries\<close>

definition dec_uint :: "string \<Rightarrow> (string \<rightharpoonup> json) \<Rightarrow> uint64 res" where
  "dec_uint k m =
     (case m k of
        None \<Rightarrow> Inr 0
      | Some JNull \<Rightarrow> Inr 0
      | Some (JInt i) \<Rightarrow> if 0 \<le> i \<and> i < 2 ^ 64 then Inr (word_of_int i) else Inl (json_type_error k)
      | Some _ \<Rightarrow> Inl (json_type_error k))"

definition DagStat :: "ipld_lib \<Rightarrow> ipfsClient \<Rightarrow> http_env \<Rightarrow> cid \<Rightarrow> uint64 res" where
  "DagStat lib c env root =
     call_json ''dag/stat'' env (ic_base c @ ''/api/v0/dag/stat?arg='' @ cid_String lib root) (dec_uint ''Size'')"

record IPNSPublishResult =
  ip_Name :: string
  ip_Value :: string

definition PublishIPNS ::
  "ipld_lib \<Rightarrow> ipfsClient \<Rightarrow> http_env \<Rightarrow> string \<Rightarrow> cid \<Rightarrow> duration \<Rightarrow> duration \<Rightarrow> IPNSPublishResult res" where
  "PublishIPNS lib c env keyName target ttl lifetime =
     call_json ''name/publish'' env
       (ic_base c @ ''/api/v0/name/publish?'' @
          url_Encode [(''arg'', ''/ipfs/'' @ cid_String lib target), (''key'', keyName), (''ttl'', Duration_String ttl),
                      (''lifetime'', Duration_String lifetime), (''resolve'', ''false'')])
       (\<lambda>m. bindR (json_string ''Name'' (m ''Name'')) (\<lambda>n.
            bindR (json_string ''Value'' (m ''Value'')) (\<lambda>v. Inr \<lparr>ip_Name = n, ip_Value = v\<rparr>)))"

definition ResolveIPNS :: "ipfsClient \<Rightarrow> http_env \<Rightarrow> string \<Rightarrow> string res" where
  "ResolveIPNS c env ipnsName =
     call_json ''name/resolve'' env (ic_base c @ ''/api/v0/name/resolve?arg='' @ url_QueryEscape ipnsName)
       (\<lambda>m. json_string ''Path'' (m ''Path''))"

definition KeyList :: "ipfsClient \<Rightarrow> http_env \<Rightarrow> string list res" where
  "KeyList c env =
     call_json ''key/list'' env (ic_base c @ ''/api/v0/key/list'') (\<lambda>m.
       bindR (json_list ''Keys'' (m ''Keys''))
         (mapR (\<lambda>k. bindR (json_object ''Keys'' (Some k)) (\<lambda>o'.
            bindR (json_string ''Id'' (o' ''Id'')) (\<lambda>_. json_string ''Name'' (o' ''Name''))))))"

record RepoStat =
  rs_RepoSize :: uint64
  rs_StorageMax :: uint64
  rs_NumObjects :: uint64

definition GetRepoStat :: "ipfsClient \<Rightarrow> http_env \<Rightarrow> bool \<Rightarrow> RepoStat res" where
  "GetRepoStat c env sizeOnly =
     call_json ''repo/stat'' env (ic_base c @ ''/api/v0/repo/stat?size-only='' @ fmt_bool sizeOnly) (\<lambda>m.
       bindR (dec_uint ''RepoSize'' m) (\<lambda>a.
       bindR (dec_uint ''StorageMax'' m) (\<lambda>b.
       bindR (dec_uint ''NumObjects'' m) (\<lambda>n.
         Inr \<lparr>rs_RepoSize = a, rs_StorageMax = b, rs_NumObjects = n\<rparr>))))"

record NodeInfo =
  ni_ID :: string
  ni_AgentVersion :: string
  ni_ProtocolVersion :: string
  ni_Addresses :: "string list"

definition GetNodeInfo :: "ipfsClient \<Rightarrow> http_env \<Rightarrow> NodeInfo res" where
  "GetNodeInfo c env =
     call_json ''id'' env (ic_base c @ ''/api/v0/id'') (\<lambda>m.
       bindR (json_string ''ID'' (m ''ID'')) (\<lambda>i.
       bindR (json_string ''AgentVersion'' (m ''AgentVersion'')) (\<lambda>a.
       bindR (json_string ''ProtocolVersion'' (m ''ProtocolVersion'')) (\<lambda>p.
       bindR (bindR (json_list ''Addresses'' (m ''Addresses'')) (mapR (\<lambda>x. json_string ''Addresses'' (Some x)))) (\<lambda>as.
         Inr \<lparr>ni_ID = i, ni_AgentVersion = a, ni_ProtocolVersion = p, ni_Addresses = as\<rparr>)))))"

section \<open>The notifier\<close>

record BlobReference =
  ref_VersionedHash :: string
  ref_DataCID :: string
  ref_MetaCID :: string

record Notifier =
  nf_apiURL :: string
  nf_apiKey :: string

definition NewNotifier :: "string \<Rightarrow> string \<Rightarrow> Notifier option" where
  "NewNotifier apiURL apiKey =
     (if apiURL = '''' then None else Some \<lparr>nf_apiURL = strings_TrimRight apiURL (CHR ''/''), nf_apiKey = apiKey\<rparr>)"

text \<open>
  The message to the API: its URL, the \<^verbatim>\<open>Authorization\<close> header if there is a key, and the references. The
  value of the function is the batch that the API registered; marshalling strings does not fail.
\<close>

record notify_message =
  nm_url :: string
  nm_auth :: "string option"
  nm_refs :: "BlobReference list"

record notify_env =
  ne_newRequest :: "string \<Rightarrow> unit res"
  ne_do :: "notify_message \<Rightarrow> int res"

definition NotifyBlobs :: "Notifier option \<Rightarrow> notify_env \<Rightarrow> BlobReference list \<Rightarrow> BlobReference list" where
  "NotifyBlobs n env refs =
     (case n of
        None \<Rightarrow> []
      | Some nf \<Rightarrow>
          if refs = [] then []
          else let msg = \<lparr>nm_url = nf_apiURL nf @ ''/blobs/ipfs-references'',
                          nm_auth = (if nf_apiKey nf = '''' then None else Some (''Bearer '' @ nf_apiKey nf)),
                          nm_refs = refs\<rparr>
               in case bindR (ne_newRequest env (nm_url msg)) (\<lambda>_. ne_do env msg) of
                    Inl _ \<Rightarrow> []
                  | Inr status \<Rightarrow> if 300 \<le> status then [] else refs)"

section \<open>What an upload guarantees\<close>

lemma PutBlock_ok: "fst (PutBlock c env blk) = Inr () \<Longrightarrow> snd (PutBlock c env blk) = [put_request_of c blk]"
  by (auto simp: PutBlock_def Let_def split: sum.splits)

lemma upload_task_fst: "isOk (fst (upload_task lib c env blks i)) \<longleftrightarrow> isOk (fst (PutBlock c (env i) (blks ! i)))"
  by (simp add: upload_task_def split: prod.splits)

lemma upload_task_snd: "snd (upload_task lib c env blks i) = snd (PutBlock c (env i) (blks ! i))"
  by (simp add: upload_task_def split: prod.splits)

lemma first_error_ok: "first_error rs = Inr () \<longleftrightarrow> (\<forall>r \<in> set rs. isOk r)"
  by (induction rs rule: first_error.induct) auto

lemma concat_singletons: "(\<And>x. x \<in> set xs \<Longrightarrow> f x = [g x]) \<Longrightarrow> concat (map f xs) = map g xs"
  by (induction xs) auto

lemma isOk_unit: "isOk (r :: unit res) \<longleftrightarrow> r = Inr ()"
  by (cases r) auto

lemma PutBlockstore_accepts:
  assumes "mset order = mset [0..<length (Mem_All bs)]"
  shows "(fst (PutBlockstore lib c env order bs) = Inr () \<longleftrightarrow>
            (\<forall>i < length (Mem_All bs). fst (PutBlock c (env i) (Mem_All bs ! i)) = Inr ())) \<and>
         (fst (PutBlockstore lib c env order bs) = Inr () \<longrightarrow>
            mset (snd (PutBlockstore lib c env order bs)) = mset (map (put_request_of c) (Mem_All bs)))"
proof -
  have set: "set order = {..<length (Mem_All bs)}"
    using assms by (metis atLeast_upt set_mset_mset)
  have ok: "fst (PutBlockstore lib c env order bs) = Inr () \<longleftrightarrow>
            (\<forall>i < length (Mem_All bs). fst (PutBlock c (env i) (Mem_All bs ! i)) = Inr ())"
  proof (cases "Mem_All bs = []")
    case False
    then have "fst (PutBlockstore lib c env order bs) = Inr () \<longleftrightarrow>
        (\<forall>i \<in> set order. isOk (fst (upload_task lib c env (Mem_All bs) i)))"
      by (simp add: PutBlockstore_def Let_def first_error_ok)
    then have "fst (PutBlockstore lib c env order bs) = Inr () \<longleftrightarrow>
        (\<forall>i \<in> {..<length (Mem_All bs)}. isOk (fst (PutBlock c (env i) (Mem_All bs ! i))))"
      by (simp only: upload_task_fst set)
    then show ?thesis by (simp add: isOk_unit Ball_def)
  qed (simp add: PutBlockstore_def)
  have "mset (snd (PutBlockstore lib c env order bs)) = mset (map (put_request_of c) (Mem_All bs))"
    if all: "\<forall>i < length (Mem_All bs). fst (PutBlock c (env i) (Mem_All bs ! i)) = Inr ()"
  proof -
    have "concat (map (snd \<circ> upload_task lib c env (Mem_All bs)) order) =
          map (\<lambda>i. put_request_of c (Mem_All bs ! i)) order"
      by (rule concat_singletons) (use all set in \<open>auto simp: upload_task_snd PutBlock_ok\<close>)
    moreover have "mset (map (\<lambda>i. put_request_of c (Mem_All bs ! i)) order) =
          mset (map (\<lambda>i. put_request_of c (Mem_All bs ! i)) [0..<length (Mem_All bs)])"
      using assms by (metis mset_map)
    moreover have "map (\<lambda>i. put_request_of c (Mem_All bs ! i)) [0..<length (Mem_All bs)] =
          map (put_request_of c) (Mem_All bs)"
      by (rule nth_equalityI) simp_all
    ultimately show ?thesis by (simp add: PutBlockstore_def Let_def)
  qed
  with ok show ?thesis by blast
qed

text \<open>
  \<^verbatim>\<open>PutBlockstore\<close> returns no error exactly when the node accepted the request of every block of
  the store, in whatever order the concurrent uploads finish; and then the requests that the node accepted are
  those of the blocks of the store, each once, with the block's codec, hash function, hash length and bytes.
\<close>

theorem PutBlockstore_complete:
  assumes "mset order = mset [0..<length (Mem_All bs)]"
  shows "(fst (PutBlockstore lib c env order bs) = Inr () \<longleftrightarrow>
            (\<forall>i < length (Mem_All bs). fst (PutBlock c (env i) (Mem_All bs ! i)) = Inr ())) \<and>
         (fst (PutBlockstore lib c env order bs) = Inr () \<longrightarrow>
            mset (snd (PutBlockstore lib c env order bs)) = mset (map (put_request_of c) (Mem_All bs)))"
  by (rule PutBlockstore_accepts [OF assms])

definition demo_block :: "bytes \<Rightarrow> block" where
  "demo_block d = \<lparr>blkCid = Cid \<lparr>pfVersion = 1, pfCodec = codecRaw, pfMhType = 0x12, pfMhLength = 32\<rparr> d, blkData = d\<rparr>"

definition demo_http :: http_env where
  "demo_http = \<lparr>he_newRequest = (\<lambda>_. Inr ()), he_do = (\<lambda>_. Inr \<lparr>ar_status = 200, ar_text = '''', ar_data = Inr [], ar_docs = []\<rparr>)\<rparr>"

definition demo_mem :: MemBlockstore where
  "demo_mem = \<lparr>mbs_blocks = map (\<lambda>d. (blkCid (demo_block d), demo_block d)) [[1], [2]]\<rparr>"

lemma length_demo_mem: "length (Mem_All demo_mem) = 2"
  by (simp add: demo_mem_def Mem_All_def)

lemma demo_http_put: "fst (PutBlock c demo_http b) = Inr ()"
  by (simp add: PutBlock_def send_ok_def send_def demo_http_def Let_def)

theorem PutBlockstore_complete_witness:
  "mset (snd (PutBlockstore demo_lib (NewIpfsClient ''/ip4/127.0.0.1/tcp/5001'' 0 True 4) (\<lambda>i. demo_http) [1, 0] demo_mem)) =
   mset (map (put_request_of (NewIpfsClient ''/ip4/127.0.0.1/tcp/5001'' 0 True 4)) [demo_block [1], demo_block [2]])"
proof -
  have "mset [1::nat, 0] = mset [0..<length (Mem_All demo_mem)]"
    by (simp add: length_demo_mem numeral_2_eq_2)
  from PutBlockstore_complete [OF this, of demo_lib "NewIpfsClient ''/ip4/127.0.0.1/tcp/5001'' 0 True 4" "\<lambda>i. demo_http"]
  show ?thesis by (simp add: demo_http_put demo_mem_def Mem_All_def)
qed

text \<open>
  Fetched blocks: after a successful \<^verbatim>\<open>GetBlocks\<close> every requested CID is in the store, and what was there
  under other CIDs has not changed. The client takes the node's word for the bytes.
\<close>

lemma Mem_Put_get: "Mem_Put m b = Inr m' \<Longrightarrow> mem_abs m' = (mem_abs m)(blkCid b \<mapsto> b)"
  by (auto simp: Mem_Put_def mem_abs_def update_conv')

lemma GetBlock_cid: "block_doc lib \<Longrightarrow> GetBlock lib c env i = Inr b \<Longrightarrow> blkCid b = i"
  by (auto simp: GetBlock_def block_doc_def bindR_eq_Inr)

lemma GetBlocks_keeps:
  "block_doc lib \<Longrightarrow> i \<notin> set ids \<Longrightarrow> mem_abs (snd (GetBlocks lib c env bs ids)) i = mem_abs bs i"
proof (induction ids arbitrary: bs)
  case (Cons a ids)
  then show ?case
    by (auto split: sum.splits simp: Mem_Put_get GetBlock_cid)
qed simp

text \<open>
  After \<^verbatim>\<open>GetBlocks\<close> has returned without an error, the store holds a block for every CID asked
  for, namely one with the bytes that the node sent for it, and blocks under other CIDs are as they were.
\<close>

theorem GetBlocks_fetches:
  assumes "block_doc lib" and "fst (GetBlocks lib c env bs ids) = Inr ()"
  shows "\<forall>i. mem_abs (snd (GetBlocks lib c env bs ids)) i =
           (if i \<in> set ids then (case GetBlock lib c env i of Inl _ \<Rightarrow> None | Inr b \<Rightarrow> Some b) else mem_abs bs i)"
  using assms(2)
proof (induction ids arbitrary: bs)
  case (Cons a ids)
  from Cons.prems obtain b m where b: "GetBlock lib c env a = Inr b" and m: "Mem_Put bs b = Inr m"
    and rest: "fst (GetBlocks lib c env m ids) = Inr ()"
    by (auto split: sum.splits)
  have eq: "GetBlocks lib c env bs (a # ids) = GetBlocks lib c env m ids" using b m by simp
  show ?case
    using Cons.IH [OF rest] GetBlock_cid [OF assms(1) b] b unfolding eq
    by (auto simp: Mem_Put_get [OF m])
qed simp

definition demo_node :: http_env where
  "demo_node = \<lparr>he_newRequest = (\<lambda>_. Inr ()), he_do = (\<lambda>_. Inr \<lparr>ar_status = 200, ar_text = '''', ar_data = Inr [7], ar_docs = []\<rparr>)\<rparr>"

lemma demo_node_get: "GetBlock demo_lib c demo_node i = Inr \<lparr>blkCid = i, blkData = [7]\<rparr>"
  by (simp add: GetBlock_def send_ok_def send_def demo_node_def demo_lib_def)

theorem GetBlocks_fetches_witness:
  "mem_abs (snd (GetBlocks demo_lib (NewIpfsClient ''http://ipfs:5001/'' 0 True 1) demo_node NewMemBlockstore [blkCid (demo_block [7])]))
     (blkCid (demo_block [7])) = Some \<lparr>blkCid = blkCid (demo_block [7]), blkData = [7]\<rparr>"
proof -
  have "fst (GetBlocks demo_lib (NewIpfsClient ''http://ipfs:5001/'' 0 True 1) demo_node NewMemBlockstore [blkCid (demo_block [7])]) = Inr ()"
    by (simp add: demo_node_get Mem_Put_def)
  from GetBlocks_fetches [OF demo_lib_doc(2) this] show ?thesis by (simp add: demo_node_get)
qed

end
