(* ===== verification/Generator.thy ===== *)
theory Generator
  imports Network ElClient Config DbQueries Ipfs
begin

text \<open>
  \<^verbatim>\<open>generator/generator.go\<close>: the orchestrator that fetches an epoch, builds its nodes, uploads them,
  writes the database, moves the cursors and rebuilds the network root. Everything that the operations change
  is the record \<open>world\<close>: the tables, the state file, the blocks and pins on the IPFS node, the references
  registered with blobscan, the beacon client. What the outside does is the record \<open>outside\<close>, whose answers
  depend on the number of the interaction, so that a repeated request can be answered differently.
  Metrics and log lines are left out; they feed nothing back.
\<close>

section \<open>State and outside\<close>

record Generator =
  gn_cfg :: Config
  gn_beacon :: bool
  gn_el :: bool
  gn_ipfs :: "ipfsClient option"
  gn_db :: bool
  gn_notifier :: "Notifier option"
  gn_genesisTime :: gotime
  gn_slotsPerEpoch :: uint64
  gn_secondsPerSlot :: uint64

record world =
  w_tables :: tables
  w_files :: "Manager \<times> files"
  w_node :: "put_request list"
  w_pins :: "cid list"
  w_refs :: "BlobReference list"
  w_beacon :: Client
  w_tick :: nat

text \<open>
  The interactions: statements of the database (\<open>o_db\<close>) and of the state file (\<open>o_files\<close>) fail or not;
  requests to the beacon node (\<open>o_get\<close>) and the IPFS node (\<open>o_http\<close>, and per block of an upload \<open>o_upload\<close>)
  and to blobscan (\<open>o_notify\<close>) are answered; an epoch fetch gets sidecars per slot (\<open>o_sidecars\<close>) and
  execution-layer data (\<open>o_el\<close>); concurrent tasks finish in some order (\<open>o_slotOrder\<close>, \<open>o_blobOrder\<close>,
  \<open>o_uploadOrder\<close>); the context is cancelled or not (\<open>o_canceled\<close>).
\<close>

record outside =
  o_lib :: ipld_lib
  o_sha256 :: "bytes \<Rightarrow> bytes"
  o_connect :: "nat \<Rightarrow> unit res"
  o_db :: "nat \<Rightarrow> faults"
  o_files :: "nat \<Rightarrow> file_faults"
  o_get :: "nat \<Rightarrow> get_env"
  o_http :: "nat \<Rightarrow> http_env"
  o_upload :: "nat \<Rightarrow> nat \<Rightarrow> http_env"
  o_uploadOrder :: "nat \<Rightarrow> nat list"
  o_notify :: "nat \<Rightarrow> notify_env"
  o_sidecars :: "nat \<Rightarrow> uint64 \<Rightarrow> BlobSidecar list res"
  o_el :: "nat \<Rightarrow> nat \<Rightarrow> string \<Rightarrow> string \<Rightarrow> ELBlobData res"
  o_slotOrder :: "nat \<Rightarrow> nat list"
  o_blobOrder :: "nat \<Rightarrow> nat list"
  o_canceled :: "nat \<Rightarrow> bool"

section \<open>Programs on the world\<close>

type_synonym 'a prog = "world \<Rightarrow> 'a res \<times> world"

definition returnP :: "'a \<Rightarrow> 'a prog" where
  "returnP a w = (Inr a, w)"

definition failP :: "error \<Rightarrow> 'a prog" where
  "failP e w = (Inl e, w)"

definition liftP :: "'a res \<Rightarrow> 'a prog" where
  "liftP r w = (r, w)"

definition bindP :: "'a prog \<Rightarrow> ('a \<Rightarrow> 'b prog) \<Rightarrow> 'b prog" where
  "bindP m f w = (case m w of (Inl e, w') \<Rightarrow> (Inl e, w') | (Inr a, w') \<Rightarrow> f a w')"

definition wrapP :: "string \<Rightarrow> 'a prog \<Rightarrow> 'a prog" where
  "wrapP s m w = (case m w of (r, w') \<Rightarrow> (wrapR s r, w'))"

text \<open>
  \<open>tryP\<close> hands the error of a call to the code that looks at it; a panic is not an error value and goes on.
\<close>

definition isPanic :: "error \<Rightarrow> bool" where
  "isPanic e \<longleftrightarrow> (case e of GoPanic _ \<Rightarrow> True | _ \<Rightarrow> False)"

definition tryP :: "'a prog \<Rightarrow> 'a res prog" where
  "tryP m w = (case m w of (Inl e, w') \<Rightarrow> if isPanic e then (Inl e, w') else (Inr (Inl e), w') | (Inr a, w') \<Rightarrow> (Inr (Inr a), w'))"

definition logP :: "unit prog \<Rightarrow> unit prog" where
  "logP m = bindP (tryP m) (\<lambda>_. returnP ())"

text \<open>One interaction: the answer with the current number.\<close>

definition ask :: "(nat \<Rightarrow> 'a) \<Rightarrow> 'a prog" where
  "ask f w = (Inr (f (w_tick w)), w\<lparr>w_tick := Suc (w_tick w)\<rparr>)"

definition db_read :: "outside \<Rightarrow> (faults \<Rightarrow> tables \<Rightarrow> 'a res) \<Rightarrow> 'a prog" where
  "db_read env rd = bindP (ask (o_db env)) (\<lambda>flt w. (rd flt (w_tables w), w))"

definition db_write :: "outside \<Rightarrow> (faults \<Rightarrow> tables \<Rightarrow> unit res \<times> tables) \<Rightarrow> unit prog" where
  "db_write env wr = bindP (ask (o_db env)) (\<lambda>flt w. case wr flt (w_tables w) of (r, t) \<Rightarrow> (r, w\<lparr>w_tables := t\<rparr>))"

definition file_write :: "outside \<Rightarrow> (file_faults \<Rightarrow> Manager \<times> files \<Rightarrow> unit res \<times> (Manager \<times> files)) \<Rightarrow> unit prog" where
  "file_write env wr = bindP (ask (o_files env)) (\<lambda>flt w. case wr flt (w_files w) of (r, s) \<Rightarrow> (r, w\<lparr>w_files := s\<rparr>))"

definition g_network :: "Generator \<Rightarrow> string" where
  "g_network g = nc_Name (cf_Network (gn_cfg g))"

text \<open>The field \<^verbatim>\<open>state\<close>: the database when there is one, otherwise the file manager.\<close>

definition state_GetLastProcessedEpoch :: "outside \<Rightarrow> Generator \<Rightarrow> uint64 prog" where
  "state_GetLastProcessedEpoch env g =
     (if gn_db g then db_read env (\<lambda>flt. DB_GetLastProcessedEpoch flt (g_network g))
      else (\<lambda>w. (Mgr_GetLastProcessedEpoch (w_files w), w)))"

definition state_SetLastProcessedEpoch :: "outside \<Rightarrow> Generator \<Rightarrow> uint64 \<Rightarrow> unit prog" where
  "state_SetLastProcessedEpoch env g epoch =
     (if gn_db g then db_write env (\<lambda>flt t. DB_SetLastProcessedEpoch flt (g_network g) t epoch)
      else file_write env (\<lambda>flt s. Mgr_SetLastProcessedEpoch flt s epoch))"

definition state_GetBackfillCursor :: "outside \<Rightarrow> Generator \<Rightarrow> uint64 prog" where
  "state_GetBackfillCursor env g =
     (if gn_db g then db_read env (\<lambda>flt. DB_GetBackfillCursor flt (g_network g))
      else (\<lambda>w. (Mgr_GetBackfillCursor (w_files w), w)))"

definition state_SetBackfillCursor :: "outside \<Rightarrow> Generator \<Rightarrow> uint64 \<Rightarrow> unit prog" where
  "state_SetBackfillCursor env g epoch =
     (if gn_db g then db_write env (\<lambda>flt t. DB_SetBackfillCursor flt (g_network g) t epoch)
      else file_write env (\<lambda>flt s. Mgr_SetBackfillCursor flt s epoch))"

text \<open>Calls of the clients. Calling a method on a nil client is a panic.\<close>

definition nilPanic :: error where
  "nilPanic = GoPanic ''invalid memory address or nil pointer dereference''"

definition call_PutBlockstore :: "outside \<Rightarrow> Generator \<Rightarrow> MemBlockstore \<Rightarrow> unit prog" where
  "call_PutBlockstore env g bs =
     (case gn_ipfs g of
        None \<Rightarrow> failP nilPanic
      | Some c \<Rightarrow>
          bindP (ask (\<lambda>n. (o_upload env n, o_uploadOrder env n))) (\<lambda>(up, order) w.
            case PutBlockstore (o_lib env) c up order bs of
              (r, accepted) \<Rightarrow> (r, w\<lparr>w_node := w_node w @ accepted\<rparr>)))"

definition call_VerifyLocal :: "outside \<Rightarrow> Generator \<Rightarrow> cid \<Rightarrow> unit prog" where
  "call_VerifyLocal env g rootCID =
     (case gn_ipfs g of
        None \<Rightarrow> failP nilPanic
      | Some c \<Rightarrow> bindP (ask (o_http env)) (\<lambda>he. liftP (VerifyLocal (o_lib env) c he rootCID)))"

definition call_Pin :: "outside \<Rightarrow> Generator \<Rightarrow> cid \<Rightarrow> unit prog" where
  "call_Pin env g rootCID =
     (case gn_ipfs g of
        None \<Rightarrow> failP nilPanic
      | Some c \<Rightarrow>
          bindP (ask (o_http env)) (\<lambda>he w.
            case Pin (o_lib env) c he rootCID of
              Inl e \<Rightarrow> (Inl e, w)
            | Inr u \<Rightarrow> (Inr u, w\<lparr>w_pins := w_pins w @ [rootCID]\<rparr>)))"

definition call_NotifyBlobs :: "outside \<Rightarrow> Generator \<Rightarrow> BlobReference list \<Rightarrow> unit prog" where
  "call_NotifyBlobs env g refs =
     bindP (ask (o_notify env)) (\<lambda>ne w. (Inr (), w\<lparr>w_refs := w_refs w @ NotifyBlobs (gn_notifier g) ne refs\<rparr>))"

text \<open>
  The slots of an epoch are fetched concurrently; \<open>sc\<close> is what \<^verbatim>\<open>GetBlobSidecars\<close> returned for each slot
  after its retries. Its requests also count in the client's request counters and its back-off after a 429
  answer; these only pace the requests and feed the statistics, no result depends on them, and they are
  left as they are here (\<open>GetFinalityCheckpoints\<close> below threads them).
\<close>

definition call_FetchEpochInput :: "outside \<Rightarrow> Generator \<Rightarrow> bool \<Rightarrow> uint64 \<Rightarrow> EpochInput prog" where
  "call_FetchEpochInput env g el epoch =
     (if \<not> gn_beacon g then failP nilPanic
      else bindP (ask (\<lambda>n. (o_sidecars env n, o_el env n, o_slotOrder env n))) (\<lambda>(sc, eld, order) w.
             (FetchEpochInput (o_sha256 env) (w_beacon w) (\<lambda>i. if el then Some (eld i) else None) sc order epoch, w)))"

definition call_GetFinalityCheckpoints :: "outside \<Rightarrow> FinalityCheckpoints prog" where
  "call_GetFinalityCheckpoints env =
     bindP (ask (o_get env)) (\<lambda>ge w.
       case GetFinalityCheckpoints (w_beacon w) ge ''head'' of (r, c) \<Rightarrow> (r, w\<lparr>w_beacon := c\<rparr>))"

definition ctx_canceled :: "outside \<Rightarrow> bool prog" where
  "ctx_canceled env = ask (o_canceled env)"

section \<open>Building an epoch\<close>

record builtEpoch =
  be_epoch :: uint64
  be_epochInp :: EpochInput
  be_blobResults :: "BlobResult list"
  be_epochResult :: EpochResult
  be_epochBS :: "MemBlockstore option"
  be_fromCache :: bool
  be_empty :: bool
  be_skip :: bool

definition newBuiltEpoch :: "uint64 \<Rightarrow> builtEpoch" where
  "newBuiltEpoch epoch =
     \<lparr>be_epoch = epoch, be_epochInp = zeroEpochInput, be_blobResults = [], be_epochResult = zeroEpochResult,
      be_epochBS = None, be_fromCache = False, be_empty = False, be_skip = False\<rparr>"

text \<open>The link system's store: an in-memory one when blocks are uploaded, otherwise the null store.\<close>

definition fresh_backend :: "Generator \<Rightarrow> blockstoreBackend" where
  "fresh_backend g = (case gn_ipfs g of None \<Rightarrow> BNull | Some _ \<Rightarrow> BMem NewMemBlockstore)"

fun backend_mem :: "blockstoreBackend \<Rightarrow> MemBlockstore option" where
  "backend_mem (BMem m) = Some m"
| "backend_mem BNull = None"

text \<open>
  \<^verbatim>\<open>ReconstructFromDB\<close>: the loop over the rows.
\<close>

definition reconstruct_blob :: "uint64 \<Rightarrow> BlobRecord \<Rightarrow> BlobInput" where
  "reconstruct_blob epoch r =
     \<lparr>bi_Commitment = bd_Commitment r, bi_VersionedHash = bd_VersionedHash r, bi_TxHash = bd_TxHash r,
      bi_BlockNumber = bd_BlockNumber r, bi_BlockHash = bd_BlockHash r, bi_Slot = bd_Slot r, bi_Epoch = epoch,
      bi_Index = bd_BlobIndex r, bi_Data = [], bi_Size = bd_SizeBytes r\<rparr>"

definition reconstruct_result :: "ipld_lib \<Rightarrow> BlobRecord \<Rightarrow> BlobResult res" where
  "reconstruct_result lib r =
     bindR (wrapR (''decode data cid '' @ go_quote (bd_DataCID r)) (cid_Decode lib (bd_DataCID r))) (\<lambda>dataCID.
     bindR (wrapR (''decode meta cid '' @ go_quote (bd_MetaCID r)) (cid_Decode lib (bd_MetaCID r))) (\<lambda>metaCID.
       Inr \<lparr>br_Commitment = bd_Commitment r, br_DataCID = dataCID, br_MetaCID = metaCID, br_SizeBytes = bd_SizeBytes r\<rparr>))"

definition ReconstructFromDB ::
  "ipld_lib \<Rightarrow> uint64 \<Rightarrow> BlobRecord list \<Rightarrow> uint64 \<Rightarrow> (EpochInput \<times> BlobResult list) res" where
  "ReconstructFromDB lib epoch records slotsPerEpoch =
     bindR (mapR (reconstruct_result lib) records) (\<lambda>blobResults.
       Inr (\<lparr>ei_Epoch = epoch, ei_Slot = EpochToFirstSlot epoch slotsPerEpoch,
             ei_Blobs = map (reconstruct_blob epoch) records\<rparr>, blobResults))"

text \<open>
  \<^verbatim>\<open>processEpochBlobs\<close>: a pool of workers takes the blobs; \<open>order\<close> is the order in which the results
  arrive, and the receiving loop stops at the first error. The log line cuts 16 bytes off the commitment, which
  panics on a shorter one. Without a worker (a negative configured number) no result arrives, and the
  zero results are returned.
\<close>

fun receive_results ::
  "ipld_lib \<Rightarrow> BlobInput list \<Rightarrow> nat list \<Rightarrow> BlobResult list \<Rightarrow> blockstoreBackend \<Rightarrow>
   (BlobResult list \<times> blockstoreBackend) res" where
  "receive_results lib blobs [] results bs = Inr (results, bs)"
| "receive_results lib blobs (i # order) results bs =
     bindR (ProcessBlob lib bs (blobs ! i)) (\<lambda>(r, bs').
       if length (bi_Commitment (blobs ! i)) < 16 then Inl (GoPanic ''slice bounds out of range'')
       else receive_results lib blobs order (results[i := r]) bs')"

definition processEpochBlobs ::
  "outside \<Rightarrow> Generator \<Rightarrow> EpochInput \<Rightarrow> blockstoreBackend \<Rightarrow> (BlobResult list \<times> blockstoreBackend) prog" where
  "processEpochBlobs env g inp bs =
     (let n = length (ei_Blobs inp); workers = sint (gc_Workers (cf_Generator (gn_cfg g)));
          workers = (if int n < workers then int n else workers)
      in bindP (ask (o_blobOrder env)) (\<lambda>order.
           liftP (receive_results (o_lib env) (ei_Blobs inp) (if workers \<le> 0 then [] else order)
                    (replicate n zeroBlobResult) bs)))"

definition g_BuildEpochNode ::
  "outside \<Rightarrow> Generator \<Rightarrow> blockstoreBackend \<Rightarrow> EpochInput \<Rightarrow> BlobResult list \<Rightarrow> (EpochResult \<times> blockstoreBackend) res" where
  "g_BuildEpochNode env g bs inp results =
     BuildEpochNode (o_lib env) bs inp results (g_network g) (gc_HAMTThreshold (cf_Generator (gn_cfg g)))"

definition buildEpoch :: "outside \<Rightarrow> Generator \<Rightarrow> uint64 \<Rightarrow> builtEpoch prog" where
  "buildEpoch env g epoch =
     (let out = newBuiltEpoch epoch; bs0 = fresh_backend g; n = FormatUint epoch
      in bindP (if gn_db g
                then wrapP (''check cached blobs epoch '' @ n)
                       (db_read env (\<lambda>flt t. GetBlobsByEpoch flt t (g_network g) epoch))
                else returnP []) (\<lambda>cached.
         bindP (if cached \<noteq> []
                then bindP (wrapP (''reconstruct epoch '' @ n @ '' from DB'')
                              (liftP (ReconstructFromDB (o_lib env) epoch cached (gn_slotsPerEpoch g))))
                       (\<lambda>(inp, results). returnP (inp, results, bs0))
                else bindP (wrapP (''fetch epoch '' @ n) (call_FetchEpochInput env g (gn_el g) epoch)) (\<lambda>inp.
                       if ei_Blobs inp = [] then returnP (inp, [], bs0)
                       else bindP (wrapP (''process blobs epoch '' @ n) (processEpochBlobs env g inp bs0))
                              (\<lambda>(results, bs). returnP (inp, results, bs)))) (\<lambda>(inp, results, bs).
         if cached = [] \<and> ei_Blobs inp = [] then returnP (out\<lparr>be_empty := True\<rparr>)
         else bindP (wrapP (''build epoch node '' @ n) (liftP (g_BuildEpochNode env g bs inp results)))
                (\<lambda>(epochResult, bs').
                   returnP (out\<lparr>be_epochInp := inp, be_blobResults := results, be_epochResult := epochResult,
                                be_epochBS := backend_mem bs', be_fromCache := (cached \<noteq> [])\<rparr>)))))"

section \<open>Persisting an epoch\<close>

definition uploadAndPin :: "outside \<Rightarrow> Generator \<Rightarrow> MemBlockstore \<Rightarrow> cid \<Rightarrow> uint64 \<Rightarrow> unit prog" where
  "uploadAndPin env g bs epochCID epoch =
     (if gn_ipfs g = None then returnP ()
      else bindP (wrapP (''upload epoch '' @ FormatUint epoch @ '' to IPFS'') (call_PutBlockstore env g bs)) (\<lambda>_.
             if ic_PinOnAdd (cf_IPFS (gn_cfg g))
             then bindP (tryP (call_VerifyLocal env g epochCID)) (\<lambda>verified.
                    case verified of Inl _ \<Rightarrow> returnP () | Inr _ \<Rightarrow> logP (call_Pin env g epochCID))
             else returnP ()))"

definition g_epochTime :: "Generator \<Rightarrow> uint64 \<Rightarrow> gotime" where
  "g_epochTime g epoch =
     SlotTime (gn_genesisTime g) (EpochToFirstSlot epoch (gn_slotsPerEpoch g)) (gn_secondsPerSlot g)"

definition call_SaveEpoch :: "outside \<Rightarrow> Generator \<Rightarrow> EpochResult \<Rightarrow> goint \<Rightarrow> uint64 \<Rightarrow> unit prog" where
  "call_SaveEpoch env g result blobCount epoch =
     db_write env (\<lambda>flt t. SaveEpoch (o_lib env) flt t (g_network g) result blobCount (g_epochTime g epoch))"

definition call_SaveBlobs :: "outside \<Rightarrow> Generator \<Rightarrow> uint64 \<Rightarrow> BlobInput list \<Rightarrow> BlobResult list \<Rightarrow> unit prog" where
  "call_SaveBlobs env g epoch blobs results =
     db_write env (\<lambda>flt t. SaveBlobs (o_lib env) flt t (g_network g) epoch blobs results (gn_genesisTime g) (gn_secondsPerSlot g))"

text \<open>\<^verbatim>\<open>buildReferences\<close> indexes the results by the position of the blob; fewer results than blobs panic.\<close>

fun buildReferences :: "ipld_lib \<Rightarrow> BlobInput list \<Rightarrow> BlobResult list \<Rightarrow> BlobReference list res" where
  "buildReferences lib [] rs = Inr []"
| "buildReferences lib (b # bs) [] = Inl (GoPanic ''index out of range'')"
| "buildReferences lib (b # bs) (r # rs) =
     bindR (buildReferences lib bs rs) (\<lambda>refs.
       Inr (\<lparr>ref_VersionedHash = bi_VersionedHash b, ref_DataCID = cid_String lib (br_DataCID r),
             ref_MetaCID = cid_String lib (br_MetaCID r)\<rparr> # refs))"

definition persistEpoch :: "outside \<Rightarrow> Generator \<Rightarrow> builtEpoch \<Rightarrow> unit prog" where
  "persistEpoch env g be =
     (let epoch = be_epoch be; n = FormatUint epoch
      in if be_empty be then
           (if \<not> gn_db g then returnP ()
            else bindP (wrapP (''build empty epoch node '' @ n)
                          (liftP (g_BuildEpochNode env g (fresh_backend g)
                             \<lparr>ei_Epoch = epoch, ei_Slot = EpochToFirstSlot epoch (gn_slotsPerEpoch g), ei_Blobs = []\<rparr> [])))
                   (\<lambda>(epochResult, bs).
                 bindP (case backend_mem bs of
                          None \<Rightarrow> returnP ()
                        | Some emptyBS \<Rightarrow> uploadAndPin env g emptyBS (er_CID epochResult) epoch) (\<lambda>_.
                 wrapP (''save empty epoch '' @ n @ '' to db'') (call_SaveEpoch env g epochResult 0 epoch))))
         else
           bindP (case be_epochBS be of
                    None \<Rightarrow> returnP ()
                  | Some bs \<Rightarrow> uploadAndPin env g bs (er_CID (be_epochResult be)) epoch) (\<lambda>_.
           bindP (if gn_db g
                  then bindP (wrapP (''save epoch '' @ n @ '' to db'')
                                (call_SaveEpoch env g (be_epochResult be) (go_len (be_blobResults be)) epoch)) (\<lambda>_.
                       if be_fromCache be then returnP ()
                       else wrapP (''save blobs epoch '' @ n @ '' to db'')
                              (call_SaveBlobs env g epoch (ei_Blobs (be_epochInp be)) (be_blobResults be)))
                  else returnP ()) (\<lambda>_.
           if be_fromCache be then returnP ()
           else bindP (liftP (buildReferences (o_lib env) (ei_Blobs (be_epochInp be)) (be_blobResults be)))
                  (call_NotifyBlobs env g))))"

definition processEpoch :: "outside \<Rightarrow> Generator \<Rightarrow> uint64 \<Rightarrow> unit prog" where
  "processEpoch env g epoch =
     (if gn_ipfs g = None \<and> \<not> gn_db g then returnP ()
      else bindP (buildEpoch env g epoch) (persistEpoch env g))"

section \<open>The network root\<close>

definition root_epoch :: "ipld_lib \<Rightarrow> EpochRecord \<Rightarrow> EpochResult res" where
  "root_epoch lib r =
     bindR (wrapR (''decode epoch cid '' @ go_quote (rec_CID r)) (cid_Decode lib (rec_CID r))) (\<lambda>c.
       Inr \<lparr>er_Epoch = rec_Epoch r, er_CID = c, er_CARPath = '''', er_ApproximateSizeBytes = rec_SizeBytes r\<rparr>)"

definition rebuildNetworkRoot :: "outside \<Rightarrow> Generator \<Rightarrow> unit prog" where
  "rebuildNetworkRoot env g =
     (if \<not> gn_db g \<or> gn_ipfs g = None then returnP ()
      else bindP (wrapP ''load epochs for network root'' (db_read env (\<lambda>flt t. GetAllEpochs flt t (g_network g)))) (\<lambda>records.
           bindP (liftP (mapR (root_epoch (o_lib env)) records)) (\<lambda>epochResults.
           bindP (wrapP ''build network root''
                    (liftP (BuildNetworkRoot (o_lib env) (BMem NewMemBlockstore) (g_network g) epochResults
                              (gc_NetworkRootPageSize (cf_Generator (gn_cfg g)))))) (\<lambda>(rootResult, bs).
           case backend_mem bs of
             None \<Rightarrow> returnP ()
           | Some rootBS \<Rightarrow> wrapP ''upload network root to IPFS'' (call_PutBlockstore env g rootBS)))))"

section \<open>The live loop\<close>

text \<open>
  The epochs of \<^verbatim>\<open>for epoch := lo; epoch <= hi; epoch++\<close> for \<open>lo \<le> hi\<close> below the largest
  \<^verbatim>\<open>uint64\<close> (with \<open>hi\<close> the largest one the counter would wrap around and the loop not end).
\<close>

definition epoch_range :: "uint64 \<Rightarrow> uint64 \<Rightarrow> uint64 list" where
  "epoch_range lo hi = (if hi < lo then [] else map (\<lambda>i. lo + word_of_nat i) [0..<Suc (unat (hi - lo))])"

fun live_epochs :: "outside \<Rightarrow> Generator \<Rightarrow> uint64 list \<Rightarrow> unit prog" where
  "live_epochs env g [] = returnP ()"
| "live_epochs env g (epoch # epochs) =
     bindP (wrapP (''generator: process epoch '' @ FormatUint epoch) (processEpoch env g epoch)) (\<lambda>_.
     bindP (wrapP (''generator: set live cursor '' @ FormatUint epoch) (state_SetLastProcessedEpoch env g epoch)) (\<lambda>_.
       live_epochs env g epochs))"

definition live_start :: "Generator \<Rightarrow> uint64 \<Rightarrow> uint64" where
  "live_start g liveCursor = (if 0 < liveCursor then liveCursor + 1 else gc_StartEpoch (cf_Generator (gn_cfg g)))"

definition processLiveTick :: "outside \<Rightarrow> Generator \<Rightarrow> unit prog" where
  "processLiveTick env g =
     bindP (wrapP ''generator: get finality checkpoints'' (call_GetFinalityCheckpoints env)) (\<lambda>checkpoints.
     bindP (wrapP ''generator: get live cursor'' (state_GetLastProcessedEpoch env g)) (\<lambda>liveCursor.
       let startEpoch = live_start g liveCursor; finalizedEpoch = fc_FinalizedEpoch checkpoints
       in if finalizedEpoch < startEpoch then returnP ()
          else bindP (live_epochs env g (epoch_range startEpoch finalizedEpoch)) (\<lambda>_.
                 logP (rebuildNetworkRoot env g))))"

text \<open>
  \<^verbatim>\<open>runLive\<close> and \<^verbatim>\<open>runSequential\<close> differ in their log lines. The ticker fires \<open>ticks\<close> times before the
  context is cancelled.
\<close>

fun live_ticks :: "outside \<Rightarrow> Generator \<Rightarrow> nat \<Rightarrow> unit prog" where
  "live_ticks env g 0 = failP ErrCanceled"
| "live_ticks env g (Suc ticks) =
     bindP (tryP (processLiveTick env g)) (\<lambda>r.
       case r of
         Inl e \<Rightarrow> if errors_Is e ErrInsufficientCustody then failP e else live_ticks env g ticks
       | Inr _ \<Rightarrow> live_ticks env g ticks)"

definition runLive :: "outside \<Rightarrow> Generator \<Rightarrow> nat \<Rightarrow> unit prog" where
  "runLive env g ticks = live_ticks env g (Suc ticks)"

definition runSequential :: "outside \<Rightarrow> Generator \<Rightarrow> nat \<Rightarrow> unit prog" where
  "runSequential env g ticks = live_ticks env g (Suc ticks)"

text \<open>
  \<^verbatim>\<open>Run\<close> up to its blocking call: whether it runs sequentially, or which range of epochs, if any, it hands
  to the backfill goroutine beside the live loop.
\<close>

datatype run_plan = Sequential | Parallel "(uint64 \<times> uint64) option"

definition backfill_start :: "Generator \<Rightarrow> uint64 \<Rightarrow> uint64" where
  "backfill_start g backfillCursor =
     (if 0 < backfillCursor then backfillCursor + 1 else gc_StartEpoch (cf_Generator (gn_cfg g)))"

definition Run_plan :: "outside \<Rightarrow> Generator \<Rightarrow> run_plan prog" where
  "Run_plan env g =
     (if \<not> gn_beacon g
      then failP (Errorf ''generator: beacon_rpc is required for the pull loop; use the push API instead'')
      else if \<not> gn_db g then returnP Sequential
      else bindP (wrapP ''generator: get initial finality checkpoints'' (call_GetFinalityCheckpoints env)) (\<lambda>checkpoints.
           bindP (wrapP ''generator: get live cursor'' (state_GetLastProcessedEpoch env g)) (\<lambda>liveCursor0.
           bindP (wrapP ''generator: get backfill cursor'' (state_GetBackfillCursor env g)) (\<lambda>backfillCursor.
             let currentFinalized = fc_FinalizedEpoch checkpoints; backfillStart = backfill_start g backfillCursor
             in bindP (if backfillStart < currentFinalized
                       then bindP (wrapP ''generator: set live cursor''
                                     (state_SetLastProcessedEpoch env g (currentFinalized - 1)))
                              (\<lambda>_. returnP (currentFinalized - 1))
                       else returnP liveCursor0) (\<lambda>liveCursor.
                  returnP (Parallel (if backfillStart < liveCursor then Some (backfillStart, liveCursor - 1) else None)))))))"

definition ProcessSingleEpoch :: "outside \<Rightarrow> Generator \<Rightarrow> uint64 \<Rightarrow> unit prog" where
  "ProcessSingleEpoch env g epoch =
     bindP (processEpoch env g epoch) (\<lambda>_.
     bindP (state_SetLastProcessedEpoch env g epoch) (\<lambda>_.
       logP (rebuildNetworkRoot env g)))"

section \<open>The push API\<close>

record BlobPushRequest =
  pq_Commitment :: string
  pq_VersionedHash :: string
  pq_Data :: string
  pq_TxHash :: string
  pq_BlockNumber :: uint64
  pq_BlockHash :: string
  pq_Slot :: uint64
  pq_Epoch :: uint64
  pq_Index :: goint
  pq_Finalize :: bool

record BlobPushResponse =
  ps_DataCID :: string
  ps_MetaCID :: string
  ps_Commitment :: string
  ps_Epoch :: uint64
  ps_Finalized :: bool
  ps_EpochCID :: string

definition hexDecode :: "string \<Rightarrow> bytes res" where
  "hexDecode s = hex_DecodeString (strings_TrimPrefix s ''0x'')"

definition ProcessBlobInput :: "outside \<Rightarrow> Generator \<Rightarrow> BlobPushRequest \<Rightarrow> BlobPushResponse prog" where
  "ProcessBlobInput env g req =
     bindP (wrapP ''decode blob data'' (liftP (hexDecode (pq_Data req)))) (\<lambda>rawData.
       let inp = \<lparr>bi_Commitment = pq_Commitment req, bi_VersionedHash = pq_VersionedHash req, bi_TxHash = pq_TxHash req,
                  bi_BlockNumber = pq_BlockNumber req, bi_BlockHash = pq_BlockHash req, bi_Slot = pq_Slot req,
                  bi_Epoch = pq_Epoch req, bi_Index = pq_Index req, bi_Data = rawData, bi_Size = 0\<rparr>
       in bindP (wrapP ''process blob'' (liftP (ProcessBlob (o_lib env) (fresh_backend g) inp))) (\<lambda>(result, bs).
          bindP (case backend_mem bs of
                   None \<Rightarrow> returnP ()
                 | Some blobBS \<Rightarrow> wrapP ''upload blob to ipfs'' (call_PutBlockstore env g blobBS)) (\<lambda>_.
          bindP (if gn_db g then wrapP ''save blob to db'' (call_SaveBlobs env g (pq_Epoch req) [inp] [result]) else returnP ()) (\<lambda>_.
          bindP (call_NotifyBlobs env g [\<lparr>ref_VersionedHash = pq_VersionedHash req,
                    ref_DataCID = cid_String (o_lib env) (br_DataCID result),
                    ref_MetaCID = cid_String (o_lib env) (br_MetaCID result)\<rparr>]) (\<lambda>_.
          returnP \<lparr>ps_DataCID = cid_String (o_lib env) (br_DataCID result), ps_MetaCID = cid_String (o_lib env) (br_MetaCID result),
                   ps_Commitment = br_Commitment result, ps_Epoch = pq_Epoch req, ps_Finalized = False, ps_EpochCID = ''''\<rparr>)))))"

definition finalizeEpochInner :: "outside \<Rightarrow> Generator \<Rightarrow> uint64 \<Rightarrow> cid prog" where
  "finalizeEpochInner env g epoch =
     (let n = FormatUint epoch
      in if \<not> gn_db g
         then failP (Errorf (''finalize epoch '' @ n @ '': DB persistence is disabled (postgres_dsn not set); cannot reconstruct blobs''))
         else
           bindP (wrapP (''load blobs epoch '' @ n) (db_read env (\<lambda>flt t. GetBlobsByEpoch flt t (g_network g) epoch))) (\<lambda>blobs.
           if blobs = [] then failP (Errorf (''no blobs found for epoch '' @ n))
           else
             bindP (wrapP (''reconstruct epoch '' @ n @ '' from DB'')
                      (liftP (ReconstructFromDB (o_lib env) epoch blobs (gn_slotsPerEpoch g)))) (\<lambda>(inp, results).
             bindP (wrapP (''build epoch node '' @ n)
                      (liftP (g_BuildEpochNode env g (BMem NewMemBlockstore) inp results))) (\<lambda>(epochResult, bs).
             bindP (case backend_mem bs of
                      None \<Rightarrow> returnP () | Some epochBS \<Rightarrow> uploadAndPin env g epochBS (er_CID epochResult) epoch) (\<lambda>_.
             bindP (wrapP (''save epoch '' @ n @ '' to db'') (call_SaveEpoch env g epochResult (go_len blobs) epoch)) (\<lambda>_.
             bindP (logP (rebuildNetworkRoot env g)) (\<lambda>_.
             bindP (state_SetLastProcessedEpoch env g epoch) (\<lambda>_.
               returnP (er_CID epochResult)))))))))"

definition FinalizeEpochWithCID :: "outside \<Rightarrow> Generator \<Rightarrow> uint64 \<Rightarrow> string prog" where
  "FinalizeEpochWithCID env g epoch =
     bindP (finalizeEpochInner env g epoch) (\<lambda>c. returnP (cid_String (o_lib env) c))"

definition FinalizeEpoch :: "outside \<Rightarrow> Generator \<Rightarrow> uint64 \<Rightarrow> unit prog" where
  "FinalizeEpoch env g epoch = bindP (finalizeEpochInner env g epoch) (\<lambda>_. returnP ())"

section \<open>Repair and re-upload\<close>

text \<open>One iteration of \<^verbatim>\<open>RepairEpochs\<close>: the error handed to \<^verbatim>\<open>onDone\<close>, or success.\<close>

definition repair_one :: "outside \<Rightarrow> Generator \<Rightarrow> bool \<Rightarrow> uint64 \<Rightarrow> unit prog" where
  "repair_one env g strict epoch =
     (if \<not> gn_db g then failP (Errorf ''DB not configured'')
      else
        bindP (wrapP ''load blobs'' (db_read env (\<lambda>flt t. GetBlobsByEpoch flt t (g_network g) epoch))) (\<lambda>blobs.
        if blobs = [] then failP (Errorf ''no blobs in DB'')
        else
          bindP (wrapP ''reconstruct'' (liftP (ReconstructFromDB (o_lib env) epoch blobs (gn_slotsPerEpoch g)))) (\<lambda>(inp, results).
          bindP (wrapP ''build node'' (liftP (g_BuildEpochNode env g (BMem NewMemBlockstore) inp results))) (\<lambda>(epochResult, bs).
          bindP (wrapP ''ipfs upload''
                   (case backend_mem bs of
                      None \<Rightarrow> returnP () | Some epochBS \<Rightarrow> uploadAndPin env g epochBS (er_CID epochResult) epoch)) (\<lambda>_.
          bindP (if strict \<and> gn_ipfs g \<noteq> None
                 then wrapP (''integrity check failed (DB metadata likely wrong or blob data missing) -- run `backfill-ipfs -from '' @
                              FormatUint epoch @ '' -to '' @ FormatUint epoch @ ''` to re-fetch and self-heal'')
                        (call_VerifyLocal env g (er_CID epochResult))
                 else returnP ()) (\<lambda>_.
          wrapP ''save epoch'' (call_SaveEpoch env g epochResult (go_len blobs) epoch)))))))"

text \<open>The loop, with the outcomes reported to \<^verbatim>\<open>onDone\<close> in order; it stops when the context is cancelled.\<close>

fun repair_loop :: "outside \<Rightarrow> Generator \<Rightarrow> bool \<Rightarrow> uint64 list \<Rightarrow> (uint64 \<times> unit res) list prog" where
  "repair_loop env g strict [] = returnP []"
| "repair_loop env g strict (epoch # epochs) =
     bindP (ctx_canceled env) (\<lambda>canceled.
       if canceled then returnP []
       else bindP (tryP (repair_one env g strict epoch)) (\<lambda>r.
            bindP (repair_loop env g strict epochs) (\<lambda>rest. returnP ((epoch, r) # rest))))"

definition RepairEpochs :: "outside \<Rightarrow> Generator \<Rightarrow> uint64 list \<Rightarrow> bool \<Rightarrow> ((uint64 \<times> unit res) list \<times> nat \<times> nat) prog" where
  "RepairEpochs env g epochs strict =
     bindP (repair_loop env g strict epochs) (\<lambda>outcomes.
       let ok = length (filter (isOk \<circ> snd) outcomes); failed = length outcomes - ok
       in bindP (if 0 < ok then logP (rebuildNetworkRoot env g) else returnP ()) (\<lambda>_.
            returnP (outcomes, ok, failed)))"

text \<open>
  \<^verbatim>\<open>BackfillIPFS\<close>. An upload is retried until it succeeds or the context is cancelled; \<open>retries\<close> is how often
  the context lets it wait for the next attempt. The comparison of CIDs only decides whether the blob rows are
  rewritten.
\<close>

fun upload_retry :: "outside \<Rightarrow> Generator \<Rightarrow> MemBlockstore \<Rightarrow> cid \<Rightarrow> uint64 \<Rightarrow> nat \<Rightarrow> unit prog" where
  "upload_retry env g bs c epoch retries =
     bindP (tryP (uploadAndPin env g bs c epoch)) (\<lambda>r.
       case r of
         Inr _ \<Rightarrow> returnP ()
       | Inl _ \<Rightarrow> (case retries of 0 \<Rightarrow> failP ErrCanceled | Suc k \<Rightarrow> upload_retry env g bs c epoch k))"

definition blob_mismatch :: "ipld_lib \<Rightarrow> BlobRecord list \<Rightarrow> BlobInput \<times> BlobResult \<Rightarrow> bool" where
  "blob_mismatch lib dbBlobs = (\<lambda>(b, r).
     case map_of (rev (map (\<lambda>d. (bd_Commitment d, d)) dbBlobs)) (bi_Commitment b) of
       None \<Rightarrow> True
     | Some dbRec \<Rightarrow> cid_String lib (br_DataCID r) \<noteq> bd_DataCID dbRec \<or> cid_String lib (br_MetaCID r) \<noteq> bd_MetaCID dbRec)"

text \<open>One epoch: \<^term>\<open>True\<close> when it was uploaded, \<^term>\<open>False\<close> when it was skipped.\<close>

definition backfill_ipfs_one :: "outside \<Rightarrow> Generator \<Rightarrow> nat \<Rightarrow> uint64 \<Rightarrow> bool prog" where
  "backfill_ipfs_one env g retries epoch =
     (let n = FormatUint epoch
      in bindP (wrapP (''backfill-ipfs: load blobs epoch '' @ n)
                  (db_read env (\<lambda>flt t. GetBlobsByEpoch flt t (g_network g) epoch))) (\<lambda>dbBlobs.
         if dbBlobs = [] then returnP False
         else
           bindP (tryP (call_FetchEpochInput env g False epoch)) (\<lambda>fetched.
           case fetched of
             Inl _ \<Rightarrow> returnP False
           | Inr inp \<Rightarrow>
               if ei_Blobs inp = [] then returnP False
               else
                 bindP (tryP (processEpochBlobs env g inp (BMem NewMemBlockstore))) (\<lambda>processed.
                 case processed of
                   Inl _ \<Rightarrow> returnP False
                 | Inr (results, bs) \<Rightarrow>
                     let cidMismatch = list_ex (blob_mismatch (o_lib env) dbBlobs) (zip (ei_Blobs inp) results)
                     in bindP (tryP (liftP (g_BuildEpochNode env g bs inp results))) (\<lambda>built.
                        case built of
                          Inl _ \<Rightarrow> returnP False
                        | Inr (epochResult, bs') \<Rightarrow>
                            bindP (case backend_mem bs' of
                                     None \<Rightarrow> returnP ()
                                   | Some epochBS \<Rightarrow> upload_retry env g epochBS (er_CID epochResult) epoch retries) (\<lambda>_.
                            bindP (wrapP (''backfill-ipfs: save epoch '' @ n)
                                     (call_SaveEpoch env g epochResult (go_len results) epoch)) (\<lambda>_.
                            bindP (if cidMismatch
                                   then wrapP (''backfill-ipfs: save blobs epoch '' @ n)
                                          (call_SaveBlobs env g epoch (ei_Blobs inp) results)
                                   else returnP ()) (\<lambda>_.
                            bindP (wrapP (''backfill-ipfs: set cursor '' @ n) (state_SetBackfillCursor env g epoch)) (\<lambda>_.
                              returnP True)))))))))"

fun backfill_ipfs_loop :: "outside \<Rightarrow> Generator \<Rightarrow> nat \<Rightarrow> uint64 list \<Rightarrow> bool list prog" where
  "backfill_ipfs_loop env g retries [] = returnP []"
| "backfill_ipfs_loop env g retries (epoch # epochs) =
     bindP (ctx_canceled env) (\<lambda>canceled.
       if canceled then failP ErrCanceled
       else bindP (backfill_ipfs_one env g retries epoch) (\<lambda>up.
            bindP (backfill_ipfs_loop env g retries epochs) (\<lambda>rest. returnP (up # rest))))"

definition BackfillIPFS :: "outside \<Rightarrow> Generator \<Rightarrow> nat \<Rightarrow> uint64 \<Rightarrow> uint64 \<Rightarrow> unit prog" where
  "BackfillIPFS env g retries fromEpoch toEpoch =
     (if gn_ipfs g = None then failP (Errorf ''backfill-ipfs: IPFS client is not configured (skip_upload=true?)'')
      else if \<not> gn_db g then failP (Errorf ''backfill-ipfs: DB is not configured (postgres_dsn not set)'')
      else if \<not> gn_beacon g then failP (Errorf ''backfill-ipfs: beacon_rpc is required to re-fetch blob data'')
      else if toEpoch < fromEpoch
      then failP (Errorf (''backfill-ipfs: to_epoch ('' @ FormatUint toEpoch @ '') must be >= from_epoch ('' @ FormatUint fromEpoch @ '')''))
      else bindP (backfill_ipfs_loop env g retries (epoch_range fromEpoch toEpoch)) (\<lambda>_.
             logP (rebuildNetworkRoot env g)))"

section \<open>Construction\<close>

text \<open>The network check and the genesis time are only taken from a beacon node that is reached.\<close>

definition New_beacon :: "outside \<Rightarrow> Generator \<Rightarrow> Generator prog" where
  "New_beacon env g =
     bindP (tryP (bindP (ask (o_get env)) (\<lambda>ge w.
              case GetNetworkName (w_beacon w) ge of (r, c) \<Rightarrow> (r, w\<lparr>w_beacon := c\<rparr>)))) (\<lambda>name.
       case name of
         Inl _ \<Rightarrow> returnP g
       | Inr remoteNetwork \<Rightarrow>
           if remoteNetwork \<noteq> g_network g
           then failP (Errorf (''generator: network mismatch: config says '' @ go_quote (g_network g) @ '' but beacon node reports '' @ go_quote remoteNetwork))
           else bindP (tryP (bindP (ask (o_get env)) (\<lambda>ge w.
                         case GetGenesisTime (w_beacon w) ge of (r, c) \<Rightarrow> (r, w\<lparr>w_beacon := c\<rparr>)))) (\<lambda>gt.
                  case gt of Inl _ \<Rightarrow> returnP g | Inr t \<Rightarrow> returnP (g\<lparr>gn_genesisTime := t\<rparr>)))"

definition state_path :: "Config \<Rightarrow> string" where
  "state_path cfg = sg_DataDir (cf_Storage cfg) @ ''/'' @ nc_Name (cf_Network cfg) @ ''-state.json''"

definition New :: "outside \<Rightarrow> Config \<Rightarrow> Generator prog" where
  "New env cfg =
     (let nw = cf_Network cfg; ip = cf_IPFS cfg; hasBeacon = (nc_BeaconRPC nw \<noteq> '''');
          hasDB = (sg_PostgresDSN (cf_Storage cfg) \<noteq> '''');
          client = NewClient (nc_BeaconRPC nw) (nc_BeaconTimeout nw) (gc_BeaconWorkers (cf_Generator cfg))
                     (0 < nc_BeaconRateLimit nw) (nc_Beacon429Backoff nw) (nc_SlotsPerEpoch nw) (nc_SecondsPerSlot nw);
          g = \<lparr>gn_cfg = cfg, gn_beacon = hasBeacon, gn_el = (nc_ExecutionRPC nw \<noteq> ''''),
               gn_ipfs = (if ic_SkipUpload ip then None
                          else Some (NewIpfsClient (ic_APIAddr ip) (ic_Timeout ip) (ic_PinOnAdd ip) (ic_UploadWorkers ip))),
               gn_db = hasDB, gn_notifier = NewNotifier (bc_APIURL (cf_Blobscan cfg)) (bc_APIKey (cf_Blobscan cfg)),
               gn_genesisTime = zeroTime, gn_slotsPerEpoch = nc_SlotsPerEpoch nw, gn_secondsPerSlot = nc_SecondsPerSlot nw\<rparr>
      in if nc_ExecutionRPC nw \<noteq> '''' \<and> \<not> hasBeacon
         then failP (Errorf ''generator: EXECUTION_RPC requires BEACON_RPC to resolve execution payloads'')
         else
           bindP (if hasDB then bindP (ask (o_connect env)) (\<lambda>r. wrapP ''generator: connect to postgres'' (liftP r))
                  else bindP (ask (o_files env)) (\<lambda>flt w.
                         case wrapR ''generator: load state'' (NewManager flt (snd (w_files w)) (state_path cfg) (nc_Name nw)) of
                           Inl e \<Rightarrow> (Inl e, w)
                         | Inr m \<Rightarrow> (Inr (), w\<lparr>w_files := (m, snd (w_files w))\<rparr>))) (\<lambda>_.
           if hasBeacon then bindP (\<lambda>w. (Inr (), w\<lparr>w_beacon := client\<rparr>)) (\<lambda>_. New_beacon env g) else returnP g))"

end
