(* ===== verification/Frames.thy ===== *)
theory Frames
  imports Generator
begin

text \<open>
  Reasoning about the generator's programs. \<open>moves R m\<close> says that every run of \<open>m\<close>, successful or not, goes
  from a world to one that is related to it by \<open>R\<close>; the locale \<open>effect_frame\<close> has the rules for the program
  combinators, proved once for every reflexive and transitive relation that ignores the interaction counter. The
  interpretations are the relations that the generator's properties rest on.
\<close>

named_theorems moves_intros

section \<open>Runs\<close>

lemma returnP_eq [simp]: "returnP a w = (Inr a, w)"
  by (simp add: returnP_def)

lemma failP_eq [simp]: "failP e w = (Inl e, w)"
  by (simp add: failP_def)

lemma liftP_eq [simp]: "liftP r w = (r, w)"
  by (simp add: liftP_def)

lemma bindP_Inr: "bindP m f w = (Inr b, w') \<longleftrightarrow> (\<exists>a w1. m w = (Inr a, w1) \<and> f a w1 = (Inr b, w'))"
  by (auto simp: bindP_def split: prod.splits sum.splits)

lemma bindP_Inl:
  "bindP m f w = (Inl e, w') \<longleftrightarrow> m w = (Inl e, w') \<or> (\<exists>a w1. m w = (Inr a, w1) \<and> f a w1 = (Inl e, w'))"
  by (auto simp: bindP_def split: prod.splits sum.splits)

lemma wrapP_Inr [simp]: "wrapP s m w = (Inr a, w') \<longleftrightarrow> m w = (Inr a, w')"
  by (auto simp: wrapP_def split: prod.splits)

lemma bindP_step: "m w = (Inr a, w1) \<Longrightarrow> bindP m f w = f a w1"
  by (simp add: bindP_def)

lemma bindP_stop: "m w = (Inl e, w1) \<Longrightarrow> bindP m f w = (Inl e, w1)"
  by (simp add: bindP_def)

lemma wrapP_snd [simp]: "snd (wrapP s m w) = snd (m w)"
  by (simp add: wrapP_def split: prod.splits)

lemma tryP_snd [simp]: "snd (tryP m w) = snd (m w)"
  by (simp add: tryP_def split: prod.splits sum.splits)

lemma logP_snd [simp]: "snd (logP m w) = snd (m w)"
proof (cases "tryP m w")
  case (Pair r w1)
  then have "snd (m w) = w1" using tryP_snd [of m w] by simp
  with Pair show ?thesis by (cases r) (simp_all add: logP_def bindP_def)
qed

lemma ask_eq: "ask f w = (Inr (f (w_tick w)), w\<lparr>w_tick := Suc (w_tick w)\<rparr>)"
  by (simp add: ask_def)

lemma ask_Inr [simp]: "ask f w = (Inr a, w') \<longleftrightarrow> a = f (w_tick w) \<and> w' = w\<lparr>w_tick := Suc (w_tick w)\<rparr>"
  by (auto simp: ask_def)

lemmas run_simps = bindP_Inr bindP_Inl

section \<open>Frames\<close>

definition moves :: "(world \<Rightarrow> world \<Rightarrow> bool) \<Rightarrow> 'a prog \<Rightarrow> bool" where
  "moves R m \<longleftrightarrow> (\<forall>w. R w (snd (m w)))"

lemma movesD: "moves R m \<Longrightarrow> m w = (r, w') \<Longrightarrow> R w w'"
  by (metis moves_def snd_conv)

locale effect_frame =
  fixes R :: "world \<Rightarrow> world \<Rightarrow> bool"
  assumes refl: "R w w"
    and trans: "R u v \<Longrightarrow> R v w \<Longrightarrow> R u w"
    and tick: "R w (w\<lparr>w_tick := k\<rparr>)"
begin

lemma moves_return [moves_intros]: "moves R (returnP a)"
  by (simp add: moves_def refl)

lemma moves_fail [moves_intros]: "moves R (failP e)"
  by (simp add: moves_def refl)

lemma moves_lift [moves_intros]: "moves R (liftP r)"
  by (simp add: moves_def refl)

lemma moves_ask [moves_intros]: "moves R (ask f)"
  by (simp add: moves_def ask_eq tick)

lemma moves_wrap [moves_intros]: "moves R m \<Longrightarrow> moves R (wrapP s m)"
  by (simp add: moves_def)

lemma moves_try [moves_intros]: "moves R m \<Longrightarrow> moves R (tryP m)"
  by (simp add: moves_def)

lemma moves_log [moves_intros]: "moves R m \<Longrightarrow> moves R (logP m)"
  by (simp add: moves_def)

lemma moves_bind [moves_intros]:
  assumes "moves R m" and "\<And>a. moves R (f a)"
  shows "moves R (bindP m f)"
  unfolding moves_def
proof
  fix w
  show "R w (snd (bindP m f w))"
  proof (cases "m w")
    case (Pair r w1)
    then have "R w w1" using assms(1) movesD by blast
    with Pair assms(2) show ?thesis
      by (cases r) (auto simp: bindP_def moves_def intro: trans)
  qed
qed

lemma moves_if [moves_intros]: "(b \<Longrightarrow> moves R m) \<Longrightarrow> (\<not> b \<Longrightarrow> moves R m') \<Longrightarrow> moves R (if b then m else m')"
  by simp

lemma moves_option [moves_intros]:
  "moves R m \<Longrightarrow> (\<And>x. moves R (f x)) \<Longrightarrow> moves R (case z of None \<Rightarrow> m | Some x \<Rightarrow> f x)"
  by (cases z) simp_all

lemma moves_sum [moves_intros]:
  "(\<And>x. moves R (f x)) \<Longrightarrow> (\<And>x. moves R (h x)) \<Longrightarrow> moves R (case z of Inl x \<Rightarrow> f x | Inr x \<Rightarrow> h x)"
  by (cases z) simp_all

lemma moves_prod [moves_intros]: "(\<And>x y. moves R (f x y)) \<Longrightarrow> moves R (case z of (x, y) \<Rightarrow> f x y)"
  by (cases z) simp

lemma moves_db_read [moves_intros]: "moves R (db_read env rd)"
  unfolding db_read_def by (intro moves_bind moves_ask) (simp add: moves_def refl)

end

section \<open>Programs that leave the tables alone\<close>

text \<open>
  A relation that only looks at the tables: everything but the database writes keeps it, so building an epoch,
  uploading it and rebuilding the network root do.
\<close>

locale table_frame = effect_frame +
  assumes side: "w_tables w' = w_tables w \<Longrightarrow> R w w'"
begin

lemma moves_side: "(\<And>w. w_tables (snd (m w)) = w_tables w) \<Longrightarrow> moves R m"
  by (simp add: moves_def side)

lemma moves_calls [moves_intros]:
  "moves R (call_PutBlockstore env g bs)" "moves R (call_VerifyLocal env g c)" "moves R (call_Pin env g c)"
  "moves R (call_NotifyBlobs env g refs)" "moves R (call_FetchEpochInput env g el epoch)"
  "moves R (call_GetFinalityCheckpoints env)" "moves R (ctx_canceled env)"
  unfolding call_PutBlockstore_def call_VerifyLocal_def call_Pin_def call_NotifyBlobs_def call_FetchEpochInput_def
    call_GetFinalityCheckpoints_def ctx_canceled_def
  by (rule moves_side, simp add: bindP_def ask_eq split: prod.split sum.split option.split)+

lemma moves_file_write [moves_intros]: "moves R (file_write env wr)"
  unfolding file_write_def by (intro moves_intros) (auto intro!: moves_side split: prod.splits)

lemma moves_state_reads [moves_intros]:
  "moves R (state_GetLastProcessedEpoch env g)" "moves R (state_GetBackfillCursor env g)"
  unfolding state_GetLastProcessedEpoch_def state_GetBackfillCursor_def
  by (rule moves_side, simp add: db_read_def bindP_def ask_eq)+

lemma moves_processEpochBlobs [moves_intros]: "moves R (processEpochBlobs env g inp bs)"
  unfolding processEpochBlobs_def Let_def by (intro moves_intros)

lemma moves_buildEpoch [moves_intros]: "moves R (buildEpoch env g epoch)"
  unfolding buildEpoch_def Let_def by (intro moves_intros)

lemma moves_uploadAndPin [moves_intros]: "moves R (uploadAndPin env g bs c epoch)"
  unfolding uploadAndPin_def by (intro moves_intros)

lemma moves_rebuildNetworkRoot [moves_intros]: "moves R (rebuildNetworkRoot env g)"
  unfolding rebuildNetworkRoot_def by (intro moves_intros)

lemma moves_db_write:
  assumes "\<And>flt w. R w (w\<lparr>w_tables := snd (wr flt (w_tables w))\<rparr>)"
  shows "moves R (db_write env wr)"
  unfolding db_write_def
  by (intro moves_bind moves_ask) (use assms in \<open>auto simp: moves_def split: prod.splits\<close>, metis snd_conv)

end

interpretation same_tables: table_frame "\<lambda>w w'. w_tables w' = w_tables w"
  by unfold_locales simp_all

section \<open>The epochs that the database has\<close>

text \<open>
  \<open>rows_ok n t\<close>: the constraints of the schema hold and all epoch rows belong to network \<open>n\<close> (one database per
  network). \<open>epoch_ext n\<close>: epochs are never lost and the cursors do not move.
\<close>

definition rows_ok :: "string \<Rightarrow> tables \<Rightarrow> bool" where
  "rows_ok n t \<longleftrightarrow> db_wf t \<and> (\<forall>r \<in> set (tb_epochs t). ew_network r = n)"

definition has_epochs :: "tables \<Rightarrow> int set" where
  "has_epochs t = ew_epoch ` set (tb_epochs t)"

definition table_ext :: "string \<Rightarrow> tables \<Rightarrow> tables \<Rightarrow> bool" where
  "table_ext n t t' \<longleftrightarrow> (rows_ok n t \<longrightarrow> rows_ok n t' \<and> has_epochs t \<subseteq> has_epochs t')"

definition epoch_ext :: "string \<Rightarrow> world \<Rightarrow> world \<Rightarrow> bool" where
  "epoch_ext n w w' \<longleftrightarrow> table_ext n (w_tables w) (w_tables w') \<and>
     tb_state (w_tables w') = tb_state (w_tables w)"

interpretation epoch_ext: table_frame "epoch_ext n" for n
  by unfold_locales (auto simp: epoch_ext_def table_ext_def)

text \<open>
  \<open>rows_kept\<close>: the rows of the epochs and the backfill cursor stay, the live cursor may move.
\<close>

definition rows_kept :: "string \<Rightarrow> world \<Rightarrow> world \<Rightarrow> bool" where
  "rows_kept n w w' \<longleftrightarrow> table_ext n (w_tables w) (w_tables w') \<and>
     map_of (tb_state (w_tables w')) (backfill_key n) = map_of (tb_state (w_tables w)) (backfill_key n)"

interpretation rows_kept: table_frame "rows_kept n" for n
  by unfold_locales (auto simp: rows_kept_def table_ext_def)

lemma moves_kept: "moves (epoch_ext n) m \<Longrightarrow> moves (rows_kept n) m"
  by (simp add: moves_def epoch_ext_def rows_kept_def)

lemma moves_cursor_kept: "moves (rows_kept (g_network g)) (state_SetLastProcessedEpoch env g epoch)"
proof -
  have "rows_ok n (snd (DB_SetLastProcessedEpoch flt n t epoch))" if "rows_ok n t" for n flt t
    using that DB_SetLast_cases [of flt n t epoch] by (cases "DB_SetLastProcessedEpoch flt n t epoch") (auto simp: rows_ok_def set_cursor_wf)
  moreover have "has_epochs (snd (DB_SetLastProcessedEpoch flt n t epoch)) = has_epochs t" for n flt t
    using DB_SetLast_cases [of flt n t epoch] by (cases "DB_SetLastProcessedEpoch flt n t epoch") (auto simp: has_epochs_def)
  moreover have "map_of (tb_state (snd (DB_SetLastProcessedEpoch flt n t epoch))) (backfill_key n) = map_of (tb_state t) (backfill_key n)" for n flt t
    using DB_SetLast_cases [of flt n t epoch] by (cases "DB_SetLastProcessedEpoch flt n t epoch") auto
  ultimately show ?thesis
    unfolding state_SetLastProcessedEpoch_def
    by (auto intro!: moves_intros rows_kept.moves_db_write simp: rows_kept_def table_ext_def)
qed

lemma upsert_rows_network:
  assumes "\<And>old new. ew_network (upd old new) = ew_network old" and "\<forall>r \<in> set rows. ew_network r = n" and "ew_network new = n"
  shows "\<forall>r \<in> set (upsert key upd new rows). ew_network r = n"
  using assms by (auto simp: upsert_def)

lemma SaveEpoch_ext: "table_ext n t (snd (SaveEpoch lib flt t n result c time))"
proof (cases "SaveEpoch lib flt t n result c time")
  case (Pair r t')
  show ?thesis
  proof (cases r)
    case (Inl e)
    then have "t' = t" using Pair by (auto simp: SaveEpoch_def split: sum.splits)
    with Pair show ?thesis by (simp add: table_ext_def)
  next
    case (Inr u)
    then have "SaveEpoch lib flt t n result c time = (Inr (), t')" using Pair by simp
    from SaveEpoch_upsert [OF this] obtain new where
      new: "tb_epochs t' = upsert ew_epoch epoch_conflict new (tb_epochs t)" "ew_network new = n" by blast
    have "rows_ok n t'" if ok: "rows_ok n t"
    proof -
      have "db_wf (snd (SaveEpoch lib flt t n result c time))" using ok by (intro SaveEpoch_wf) (simp add: rows_ok_def)
      moreover have "\<forall>r \<in> set (tb_epochs t'). ew_network r = n"
        unfolding new(1) using ok new(2) by (intro upsert_rows_network) (simp_all add: rows_ok_def)
      ultimately show ?thesis unfolding Pair by (simp add: rows_ok_def)
    qed
    moreover have "has_epochs t \<subseteq> has_epochs t'"
      by (auto simp: has_epochs_def new(1) upsert_key_set)
    ultimately show ?thesis using Pair by (simp add: table_ext_def)
  qed
qed

lemma SaveBlobs_tx_tables:
  "SaveBlobs_tx lib flt t n epoch blobs results gt sps = Inr t' \<Longrightarrow>
   tb_epochs t' = upsert ew_epoch (\<lambda>old _. old) (placeholder_row n epoch) (tb_epochs t) \<and> tb_state t' = tb_state t"
  unfolding SaveBlobs_tx_def bindR_eq_Inr by clarsimp

lemma SaveBlobs_epochs:
  "tb_epochs (snd (SaveBlobs lib flt t n epoch blobs results gt sps)) = tb_epochs t \<or>
   tb_epochs (snd (SaveBlobs lib flt t n epoch blobs results gt sps)) =
     upsert ew_epoch (\<lambda>old _. old) (placeholder_row n epoch) (tb_epochs t)"
  by (auto simp: SaveBlobs_def split: sum.split dest: SaveBlobs_tx_tables)

lemma SaveEpoch_state: "tb_state (snd (SaveEpoch lib flt t n result c time)) = tb_state t"
  by (auto simp: SaveEpoch_def split: sum.splits)

lemma SaveBlobs_ext: "table_ext n t (snd (SaveBlobs lib flt t n epoch blobs results gt sps))"
proof -
  let ?t = "snd (SaveBlobs lib flt t n epoch blobs results gt sps)"
  have "rows_ok n ?t" if ok: "rows_ok n t"
  proof -
    have "db_wf ?t" using ok by (intro SaveBlobs_wf) (simp add: rows_ok_def)
    moreover have "\<forall>r \<in> set (upsert ew_epoch (\<lambda>old _. old) (placeholder_row n epoch) (tb_epochs t)). ew_network r = n"
      using ok by (intro upsert_rows_network) (simp_all add: rows_ok_def placeholder_row_def)
    ultimately show ?thesis
      using ok SaveBlobs_epochs [of lib flt t n epoch blobs results gt sps] unfolding rows_ok_def by metis
  qed
  moreover have "has_epochs t \<subseteq> has_epochs ?t"
    using SaveBlobs_epochs [of lib flt t n epoch blobs results gt sps] by (auto simp: has_epochs_def upsert_key_set)
  ultimately show ?thesis by (simp add: table_ext_def)
qed

lemma moves_saves [moves_intros]:
  "moves (epoch_ext (g_network g)) (call_SaveEpoch env g result c epoch)"
  "moves (epoch_ext (g_network g)) (call_SaveBlobs env g epoch blobs results)"
  unfolding call_SaveEpoch_def call_SaveBlobs_def
  by (intro epoch_ext.moves_db_write, simp add: epoch_ext_def SaveEpoch_ext SaveBlobs_ext SaveEpoch_state SaveBlobs_state)+

lemma moves_persistEpoch [moves_intros]: "moves (epoch_ext (g_network g)) (persistEpoch env g be)"
  unfolding persistEpoch_def Let_def by (intro moves_intros)

lemma moves_processEpoch [moves_intros]: "moves (epoch_ext (g_network g)) (processEpoch env g epoch)"
  unfolding processEpoch_def by (intro moves_intros)

end
