(* ===== verification/Demo.thy ===== *)
theory Demo
  imports Ipfs
begin

text \<open>
  A library whose CIDs can be printed and read back, for the witnesses of the components that go through the
  database: the printed form lists the numbers of the prefix and the digest in hexadecimal.
\<close>

definition demo_cid_String :: "cid \<Rightarrow> string" where
  "demo_cid_String c =
     (case c of
        Undef \<Rightarrow> ''b''
      | Cid p d \<Rightarrow> FormatUint (pfVersion p) @ ''.'' @ FormatUint (pfCodec p) @ ''.'' @ FormatUint (pfMhType p) @ ''.'' @
                   FormatUint (pfMhLength p) @ ''.'' @ hex_EncodeToString d)"

definition demo_cid_Decode :: "string \<Rightarrow> cid res" where
  "demo_cid_Decode s =
     (case strings_Split (CHR ''.'') s of
        [v, c, m, l, d] \<Rightarrow>
          bindR (ParseUint v) (\<lambda>v. bindR (ParseUint c) (\<lambda>c. bindR (ParseUint m) (\<lambda>m. bindR (ParseUint l) (\<lambda>l.
          bindR (hex_DecodeString d) (\<lambda>d. Inr (Cid \<lparr>pfVersion = v, pfCodec = c, pfMhType = m, pfMhLength = l\<rparr> d))))))
      | _ \<Rightarrow> Inl (Errorf ''invalid cid''))"

definition cid_lib :: ipld_lib where
  "cid_lib = demo_lib\<lparr>cid_String := demo_cid_String, cid_Decode := demo_cid_Decode\<rparr>"

lemma Split_sep: "sep \<notin> set xs \<Longrightarrow> strings_Split sep (xs @ sep # ys) = xs # strings_Split sep ys"
  by (induction xs) auto

lemma Split_none: "sep \<notin> set xs \<Longrightarrow> strings_Split sep xs = [xs]"
  by (induction xs) auto

lemma digit_char_dot: "d < 10 \<Longrightarrow> CHR ''.'' = digit_char d \<Longrightarrow> False"
proof -
  assume d: "d < 10" and eq: "CHR ''.'' = digit_char d"
  have "of_char (digit_char d) = (46 :: nat)" unfolding eq [symmetric] by simp
  with d show False by (simp add: digit_char_def of_char_of)
qed

lemma FormatUint_no_dot: "CHR ''.'' \<notin> set (FormatUint w)"
proof -
  have "CHR ''.'' \<notin> set (fmt_nat n)" for n
  proof (induction n rule: fmt_nat.induct)
    case (1 n)
    then show ?case by (auto simp: fmt_nat.simps [of n] dest: digit_char_dot [rotated])
  qed
  then show ?thesis by (simp add: FormatUint_def)
qed

lemma nibble_char_dot: "d < 16 \<Longrightarrow> CHR ''.'' \<noteq> nibble_char d"
proof
  assume d: "d < 16" and eq: "CHR ''.'' = nibble_char d"
  have "of_char (nibble_char d) = (46 :: nat)" unfolding eq [symmetric] by simp
  with d show False by (simp add: of_char_nibble split: if_splits)
qed

lemma hex_no_dot: "CHR ''.'' \<notin> set (hex_EncodeToString d)"
  by (induction d) (auto simp: nibble_char_dot byte_div16)

lemma demo_cid_roundtrip: "demo_cid_Decode (demo_cid_String (Cid p d)) = Inr (Cid p d)"
  by (cases p) (simp add: demo_cid_String_def demo_cid_Decode_def Split_sep [OF FormatUint_no_dot] Split_none [OF hex_no_dot])

lemma cid_lib_doc: "store_doc cid_lib id" "block_doc cid_lib" "qp_doc cid_lib" "cid_doc cid_lib"
  using demo_lib_doc
  by (simp_all add: cid_lib_def store_doc_def block_doc_def qp_doc_def cid_doc_def demo_cid_roundtrip)
    (simp add: demo_cid_Decode_def)

end
