(* ===== verification/GenFacts.thy ===== *)
theory GenFacts
  imports Frames Demo
begin

text \<open>
  What the generator's operations guarantee: an epoch rebuilt from the database is the epoch that was saved, the
  live cursor never passes an epoch without a row, blocks are uploaded before rows are written, and the results of
  the concurrent blob workers do not depend on their order.
\<close>

section \<open>Rebuilding an epoch from the database\<close>

lemma reconstruct_stored:
  assumes "cid_doc lib" and "\<exists>p d. br_DataCID (snd x) = Cid p d" and "\<exists>p d. br_MetaCID (snd x) = Cid p d"
  shows "reconstruct_result lib (stored_record lib gt sps x) =
    Inr \<lparr>br_Commitment = bi_Commitment (fst x), br_DataCID = br_DataCID (snd x), br_MetaCID = br_MetaCID (snd x),
         br_SizeBytes = br_SizeBytes (snd x)\<rparr>"
  using assms by (cases x) (auto simp: reconstruct_result_def stored_record_def cid_doc_def)

lemma canon_reconstructed:
  "canon (reconstruct_blob epoch (stored_record lib gt sps x),
          \<lparr>br_Commitment = bi_Commitment (fst x), br_DataCID = br_DataCID (snd x), br_MetaCID = br_MetaCID (snd x),
           br_SizeBytes = br_SizeBytes (snd x)\<rparr>) = canon x"
  by (cases x) (simp add: canon_def reconstruct_blob_def stored_record_def)

lemma mset_eq_mapE:
  "mset ys = mset (map f zs) \<Longrightarrow> \<exists>xs. ys = map f xs \<and> mset xs = mset zs"
proof (induction ys arbitrary: zs)
  case (Cons y ys)
  from Cons.prems have "y \<in> set (map f zs)" by (metis list.set_intros(1) mset_eq_setD)
  then obtain z where z: "z \<in> set zs" "y = f z" by auto
  then obtain us vs where zs: "zs = us @ z # vs" by (meson split_list)
  with Cons.prems z have "mset ys = mset (map f (us @ vs))" by simp
  from Cons.IH [OF this] obtain xs where "ys = map f xs" "mset xs = mset (us @ vs)" by blast
  with z zs show ?case by (intro exI [of _ "z # xs"]) simp
qed simp

lemma reconstruct_build:
  assumes "cid_doc lib" and "length (ei_Blobs inp) = length results"
    and "\<forall>r \<in> set results. (\<exists>p d. br_DataCID r = Cid p d) \<and> (\<exists>p d. br_MetaCID r = Cid p d)"
    and "mset recs = mset (map (stored_record lib gt sps) (zip (ei_Blobs inp) results))"
    and "distinct (map occ_id (zip (ei_Blobs inp) results))"
    and "ei_Epoch inp = epoch" "ei_Slot inp = EpochToFirstSlot epoch spe"
  shows "\<exists>inp' results'. ReconstructFromDB lib epoch recs spe = Inr (inp', results') \<and> length results' = length results \<and>
    (\<forall>bs network thr. BuildEpochNode lib bs inp' results' network thr = BuildEpochNode lib bs inp results network thr)"
proof -
  let ?z = "zip (ei_Blobs inp) results"
  let ?f = "\<lambda>x. \<lparr>br_Commitment = bi_Commitment (fst x), br_DataCID = br_DataCID (snd x), br_MetaCID = br_MetaCID (snd x),
         br_SizeBytes = br_SizeBytes (snd x)\<rparr>"
  from assms(4) obtain xs where xs: "recs = map (stored_record lib gt sps) xs" and perm: "mset xs = mset ?z"
    using mset_eq_mapE by blast
  have sub: "snd x \<in> set results" if "x \<in> set xs" for x
    using that perm by (metis mset_eq_setD set_zip_rightD prod.collapse)
  have "mapR (reconstruct_result lib) recs = Inr (map ?f xs)"
    unfolding xs using assms(1,3) sub
    by (induction xs) (simp_all add: reconstruct_stored)
  then have rec: "ReconstructFromDB lib epoch recs spe =
      Inr (\<lparr>ei_Epoch = epoch, ei_Slot = EpochToFirstSlot epoch spe, ei_Blobs = map (reconstruct_blob epoch) recs\<rparr>, map ?f xs)"
    by (simp add: ReconstructFromDB_def)
  have "map canon (zip (map (reconstruct_blob epoch) recs) (map ?f xs)) = map canon xs"
    unfolding xs by (simp add: zip_map_map zip_same_conv_map canon_reconstructed comp_def)
  then have "mset (map canon (zip (map (reconstruct_blob epoch) recs) (map ?f xs))) = mset (map canon ?z)"
    using perm by simp
  then have "BuildEpochNode lib bs \<lparr>ei_Epoch = epoch, ei_Slot = EpochToFirstSlot epoch spe, ei_Blobs = map (reconstruct_blob epoch) recs\<rparr>
      (map ?f xs) network thr = BuildEpochNode lib bs inp results network thr" for bs network thr
    using assms(2,5,6,7) xs by (intro BuildEpochNode_cong) simp_all
  moreover have "length (map ?f xs) = length results" using mset_eq_length [OF perm] assms(2) by simp
  ultimately show ?thesis using rec by blast
qed

text \<open>
  C4. An epoch that is rebuilt from the database is the epoch that was saved: after the blobs of an epoch (new
  commitments, one occurrence per versioned hash, slot and index, an epoch without earlier rows) were saved, the
  rows that are read back reconstruct to an input from which the very same epoch node is built, with the same
  CID, the same blocks and the same errors, although the data of the blobs and their order are lost.
\<close>

theorem rebuild_from_db_same_node:
  assumes "cid_doc lib"
    and "SaveBlobs lib flt t network epoch (ei_Blobs inp) results gt sps = (Inr (), t')" and "ei_Blobs inp \<noteq> []"
    and "distinct (map bi_Commitment (ei_Blobs inp))"
    and "bi_Commitment ` set (ei_Blobs inp) \<inter> bw_commitment ` set (tb_blobs t) = {}"
    and "epoch_blobs t network (sint epoch) = []" and "unat epoch < 2 ^ 63"
    and "\<forall>b \<in> set (ei_Blobs inp). unat (bi_Slot b) < 2 ^ 63 \<and> unat (bi_BlockNumber b) < 2 ^ 63"
    and "\<forall>r \<in> set results. (\<exists>p d. br_DataCID r = Cid p d) \<and> (\<exists>p d. br_MetaCID r = Cid p d)"
    and "distinct (map occ_id (zip (ei_Blobs inp) results))"
    and "ei_Epoch inp = epoch" "ei_Slot inp = EpochToFirstSlot epoch spe"
  shows "\<exists>recs inp' results'. GetBlobsByEpoch noFaults t' network epoch = Inr recs \<and>
    ReconstructFromDB lib epoch recs spe = Inr (inp', results') \<and>
    (\<forall>bs net thr. BuildEpochNode lib bs inp' results' net thr = BuildEpochNode lib bs inp results net thr)"
proof -
  let ?recs = "sort_key (\<lambda>r. sint (bd_BlobIndex r)) (map (stored_record lib gt sps) (zip (ei_Blobs inp) results))"
  from SaveBlobs_stored [OF assms(2-8)] have recs: "GetBlobsByEpoch noFaults t' network epoch = Inr ?recs"
    and len: "length (ei_Blobs inp) = length results" by simp_all
  have "mset ?recs = mset (map (stored_record lib gt sps) (zip (ei_Blobs inp) results))" by simp
  from reconstruct_build [OF assms(1) len assms(9) this assms(10-12)] recs show ?thesis by blast
qed

lemma demo_store:
  "lsys_Store cid_lib BNull linkProtoRaw (NBytes raw) = Inr (Cid linkProtoRaw raw, BNull)"
  "lsys_Store cid_lib BNull linkProtoDagCBOR n = Inr (Cid linkProtoDagCBOR [], BNull)"
  by (simp_all add: lsys_Store_def StorageWriteCommit_def EncoderChooser_def cid_lib_def demo_lib_def linkProtoRaw_def
      linkProtoDagCBOR_def)

definition demo_cid :: "byte \<Rightarrow> cid" where
  "demo_cid b = Cid linkProtoRaw [b]"

definition demo_results :: "BlobResult list" where
  "demo_results = map (\<lambda>b. \<lparr>br_Commitment = [], br_DataCID = demo_cid b, br_MetaCID = demo_cid (b + 10), br_SizeBytes = 3\<rparr>) [1, 2]"

definition demo_epoch_input :: EpochInput where
  "demo_epoch_input = \<lparr>ei_Epoch = 1, ei_Slot = 32, ei_Blobs = [demo_blob, demo_blob\<lparr>bi_Commitment := ''0xc1'', bi_Slot := 40\<rparr>]\<rparr>"

theorem rebuild_from_db_same_node_witness:
  "\<exists>t' recs inp' results'. SaveBlobs cid_lib noFaults schema_empty ''mainnet'' 1 (ei_Blobs demo_epoch_input) demo_results 0 12 = (Inr (), t') \<and>
     GetBlobsByEpoch noFaults t' ''mainnet'' 1 = Inr recs \<and> ReconstructFromDB cid_lib 1 recs 32 = Inr (inp', results') \<and>
     BuildEpochNode cid_lib BNull inp' results' ''mainnet'' 5000 = BuildEpochNode cid_lib BNull demo_epoch_input demo_results ''mainnet'' 5000"
proof -
  obtain t' where t': "SaveBlobs cid_lib noFaults schema_empty ''mainnet'' 1 (ei_Blobs demo_epoch_input) demo_results 0 12 = (Inr (), t')"
    by (simp add: SaveBlobs_def SaveBlobs_tx_def demo_epoch_input_def demo_results_def fault_def blob_stage_row_def enc_int4_def demo_blob_def)
  have "\<exists>recs inp' results'. GetBlobsByEpoch noFaults t' ''mainnet'' 1 = Inr recs \<and>
    ReconstructFromDB cid_lib 1 recs 32 = Inr (inp', results') \<and>
    (\<forall>bs net thr. BuildEpochNode cid_lib bs inp' results' net thr = BuildEpochNode cid_lib bs demo_epoch_input demo_results net thr)"
    by (rule rebuild_from_db_same_node [OF cid_lib_doc(4) t'])
      (simp_all add: demo_epoch_input_def demo_blob_def demo_results_def schema_empty_def epoch_blobs_def demo_cid_def occ_id_def EpochToFirstSlot_def)
  with t' show ?thesis by blast
qed

section \<open>The live cursor\<close>

lemma call_SaveEpoch_has:
  assumes "call_SaveEpoch env g result c e w = (Inr u, w')"
  shows "uint (er_Epoch result) \<in> has_epochs (w_tables w') \<and> er_Epoch result < 2 ^ 63"
proof -
  from assms obtain flt t where "SaveEpoch (o_lib env) flt (w_tables w) (g_network g) result c (g_epochTime g e) = (Inr (), t)"
    and "w_tables w' = t"
    by (auto simp: call_SaveEpoch_def db_write_def bindP_Inr split: prod.splits)
  from SaveEpoch_upsert [OF this(1)] this(2) show ?thesis
    by (auto simp: has_epochs_def upsert_key_set)
qed

lemma BuildEpochNode_epoch: "BuildEpochNode lib bs inp results n thr = Inr (r, bs') \<Longrightarrow> er_Epoch r = ei_Epoch inp"
  by (auto simp: BuildEpochNode_def bindR_eq_Inr)

lemma FetchEpochInput_epoch: "FetchEpochInput sha c el sc order epoch = Inr inp \<Longrightarrow> ei_Epoch inp = epoch"
  by (auto simp: FetchEpochInput_def Let_def split: prod.splits option.splits)

lemma call_Fetch_epoch: "call_FetchEpochInput env g el epoch w = (Inr inp, w') \<Longrightarrow> ei_Epoch inp = epoch"
  by (auto simp: call_FetchEpochInput_def bindP_Inr FetchEpochInput_epoch split: if_splits)

lemma ReconstructFromDB_epoch: "ReconstructFromDB lib epoch recs spe = Inr (inp, rs) \<Longrightarrow> ei_Epoch inp = epoch"
  by (auto simp: ReconstructFromDB_def bindR_eq_Inr)

lemma buildEpoch_epoch:
  assumes "buildEpoch env g epoch w = (Inr be, w')"
  shows "be_epoch be = epoch \<and> \<not> be_skip be \<and> (be_empty be \<or> er_Epoch (be_epochResult be) = epoch)"
  using assms
  by (auto simp: buildEpoch_def Let_def bindP_Inr g_BuildEpochNode_def newBuiltEpoch_def
      dest!: BuildEpochNode_epoch ReconstructFromDB_epoch call_Fetch_epoch split: if_splits)

lemma persistEpoch_has:
  assumes "persistEpoch env g be w = (Inr u, w')" and "gn_db g" and "be_empty be \<or> er_Epoch (be_epochResult be) = be_epoch be"
    and "rows_ok (g_network g) (w_tables w)"
  shows "uint (be_epoch be) \<in> has_epochs (w_tables w')"
proof (cases "be_empty be")
  case True
  with assms(1,2) show ?thesis
    by (auto simp: persistEpoch_def Let_def bindP_Inr g_BuildEpochNode_def
        dest!: BuildEpochNode_epoch call_SaveEpoch_has)
next
  case False
  let ?up = "case be_epochBS be of None \<Rightarrow> returnP () | Some bs \<Rightarrow> uploadAndPin env g bs (er_CID (be_epochResult be)) (be_epoch be)"
  let ?rest = "\<lambda>_. if be_fromCache be then returnP ()
     else wrapP (''save blobs epoch '' @ FormatUint (be_epoch be) @ '' to db'')
            (call_SaveBlobs env g (be_epoch be) (ei_Blobs (be_epochInp be)) (be_blobResults be))"
  let ?notify = "\<lambda>_. if be_fromCache be then returnP ()
     else bindP (liftP (buildReferences (o_lib env) (ei_Blobs (be_epochInp be)) (be_blobResults be))) (call_NotifyBlobs env g)"
  have eq: "persistEpoch env g be = bindP ?up (\<lambda>_. bindP (bindP (wrapP (''save epoch '' @ FormatUint (be_epoch be) @ '' to db'')
      (call_SaveEpoch env g (be_epochResult be) (go_len (be_blobResults be)) (be_epoch be))) ?rest) ?notify)"
    using False assms(2) by (simp add: persistEpoch_def Let_def)
  from assms(1)[unfolded eq] obtain w1 w2 w3 u1 u2 u3 where up: "?up w = (Inr u1, w1)"
    and sv: "call_SaveEpoch env g (be_epochResult be) (go_len (be_blobResults be)) (be_epoch be) w1 = (Inr u2, w2)"
    and rest: "?rest () w2 = (Inr u3, w3)" and notify: "?notify () w3 = (Inr u, w')"
    by (auto simp: bindP_Inr)
  let ?R = "epoch_ext (g_network g)"
  have m: "moves ?R ?up" "moves ?R (?rest ())" "moves ?R (?notify ())" by (intro moves_intros)+
  have "?R w w1" "?R w1 w2" "?R w2 w3" "?R w3 w'"
    using movesD [OF m(1) up] movesD [OF moves_saves(1) sv] movesD [OF m(2) rest] movesD [OF m(3) notify] by simp_all
  with assms(4) have "has_epochs (w_tables w2) \<subseteq> has_epochs (w_tables w')"
    unfolding epoch_ext_def table_ext_def by blast
  with call_SaveEpoch_has [OF sv] assms(3) False show ?thesis by auto
qed

lemma processEpoch_has:
  assumes "processEpoch env g epoch w = (Inr u, w')" and "gn_db g" and "rows_ok (g_network g) (w_tables w)"
  shows "uint epoch \<in> has_epochs (w_tables w')"
proof -
  from assms(1,2) obtain be w1 where b: "buildEpoch env g epoch w = (Inr be, w1)" and p: "persistEpoch env g be w1 = (Inr u, w')"
    by (auto simp: processEpoch_def bindP_Inr)
  have "rows_ok (g_network g) (w_tables w1)"
    using movesD [OF same_tables.moves_buildEpoch b] assms(3) by simp
  with persistEpoch_has [OF p assms(2)] buildEpoch_epoch [OF b] show ?thesis by auto
qed

lemma SetLast_run:
  assumes "state_SetLastProcessedEpoch env g epoch w = (r, w')" and "gn_db g"
  shows "(\<exists>e. r = Inl e \<and> w_tables w' = w_tables w) \<or>
    (r = Inr () \<and> w_tables w' = set_cursor (live_key (g_network g)) (uint epoch) (w_tables w))"
proof -
  from assms obtain flt t where t: "DB_SetLastProcessedEpoch flt (g_network g) (w_tables w) epoch = (r, t)" "w_tables w' = t"
    by (auto simp: state_SetLastProcessedEpoch_def db_write_def bindP_def ask_eq split: prod.splits)
  from DB_SetLast_cases [OF t(1)] t(2) show ?thesis by (auto simp: enc_int8_def split: if_splits)
qed

lemma live_epochs_run:
  assumes "gn_db g" and "rows_ok (g_network g) (w_tables w)"
    and "map_of (tb_state (w_tables w)) (live_key (g_network g)) = Some c" and "live_epochs env g es w = (r, w')"
  shows "\<exists>done rest. es = done @ rest \<and> rows_ok (g_network g) (w_tables w') \<and>
    has_epochs (w_tables w) \<subseteq> has_epochs (w_tables w') \<and> uint ` set done \<subseteq> has_epochs (w_tables w') \<and>
    map_of (tb_state (w_tables w')) (live_key (g_network g)) = Some (if done = [] then c else uint (last done)) \<and>
    (r = Inr () \<longrightarrow> rest = [])"
  using assms(2-4)
proof (induction es arbitrary: w c)
  case (Cons e es)
  obtain r1 w1 where p: "processEpoch env g e w = (r1, w1)" by fastforce
  have x: "epoch_ext (g_network g) w w1" using movesD [OF moves_processEpoch p] .
  then have ok1: "rows_ok (g_network g) (w_tables w1)" and sub1: "has_epochs (w_tables w) \<subseteq> has_epochs (w_tables w1)"
    and c1: "map_of (tb_state (w_tables w1)) (live_key (g_network g)) = Some c"
    using Cons.prems(1,2) by (simp_all add: epoch_ext_def table_ext_def)
  note stop = exI [of _ "[]"] exI [of _ "e # es"]
  show ?case
  proof (cases r1)
    case (Inl err)
    with p Cons.prems(3) have "w' = w1" "r \<noteq> Inr ()" by (auto simp: bindP_def wrapP_def)
    then show ?thesis using ok1 sub1 c1 by (intro stop) simp
  next
    case (Inr u)
    obtain r2 w2 where s: "state_SetLastProcessedEpoch env g e w1 = (r2, w2)" by fastforce
    show ?thesis
    proof (cases r2)
      case (Inl err)
      then have "w_tables w2 = w_tables w1" using SetLast_run [OF s assms(1)] by auto
      moreover have "w' = w2" "r \<noteq> Inr ()" using p Inr s Inl Cons.prems(3) by (auto simp: bindP_def wrapP_def)
      ultimately show ?thesis using ok1 sub1 c1 by (intro stop) simp
    next
      case (Inr u2)
      then have t2: "w_tables w2 = set_cursor (live_key (g_network g)) (uint e) (w_tables w1)"
        using SetLast_run [OF s assms(1)] by auto
      have rest: "live_epochs env g es w2 = (r, w')"
        using p \<open>r1 = Inr u\<close> s Inr Cons.prems(3) by (simp add: bindP_def wrapP_def)
      have e: "uint e \<in> has_epochs (w_tables w1)"
        using processEpoch_has p \<open>r1 = Inr u\<close> assms(1) Cons.prems(1) by blast
      have ok2: "rows_ok (g_network g) (w_tables w2)" using ok1 by (simp add: t2 rows_ok_def set_cursor_wf)
      have h2: "has_epochs (w_tables w2) = has_epochs (w_tables w1)" by (simp add: t2 has_epochs_def)
      from Cons.IH [OF ok2 _ rest, of "uint e"] obtain dn rs where "es = dn @ rs" "rows_ok (g_network g) (w_tables w')"
        "has_epochs (w_tables w2) \<subseteq> has_epochs (w_tables w')" "uint ` set dn \<subseteq> has_epochs (w_tables w')"
        "map_of (tb_state (w_tables w')) (live_key (g_network g)) = Some (if dn = [] then uint e else uint (last dn))"
        "r = Inr () \<longrightarrow> rs = []" by (auto simp: t2)
      then show ?thesis using e sub1 h2 by (intro exI [of _ "e # dn"] exI [of _ rs]) auto
    qed
  qed
qed (auto intro!: exI [of _ "[]"])

lemma uint_range_nth:
  fixes lo hi :: uint64
  assumes "lo \<le> hi" and "i \<le> unat (hi - lo)"
  shows "uint (lo + word_of_nat i) = uint lo + int i"
proof -
  have "uint lo + int i \<le> uint hi"
  proof -
    have "int i \<le> uint (hi - lo)" using assms(2) by (metis of_nat_le_iff uint_nat)
    moreover have "uint (hi - lo) = uint hi - uint lo" using assms(1) by (simp add: uint_minus_simple_alt [symmetric] word_le_def)
    ultimately show ?thesis by simp
  qed
  moreover have "uint hi < 2 ^ 64" using uint_lt2p [of hi] by simp
  ultimately have b: "uint lo + int i < 2 ^ 64" by linarith
  then have "int i < 2 ^ 64" using uint_ge_0 [of lo] by linarith
  then have "i < 2 ^ 64" by (simp flip: of_nat_less_iff)
  with b show ?thesis by (simp add: uint_word_ariths unsigned_of_nat take_bit_eq_mod)
qed

lemma epoch_range_eq: "lo \<le> hi \<Longrightarrow> epoch_range lo hi = map (\<lambda>i. lo + word_of_nat i) [0..<Suc (unat (hi - lo))]"
  by (simp add: epoch_range_def leD)

lemma epoch_range_length: "lo \<le> hi \<Longrightarrow> length (epoch_range lo hi) = Suc (unat (hi - lo))"
  by (simp add: epoch_range_eq)

lemma epoch_range_nth:
  assumes "lo \<le> hi" "i < length (epoch_range lo hi)"
  shows "uint (epoch_range lo hi ! i) = uint lo + int i"
proof -
  have i: "i \<le> unat (hi - lo)" using assms by (simp add: epoch_range_length)
  have "epoch_range lo hi ! i = lo + word_of_nat i"
    unfolding epoch_range_eq [OF assms(1)] using i by (subst nth_map) (simp_all del: upt_Suc)
  with uint_range_nth [OF assms(1) i] show ?thesis by simp
qed

lemma epoch_range_last: "lo \<le> hi \<Longrightarrow> last (epoch_range lo hi) = hi"
  by (simp add: epoch_range_eq)

lemma range_prefix_covers:
  assumes "lo \<le> hi" "epoch_range lo hi = done @ rest" "done \<noteq> []"
  shows "lo \<le> last done \<and> (\<forall>e. lo \<le> e \<and> e \<le> last done \<longrightarrow> e \<in> set done)"
proof -
  let ?k = "length done"
  have nth: "uint (done ! i) = uint lo + int i" if "i < ?k" for i
    using epoch_range_nth [OF assms(1), of i] that by (simp add: assms(2) nth_append)
  have lst: "uint (last done) = uint lo + int (?k - 1)" using nth [of "?k - 1"] assms(3) by (simp add: last_conv_nth)
  have "e \<in> set done" if "lo \<le> e" "e \<le> last done" for e
  proof -
    let ?i = "nat (uint e - uint lo)"
    have e: "uint lo \<le> uint e" "uint e \<le> uint lo + int (?k - 1)" using that lst by (simp_all add: word_le_def)
    then have i: "?i < ?k" using assms(3) by (cases "done") auto
    with nth [OF this] e have "done ! ?i = e" by (simp add: word_uint_eq_iff)
    with i show ?thesis by (metis nth_mem)
  qed
  with lst show ?thesis by (simp add: word_le_def)
qed

lemma GetLast_run:
  assumes "state_GetLastProcessedEpoch env g w = (r, w')" "gn_db g"
    and "map_of (tb_state (w_tables w)) (live_key (g_network g)) = Some (uint c)"
  shows "w_tables w' = w_tables w \<and> (r = Inr c \<or> (\<exists>e. r = Inl e))"
  using assms
  by (auto simp: state_GetLastProcessedEpoch_def db_read_def bindP_def ask_eq DB_GetLastProcessedEpoch_def fault_def
      coalesce_def scan_uint64_def split: option.splits)

lemma tick_runs:
  assumes "call_GetFinalityCheckpoints env w = (Inr cp, w1)" and "state_GetLastProcessedEpoch env g w1 = (Inr c, w2)"
    and "live_start g c \<le> fc_FinalizedEpoch cp"
  shows "processLiveTick env g w =
    bindP (live_epochs env g (epoch_range (live_start g c) (fc_FinalizedEpoch cp))) (\<lambda>_. logP (rebuildNetworkRoot env g)) w2"
proof -
  have "wrapP s (call_GetFinalityCheckpoints env) w = (Inr cp, w1)" "wrapP s (state_GetLastProcessedEpoch env g) w1 = (Inr c, w2)" for s
    using assms(1,2) by simp_all
  then show ?thesis using assms(3) by (simp add: processLiveTick_def bindP_step leD)
qed

lemma then_same_tables:
  assumes "m w = (r1, w1)" and "bindP m (\<lambda>_. k) w = (r, w')" and "moves (\<lambda>w w'. w_tables w' = w_tables w) k"
  shows "w_tables w' = w_tables w1 \<and> (r = Inr () \<longrightarrow> isOk r1)"
  using assms(1,2) movesD [OF assms(3)] by (cases r1) (auto simp: bindP_def)

lemma live_range_run:
  assumes "gn_db g" and "rows_ok (g_network g) (w_tables w)"
    and "map_of (tb_state (w_tables w)) (live_key (g_network g)) = Some (uint c)"
    and "live_epochs env g (epoch_range lo hi) w = (r, w')" and "lo \<le> hi"
  shows "\<exists>c'. map_of (tb_state (w_tables w')) (live_key (g_network g)) = Some (uint c') \<and>
    rows_ok (g_network g) (w_tables w') \<and> has_epochs (w_tables w) \<subseteq> has_epochs (w_tables w') \<and>
    (c' = c \<or> lo \<le> c' \<and> (\<forall>e. lo \<le> e \<and> e \<le> c' \<longrightarrow> uint e \<in> has_epochs (w_tables w'))) \<and> (r = Inr () \<longrightarrow> c' = hi)"
proof -
  from live_epochs_run [OF assms(1-4)] obtain dn rs where
    d: "epoch_range lo hi = dn @ rs" "rows_ok (g_network g) (w_tables w')" "has_epochs (w_tables w) \<subseteq> has_epochs (w_tables w')"
      "uint ` set dn \<subseteq> has_epochs (w_tables w')" "r = Inr () \<longrightarrow> rs = []"
      "map_of (tb_state (w_tables w')) (live_key (g_network g)) = Some (if dn = [] then uint c else uint (last dn))"
    by auto
  have ne: "epoch_range lo hi \<noteq> []" using assms(5) by (simp add: epoch_range_eq)
  have fin: "r = Inr () \<Longrightarrow> dn \<noteq> [] \<and> last dn = hi" using d(1,5) ne epoch_range_last assms(5) by auto
  show ?thesis
  proof (cases "dn = []")
    case True
    with d fin show ?thesis by (intro exI [of _ c]) auto
  next
    case False
    with range_prefix_covers [OF assms(5) d(1) False] d(4)
    have "lo \<le> last dn" "\<forall>e. lo \<le> e \<and> e \<le> last dn \<longrightarrow> uint e \<in> has_epochs (w_tables w')" by auto
    with False d fin show ?thesis by (intro exI [of _ "last dn"]) auto
  qed
qed

text \<open>
  C5. The live cursor never passes an epoch that is not in the database. Whatever fails during a tick (the
  beacon node, the uploads, any database statement), the stored cursor afterwards is the old one or one for
  which every epoch from the first one due up to it has its row; no row is lost and the schema's constraints
  stay; and a tick that returns without an error has moved the cursor to the finalized epoch. (The database
  is used for one network, and the cursor has been stored, as \<^verbatim>\<open>Run\<close> does.)
\<close>

theorem live_cursor_safe:
  assumes "gn_db g" and "rows_ok (g_network g) (w_tables w)"
    and "map_of (tb_state (w_tables w)) (live_key (g_network g)) = Some (uint c)"
    and "processLiveTick env g w = (r, w')"
  shows "\<exists>c'. map_of (tb_state (w_tables w')) (live_key (g_network g)) = Some (uint c') \<and>
    rows_ok (g_network g) (w_tables w') \<and> has_epochs (w_tables w) \<subseteq> has_epochs (w_tables w') \<and>
    (c' = c \<or> live_start g c \<le> c' \<and> (\<forall>e. live_start g c \<le> e \<and> e \<le> c' \<longrightarrow> uint e \<in> has_epochs (w_tables w'))) \<and>
    (r = Inr () \<longrightarrow>
       (\<exists>cp. fst (GetFinalityCheckpoints (w_beacon w) (o_get env (w_tick w)) ''head'') = Inr cp \<and>
             (live_start g c \<le> fc_FinalizedEpoch cp \<longrightarrow> c' = fc_FinalizedEpoch cp)))"
proof -
  obtain r1 w1 where f: "call_GetFinalityCheckpoints env w = (r1, w1)" by fastforce
  have t1: "w_tables w1 = w_tables w" using movesD [OF same_tables.moves_calls(6) f] .
  have r1: "r1 = fst (GetFinalityCheckpoints (w_beacon w) (o_get env (w_tick w)) ''head'')"
    using f by (auto simp: call_GetFinalityCheckpoints_def bindP_def ask_eq split: prod.splits)
  note keep = exI [of _ c]
  show ?thesis
  proof (cases r1)
    case (Inl e)
    with f assms(4) have "w' = w1" "r \<noteq> Inr ()" by (auto simp: processLiveTick_def bindP_def wrapP_def)
    with t1 assms(2,3) show ?thesis by (intro keep) simp
  next
    case (Inr cp)
    have cpq: "fst (GetFinalityCheckpoints (w_beacon w) (o_get env (w_tick w)) ''head'') = Inr cp" using r1 Inr by simp
    obtain r2 w2 where gl: "state_GetLastProcessedEpoch env g w1 = (r2, w2)" by fastforce
    from GetLast_run [OF gl assms(1)] assms(3) t1 have t2: "w_tables w2 = w_tables w" and r2: "r2 = Inr c \<or> (\<exists>e. r2 = Inl e)"
      by simp_all
    let ?F = "fc_FinalizedEpoch cp" and ?lo = "live_start g c"
    show ?thesis
    proof (cases "r2 = Inr c \<and> ?lo \<le> ?F")
      case False
      with f Inr gl r2 assms(4) have "w' = w2" "r = Inr () \<Longrightarrow> ?F < ?lo"
        by (auto simp: processLiveTick_def bindP_def wrapP_def Let_def not_le)
      with t2 assms(2,3) cpq show ?thesis by (intro keep) (auto simp: not_le)
    next
      case True
      obtain r3 w3 where le: "live_epochs env g (epoch_range ?lo ?F) w2 = (r3, w3)" by fastforce
      have "bindP (live_epochs env g (epoch_range ?lo ?F)) (\<lambda>_. logP (rebuildNetworkRoot env g)) w2 = (r, w')"
        using tick_runs [of env w cp w1 g c w2] f Inr gl True assms(4) by simp
      from then_same_tables [OF le this] have w': "w_tables w' = w_tables w3 \<and> (r = Inr () \<longrightarrow> r3 = Inr ())"
        by (simp add: same_tables.moves_log same_tables.moves_rebuildNetworkRoot isOk_unit)
      with live_range_run [OF assms(1) _ _ le, of c] assms(2,3) t2 True cpq show ?thesis by auto
    qed
  qed
qed

text \<open>A generator without IPFS on a database whose live cursor is 4, and a beacon node that has finalized epoch 5, which is empty.\<close>

definition demo_finality :: json where
  "demo_finality = JObj [(''data'', JObj [(''finalized'', JObj [(''epoch'', JStr ''5'')]),
     (''current_justified'', JObj [(''epoch'', JStr ''6'')])])]"

definition demo_outside :: outside where
  "demo_outside =
     \<lparr>o_lib = cid_lib, o_sha256 = id, o_connect = (\<lambda>_. Inr ()), o_db = (\<lambda>_. noFaults), o_files = (\<lambda>_ _. None),
      o_get = (\<lambda>_. \<lparr>ge_elapsed = 0, ge_waitCanceled = False, ge_limiterWait = Inr (), ge_newRequest = Inr (),
                    ge_do = Inr \<lparr>hr_status = 200, hr_body = '''', hr_json = Some demo_finality\<rparr>, ge_now = 0\<rparr>),
      o_http = (\<lambda>_. demo_http), o_upload = (\<lambda>_ _. demo_http), o_uploadOrder = (\<lambda>_. [0]),
      o_notify = (\<lambda>_. \<lparr>ne_newRequest = (\<lambda>_. Inr ()), ne_do = (\<lambda>_. Inr 200)\<rparr>),
      o_sidecars = (\<lambda>_ _. Inr []), o_el = (\<lambda>_ _ _ _. Inl ErrNotFound), o_slotOrder = (\<lambda>_. [1, 0]), o_blobOrder = (\<lambda>_. []),
      o_canceled = (\<lambda>_. False)\<rparr>"

definition demo_gen :: Generator where
  "demo_gen =
     \<lparr>gn_cfg = zeroConfig\<lparr>cf_Network := (cf_Network zeroConfig)\<lparr>nc_Name := ''mainnet''\<rparr>,
                         cf_Generator := (cf_Generator zeroConfig)\<lparr>gc_HAMTThreshold := 5000, gc_Workers := 4\<rparr>\<rparr>,
      gn_beacon = True, gn_el = False, gn_ipfs = None, gn_db = True, gn_notifier = None, gn_genesisTime = 0,
      gn_slotsPerEpoch = 2, gn_secondsPerSlot = 12\<rparr>"

definition demo_world :: world where
  "demo_world =
     \<lparr>w_tables = set_cursor (live_key ''mainnet'') 4 schema_empty, w_files = (\<lparr>mg_path = '''', mg_current = \<lparr>st_Network = '''', st_LastProcessedEpoch = 0, st_BackfillCursor = 0\<rparr>\<rparr>, Map.empty),
      w_node = [], w_pins = [], w_refs = [], w_beacon = demo_client, w_tick = 0\<rparr>"

lemma demo_network: "g_network demo_gen = ''mainnet''"
  by (simp add: g_network_def demo_gen_def zeroConfig_def)

lemma demo_finality_answer:
  "\<exists>c. GetFinalityCheckpoints demo_client (o_get demo_outside k) ''head'' = (Inr \<lparr>fc_FinalizedEpoch = 5, fc_JustifiedEpoch = 6\<rparr>, c) \<and>
     cl_slotsPerEpoch c = 2"
  by (simp add: GetFinalityCheckpoints_def client_get_def must_wait_def handle_response_def demo_client_def NewClient_def
      demo_outside_def dec_finality_def demo_finality_def ParseUint_def parse_nat_def char_digit_def)

lemma demo_rows_ok: "rows_ok ''mainnet'' (w_tables demo_world)"
proof -
  have "db_wf schema_empty" by (simp add: schema_empty_def db_wf_def)
  then show ?thesis by (simp add: rows_ok_def demo_world_def set_cursor_wf) (simp add: schema_empty_def)
qed

lemma demo_gen_fetch:
  assumes "cl_slotsPerEpoch c = 2"
  shows "FetchEpochInput id c (\<lambda>i. None) (\<lambda>_. Inr []) [1, 0] 5 = Inr \<lparr>ei_Epoch = 5, ei_Slot = 10, ei_Blobs = []\<rparr>"
proof -
  have "unat (2 :: uint64) = Suc (Suc 0)" by simp
  then have "replicate (unat (2 :: uint64)) [] = [[], [] :: BlobInput list]" by (simp only: replicate.simps)
  with assms show ?thesis by (simp add: FetchEpochInput_def slot_task_def EpochToFirstSlot_def)
qed

lemma demo_empty_node:
  "\<exists>c. BuildEpochNode cid_lib BNull \<lparr>ei_Epoch = 5, ei_Slot = 10, ei_Blobs = []\<rparr> [] ''mainnet'' 5000 =
     Inr (\<lparr>er_Epoch = 5, er_CID = c, er_CARPath = '''', er_ApproximateSizeBytes = 0\<rparr>, BNull)"
  by (simp add: BuildEpochNode_def buildMapBlobIndex_def groupByVersionedHash_def cid_lib_def demo_lib_def go_len_def
      lsys_Store_def StorageWriteCommit_def EncoderChooser_def linkProtoDagCBOR_def epoch_entries_def)

lemma demo_fields [simp]:
  "o_lib demo_outside = cid_lib" "o_db demo_outside k = noFaults" "gn_db demo_gen" "gn_ipfs demo_gen = None"
  by (simp_all add: demo_outside_def demo_gen_def)

lemma demo_build:
  assumes "cl_slotsPerEpoch (w_beacon w) = 2" and "tb_blobs (w_tables w) = []"
  shows "\<exists>w'. buildEpoch demo_outside demo_gen 5 w = (Inr (newBuiltEpoch 5\<lparr>be_empty := True\<rparr>), w') \<and> w_tables w' = w_tables w"
  using assms demo_gen_fetch [OF assms(1)]
  by (simp add: buildEpoch_def Let_def bindP_def wrapP_def db_read_def ask_eq demo_outside_def demo_gen_def GetBlobsByEpoch_def
      enc_int8_def fault_def epoch_blobs_def call_FetchEpochInput_def)

lemma demo_persist:
  "\<exists>w'. persistEpoch demo_outside demo_gen (newBuiltEpoch 5\<lparr>be_empty := True\<rparr>) w = (Inr (), w')"
proof -
  obtain c where c: "g_BuildEpochNode demo_outside demo_gen (fresh_backend demo_gen) \<lparr>ei_Epoch = 5, ei_Slot = 10, ei_Blobs = []\<rparr> [] =
     Inr (\<lparr>er_Epoch = 5, er_CID = c, er_CARPath = '''', er_ApproximateSizeBytes = 0\<rparr>, BNull)"
    using demo_empty_node by (auto simp: g_BuildEpochNode_def demo_outside_def demo_gen_def fresh_backend_def g_network_def zeroConfig_def)
  have f: "EpochToFirstSlot 5 (gn_slotsPerEpoch demo_gen) = 10" "gn_db demo_gen" "be_epoch (newBuiltEpoch 5) = 5"
    by (simp_all add: EpochToFirstSlot_def demo_gen_def newBuiltEpoch_def)
  show ?thesis
    by (simp add: persistEpoch_def Let_def f c bindP_def wrapP_def call_SaveEpoch_def db_write_def ask_eq SaveEpoch_def
        enc_int8_def enc_int4_def fault_def demo_fields)
qed

lemma demo_tick: "fst (processLiveTick demo_outside demo_gen demo_world) = Inr ()"
proof -
  obtain b where b: "GetFinalityCheckpoints demo_client (o_get demo_outside 0) ''head'' = (Inr \<lparr>fc_FinalizedEpoch = 5, fc_JustifiedEpoch = 6\<rparr>, b)"
    and b2: "cl_slotsPerEpoch b = 2"
    using demo_finality_answer by blast
  let ?w1 = "demo_world\<lparr>w_tick := 1, w_beacon := b\<rparr>"
  let ?w2 = "demo_world\<lparr>w_tick := 2, w_beacon := b\<rparr>"
  have f: "call_GetFinalityCheckpoints demo_outside demo_world = (Inr \<lparr>fc_FinalizedEpoch = 5, fc_JustifiedEpoch = 6\<rparr>, ?w1)"
    using b by (simp add: call_GetFinalityCheckpoints_def bindP_def ask_eq demo_world_def)
  have l: "state_GetLastProcessedEpoch demo_outside demo_gen ?w1 = (Inr 4, ?w2)"
    by (simp add: state_GetLastProcessedEpoch_def db_read_def bindP_def ask_eq DB_GetLastProcessedEpoch_def fault_def coalesce_def
        scan_uint64_def demo_world_def demo_network)
  have range: "epoch_range (live_start demo_gen 4) 5 = [5]" by (simp add: live_start_def epoch_range_def)
  have "cl_slotsPerEpoch (w_beacon ?w2) = 2" "tb_blobs (w_tables ?w2) = []"
    using b2 by (simp_all add: demo_world_def schema_empty_def)
  from demo_build [OF this] obtain w3 where w3: "buildEpoch demo_outside demo_gen 5 ?w2 = (Inr (newBuiltEpoch 5\<lparr>be_empty := True\<rparr>), w3)"
    by blast
  obtain w4 where w4: "persistEpoch demo_outside demo_gen (newBuiltEpoch 5\<lparr>be_empty := True\<rparr>) w3 = (Inr (), w4)"
    using demo_persist by blast
  have p: "wrapP s (processEpoch demo_outside demo_gen 5) ?w2 = (Inr (), w4)" for s
    using w3 w4 by (simp add: processEpoch_def bindP_step)
  have "\<exists>w5. wrapP s (state_SetLastProcessedEpoch demo_outside demo_gen 5) w4 = (Inr (), w5)" for s
    by (simp add: state_SetLastProcessedEpoch_def db_write_def bindP_def wrapP_def ask_eq DB_SetLastProcessedEpoch_def enc_int8_def fault_def)
  then obtain w5 where s: "wrapP (''generator: set live cursor '' @ FormatUint 5) (state_SetLastProcessedEpoch demo_outside demo_gen 5) w4 = (Inr (), w5)"
    by blast
  have le: "live_epochs demo_outside demo_gen [5] ?w2 = (Inr (), w5)"
    using p s by (simp only: live_epochs.simps bindP_step returnP_eq)
  have "live_start demo_gen 4 \<le> fc_FinalizedEpoch \<lparr>fc_FinalizedEpoch = 5, fc_JustifiedEpoch = 6\<rparr>" by (simp add: live_start_def)
  from tick_runs [OF f l this] show ?thesis
    using le by (simp add: range bindP_step rebuildNetworkRoot_def logP_def tryP_def del: live_epochs.simps)
qed

theorem live_cursor_safe_witness:
  "map_of (tb_state (w_tables (snd (processLiveTick demo_outside demo_gen demo_world)))) (live_key ''mainnet'') = Some 5 \<and>
   5 \<in> has_epochs (w_tables (snd (processLiveTick demo_outside demo_gen demo_world)))"
proof -
  let ?w = demo_world
  obtain b where b: "GetFinalityCheckpoints demo_client (o_get demo_outside 0) ''head'' = (Inr \<lparr>fc_FinalizedEpoch = 5, fc_JustifiedEpoch = 6\<rparr>, b)"
    using demo_finality_answer by blast
  have net: "g_network demo_gen = ''mainnet''" by (rule demo_network)
  have gdb: "gn_db demo_gen" by (simp add: demo_gen_def)
  have cur: "map_of (tb_state (w_tables ?w)) (live_key (g_network demo_gen)) = Some (uint (4 :: uint64))"
    by (simp add: demo_world_def net)
  have ok: "rows_ok (g_network demo_gen) (w_tables ?w)" unfolding net by (rule demo_rows_ok)
  obtain r w' where run: "processLiveTick demo_outside demo_gen ?w = (r, w')" by fastforce
  note safe = live_cursor_safe [OF gdb ok cur run]
  have st: "live_start demo_gen 4 = 5" by (simp add: live_start_def)
  have "r = Inr ()" using demo_tick run by simp
  with safe b st show ?thesis
    unfolding run net by (auto simp: demo_world_def)
qed

section \<open>What Run hands to the two loops\<close>

lemma call_Finality_run:
  "call_GetFinalityCheckpoints env w = (r, w') \<Longrightarrow>
   r = fst (GetFinalityCheckpoints (w_beacon w) (o_get env (w_tick w)) ''head'') \<and> w_tables w' = w_tables w"
  by (auto simp: call_GetFinalityCheckpoints_def bindP_def ask_eq split: prod.splits)

lemma GetBackfill_run:
  "state_GetBackfillCursor env g w = (Inr c, w') \<Longrightarrow> gn_db g \<Longrightarrow>
   DB_GetBackfillCursor noFaults (g_network g) (w_tables w) = Inr c \<and> w_tables w' = w_tables w"
  by (auto simp: state_GetBackfillCursor_def db_read_def bindP_Inr DB_GetBackfillCursor_def fault_def split: option.splits)

lemma in_epoch_range: "e \<in> set (epoch_range lo hi) \<Longrightarrow> e \<le> hi"
proof (cases "lo \<le> hi")
  case True
  assume "e \<in> set (epoch_range lo hi)"
  then obtain i where i: "i < length (epoch_range lo hi)" "e = epoch_range lo hi ! i" by (metis in_set_conv_nth)
  let ?l = "length (epoch_range lo hi) - 1"
  have "uint (epoch_range lo hi ! ?l) = uint lo + int ?l" using epoch_range_nth [OF True, of ?l] i by simp
  moreover have "epoch_range lo hi ! ?l = hi" using epoch_range_last [OF True] i by (metis last_conv_nth length_0_conv not_less0)
  ultimately show ?thesis using epoch_range_nth [OF True i(1)] i by (simp add: word_le_def)
qed (simp add: epoch_range_def not_le)

lemma word_pred_le:
  fixes a :: uint64
  assumes "0 < a"
  shows "a - 1 < a" and "\<not> a \<le> a - 1"
  using assms by (simp_all add: word_less_nat_alt word_le_nat_alt unat_sub_if_size)

text \<open>
  C21. \<^verbatim>\<open>Run\<close> leaves an epoch to neither loop: when the backfill has work to do and epoch \<open>F\<close> is the finalized
  one, it stores the live cursor \<open>F - 1\<close>, from which the live loop starts with \<open>F\<close>, and hands a range to the
  backfill that ends with \<open>F - 2\<close>; epoch \<open>F - 1\<close> lies in neither.
\<close>

theorem Run_skips_epoch:
  assumes "Run_plan env g w = (Inr plan, w')" and "gn_db g"
    and "fst (GetFinalityCheckpoints (w_beacon w) (o_get env (w_tick w)) ''head'') = Inr cp"
    and "DB_GetBackfillCursor noFaults (g_network g) (w_tables w) = Inr bc"
    and "backfill_start g bc < fc_FinalizedEpoch cp" and "1 < fc_FinalizedEpoch cp"
  shows "\<exists>range. plan = Parallel range \<and>
    map_of (tb_state (w_tables w')) (live_key (g_network g)) = Some (uint (fc_FinalizedEpoch cp - 1)) \<and>
    live_start g (fc_FinalizedEpoch cp - 1) = fc_FinalizedEpoch cp \<and>
    (\<forall>lo hi. range = Some (lo, hi) \<longrightarrow> hi = fc_FinalizedEpoch cp - 2 \<and> fc_FinalizedEpoch cp - 1 \<notin> set (epoch_range lo hi))"
proof -
  let ?F = "fc_FinalizedEpoch cp"
  have "gn_beacon g" using assms(1) by (auto simp: Run_plan_def split: if_splits)
  with assms(1,2) obtain cp' w1 l w2 bc' w3 where f: "call_GetFinalityCheckpoints env w = (Inr cp', w1)"
    and l: "state_GetLastProcessedEpoch env g w1 = (Inr l, w2)" and b: "state_GetBackfillCursor env g w2 = (Inr bc', w3)"
    and rest: "bindP (if backfill_start g bc' < fc_FinalizedEpoch cp'
         then bindP (wrapP ''generator: set live cursor'' (state_SetLastProcessedEpoch env g (fc_FinalizedEpoch cp' - 1)))
                (\<lambda>_. returnP (fc_FinalizedEpoch cp' - 1))
         else returnP l) (\<lambda>liveCursor.
           returnP (Parallel (if backfill_start g bc' < liveCursor then Some (backfill_start g bc', liveCursor - 1) else None))) w3 = (Inr plan, w')"
    unfolding Run_plan_def Let_def by (simp only: if_False if_True not_True_eq_False bindP_Inr wrapP_Inr) blast
  have cp: "cp' = cp" and t1: "w_tables w1 = w_tables w" using call_Finality_run [OF f] assms(3) by simp_all
  have "w_tables w2 = w_tables w1" using movesD [OF same_tables.moves_state_reads(1) l] .
  with t1 GetBackfill_run [OF b assms(2)] assms(4) have bc: "bc' = bc" and t3: "w_tables w3 = w_tables w" by simp_all
  from rest assms(5) obtain u where s: "state_SetLastProcessedEpoch env g (?F - 1) w3 = (Inr u, w')"
    and plan: "plan = Parallel (if backfill_start g bc < ?F - 1 then Some (backfill_start g bc, ?F - 1 - 1) else None)"
    by (auto simp: cp bc bindP_Inr)
  have "map_of (tb_state (w_tables w')) (live_key (g_network g)) = Some (uint (?F - 1))"
    using SetLast_run [OF s assms(2)] by auto
  moreover have "0 < ?F - 1" using assms(6) by (simp add: word_less_nat_alt unat_sub_if_size)
  then have "live_start g (?F - 1) = ?F" by (simp add: live_start_def)
  moreover have "?F - 1 \<notin> set (epoch_range lo (?F - 2))" for lo
    using in_epoch_range [of "?F - 1" lo "?F - 2"] word_pred_le(2) [OF \<open>0 < ?F - 1\<close>] by (auto simp: algebra_simps)
  ultimately show ?thesis using plan by (auto simp: algebra_simps)
qed

theorem Run_skips_epoch_witness:
  "\<exists>w'. Run_plan demo_outside (demo_gen\<lparr>gn_beacon := True\<rparr>) demo_world = (Inr (Parallel (Some (0, 3))), w') \<and>
     map_of (tb_state (w_tables w')) (live_key ''mainnet'') = Some 4 \<and> 4 \<notin> set (epoch_range 0 3) \<and>
     live_start (demo_gen\<lparr>gn_beacon := True\<rparr>) 4 = 5"
proof -
  let ?g = "demo_gen\<lparr>gn_beacon := True\<rparr>"
  obtain b where b: "GetFinalityCheckpoints demo_client (o_get demo_outside 0) ''head'' = (Inr \<lparr>fc_FinalizedEpoch = 5, fc_JustifiedEpoch = 6\<rparr>, b)"
    using demo_finality_answer by blast
  have g: "?g = demo_gen" by (simp add: demo_gen_def)
  have start: "backfill_start demo_gen 0 = 0" by (simp add: backfill_start_def demo_gen_def zeroConfig_def)
  have bf: "DB_GetBackfillCursor noFaults ''mainnet'' (w_tables demo_world) = Inr 0"
    by (simp add: DB_GetBackfillCursor_def fault_def coalesce_def scan_uint64_def demo_world_def) (simp add: schema_empty_def)
  have "\<exists>w'. Run_plan demo_outside demo_gen demo_world = (Inr (Parallel (Some (0, 3))), w')"
  proof -
    have "gn_beacon demo_gen" by (simp add: demo_gen_def)
    with b bf show ?thesis
      by (simp add: Run_plan_def Let_def bindP_def wrapP_def call_GetFinalityCheckpoints_def state_GetLastProcessedEpoch_def
          state_GetBackfillCursor_def state_SetLastProcessedEpoch_def db_read_def db_write_def ask_eq demo_network start
          DB_GetLastProcessedEpoch_def DB_SetLastProcessedEpoch_def fault_def coalesce_def scan_uint64_def enc_int8_def
          demo_world_def)
  qed
  then obtain w' where run: "Run_plan demo_outside demo_gen demo_world = (Inr (Parallel (Some (0, 3))), w')" by blast
  have fin: "fst (GetFinalityCheckpoints (w_beacon demo_world) (o_get demo_outside (w_tick demo_world)) ''head'') =
      Inr \<lparr>fc_FinalizedEpoch = 5, fc_JustifiedEpoch = 6\<rparr>" using b by (simp add: demo_world_def)
  show ?thesis
    using Run_skips_epoch [OF run _ fin, of 0] run bf by (simp add: g demo_network start)
qed

section \<open>Upload before rows\<close>

interpretation same_node: effect_frame "\<lambda>w w'. w_node w' = w_node w"
  by unfold_locales simp_all

lemma node_calls [moves_intros]:
  "moves (\<lambda>w w'. w_node w' = w_node w) (call_VerifyLocal env g c)" "moves (\<lambda>w w'. w_node w' = w_node w) (call_Pin env g c)"
  "moves (\<lambda>w w'. w_node w' = w_node w) (call_NotifyBlobs env g refs)"
  "moves (\<lambda>w w'. w_node w' = w_node w) (call_SaveEpoch env g result n epoch)"
  "moves (\<lambda>w w'. w_node w' = w_node w) (call_SaveBlobs env g epoch blobs results)"
  unfolding call_VerifyLocal_def call_Pin_def call_NotifyBlobs_def call_SaveEpoch_def call_SaveBlobs_def db_write_def moves_def
  by (simp_all add: bindP_def ask_eq split: prod.split sum.split option.split)

lemma call_PutBlockstore_run:
  assumes "call_PutBlockstore env g bs w = (r, w')" and "gn_ipfs g = Some c"
  shows "r = fst (PutBlockstore (o_lib env) c (o_upload env (w_tick w)) (o_uploadOrder env (w_tick w)) bs) \<and>
    w_node w' = w_node w @ snd (PutBlockstore (o_lib env) c (o_upload env (w_tick w)) (o_uploadOrder env (w_tick w)) bs) \<and>
    w_tables w' = w_tables w"
  using assms by (auto simp: call_PutBlockstore_def bindP_def ask_eq split: prod.splits)

lemma uploadAndPin_run:
  assumes "uploadAndPin env g bs rt epoch w = (r, w')" and "gn_ipfs g = Some c"
    and "mset (o_uploadOrder env (w_tick w)) = mset [0..<length (Mem_All bs)]" and "isOk r"
  shows "\<exists>new. w_node w' = w_node w @ new \<and> mset new = mset (map (put_request_of c) (Mem_All bs))"
proof -
  let ?pin = "\<lambda>_ :: unit. if ic_PinOnAdd (cf_IPFS (gn_cfg g))
     then bindP (tryP (call_VerifyLocal env g rt)) (\<lambda>verified. case verified of Inl _ \<Rightarrow> returnP () | Inr _ \<Rightarrow> logP (call_Pin env g rt))
     else returnP ()"
  obtain r0 where r0: "r = Inr r0" using assms(4) by (auto simp: isOk_iff)
  with assms(1,2) obtain u w1 where put: "call_PutBlockstore env g bs w = (Inr u, w1)" and pin: "?pin () w1 = (Inr r0, w')"
    by (auto simp: uploadAndPin_def bindP_Inr)
  have "moves (\<lambda>w w'. w_node w' = w_node w) (?pin ())" by (intro moves_intros)
  from movesD [OF this pin] have "w_node w' = w_node w1" .
  with call_PutBlockstore_run [OF put assms(2)]
    PutBlockstore_accepts [OF assms(3), of "o_lib env" c "o_upload env (w_tick w)"]
  show ?thesis by (intro exI [of _ "snd (PutBlockstore (o_lib env) c (o_upload env (w_tick w)) (o_uploadOrder env (w_tick w)) bs)"])
      (auto simp flip: isOk_unit)
qed

text \<open>The store whose blocks an epoch's rows refer to: the built one, or the store of a new empty node.\<close>

definition epoch_store :: "outside \<Rightarrow> Generator \<Rightarrow> builtEpoch \<Rightarrow> MemBlockstore option" where
  "epoch_store env g be =
     (if be_empty be
      then (case g_BuildEpochNode env g (fresh_backend g)
              \<lparr>ei_Epoch = be_epoch be, ei_Slot = EpochToFirstSlot (be_epoch be) (gn_slotsPerEpoch g), ei_Blobs = []\<rparr> [] of
              Inl _ \<Rightarrow> None
            | Inr (_, bs) \<Rightarrow> backend_mem bs)
      else be_epochBS be)"

lemma rows_after_upload_run:
  assumes "gn_ipfs g = Some c" and "mset (o_uploadOrder env (w_tick w)) = mset [0..<length (Mem_All bs)]"
    and "bindP (uploadAndPin env g bs rootCID epoch) (\<lambda>_. rest) w = (r, w')" and "w_tables w' \<noteq> w_tables w"
    and "moves (\<lambda>w w'. w_node w' = w_node w) rest"
  shows "\<exists>new. w_node w' = w_node w @ new \<and> mset new = mset (map (put_request_of c) (Mem_All bs))"
proof -
  obtain r1 w1 where up: "uploadAndPin env g bs rootCID epoch w = (r1, w1)" by fastforce
  have "w_tables w1 = w_tables w" using movesD [OF same_tables.moves_uploadAndPin up] .
  with up assms(3,4) have ok: "isOk r1" by (cases r1) (auto simp: bindP_def)
  then have "rest w1 = (r, w')" using up assms(3) by (auto simp: isOk_iff bindP_step)
  with assms(5) have "w_node w' = w_node w1" using movesD by blast
  with uploadAndPin_run [OF up assms(1,2) ok] show ?thesis by simp
qed

text \<open>
  C15. Rows are written after the blocks they refer to. With an IPFS client (without one, when uploads are skipped by
  configuration, nothing is uploaded and the rows are all there is), persisting an epoch that has a block store, be it
  the store of a built epoch or the one of the new node of an empty epoch: if the call has changed the
  database in any way, whether it then failed or not, the IPFS node has accepted during that call exactly the
  blocks of that store, each once. So a failed upload leaves the database as it was. The order in which the
  parallel workers upload the blocks is any permutation of them.
\<close>

theorem rows_only_after_upload:
  assumes "gn_ipfs g = Some c" and "epoch_store env g be = Some bs"
    and "mset (o_uploadOrder env (w_tick w)) = mset [0..<length (Mem_All bs)]"
    and "persistEpoch env g be w = (r, w')" and "w_tables w' \<noteq> w_tables w"
  shows "\<exists>new. w_node w' = w_node w @ new \<and> mset new = mset (map (put_request_of c) (Mem_All bs))"
proof (cases "be_empty be")
  case True
  let ?inp = "\<lparr>ei_Epoch = be_epoch be, ei_Slot = EpochToFirstSlot (be_epoch be) (gn_slotsPerEpoch g), ei_Blobs = []\<rparr>"
  from True assms(2) obtain er b where build: "g_BuildEpochNode env g (fresh_backend g) ?inp [] = Inr (er, b)"
    and mem: "backend_mem b = Some bs" by (auto simp: epoch_store_def split: sum.splits)
  have db: "gn_db g" using assms(4,5) True by (cases "gn_db g") (auto simp: persistEpoch_def Let_def returnP_def)
  have "persistEpoch env g be w = bindP (uploadAndPin env g bs (er_CID er) (be_epoch be)) (\<lambda>_.
      wrapP (''save empty epoch '' @ FormatUint (be_epoch be) @ '' to db'') (call_SaveEpoch env g er 0 (be_epoch be))) w"
    using True db build mem by (simp add: persistEpoch_def Let_def bindP_def wrapP_def liftP_def)
  with assms(4) have run: "bindP (uploadAndPin env g bs (er_CID er) (be_epoch be)) (\<lambda>_.
      wrapP (''save empty epoch '' @ FormatUint (be_epoch be) @ '' to db'') (call_SaveEpoch env g er 0 (be_epoch be))) w = (r, w')"
    by simp
  show ?thesis by (rule rows_after_upload_run [OF assms(1,3) run assms(5)]) (intro moves_intros)
next
  case False
  let ?save = "if gn_db g
     then bindP (wrapP (''save epoch '' @ FormatUint (be_epoch be) @ '' to db'')
            (call_SaveEpoch env g (be_epochResult be) (go_len (be_blobResults be)) (be_epoch be))) (\<lambda>_.
          if be_fromCache be then returnP ()
          else wrapP (''save blobs epoch '' @ FormatUint (be_epoch be) @ '' to db'')
                 (call_SaveBlobs env g (be_epoch be) (ei_Blobs (be_epochInp be)) (be_blobResults be)))
     else returnP ()"
  let ?rest = "bindP ?save (\<lambda>_. if be_fromCache be then returnP ()
     else bindP (liftP (buildReferences (o_lib env) (ei_Blobs (be_epochInp be)) (be_blobResults be))) (call_NotifyBlobs env g))"
  have run: "bindP (uploadAndPin env g bs (er_CID (be_epochResult be)) (be_epoch be)) (\<lambda>_. ?rest) w = (r, w')"
    using assms(2,4) False by (simp add: persistEpoch_def epoch_store_def Let_def)
  show ?thesis by (rule rows_after_upload_run [OF assms(1,3) run assms(5)]) (intro moves_intros)
qed

definition demo_ipfs :: ipfsClient where
  "demo_ipfs = NewIpfsClient ''/ip4/127.0.0.1/tcp/5001'' 0 False 4"

definition demo_built :: builtEpoch where
  "demo_built = newBuiltEpoch 5\<lparr>be_epochResult := zeroEpochResult\<lparr>er_Epoch := 5, er_CID := demo_cid 9\<rparr>,
     be_epochBS := Some demo_mem, be_fromCache := True\<rparr>"

lemma demo_upload_ok:
  "fst (PutBlockstore lib c (\<lambda>i. demo_http) [1, 0] demo_mem) = Inr ()"
proof -
  have "mset [1 :: nat, 0] = mset [0..<length (Mem_All demo_mem)]" by (simp add: length_demo_mem numeral_2_eq_2)
  from PutBlockstore_accepts [OF this, of lib c "\<lambda>i. demo_http"] show ?thesis by (simp add: demo_http_put)
qed

theorem rows_only_after_upload_witness:
  "\<exists>new. w_node (snd (persistEpoch (demo_outside\<lparr>o_uploadOrder := \<lambda>_. [1, 0]\<rparr>) (demo_gen\<lparr>gn_ipfs := Some demo_ipfs\<rparr>) demo_built demo_world)) = new \<and>
     mset new = mset (map (put_request_of demo_ipfs) (Mem_All demo_mem))"
proof -
  let ?env = "demo_outside\<lparr>o_uploadOrder := \<lambda>_. [1, 0]\<rparr>" and ?g = "demo_gen\<lparr>gn_ipfs := Some demo_ipfs\<rparr>"
  obtain r w' where run: "persistEpoch ?env ?g demo_built demo_world = (r, w')" by fastforce
  have ipfs: "gn_ipfs ?g = Some demo_ipfs" and bs: "epoch_store ?env ?g demo_built = Some demo_mem"
    by (simp_all add: demo_built_def newBuiltEpoch_def epoch_store_def)
  have ord: "mset (o_uploadOrder ?env (w_tick demo_world)) = mset [0..<length (Mem_All demo_mem)]"
    by (simp add: length_demo_mem numeral_2_eq_2)
  have pin: "\<not> ic_PinOnAdd (cf_IPFS (gn_cfg ?g))" by (simp add: demo_gen_def zeroConfig_def)
  have up: "o_upload ?env k = (\<lambda>i. demo_http)" for k by (simp add: demo_outside_def)
  have "\<exists>w1. uploadAndPin ?env ?g demo_mem (demo_cid 9) 5 demo_world = (Inr (), w1) \<and> w_tables w1 = w_tables demo_world"
    using pin up demo_upload_ok [of cid_lib demo_ipfs]
    by (cases "PutBlockstore cid_lib demo_ipfs (\<lambda>i. demo_http) [1, 0] demo_mem")
      (simp add: uploadAndPin_def call_PutBlockstore_def bindP_def wrapP_def ask_eq)
  then obtain w1 where w1: "uploadAndPin ?env ?g demo_mem (demo_cid 9) 5 demo_world = (Inr (), w1)" "w_tables w1 = w_tables demo_world"
    by blast
  have "tb_epochs (w_tables w') \<noteq> []"
    using run w1 unfolding persistEpoch_def demo_built_def newBuiltEpoch_def
    by (auto simp: Let_def bindP_def wrapP_def call_SaveEpoch_def db_write_def ask_eq SaveEpoch_def enc_int8_def enc_int4_def
        fault_def zeroEpochResult_def go_len_def upsert_def split: if_splits)
  then have "w_tables w' \<noteq> w_tables demo_world" by (auto simp: demo_world_def schema_empty_def)
  from rows_only_after_upload [OF ipfs bs ord run this] show ?thesis unfolding run by (simp add: demo_world_def)
qed

section \<open>The blob workers\<close>

text \<open>The result of a blob does not depend on the store, so it can be computed on the null store.\<close>

definition blob_result :: "ipld_lib \<Rightarrow> BlobInput \<Rightarrow> BlobResult res" where
  "blob_result lib b = bindR (ProcessBlob lib BNull b) (\<lambda>(r, _). Inr r)"

lemma ProcessBlob_result:
  "bindR (ProcessBlob lib bs b) (\<lambda>(r, _). Inr r) = blob_result lib b"
  by (cases "blob_blocks lib b") (auto simp: blob_result_def ProcessBlob_pure)

lemma ProcessBlob_ok: "blob_result lib b = Inr r \<Longrightarrow> \<exists>bs'. ProcessBlob lib bs b = Inr (r, bs')"
  using ProcessBlob_result [of lib bs b] by (auto simp: bindR_eq_Inr)

lemma ProcessBlob_err: "blob_result lib b = Inl e \<Longrightarrow> ProcessBlob lib bs b = Inl e"
  using ProcessBlob_result [of lib bs b] by (auto simp: bindR_eq_Inl split: prod.splits)

lemma receive_all:
  assumes "\<forall>i \<in> set order. i < length blobs \<and> 16 \<le> length (bi_Commitment (blobs ! i)) \<and> blob_result lib (blobs ! i) = Inr (R i)"
    and "length results = length blobs"
  shows "\<exists>bs'. receive_results lib blobs order results bs =
    Inr (map (\<lambda>i. if i \<in> set order then R i else results ! i) [0..<length blobs], bs')"
  using assms
proof (induction order arbitrary: results bs)
  case Nil
  then show ?case by (auto intro: nth_equalityI)
next
  case (Cons i order)
  from Cons.prems obtain b1 where p: "ProcessBlob lib bs (blobs ! i) = Inr (R i, b1)" using ProcessBlob_ok [of lib "blobs ! i" "R i" bs] by auto
  have "map (\<lambda>j. if j \<in> set order then R j else results[i := R i] ! j) [0..<length blobs] =
        map (\<lambda>j. if j \<in> set (i # order) then R j else results ! j) [0..<length blobs]"
    using Cons.prems by (auto simp: nth_list_update)
  with Cons.IH [of "results[i := R i]" b1] Cons.prems p show ?case by (simp add: not_less)
qed

lemma receive_fails:
  assumes "\<exists>i \<in> set order. \<not> isOk (blob_result lib (blobs ! i))"
  shows "\<not> isOk (receive_results lib blobs order results bs)"
  using assms
proof (induction order arbitrary: results bs)
  case (Cons i order)
  show ?case
  proof (cases "blob_result lib (blobs ! i)")
    case (Inl e)
    then show ?thesis using ProcessBlob_err [of lib "blobs ! i" e bs] by simp
  next
    case (Inr r)
    then obtain b1 where "ProcessBlob lib bs (blobs ! i) = Inr (r, b1)" using ProcessBlob_ok by blast
    with Cons Inr show ?thesis by simp
  qed
qed simp

text \<open>
  C19. The concurrent workers are invisible: for a positive number of workers and commitments of at least 16
  bytes, in whatever order the results arrive, the blobs of an epoch are processed if and only if each of
  them is, and the results are those of the blobs, position by position.
\<close>

theorem processEpochBlobs_any_order:
  assumes "mset (o_blobOrder env (w_tick w)) = mset [0..<length (ei_Blobs inp)]"
    and "0 < sint (gc_Workers (cf_Generator (gn_cfg g)))"
    and "\<forall>b \<in> set (ei_Blobs inp). 16 \<le> length (bi_Commitment b)"
  shows "(isOk (fst (processEpochBlobs env g inp bs w)) \<longleftrightarrow> (\<forall>b \<in> set (ei_Blobs inp). isOk (blob_result (o_lib env) b))) \<and>
    (\<forall>results bs'. fst (processEpochBlobs env g inp bs w) = Inr (results, bs') \<longrightarrow>
       map Inr results = map (blob_result (o_lib env)) (ei_Blobs inp))"
proof -
  let ?blobs = "ei_Blobs inp" and ?lib = "o_lib env" and ?order = "o_blobOrder env (w_tick w)"
  have set: "set ?order = {..<length ?blobs}" using mset_eq_setD [OF assms(1)] by (simp add: lessThan_atLeast0)
  have run: "fst (processEpochBlobs env g inp bs w) = receive_results ?lib ?blobs ?order (replicate (length ?blobs) zeroBlobResult) bs"
    (is "_ = ?run")
  proof (cases "?blobs = []")
    case True
    with assms(1) have "?order = []" by simp
    with True show ?thesis by (simp add: processEpochBlobs_def Let_def bindP_def ask_eq)
  next
    case False
    with assms(2) show ?thesis by (auto simp: processEpochBlobs_def Let_def bindP_def ask_eq)
  qed
  show ?thesis
  proof (cases "\<forall>b \<in> set ?blobs. isOk (blob_result ?lib b)")
    case False
    then have "\<exists>i \<in> set ?order. \<not> isOk (blob_result ?lib (?blobs ! i))" by (auto simp: set in_set_conv_nth)
    from receive_fails [OF this] have "\<not> isOk ?run" .
    with False run show ?thesis by auto
  next
    case True
    define R where "R i = projr (blob_result ?lib (?blobs ! i))" for i
    have R: "blob_result ?lib (?blobs ! i) = Inr (R i)" if "i < length ?blobs" for i
      using True nth_mem [OF that] by (auto simp: R_def isOk_iff)
    then have "\<forall>i \<in> set ?order. i < length ?blobs \<and> 16 \<le> length (bi_Commitment (?blobs ! i)) \<and> blob_result ?lib (?blobs ! i) = Inr (R i)"
      using assms(3) by (auto simp: set)
    from receive_all [OF this, of "replicate (length ?blobs) zeroBlobResult" bs] obtain bs' where
      "?run = Inr (map (\<lambda>i. if i \<in> set ?order then R i else replicate (length ?blobs) zeroBlobResult ! i) [0..<length ?blobs], bs')"
      by auto
    then have "?run = Inr (map R [0..<length ?blobs], bs')" by (simp add: set cong: map_cong)
    moreover have "map Inr (map R [0..<length ?blobs]) = map (blob_result ?lib) ?blobs"
      using R by (intro nth_equalityI) simp_all
    ultimately show ?thesis using True run by auto
  qed
qed

theorem processEpochBlobs_any_order_witness:
  "\<exists>results bs'. fst (processEpochBlobs (demo_outside\<lparr>o_blobOrder := \<lambda>_. [1, 0]\<rparr>) demo_gen
     \<lparr>ei_Epoch = 1, ei_Slot = 32, ei_Blobs = map (\<lambda>d. demo_blob\<lparr>bi_Commitment := replicate 16 CHR ''c'', bi_Data := d\<rparr>) [[1], [2, 3]]\<rparr> BNull demo_world) =
     Inr (results, bs') \<and> map br_SizeBytes results = [1, 2]"
proof -
  let ?env = "demo_outside\<lparr>o_blobOrder := \<lambda>_. [1, 0]\<rparr>"
  let ?b = "\<lambda>d. demo_blob\<lparr>bi_Commitment := replicate 16 CHR ''c'', bi_Data := d\<rparr>"
  let ?inp = "\<lparr>ei_Epoch = 1, ei_Slot = 32, ei_Blobs = map ?b [[1], [2, 3]]\<rparr>"
  have ord: "mset (o_blobOrder ?env (w_tick demo_world)) = mset [0..<length (ei_Blobs ?inp)]" by simp
  have wk: "0 < sint (gc_Workers (cf_Generator (gn_cfg demo_gen)))" by (simp add: demo_gen_def zeroConfig_def)
  have cm: "\<forall>b \<in> set (ei_Blobs ?inp). 16 \<le> length (bi_Commitment b)" by simp
  have ok: "\<exists>r. blob_result cid_lib (?b d) = Inr r \<and> br_SizeBytes r = go_len d" for d
    by (simp add: blob_result_def ProcessBlob_def StoreRawBlob_def StoreBlobMetadata_def lsys_Store_def StorageWriteCommit_def
        EncoderChooser_def linkProtoRaw_def linkProtoDagCBOR_def cid_lib_def demo_lib_def metadata_entries_def)
  have "isOk (blob_result cid_lib (?b d))" for d using ok [of d] by auto
  then have "\<forall>b \<in> set (ei_Blobs ?inp). isOk (blob_result (o_lib ?env) b)" by simp
  then have "isOk (fst (processEpochBlobs ?env demo_gen ?inp BNull demo_world))"
    using processEpochBlobs_any_order [OF ord wk cm, of BNull] by blast
  then obtain results bs' where run: "fst (processEpochBlobs ?env demo_gen ?inp BNull demo_world) = Inr (results, bs')"
    by (auto simp: isOk_iff)
  with processEpochBlobs_any_order [OF ord wk cm, of BNull]
  have "map Inr results = map (blob_result cid_lib) (map ?b [[1], [2, 3]])" by simp
  then obtain r1 r2 where "results = [r1, r2]" "blob_result cid_lib (?b [1]) = Inr r1" "blob_result cid_lib (?b [2, 3]) = Inr r2"
    by (auto simp: map_eq_Cons_conv)
  with ok [of "[1]"] ok [of "[2, 3]"] have "map br_SizeBytes results = [1, 2]" by (auto simp: go_len_def)
  with run show ?thesis by (intro exI conjI) assumption+
qed

end
