(* ===== verification/Pipeline.thy ===== *)
theory Pipeline
  imports GenFacts
begin

text \<open>
  The concurrent backfill of \<^verbatim>\<open>generator/generator.go\<close> as a step relation. A state has the three channels
  (\<^verbatim>\<open>workCh\<close>, \<^verbatim>\<open>resultCh\<close>, \<^verbatim>\<open>pending\<close>) as lists with their capacities, the reorder map, the position of the
  dispatcher, of every worker, of the collector and of the consumer, the cancellation of the pipeline's context and
  the world. A step is one action of one goroutine between two of its channel operations; building and persisting
  an epoch are the programs of \<open>Generator\<close>, run at one instant. (Within the backfill, building only reads the rows of its
  own epoch, which no other goroutine writes.) A panic in a goroutine would end the process; here it is the error of that action.
\<close>

section \<open>State\<close>

type_synonym buildResult = "uint64 \<times> builtEpoch res"

datatype dispatcher = DNext uint64 | DWait | DDone

datatype worker = WIdle | WBusy uint64 | WSend buildResult | WExit

text \<open>
  \<open>CRecv\<close>: receiving from \<^verbatim>\<open>resultCh\<close>. \<open>CFlush final\<close>: looking up the next expected epoch, in the loop over the
  channel or, when \<open>final\<close>, after it was closed. \<open>CSend final r\<close>: sending to \<^verbatim>\<open>pending\<close>. \<open>CDone e\<close>: finished, with
  what was put on \<^verbatim>\<open>producerDone\<close>.
\<close>

datatype collector = CRecv | CFlush bool | CSend bool buildResult | CDone "error option"

datatype consumer = KRecv | KDrain error | KJoin "error option" | KReturn "error option"

record pipeline =
  pl_disp :: dispatcher
  pl_work :: "uint64 list"
  pl_workClosed :: bool
  pl_workers :: "worker list"
  pl_results :: "buildResult list"
  pl_resultsClosed :: bool
  pl_reorder :: "(uint64 \<times> buildResult) list"
  pl_next :: uint64
  pl_coll :: collector
  pl_pending :: "buildResult list"
  pl_pendingClosed :: bool
  pl_cons :: consumer
  pl_resume :: uint64
  pl_canceled :: bool
  pl_world :: world

definition backfill_workers :: "Generator \<Rightarrow> nat" where
  "backfill_workers g = (let k = sint (gc_BackfillEpochWorkers (cf_Generator (gn_cfg g))) in if k \<le> 0 then 1 else nat k)"

definition pipeline_start :: "Generator \<Rightarrow> uint64 \<Rightarrow> world \<Rightarrow> pipeline" where
  "pipeline_start g from w =
     \<lparr>pl_disp = DNext from, pl_work = [], pl_workClosed = False, pl_workers = replicate (backfill_workers g) WIdle,
      pl_results = [], pl_resultsClosed = False, pl_reorder = [], pl_next = from, pl_coll = CRecv, pl_pending = [],
      pl_pendingClosed = False, pl_cons = KRecv, pl_resume = from, pl_canceled = False, pl_world = w\<rparr>"

section \<open>What a worker and the consumer do with one epoch\<close>

definition worker_body :: "outside \<Rightarrow> Generator \<Rightarrow> uint64 \<Rightarrow> builtEpoch prog" where
  "worker_body env g epoch =
     (if gn_db g
      then bindP (wrapP (''backfill: check epoch '' @ FormatUint epoch)
                    (db_read env (\<lambda>flt t. EpochExists flt t (g_network g) epoch))) (\<lambda>exists.
             if exists then returnP (newBuiltEpoch epoch\<lparr>be_skip := True\<rparr>) else buildEpoch env g epoch)
      else buildEpoch env g epoch)"

definition consumer_body :: "outside \<Rightarrow> Generator \<Rightarrow> uint64 \<Rightarrow> builtEpoch \<Rightarrow> unit prog" where
  "consumer_body env g epoch be =
     bindP (if be_skip be then returnP ()
            else wrapP (''backfill: persist epoch '' @ FormatUint epoch) (persistEpoch env g be)) (\<lambda>_.
       wrapP (''backfill: set cursor '' @ FormatUint epoch) (state_SetBackfillCursor env g epoch))"

section \<open>Steps\<close>

inductive pstep :: "outside \<Rightarrow> Generator \<Rightarrow> uint64 \<Rightarrow> pipeline \<Rightarrow> pipeline \<Rightarrow> bool" for env g target where
  dispatch_send:
    "\<lbrakk>pl_disp s = DNext e; e \<le> target; length (pl_work s) < backfill_workers g\<rbrakk> \<Longrightarrow>
     pstep env g target s (s\<lparr>pl_work := pl_work s @ [e], pl_disp := DNext (e + 1)\<rparr>)"
| dispatch_cancel:
    "\<lbrakk>pl_disp s = DNext e; e \<le> target; pl_canceled s\<rbrakk> \<Longrightarrow>
     pstep env g target s (s\<lparr>pl_workClosed := True, pl_disp := DDone\<rparr>)"
| dispatch_close:
    "\<lbrakk>pl_disp s = DNext e; target < e\<rbrakk> \<Longrightarrow> pstep env g target s (s\<lparr>pl_workClosed := True, pl_disp := DWait\<rparr>)"
| dispatch_done:
    "\<lbrakk>pl_disp s = DWait; \<forall>wk \<in> set (pl_workers s). wk = WExit\<rbrakk> \<Longrightarrow>
     pstep env g target s (s\<lparr>pl_resultsClosed := True, pl_disp := DDone\<rparr>)"
| worker_take:
    "\<lbrakk>i < length (pl_workers s); pl_workers s ! i = WIdle; pl_work s = e # es\<rbrakk> \<Longrightarrow>
     pstep env g target s (s\<lparr>pl_work := es, pl_workers := (pl_workers s)[i := WBusy e]\<rparr>)"
| worker_end:
    "\<lbrakk>i < length (pl_workers s); pl_workers s ! i = WIdle; pl_work s = []; pl_workClosed s\<rbrakk> \<Longrightarrow>
     pstep env g target s (s\<lparr>pl_workers := (pl_workers s)[i := WExit]\<rparr>)"
| worker_canceled:
    "\<lbrakk>i < length (pl_workers s); pl_workers s ! i = WBusy e; pl_canceled s\<rbrakk> \<Longrightarrow>
     pstep env g target s (s\<lparr>pl_workers := (pl_workers s)[i := WSend (e, Inl ErrCanceled)]\<rparr>)"
| worker_build:
    "\<lbrakk>i < length (pl_workers s); pl_workers s ! i = WBusy e; worker_body env g e (pl_world s) = (r, w')\<rbrakk> \<Longrightarrow>
     pstep env g target s (s\<lparr>pl_workers := (pl_workers s)[i := WSend (e, r)], pl_world := w'\<rparr>)"
| worker_send:
    "\<lbrakk>i < length (pl_workers s); pl_workers s ! i = WSend (e, r); length (pl_results s) < backfill_workers g\<rbrakk> \<Longrightarrow>
     pstep env g target s (s\<lparr>pl_results := pl_results s @ [(e, r)],
                             pl_workers := (pl_workers s)[i := (if isOk r then WIdle else WExit)]\<rparr>)"
| collect:
    "\<lbrakk>pl_coll s = CRecv; pl_results s = (e, r) # rs\<rbrakk> \<Longrightarrow>
     pstep env g target s (s\<lparr>pl_results := rs, pl_reorder := AList.update e (e, r) (pl_reorder s), pl_coll := CFlush False\<rparr>)"
| collect_closed:
    "\<lbrakk>pl_coll s = CRecv; pl_results s = []; pl_resultsClosed s\<rbrakk> \<Longrightarrow> pstep env g target s (s\<lparr>pl_coll := CFlush True\<rparr>)"
| flush_some:
    "\<lbrakk>pl_coll s = CFlush final; final \<longrightarrow> pl_next s \<le> target; map_of (pl_reorder s) (pl_next s) = Some res\<rbrakk> \<Longrightarrow>
     pstep env g target s (s\<lparr>pl_reorder := AList.delete (pl_next s) (pl_reorder s), pl_coll := CSend final res\<rparr>)"
| flush_none:
    "\<lbrakk>pl_coll s = CFlush False; map_of (pl_reorder s) (pl_next s) = None\<rbrakk> \<Longrightarrow> pstep env g target s (s\<lparr>pl_coll := CRecv\<rparr>)"
| flush_end:
    "\<lbrakk>pl_coll s = CFlush True; target < pl_next s \<or> map_of (pl_reorder s) (pl_next s) = None\<rbrakk> \<Longrightarrow>
     pstep env g target s (s\<lparr>pl_coll := CDone None, pl_pendingClosed := True\<rparr>)"
| pend_ok:
    "\<lbrakk>pl_coll s = CSend final (e, Inr be); length (pl_pending s) < backfill_workers g + 1\<rbrakk> \<Longrightarrow>
     pstep env g target s (s\<lparr>pl_pending := pl_pending s @ [(e, Inr be)], pl_next := pl_next s + 1, pl_coll := CFlush final\<rparr>)"
| pend_err:
    "\<lbrakk>pl_coll s = CSend final (e, Inl err); length (pl_pending s) < backfill_workers g + 1\<rbrakk> \<Longrightarrow>
     pstep env g target s (s\<lparr>pl_pending := pl_pending s @ [(e, Inl err)], pl_coll := CDone None, pl_pendingClosed := True\<rparr>)"
| pend_canceled:
    "\<lbrakk>pl_coll s = CSend final res; pl_canceled s\<rbrakk> \<Longrightarrow>
     pstep env g target s (s\<lparr>pl_coll := CDone (Some ErrCanceled), pl_pendingClosed := True\<rparr>)"
| consume_err:
    "\<lbrakk>pl_cons s = KRecv; pl_pending s = (e, Inl err) # js\<rbrakk> \<Longrightarrow>
     pstep env g target s (s\<lparr>pl_pending := js, pl_canceled := True, pl_cons := KDrain err\<rparr>)"
| consume_ok:
    "\<lbrakk>pl_cons s = KRecv; pl_pending s = (e, Inr be) # js; consumer_body env g e be (pl_world s) = (Inr u, w')\<rbrakk> \<Longrightarrow>
     pstep env g target s (s\<lparr>pl_pending := js, pl_world := w', pl_resume := e + 1\<rparr>)"
| consume_fail:
    "\<lbrakk>pl_cons s = KRecv; pl_pending s = (e, Inr be) # js; consumer_body env g e be (pl_world s) = (Inl err, w')\<rbrakk> \<Longrightarrow>
     pstep env g target s (s\<lparr>pl_pending := js, pl_world := w', pl_canceled := True, pl_cons := KDrain err\<rparr>)"
| consume_end:
    "\<lbrakk>pl_cons s = KRecv; pl_pending s = []; pl_pendingClosed s\<rbrakk> \<Longrightarrow> pstep env g target s (s\<lparr>pl_cons := KJoin None\<rparr>)"
| drain:
    "\<lbrakk>pl_cons s = KDrain err; pl_pending s = j # js\<rbrakk> \<Longrightarrow> pstep env g target s (s\<lparr>pl_pending := js\<rparr>)"
| drain_end:
    "\<lbrakk>pl_cons s = KDrain err; pl_pending s = []; pl_pendingClosed s\<rbrakk> \<Longrightarrow>
     pstep env g target s (s\<lparr>pl_cons := KJoin (Some err)\<rparr>)"
| join:
    "\<lbrakk>pl_cons s = KJoin failed; pl_disp s = DDone; pl_coll s = CDone perr\<rbrakk> \<Longrightarrow>
     pstep env g target s (s\<lparr>pl_cons := KReturn (case failed of Some err \<Rightarrow> Some err | None \<Rightarrow> perr)\<rparr>)"
| cancel:
    "\<not> pl_canceled s \<Longrightarrow> pstep env g target s (s\<lparr>pl_canceled := True\<rparr>)"

section \<open>Invariants\<close>

text \<open>The results on their way from a worker to the consumer, and the epochs that wait for a result.\<close>

definition flight :: "pipeline \<Rightarrow> buildResult set" where
  "flight s = {x. WSend x \<in> set (pl_workers s)} \<union> set (pl_results s) \<union> snd ` set (pl_reorder s) \<union>
     {x. \<exists>final. pl_coll s = CSend final x} \<union> set (pl_pending s)"

definition waiting :: "pipeline \<Rightarrow> uint64 set" where
  "waiting s = set (pl_work s) \<union> {e. WBusy e \<in> set (pl_workers s)}"

definition good_result :: "tables \<Rightarrow> buildResult \<Rightarrow> bool" where
  "good_result t x =
     (case snd x of
        Inl _ \<Rightarrow> True
      | Inr be \<Rightarrow> be_epoch be = fst x \<and> (be_skip be \<longrightarrow> uint (fst x) \<in> has_epochs t) \<and>
                  (be_skip be \<or> be_empty be \<or> er_Epoch (be_epochResult be) = fst x))"

definition inv_items :: "uint64 \<Rightarrow> pipeline \<Rightarrow> bool" where
  "inv_items target s \<longleftrightarrow> (\<forall>x \<in> flight s. good_result (w_tables (pl_world s)) x \<and> fst x \<le> target) \<and>
     (\<forall>e \<in> waiting s. e \<le> target) \<and> (\<forall>(k, x) \<in> set (pl_reorder s). fst x = k)"

text \<open>The consumer gets the epochs in order: what is pending continues where the consumer will resume.\<close>

definition inv_order :: "pipeline \<Rightarrow> bool" where
  "inv_order s \<longleftrightarrow> (\<forall>final x. pl_coll s = CSend final x \<longrightarrow> fst x = pl_next s) \<and> (pl_cons s = KRecv \<longrightarrow>
     (\<forall>i < length (pl_pending s). uint (fst (pl_pending s ! i)) = uint (pl_resume s) + int i) \<and>
     ((\<exists>e. pl_coll s = CDone e) \<or> uint (pl_next s) = uint (pl_resume s) + int (length (pl_pending s))))"

definition inv_done :: "string \<Rightarrow> uint64 \<Rightarrow> tables \<Rightarrow> pipeline \<Rightarrow> bool" where
  "inv_done n from t0 s \<longleftrightarrow> rows_ok n (w_tables (pl_world s)) \<and> has_epochs t0 \<subseteq> has_epochs (w_tables (pl_world s)) \<and>
     from \<le> pl_resume s \<and> (\<forall>e. from \<le> e \<and> e < pl_resume s \<longrightarrow> uint e \<in> has_epochs (w_tables (pl_world s))) \<and>
     map_of (tb_state (w_tables (pl_world s))) (backfill_key n) =
       (if pl_resume s = from then map_of (tb_state t0) (backfill_key n) else Some (uint (pl_resume s) - 1))"

lemma in_set_update: "x \<in> set (xs[i := y]) \<Longrightarrow> x = y \<or> x \<in> set xs"
  by (meson in_mono insert_iff set_update_subset_insert)

lemma update_entries: "x \<in> set (AList.update k v al) \<Longrightarrow> x = (k, v) \<or> x \<in> set al"
  by (induction al) (auto split: if_splits)

lemma delete_entries: "x \<in> set (AList.delete k al) \<Longrightarrow> x \<in> set al"
  by (auto simp: AList.delete_eq)

lemma good_result_ext: "good_result t x \<Longrightarrow> has_epochs t \<subseteq> has_epochs t' \<Longrightarrow> good_result t' x"
  by (auto simp: good_result_def split: sum.splits)

text \<open>No step but a worker's result brings a new item, and no step but the consumer's changes the tables.\<close>

lemma flight_step:
  assumes "pstep env g target s s'"
  shows "(\<forall>x \<in> flight s'. x \<in> flight s \<or> (\<exists>e r w'. x = (e, r) \<and> e \<in> waiting s \<and>
            (r = Inl ErrCanceled \<or> worker_body env g e (pl_world s) = (r, w')))) \<and>
         (\<forall>e \<in> waiting s'. e \<in> waiting s \<or> e \<le> target) \<and>
         (\<forall>(k, x) \<in> set (pl_reorder s'). (k, x) \<in> set (pl_reorder s) \<or> fst x = k)"
  using assms
proof cases
  case (flush_some final res)
  then have "res \<in> snd ` set (pl_reorder s)" by (force dest: map_of_SomeD)
  with flush_some show ?thesis by (auto simp: flight_def waiting_def dest!: delete_entries)
qed (auto simp: flight_def waiting_def dest!: in_set_update update_entries dest: nth_mem split: if_splits)

lemma worker_body_good:
  assumes "worker_body env g e w = (r, w')" and "rows_ok (g_network g) (w_tables w)"
  shows "good_result (w_tables w') (e, r) \<and> w_tables w' = w_tables w"
proof -
  have "moves (\<lambda>w w'. w_tables w' = w_tables w) (worker_body env g e)"
    unfolding worker_body_def by (intro moves_intros)
  from movesD [OF this assms(1)] have t: "w_tables w' = w_tables w" .
  show ?thesis
  proof (cases r)
    case (Inr be)
    have row: "uint e \<in> has_epochs t" if "EpochExists flt t n e = Inr True" for flt t n
      using that by (auto simp: EpochExists_def bindR_eq_Inr enc_int8_def has_epochs_def split: if_splits intro!: rev_image_eqI)
    have "good_result (w_tables w) (e, Inr be)"
      using assms(1) unfolding Inr worker_body_def
      by (auto simp: bindP_Inr db_read_def good_result_def newBuiltEpoch_def row dest!: buildEpoch_epoch split: if_splits)
    with t Inr show ?thesis by simp
  qed (simp add: good_result_def t)
qed

lemma SetBackfill_run:
  assumes "state_SetBackfillCursor env g epoch w = (r, w')" and "gn_db g"
  shows "(\<exists>e. r = Inl e \<and> w_tables w' = w_tables w) \<or>
    (r = Inr () \<and> w_tables w' = set_cursor (backfill_key (g_network g)) (uint epoch) (w_tables w))"
proof -
  from assms obtain flt t where t: "DB_SetBackfillCursor flt (g_network g) (w_tables w) epoch = (r, t)" "w_tables w' = t"
    by (auto simp: state_SetBackfillCursor_def db_write_def bindP_def ask_eq split: prod.splits)
  from DB_SetBackfill_cases [OF t(1)] t(2) show ?thesis by (auto simp: enc_int8_def split: if_splits)
qed

lemma consumer_body_run:
  assumes "consumer_body env g e be w = (r, w')" and "gn_db g" and "rows_ok (g_network g) (w_tables w)"
    and "good_result (w_tables w) (e, Inr be)"
  shows "rows_ok (g_network g) (w_tables w') \<and> has_epochs (w_tables w) \<subseteq> has_epochs (w_tables w') \<and>
    (isOk r \<longrightarrow> uint e \<in> has_epochs (w_tables w')) \<and>
    map_of (tb_state (w_tables w')) (backfill_key (g_network g)) =
      (if isOk r then Some (uint e) else map_of (tb_state (w_tables w)) (backfill_key (g_network g)))"
proof -
  let ?p = "if be_skip be then returnP () else wrapP (''backfill: persist epoch '' @ FormatUint e) (persistEpoch env g be)"
  obtain r1 w1 where p: "?p w = (r1, w1)" by fastforce
  have "moves (epoch_ext (g_network g)) ?p" by (intro moves_intros)
  from movesD [OF this p] assms(3) have x: "rows_ok (g_network g) (w_tables w1)" "has_epochs (w_tables w) \<subseteq> has_epochs (w_tables w1)"
    "tb_state (w_tables w1) = tb_state (w_tables w)" by (simp_all add: epoch_ext_def table_ext_def)
  show ?thesis
  proof (cases r1)
    case (Inl err)
    with p assms(1) have "w' = w1 \<and> \<not> isOk r" by (auto simp: consumer_body_def bindP_def)
    with x show ?thesis by simp
  next
    case (Inr u)
    have e: "uint e \<in> has_epochs (w_tables w1)"
    proof (cases "be_skip be")
      case True
      with assms(4) x(2) show ?thesis by (auto simp: good_result_def)
    next
      case False
      with p Inr have "persistEpoch env g be w = (Inr u, w1)" by simp
      from persistEpoch_has [OF this assms(2) _ assms(3)] assms(4) False show ?thesis by (auto simp: good_result_def)
    qed
    have s: "wrapP (''backfill: set cursor '' @ FormatUint e) (state_SetBackfillCursor env g e) w1 = (r, w')"
      using p Inr assms(1) by (simp add: consumer_body_def bindP_def)
    then obtain r2 where r2: "state_SetBackfillCursor env g e w1 = (r2, w')" "isOk r = isOk r2"
      by (auto simp: wrapP_def split: prod.splits)
    from SetBackfill_run [OF r2(1) assms(2)] show ?thesis
    proof
      assume "\<exists>err. r2 = Inl err \<and> w_tables w' = w_tables w1"
      with x r2(2) show ?thesis by auto
    next
      assume "r2 = Inr () \<and> w_tables w' = set_cursor (backfill_key (g_network g)) (uint e) (w_tables w1)"
      with x r2(2) e show ?thesis by (simp add: rows_ok_def set_cursor_wf has_epochs_def)
    qed
  qed
qed


lemma tables_step:
  assumes "pstep env g target s s'" and "gn_db g" and "rows_ok (g_network g) (w_tables (pl_world s))" and "inv_items target s"
  shows "rows_ok (g_network g) (w_tables (pl_world s')) \<and> has_epochs (w_tables (pl_world s)) \<subseteq> has_epochs (w_tables (pl_world s'))"
  using assms(1)
proof cases
  case (worker_build i e r w')
  with worker_body_good [OF worker_build(4) assms(3)] assms(3) show ?thesis by simp
next
  case (consume_ok e be js u w')
  then have "(e, Inr be) \<in> flight s" by (simp add: flight_def)
  with assms(4) have "good_result (w_tables (pl_world s)) (e, Inr be)" by (auto simp: inv_items_def)
  from consumer_body_run [OF consume_ok(4) assms(2,3) this] consume_ok show ?thesis by simp
next
  case (consume_fail e be js err w')
  then have "(e, Inr be) \<in> flight s" by (simp add: flight_def)
  with assms(4) have "good_result (w_tables (pl_world s)) (e, Inr be)" by (auto simp: inv_items_def)
  from consumer_body_run [OF consume_fail(4) assms(2,3) this] consume_fail show ?thesis by simp
qed (simp_all add: assms(3))

lemma inv_items_step:
  assumes "pstep env g target s s'" and "gn_db g" and "rows_ok (g_network g) (w_tables (pl_world s))" and "inv_items target s"
  shows "inv_items target s'"
proof -
  note sub = tables_step [OF assms, THEN conjunct2] and fs = flight_step [OF assms(1)]
  have "good_result (w_tables (pl_world s')) x \<and> fst x \<le> target" if "x \<in> flight s'" for x
  proof (cases "x \<in> flight s")
    case True
    with assms(4) sub show ?thesis by (auto simp: inv_items_def intro: good_result_ext)
  next
    case False
    with that fs obtain e r w' where x: "x = (e, r)" "e \<in> waiting s"
      and r: "r = Inl ErrCanceled \<or> worker_body env g e (pl_world s) = (r, w')" by blast
    have "e \<le> target" using x(2) assms(4) by (auto simp: inv_items_def)
    moreover have "good_result (w_tables (pl_world s')) (e, r)"
      using r
    proof
      assume "worker_body env g e (pl_world s) = (r, w')"
      from worker_body_good [OF this assms(3)] have "good_result (w_tables (pl_world s)) (e, r)" by metis
      with sub show ?thesis by (auto intro: good_result_ext)
    qed (simp add: good_result_def)
    ultimately show ?thesis using x by simp
  qed
  moreover have "\<forall>e \<in> waiting s'. e \<le> target" using fs assms(4) by (auto simp: inv_items_def)
  moreover have "\<forall>(k, x) \<in> set (pl_reorder s'). fst x = k" using fs assms(4) by (fastforce simp: inv_items_def)
  ultimately show ?thesis by (simp add: inv_items_def)
qed

lemma uint_Suc_word: "(e :: uint64) \<le> target \<Longrightarrow> target < maxUint64 \<Longrightarrow> uint (e + 1) = uint e + 1"
proof -
  assume "e \<le> target" "target < maxUint64"
  then have "e < maxUint64" by simp
  then have "uint e < uint (maxUint64)" by (simp only: word_less_def)
  moreover have "uint maxUint64 = 2 ^ 64 - 1" by (simp add: uint_word_ariths)
  ultimately have "uint e + 1 < 2 ^ 64" by simp
  then show ?thesis using uint_ge_0 [of e] by (simp add: uint_word_ariths)
qed

lemma inv_order_step:
  assumes "pstep env g target s s'" and "inv_items target s" and "inv_order s" and "target < maxUint64"
  shows "inv_order s'"
  using assms(1)
proof cases
  case (flush_some final res)
  then have "(pl_next s, res) \<in> set (pl_reorder s)" by (auto dest: map_of_SomeD)
  with assms(2) have "fst res = pl_next s" by (auto simp: inv_items_def)
  with flush_some assms(3) show ?thesis by (auto simp: inv_order_def)
next
  case (pend_ok final e be)
  have "(e, Inr be) \<in> flight s" using pend_ok by (auto simp: flight_def)
  with assms(2) have "e \<le> target" by (auto simp: inv_items_def)
  then have "uint (e + 1) = uint e + 1" using assms(4) by (rule uint_Suc_word)
  moreover have "e = pl_next s" if "pl_cons s = KRecv" using assms(3) pend_ok that by (fastforce simp: inv_order_def)
  ultimately show ?thesis using pend_ok assms(3) by (auto simp: inv_order_def nth_append less_Suc_eq)
next
  case (pend_err final e err)
  then show ?thesis using assms(3) by (auto simp: inv_order_def nth_append less_Suc_eq)
next
  case (consume_ok e be js u w')
  have "(e, Inr be) \<in> flight s" using consume_ok by (auto simp: flight_def)
  with assms(2) have "e \<le> target" by (auto simp: inv_items_def)
  then have e1: "uint (e + 1) = uint e + 1" using assms(4) by (rule uint_Suc_word)
  have nth: "uint (fst (pl_pending s ! i)) = uint (pl_resume s) + int i" if "i < length (pl_pending s)" for i
    using assms(3) consume_ok that by (simp add: inv_order_def)
  have e: "uint e = uint (pl_resume s)" using nth [of 0] consume_ok by simp
  have "uint (fst (js ! i)) = uint (e + 1) + int i" if "i < length js" for i
    using nth [of "Suc i"] that consume_ok e e1 by simp
  then show ?thesis using consume_ok assms(3) e e1 by (auto simp: inv_order_def)
qed (use assms(3) in \<open>auto simp: inv_order_def\<close>)

lemma inv_done_step:
  assumes "pstep env g target s s'" and "gn_db g" and "inv_items target s" and "inv_order s" and "target < maxUint64"
    and "inv_done (g_network g) from t0 s"
  shows "inv_done (g_network g) from t0 s'"
proof -
  have ok: "rows_ok (g_network g) (w_tables (pl_world s))" using assms(6) by (simp add: inv_done_def)
  show ?thesis using assms(1)
  proof cases
    case (worker_build i e r w')
    with worker_body_good [OF worker_build(4) ok] assms(6) show ?thesis by (simp add: inv_done_def)
  next
    case (consume_fail e be js err w')
    then have "(e, Inr be) \<in> flight s" by (simp add: flight_def)
    with assms(3) have "good_result (w_tables (pl_world s)) (e, Inr be)" by (auto simp: inv_items_def)
    from consumer_body_run [OF consume_fail(4) assms(2) ok this] consume_fail assms(6) show ?thesis by (auto simp: inv_done_def)
  next
    case (consume_ok e be js u w')
    then have "(e, Inr be) \<in> flight s" by (simp add: flight_def)
    with assms(3) have it: "good_result (w_tables (pl_world s)) (e, Inr be)" "e \<le> target" by (auto simp: inv_items_def)
    note run = consumer_body_run [OF consume_ok(4) assms(2) ok it(1)]
    have e1: "uint (e + 1) = uint e + 1" using it(2) assms(5) by (rule uint_Suc_word)
    have "\<forall>i < length (pl_pending s). uint (fst (pl_pending s ! i)) = uint (pl_resume s) + int i"
      using assms(4) consume_ok by (simp add: inv_order_def)
    from this [rule_format, of 0] consume_ok have "uint e = uint (pl_resume s)" by simp
    then have e: "e = pl_resume s" by (simp add: word_uint_eq_iff)
    have split: "x \<le> e \<longleftrightarrow> x < e + 1" for x using e1 by (auto simp: word_le_def word_less_def)
    have le: "from \<le> e" using assms(6) e by (simp add: inv_done_def)
    then have ne: "e + 1 \<noteq> from" "from \<le> e + 1" using split [of "from"] by auto
    have rows: "uint x \<in> has_epochs (w_tables w')" if "from \<le> x" "x < e + 1" for x
    proof (cases "x = e")
      case False
      have "x \<le> e" using that(2) split [of x] by blast
      with False have "x < pl_resume s" using e by simp
      with that(1) assms(6) have "uint x \<in> has_epochs (w_tables (pl_world s))" by (simp add: inv_done_def)
      with run show ?thesis by blast
    qed (use run in simp)
    show ?thesis using consume_ok run ne rows assms(6) e1 by (auto simp: inv_done_def)
  qed (use assms(6) in \<open>simp_all add: inv_done_def\<close>)
qed

definition pipe_inv :: "Generator \<Rightarrow> uint64 \<Rightarrow> uint64 \<Rightarrow> tables \<Rightarrow> pipeline \<Rightarrow> bool" where
  "pipe_inv g from target t0 s \<longleftrightarrow> inv_items target s \<and> inv_order s \<and> inv_done (g_network g) from t0 s"

lemma pipe_inv_start: "rows_ok (g_network g) (w_tables w) \<Longrightarrow> pipe_inv g from target (w_tables w) (pipeline_start g from w)"
  by (auto simp: pipe_inv_def inv_items_def inv_order_def inv_done_def pipeline_start_def flight_def waiting_def)

lemma pipe_inv_run:
  assumes "(pstep env g target)\<^sup>*\<^sup>* s s'" and "pipe_inv g from target t0 s" and "gn_db g" and "target < maxUint64"
  shows "pipe_inv g from target t0 s'"
  using assms(1,2)
proof (induction rule: rtranclp_induct)
  case (step y z)
  then have i: "inv_items target y" "inv_order y" "inv_done (g_network g) from t0 y"
    and ok: "rows_ok (g_network g) (w_tables (pl_world y))" by (auto simp: pipe_inv_def inv_done_def)
  from inv_items_step [OF step(2) assms(3) ok i(1)] inv_order_step [OF step(2) i(1,2) assms(4)]
    inv_done_step [OF step(2) assms(3) i(1,2) assms(4) i(3)] show ?case by (simp add: pipe_inv_def)
qed

section \<open>Termination\<close>

text \<open>
  A weight that every step lowers: an epoch is heavier the further it is from the consumer, and the positions of the
  goroutines are numbered towards their end.
\<close>

fun disp_weight :: "uint64 \<Rightarrow> dispatcher \<Rightarrow> nat" where
  "disp_weight target (DNext e) = 9 * (Suc (unat target) - unat e) + 2"
| "disp_weight target DWait = 1"
| "disp_weight target DDone = 0"

fun worker_weight :: "worker \<Rightarrow> nat" where
  "worker_weight WIdle = 1"
| "worker_weight (WBusy e) = 8"
| "worker_weight (WSend r) = 7"
| "worker_weight WExit = 0"

fun coll_weight :: "collector \<Rightarrow> nat" where
  "coll_weight CRecv = 2"
| "coll_weight (CFlush final) = (if final then 1 else 3)"
| "coll_weight (CSend final r) = (if final then 3 else 5)"
| "coll_weight (CDone e) = 0"

fun cons_weight :: "consumer \<Rightarrow> nat" where
  "cons_weight KRecv = 3"
| "cons_weight (KDrain err) = 2"
| "cons_weight (KJoin e) = 1"
| "cons_weight (KReturn e) = 0"

definition pipe_weight :: "uint64 \<Rightarrow> pipeline \<Rightarrow> nat" where
  "pipe_weight target s = disp_weight target (pl_disp s) + 8 * length (pl_work s) + sum_list (map worker_weight (pl_workers s)) +
     5 * length (pl_results s) + 3 * length (pl_reorder s) + coll_weight (pl_coll s) + length (pl_pending s) +
     cons_weight (pl_cons s) + (if pl_canceled s then 0 else 1)"

lemma sum_list_map_update:
  "i < length xs \<Longrightarrow> sum_list (map f (xs[i := y])) + (f (xs ! i) :: nat) = sum_list (map f xs) + f y"
  by (induction xs arbitrary: i) (auto split: nat.splits)

lemma length_AList_update: "length (AList.update k v al) \<le> Suc (length al)"
  by (induction al) auto

lemma length_AList_delete: "map_of al k = Some v \<Longrightarrow> length (AList.delete k al) < length al"
proof (induction al)
  case (Cons p al)
  show ?case
  proof (cases "fst p = k")
    case True
    then show ?thesis using AList.length_delete_le [of k al] by simp
  qed (use Cons in simp)
qed simp

lemma unat_Suc_word: "(e :: uint64) \<le> target \<Longrightarrow> target < maxUint64 \<Longrightarrow> unat (e + 1) = Suc (unat e)"
proof -
  assume "e \<le> target" "target < maxUint64"
  then have "int (unat (e + 1)) = int (unat e) + 1" using uint_Suc_word by (simp only: uint_nat)
  then show ?thesis by linarith
qed

lemma pstep_weight:
  assumes "pstep env g target s s'" and "target < maxUint64"
  shows "pipe_weight target s' < pipe_weight target s"
  using assms(1)
proof cases
  case (dispatch_send e)
  moreover have "unat e \<le> unat target" using dispatch_send by (simp add: word_le_nat_alt)
  ultimately show ?thesis using unat_Suc_word [OF dispatch_send(3) assms(2)] by (simp add: pipe_weight_def)
next
  case (worker_take i e es)
  with sum_list_map_update [of i "pl_workers s" worker_weight "WBusy e"] show ?thesis by (simp add: pipe_weight_def)
next
  case (worker_end i)
  with sum_list_map_update [of i "pl_workers s" worker_weight WExit] show ?thesis by (simp add: pipe_weight_def)
next
  case (worker_canceled i e)
  with sum_list_map_update [of i "pl_workers s" worker_weight "WSend (e, Inl ErrCanceled)"]
  show ?thesis by (simp add: pipe_weight_def)
next
  case (worker_build i e r w')
  with sum_list_map_update [of i "pl_workers s" worker_weight "WSend (e, r)"] show ?thesis by (simp add: pipe_weight_def)
next
  case (worker_send i e r)
  with sum_list_map_update [of i "pl_workers s" worker_weight "if isOk r then WIdle else WExit"]
  show ?thesis by (simp add: pipe_weight_def split: if_splits)
next
  case (collect e r rs)
  with length_AList_update [of e "(e, r)" "pl_reorder s"] show ?thesis by (simp add: pipe_weight_def)
next
  case (flush_some final res)
  with length_AList_delete [OF flush_some(4)] show ?thesis by (simp add: pipe_weight_def)
qed (simp_all add: pipe_weight_def)

lemma pipe_weight_start: "pipe_weight target (pipeline_start g from w) = 9 * (Suc (unat target) - unat from) + backfill_workers g + 8"
  by (simp add: pipe_weight_def pipeline_start_def sum_list_replicate)

lemma relpowp_weight:
  assumes "\<And>s s'. R s s' \<Longrightarrow> (f s' :: nat) < f s"
  shows "(R ^^ n) s s' \<Longrightarrow> n + f s' \<le> f s"
  by (induction n arbitrary: s') (force dest: assms)+

section \<open>Every dispatched epoch is at one place\<close>

fun held :: "worker \<Rightarrow> uint64 list" where
  "held (WBusy e) = [e]"
| "held (WSend r) = [fst r]"
| "held WIdle = []"
| "held WExit = []"

fun coll_held :: "collector \<Rightarrow> uint64 list" where
  "coll_held (CSend final r) = [fst r]"
| "coll_held CRecv = []"
| "coll_held (CFlush final) = []"
| "coll_held (CDone e) = []"

text \<open>The epochs between the dispatcher and \<^verbatim>\<open>pending\<close>.\<close>

definition upstream :: "pipeline \<Rightarrow> uint64 list" where
  "upstream s = pl_work s @ concat (map held (pl_workers s)) @ map fst (pl_results s) @ map fst (pl_reorder s) @ coll_held (pl_coll s)"

text \<open>
  \<open>u\<close> is the epoch the dispatcher has come to. The epochs from the next expected one to \<open>u\<close> are each at exactly one
  place, and the last of them are those still in \<^verbatim>\<open>workCh\<close>.
\<close>

definition coll_done :: "pipeline \<Rightarrow> bool" where
  "coll_done s \<longleftrightarrow> (\<exists>e. pl_coll s = CDone e)"

definition dispatched_to :: "uint64 \<Rightarrow> int \<Rightarrow> pipeline \<Rightarrow> bool" where
  "dispatched_to target u s \<longleftrightarrow> (\<forall>d. pl_disp s = DNext d \<longrightarrow> u = uint d) \<and>
     (pl_disp s = DWait \<or> pl_resultsClosed s \<longrightarrow> u = uint target + 1) \<and> u \<le> uint target + 1 \<and>
     map uint (pl_work s) = [u - int (length (pl_work s)) .. u - 1]"

definition inv_once :: "uint64 \<Rightarrow> pipeline \<Rightarrow> bool" where
  "inv_once target s \<longleftrightarrow> (\<exists>u. dispatched_to target u s \<and> (\<not> coll_done s \<longrightarrow> uint (pl_next s) \<le> u \<and> mset (map uint (upstream s)) = mset [uint (pl_next s) .. u - 1]))"

text \<open>Where the goroutines are, and what is closed and canceled then.\<close>

definition inv_flags :: "Generator \<Rightarrow> pipeline \<Rightarrow> bool" where
  "inv_flags g s \<longleftrightarrow> length (pl_workers s) = backfill_workers g \<and>
     (pl_workClosed s \<longleftrightarrow> pl_disp s = DWait \<or> pl_disp s = DDone) \<and>
     (pl_resultsClosed s \<longrightarrow> pl_disp s = DDone \<and> (\<forall>wk \<in> set (pl_workers s). wk = WExit)) \<and>
     (pl_disp s = DDone \<longrightarrow> pl_resultsClosed s \<or> pl_canceled s) \<and>
     (pl_coll s = CFlush True \<or> (\<exists>r. pl_coll s = CSend True r) \<longrightarrow> pl_resultsClosed s \<and> pl_results s = []) \<and>
     (pl_coll s = CRecv \<longrightarrow> map_of (pl_reorder s) (pl_next s) = None) \<and>
     (pl_pendingClosed s \<longleftrightarrow> coll_done s) \<and>
     ((\<exists>err. pl_cons s = KDrain err \<or> pl_cons s = KJoin (Some err)) \<longrightarrow> pl_canceled s) \<and>
     ((\<exists>e. pl_cons s = KJoin e \<or> pl_cons s = KReturn e) \<longrightarrow> pl_pending s = [] \<and> coll_done s)"

text \<open>A worker only leaves work behind after it has sent an error.\<close>

definition upitems :: "pipeline \<Rightarrow> buildResult set" where
  "upitems s = {x. WSend x \<in> set (pl_workers s)} \<union> set (pl_results s) \<union> snd ` set (pl_reorder s) \<union>
     {x. \<exists>final. pl_coll s = CSend final x}"

definition inv_err :: "pipeline \<Rightarrow> bool" where
  "inv_err s \<longleftrightarrow> (\<not> coll_done s \<and> WExit \<in> set (pl_workers s) \<and> \<not> (pl_workClosed s \<and> pl_work s = []) \<longrightarrow>
     (\<exists>x \<in> upitems s. \<not> isOk (snd x)))"

text \<open>Without a cancellation the collector finishes after everything is delivered or after an error is delivered.\<close>

definition inv_end :: "uint64 \<Rightarrow> pipeline \<Rightarrow> bool" where
  "inv_end target s \<longleftrightarrow>
     (pl_coll s = CDone None \<and> pl_cons s = KRecv \<longrightarrow>
        (\<exists>x \<in> set (pl_pending s). \<not> isOk (snd x)) \<or>
        (pl_resultsClosed s \<and> uint (pl_resume s) + int (length (pl_pending s)) = uint target + 1)) \<and>
     (pl_coll s = CDone None \<and> pl_cons s = KJoin None \<longrightarrow> pl_resultsClosed s \<and> uint (pl_resume s) = uint target + 1) \<and>
     (pl_cons s = KReturn None \<longrightarrow> uint (pl_resume s) = uint target + 1) \<and>
     (\<forall>e. pl_coll s = CDone (Some e) \<longrightarrow> pl_canceled s)"

lemma backfill_workers_pos: "0 < backfill_workers g"
  by (auto simp: backfill_workers_def Let_def)

lemma mset_held_update:
  "i < length ws \<Longrightarrow> mset (concat (map held (ws[i := v]))) + mset (held (ws ! i)) = mset (concat (map held ws)) + mset (held v)"
proof (induction ws arbitrary: i)
  case (Cons x ws)
  show ?case
  proof (cases i)
    case (Suc j)
    with Cons have "mset (concat (map held (ws[j := v]))) + mset (held (ws ! j)) = mset (concat (map held ws)) + mset (held v)" by simp
    with Suc show ?thesis by (simp add: ac_simps)
  qed simp
qed simp

lemma mset_AList_update: "k \<notin> fst ` set al \<Longrightarrow> mset (AList.update k v al) = add_mset (k, v) (mset al)"
  by (induction al) auto

lemma mset_AList_delete:
  assumes "distinct (map fst al)" and "map_of al k = Some v"
  shows "mset al = add_mset (k, v) (mset (AList.delete k al))"
  using assms
proof (induction al)
  case (Cons p al)
  then show ?case by (cases p) (auto simp: AList.delete_id split: if_splits)
qed simp

lemma open_results: "inv_flags g s \<Longrightarrow> i < length (pl_workers s) \<Longrightarrow> pl_workers s ! i \<noteq> WExit \<Longrightarrow> \<not> pl_resultsClosed s"
  by (auto simp: inv_flags_def)

lemma inv_flags_step:
  assumes "pstep env g target s s'" and "inv_flags g s"
  shows "inv_flags g s'"
  using assms(1)
proof cases
  case (worker_take i e es)
  with open_results [OF assms(2), of i] have "\<not> pl_resultsClosed s" by simp
  with worker_take assms(2) show ?thesis by (simp add: inv_flags_def coll_done_def)
next
  case (worker_canceled i e)
  with open_results [OF assms(2), of i] have "\<not> pl_resultsClosed s" by simp
  with worker_canceled assms(2) show ?thesis by (simp add: inv_flags_def coll_done_def)
next
  case (worker_build i e r w')
  with open_results [OF assms(2), of i] have "\<not> pl_resultsClosed s" by simp
  with worker_build assms(2) show ?thesis by (simp add: inv_flags_def coll_done_def)
next
  case (worker_send i e r)
  with open_results [OF assms(2), of i] have "\<not> pl_resultsClosed s" by simp
  with worker_send assms(2) show ?thesis by (simp add: inv_flags_def coll_done_def)
next
  case (worker_end i)
  with assms(2) show ?thesis by (auto simp: inv_flags_def coll_done_def dest!: in_set_update)
next
  case (collect e r rs)
  with assms(2) show ?thesis by (auto simp: inv_flags_def coll_done_def)
qed (use assms(2) in \<open>auto simp: inv_flags_def coll_done_def\<close>)

lemma upstream_distinct: "inv_once target s \<Longrightarrow> \<not> coll_done s \<Longrightarrow> distinct (upstream s)"
proof -
  assume "inv_once target s" "\<not> coll_done s"
  then obtain u where "mset (map uint (upstream s)) = mset [uint (pl_next s) .. u - 1]" by (auto simp: inv_once_def)
  then have "distinct (map uint (upstream s))" by (metis distinct_upto mset_eq_imp_distinct_iff)
  then show ?thesis by (simp add: distinct_map)
qed

text \<open>What a step does to the epochs under way: only the dispatcher adds one and only the collector removes one.\<close>

lemma upstream_step:
  assumes "pstep env g target s s'" and "inv_items target s" and "inv_once target s" and "\<not> coll_done s'"
  shows "\<not> coll_done s \<and>
    (mset (upstream s') = mset (upstream s) \<and> pl_next s' = pl_next s \<or>
     (\<exists>d. pl_disp s = DNext d \<and> pl_disp s' = DNext (d + 1)) \<or>
     (\<exists>e be final. pl_coll s = CSend final (e, Inr be) \<and> mset (upstream s) = add_mset e (mset (upstream s')) \<and> pl_next s' = pl_next s + 1))"
  using assms(1)
proof cases
  case (worker_take i e es)
  with mset_held_update [of i "pl_workers s" "WBusy e"] assms(4) show ?thesis by (simp add: upstream_def coll_done_def)
next
  case (worker_end i)
  with mset_held_update [of i "pl_workers s" WExit] assms(4) show ?thesis by (simp add: upstream_def coll_done_def)
next
  case (worker_canceled i e)
  with mset_held_update [of i "pl_workers s" "WSend (e, Inl ErrCanceled)"] assms(4) show ?thesis by (simp add: upstream_def coll_done_def)
next
  case (worker_build i e r w')
  with mset_held_update [of i "pl_workers s" "WSend (e, r)"] assms(4) show ?thesis by (simp add: upstream_def coll_done_def)
next
  case (worker_send i e r)
  with mset_held_update [of i "pl_workers s" "if isOk r then WIdle else WExit"] assms(4)
  show ?thesis by (simp add: upstream_def coll_done_def split: if_splits)
next
  case (collect e r rs)
  then have nd: "\<not> coll_done s" by (simp add: coll_done_def)
  from upstream_distinct [OF assms(3) this] collect have "e \<notin> fst ` set (pl_reorder s)" by (auto simp: upstream_def)
  from mset_AList_update [OF this, of "(e, r)"] collect nd show ?thesis by (simp add: upstream_def)
next
  case (flush_some final res)
  then have nd: "\<not> coll_done s" by (simp add: coll_done_def)
  from upstream_distinct [OF assms(3) this] have "distinct (map fst (pl_reorder s))" by (simp add: upstream_def)
  note del = mset_AList_delete [OF this flush_some(4)]
  have "(pl_next s, res) \<in> set (pl_reorder s)" using flush_some(4) by (rule map_of_SomeD)
  with assms(2) have "fst res = pl_next s" by (auto simp: inv_items_def)
  with del flush_some nd show ?thesis by (simp add: upstream_def)
qed (use assms(4) in \<open>simp_all add: upstream_def coll_done_def\<close>)

lemma dispatched_to_step:
  assumes "pstep env g target s s'" and "dispatched_to target u s" and "inv_flags g s" and "target < maxUint64"
    and "\<nexists>d. pl_disp s = DNext d \<and> pl_disp s' = DNext (d + 1)"
  shows "dispatched_to target u s'"
  using assms(1)
proof cases
  case (dispatch_close e)
  then have "uint target < uint e" by (simp add: word_less_def)
  with dispatch_close assms(2,3) show ?thesis by (auto simp: dispatched_to_def inv_flags_def)
next
  case (worker_take i e es)
  with assms(2) have "uint e # map uint es = [u - int (Suc (length es)) .. u - 1]" by (simp add: dispatched_to_def)
  then have "map uint es = [u - int (length es) .. u - 1]" by (subst (asm) upto.simps) (auto split: if_splits)
  with worker_take assms(2) show ?thesis by (simp add: dispatched_to_def)
qed (use assms(2,3,5) in \<open>simp_all add: dispatched_to_def inv_flags_def\<close>)

lemma inv_once_dispatch:
  assumes "pstep env g target s s'" and "inv_once target s" and "target < maxUint64"
    and "pl_disp s = DNext d" and "pl_disp s' = DNext (d + 1)"
  shows "inv_once target s'"
  using assms(1)
proof cases
  case (dispatch_send e)
  with assms(4) have d: "e = d" by simp
  with dispatch_send assms(3) have d1: "uint (d + 1) = uint d + 1" by (intro uint_Suc_word) auto
  have "uint d \<le> uint target" using dispatch_send d by (simp add: word_le_def)
  moreover have "map uint (pl_work s) @ [uint d] = [uint d - int (length (pl_work s)) .. uint d]"
    using assms(2,4) upto_rec2 [of "uint d - int (length (pl_work s))" "uint d"] by (auto simp: inv_once_def dispatched_to_def)
  ultimately have to: "dispatched_to target (uint d + 1) s'"
    using dispatch_send d d1 assms(2,4) by (auto simp: inv_once_def dispatched_to_def)
  have up: "mset (upstream s') = add_mset d (mset (upstream s))" using dispatch_send d by (simp add: upstream_def)
  have "uint (pl_next s') \<le> uint d + 1 \<and> mset (map uint (upstream s')) = mset [uint (pl_next s') .. uint d + 1 - 1]" if "\<not> coll_done s'"
  proof -
    have "uint (pl_next s) \<le> uint d" "mset (map uint (upstream s)) = mset [uint (pl_next s) .. uint d - 1]"
      using that dispatch_send assms(2,4) by (auto simp: inv_once_def dispatched_to_def coll_done_def)
    then show ?thesis using up upto_rec2 [of "uint (pl_next s)" "uint d"] dispatch_send by simp
  qed
  with to show ?thesis by (auto simp only: inv_once_def)
qed (use assms(4,5) in simp_all)

lemma inv_once_step:
  assumes "pstep env g target s s'" and "inv_items target s" and "inv_order s" and "inv_flags g s" and "inv_once target s"
    and "target < maxUint64"
  shows "inv_once target s'"
proof (cases "\<exists>d. pl_disp s = DNext d \<and> pl_disp s' = DNext (d + 1)")
  case True
  with inv_once_dispatch [OF assms(1,5,6)] show ?thesis by blast
next
  case False
  from assms(5) obtain u where u: "dispatched_to target u s"
    "\<not> coll_done s \<Longrightarrow> uint (pl_next s) \<le> u \<and> mset (map uint (upstream s)) = mset [uint (pl_next s) .. u - 1]"
    by (auto simp: inv_once_def)
  have "uint (pl_next s') \<le> u \<and> mset (map uint (upstream s')) = mset [uint (pl_next s') .. u - 1]" if "\<not> coll_done s'"
  proof -
    have nd: "\<not> coll_done s" using upstream_step [OF assms(1,2,5) that] by blast
    from upstream_step [OF assms(1,2,5) that] False consider
      (same) "mset (upstream s') = mset (upstream s)" "pl_next s' = pl_next s"
    | (advance) e be final where "pl_coll s = CSend final (e, Inr be)" "mset (upstream s) = add_mset e (mset (upstream s'))" "pl_next s' = pl_next s + 1"
      by blast
    then show ?thesis
    proof cases
      case same
      with u(2) nd show ?thesis by simp
    next
      case (advance e be final)
      with assms(3) have e: "e = pl_next s" by (simp add: inv_order_def)
      have "(e, Inr be) \<in> flight s" using advance by (auto simp: flight_def)
      with assms(2) have "e \<le> target" by (auto simp: inv_items_def)
      then have e1: "uint (e + 1) = uint e + 1" using assms(6) by (rule uint_Suc_word)
      have eq: "add_mset (uint e) (mset (map uint (upstream s'))) = mset [uint e .. u - 1]" using u(2) [OF nd] advance e by simp
      then have "uint e \<in> set [uint e .. u - 1]" by (metis set_mset_mset union_single_eq_member)
      then have "uint e \<le> u - 1" by simp
      with eq upto_rec1 [of "uint e" "u - 1"] advance e e1 show ?thesis by simp
    qed
  qed
  with dispatched_to_step [OF assms(1) u(1) assms(4,6) False] show ?thesis by (auto simp: inv_once_def)
qed

text \<open>An error under way stays under way until the collector delivers it and stops.\<close>

lemma update_keeps: "y \<in> set xs \<Longrightarrow> xs ! i \<noteq> y \<Longrightarrow> y \<in> set (xs[i := v])"
  by (metis in_set_conv_nth length_list_update nth_list_update_neq)

lemma err_item_step:
  assumes "pstep env g target s s'" and "inv_once target s" and "\<not> coll_done s'" and "x \<in> upitems s" and "\<not> isOk (snd x)"
  shows "x \<in> upitems s'"
  using assms(1)
proof cases
  case (worker_take i e es)
  with assms(4) show ?thesis by (auto simp: upitems_def intro: update_keeps)
next
  case (worker_end i)
  with assms(4) show ?thesis by (auto simp: upitems_def intro: update_keeps)
next
  case (worker_canceled i e)
  with assms(4) show ?thesis by (auto simp: upitems_def intro: update_keeps)
next
  case (worker_build i e r w')
  with assms(4) show ?thesis by (auto simp: upitems_def intro: update_keeps)
next
  case (worker_send i e r)
  show ?thesis
  proof (cases "x = (e, r)")
    case False
    with worker_send assms(4) show ?thesis by (auto simp: upitems_def intro: update_keeps)
  qed (simp add: upitems_def worker_send)
next
  case (collect e r rs)
  then have "\<not> coll_done s" by (simp add: coll_done_def)
  from upstream_distinct [OF assms(2) this] collect have "e \<notin> fst ` set (pl_reorder s)" by (auto simp: upstream_def)
  then have "set (AList.update e (e, r) (pl_reorder s)) = insert (e, (e, r)) (set (pl_reorder s))"
    by (metis mset_AList_update set_mset_add_mset_insert set_mset_mset)
  with collect assms(4) show ?thesis by (auto simp: upitems_def)
next
  case (flush_some final res)
  then have "\<not> coll_done s" by (simp add: coll_done_def)
  from upstream_distinct [OF assms(2) this] have "distinct (map fst (pl_reorder s))" by (simp add: upstream_def)
  from mset_AList_delete [OF this flush_some(4)]
  have "y = (pl_next s, res) \<or> y \<in> set (AList.delete (pl_next s) (pl_reorder s))" if "y \<in> set (pl_reorder s)" for y
    using that by (metis insert_iff set_mset_add_mset_insert set_mset_mset)
  then have "snd ` set (pl_reorder s) \<subseteq> insert res (snd ` set (AList.delete (pl_next s) (pl_reorder s)))" by force
  moreover have "upitems s' = {x. WSend x \<in> set (pl_workers s)} \<union> set (pl_results s) \<union>
      insert res (snd ` set (AList.delete (pl_next s) (pl_reorder s)))"
    using flush_some by (auto simp: upitems_def simp del: delete_conv')
  moreover have "upitems s = {x. WSend x \<in> set (pl_workers s)} \<union> set (pl_results s) \<union> snd ` set (pl_reorder s)"
    using flush_some by (simp add: upitems_def)
  ultimately show ?thesis using assms(4) by blast
next
  case (pend_ok final e be)
  with assms(4,5) show ?thesis by (auto simp: upitems_def)
qed (use assms(3,4) in \<open>simp_all add: upitems_def coll_done_def\<close>)

lemma inv_err_step:
  assumes "pstep env g target s s'" and "inv_once target s" and "inv_flags g s" and "inv_err s"
  shows "inv_err s'"
proof (cases "coll_done s' \<or> WExit \<notin> set (pl_workers s') \<or> pl_workClosed s' \<and> pl_work s' = []")
  case True
  then show ?thesis by (auto simp: inv_err_def)
next
  case False
  show ?thesis
  proof (cases "WExit \<in> set (pl_workers s)")
    case True
    have "\<not> coll_done s" "\<not> (pl_workClosed s \<and> pl_work s = [])"
      using assms(1,3) False by (cases; auto simp: coll_done_def inv_flags_def)+
    with assms(4) True obtain x where "x \<in> upitems s" "\<not> isOk (snd x)" by (auto simp: inv_err_def)
    with err_item_step [OF assms(1,2)] False have "x \<in> upitems s'" by blast
    with \<open>\<not> isOk (snd x)\<close> show ?thesis by (auto simp: inv_err_def)
  next
    case no: False
    from assms(1) show ?thesis
    proof cases
      case (worker_send i e r)
      with no False have "\<not> isOk r" by (auto dest!: in_set_update split: if_splits)
      with worker_send show ?thesis by (auto simp: inv_err_def upitems_def)
    qed (use no False in \<open>auto simp: coll_done_def inv_err_def dest!: in_set_update\<close>)
  qed
qed

text \<open>When all workers are gone and the next expected epoch is not in the reorder map, nothing is under way.\<close>

lemma inj_uint_word: "inj (uint :: 'a::len word \<Rightarrow> int)"
  by (simp add: inj_def word_uint_eq_iff)

lemma gap_free:
  assumes "inv_items target s" "inv_once target s" "inv_flags g s" "inv_err s"
    and nd: "\<not> coll_done s" and ex: "\<forall>wk \<in> set (pl_workers s). wk = WExit" and res: "pl_results s = []"
    and cs: "\<forall>final x. pl_coll s \<noteq> CSend final x" and none: "map_of (pl_reorder s) (pl_next s) = None"
  shows "upstream s = [] \<and> dispatched_to target (uint (pl_next s)) s"
proof -
  from assms(2) nd obtain u where u: "dispatched_to target u s" "uint (pl_next s) \<le> u"
    and ms: "mset (map uint (upstream s)) = mset [uint (pl_next s) .. u - 1]" by (auto simp: inv_once_def)
  have held0: "concat (map held (pl_workers s)) = []" using ex by auto
  have up: "upstream s = pl_work s @ map fst (pl_reorder s)"
    using cs res held0 by (cases "pl_coll s") (auto simp: upstream_def)
  have set_up: "uint ` set (upstream s) = {uint (pl_next s) .. u - 1}" using arg_cong [OF ms, of set_mset] by simp
  have "map uint (pl_work s) = [u - int (length (pl_work s)) .. u - 1]" using u(1) by (simp only: dispatched_to_def)
  from arg_cong [OF this, of set] have set_work: "uint ` set (pl_work s) = {u - int (length (pl_work s)) .. u - 1}"
    by (simp only: set_map set_upto)
  have "uint (pl_next s) = u"
  proof (rule ccontr)
    assume "uint (pl_next s) \<noteq> u"
    with u(2) set_up have "uint (pl_next s) \<in> uint ` set (upstream s)" by simp
    then have "pl_next s \<in> set (upstream s)" by (simp only: inj_image_mem_iff [OF inj_uint_word])
    with none up have w: "pl_next s \<in> set (pl_work s)" by (auto simp: map_of_eq_None_iff)
    then have "uint (pl_next s) \<in> {u - int (length (pl_work s)) .. u - 1}" unfolding set_work [symmetric] by (rule imageI)
    then have "uint ` set (upstream s) \<subseteq> uint ` set (pl_work s)" unfolding set_up set_work by simp
    then have "set (upstream s) \<subseteq> set (pl_work s)" by (simp only: inj_image_subset_iff [OF inj_uint_word])
    with upstream_distinct [OF assms(2) nd] up have "pl_reorder s = []" by (cases "pl_reorder s") auto
    with ex res cs have "upitems s = {}" by (auto simp: upitems_def)
    moreover have "WExit \<in> set (pl_workers s)"
      using ex assms(3) backfill_workers_pos [of g] by (cases "pl_workers s") (auto simp: inv_flags_def)
    ultimately show False using assms(4) nd w by (auto simp: inv_err_def)
  qed
  with u ms show ?thesis by auto
qed

lemma flush_end_next:
  assumes "inv_items target s" "inv_once target s" "inv_flags g s" "inv_err s"
    and "pl_coll s = CFlush True" and "target < pl_next s \<or> map_of (pl_reorder s) (pl_next s) = None"
  shows "pl_resultsClosed s \<and> uint (pl_next s) = uint target + 1"
proof -
  have cl: "pl_resultsClosed s" "pl_results s = []" "\<not> coll_done s" "\<forall>wk \<in> set (pl_workers s). wk = WExit"
    using assms(3,5) by (auto simp: inv_flags_def coll_done_def)
  from assms(6) show ?thesis
  proof
    assume "target < pl_next s"
    with cl assms(2) show ?thesis by (auto simp: inv_once_def dispatched_to_def word_less_def)
  next
    assume "map_of (pl_reorder s) (pl_next s) = None"
    with gap_free [OF assms(1-4) cl(3,4,2)] assms(5) have "dispatched_to target (uint (pl_next s)) s" by simp
    with cl(1) show ?thesis by (simp add: dispatched_to_def)
  qed
qed

lemma inv_end_step:
  assumes "pstep env g target s s'" and "inv_items target s" "inv_once target s" "inv_flags g s" "inv_err s"
    and "inv_order s" and "inv_end target s" and "target < maxUint64"
  shows "inv_end target s'"
  using assms(1)
proof cases
  case flush_end
  with flush_end_next [OF assms(2-5)] have n: "pl_resultsClosed s \<and> uint (pl_next s) = uint target + 1" by simp
  have "uint (pl_resume s) + int (length (pl_pending s)) = uint (pl_next s)" if "pl_cons s = KRecv"
    using assms(6) that flush_end by (auto simp: inv_order_def)
  with n flush_end assms(4,7) show ?thesis by (auto simp: inv_end_def inv_flags_def coll_done_def)
next
  case (consume_ok e be js u w')
  then have "(e, Inr be) \<in> flight s" by (simp add: flight_def)
  with assms(2) have "e \<le> target" by (auto simp: inv_items_def)
  then have e1: "uint (e + 1) = uint e + 1" using assms(8) by (rule uint_Suc_word)
  have "\<forall>i < length (pl_pending s). uint (fst (pl_pending s ! i)) = uint (pl_resume s) + int i"
    using assms(6) consume_ok by (simp add: inv_order_def)
  from this [rule_format, of 0] consume_ok have "uint e = uint (pl_resume s)" by simp
  with consume_ok e1 assms(7) show ?thesis by (auto simp: inv_end_def)
next
  case (pend_err final e err)
  with assms(4,7) show ?thesis by (auto simp: inv_end_def inv_flags_def coll_done_def)
qed (use assms(4,7) in \<open>auto simp: inv_end_def inv_flags_def coll_done_def split: option.splits\<close>)

definition pipeline_inv :: "Generator \<Rightarrow> uint64 \<Rightarrow> uint64 \<Rightarrow> tables \<Rightarrow> pipeline \<Rightarrow> bool" where
  "pipeline_inv g from target t0 s \<longleftrightarrow> pipe_inv g from target t0 s \<and> inv_flags g s \<and> inv_once target s \<and> inv_err s \<and> inv_end target s"

lemma pipeline_inv_start:
  assumes "rows_ok (g_network g) (w_tables w)" and "from \<le> target"
  shows "pipeline_inv g from target (w_tables w) (pipeline_start g from w)"
proof -
  let ?s = "pipeline_start g from w"
  have h: "concat (map held (replicate n WIdle)) = []" for n by (induction n) auto
  have "dispatched_to target (uint from) ?s" using assms(2) by (simp add: dispatched_to_def pipeline_start_def word_le_def)
  moreover have "upstream ?s = []" by (simp add: upstream_def pipeline_start_def h)
  ultimately have "inv_once target ?s" by (auto simp: inv_once_def pipeline_start_def intro!: exI [of _ "uint from"])
  moreover have "inv_flags g ?s" "inv_err ?s" "inv_end target ?s"
    by (simp_all add: inv_flags_def inv_err_def inv_end_def pipeline_start_def coll_done_def)
  ultimately show ?thesis using pipe_inv_start [OF assms(1)] by (simp add: pipeline_inv_def)
qed

lemma pipeline_inv_run:
  assumes "(pstep env g target)\<^sup>*\<^sup>* s s'" and "pipeline_inv g from target t0 s" and "gn_db g" and "target < maxUint64"
  shows "pipeline_inv g from target t0 s'"
  using assms(1,2)
proof (induction rule: rtranclp_induct)
  case (step y z)
  then have i: "inv_items target y" "inv_order y" "inv_flags g y" "inv_once target y" "inv_err y" "inv_end target y"
    and p: "pipe_inv g from target t0 y" by (auto simp: pipeline_inv_def pipe_inv_def)
  from pipe_inv_run [OF r_into_rtranclp [of "pstep env g target", OF step(2)] p assms(3,4)]
    inv_flags_step [OF step(2) i(3)] inv_once_step [OF step(2) i(1-4) assms(4)]
    inv_err_step [OF step(2) i(4,3,5)] inv_end_step [OF step(2) i(1,4,3,5,2,6) assms(4)]
  show ?case by (simp add: pipeline_inv_def)
qed

lemmas pipeline_inv_reachable = pipeline_inv_run [OF _ pipeline_inv_start]

text \<open>A step exists as long as the context is not canceled.\<close>

definition positions :: "pipeline \<Rightarrow> _" where
  "positions s = (pl_disp s, pl_work s, pl_workers s, pl_results s, pl_coll s, pl_pending s, pl_cons s)"

definition can_move :: "outside \<Rightarrow> Generator \<Rightarrow> uint64 \<Rightarrow> pipeline \<Rightarrow> bool" where
  "can_move env g target s \<longleftrightarrow> (\<exists>s'. pstep env g target s s' \<and> positions s' \<noteq> positions s)"

lemma can_moveI: "pstep env g target s s' \<Longrightarrow> positions s' \<noteq> positions s \<Longrightarrow> can_move env g target s"
  by (auto simp: can_move_def)

lemma worker_can_move:
  assumes "i < length (pl_workers s)" and "pl_workers s ! i = WBusy e \<or> (pl_workers s ! i = WSend (e, r) \<and> length (pl_results s) < backfill_workers g)"
  shows "can_move env g target s"
  using assms(2)
proof
  assume wk: "pl_workers s ! i = WBusy e"
  obtain r w' where "worker_body env g e (pl_world s) = (r, w')" by fastforce
  from pstep.worker_build [OF assms(1) wk this] show ?thesis
    by (rule can_moveI) (use assms(1) wk in \<open>simp add: positions_def list_update_same_conv\<close>)
next
  assume wk: "pl_workers s ! i = WSend (e, r) \<and> length (pl_results s) < backfill_workers g"
  show ?thesis by (rule can_moveI [OF pstep.worker_send [OF assms(1), of e r]]) (use wk in \<open>simp_all add: positions_def\<close>)
qed

lemma dispatcher_can_move:
  assumes "pl_disp s = DNext e" and "length (pl_work s) < backfill_workers g \<or> target < e"
  shows "can_move env g target s"
proof (cases "target < e")
  case True
  from pstep.dispatch_close [OF assms(1) this] show ?thesis by (rule can_moveI) (simp add: positions_def assms(1))
next
  case False
  then have "e \<le> target" by simp
  show ?thesis by (rule can_moveI [OF pstep.dispatch_send [OF assms(1) \<open>e \<le> target\<close>]]) (use assms(2) False in \<open>simp_all add: positions_def\<close>)
qed

lemma idle_can_move:
  assumes "i < length (pl_workers s)" "pl_workers s ! i = WIdle" and "inv_flags g s"
  shows "can_move env g target s"
proof (cases "pl_work s")
  case (Cons e es)
  from pstep.worker_take [OF assms(1,2) this] show ?thesis by (rule can_moveI) (simp add: positions_def Cons)
next
  case Nil
  show ?thesis
  proof (cases "pl_disp s")
    case (DNext e)
    then show ?thesis using Nil backfill_workers_pos [of g] by (auto intro: dispatcher_can_move)
  qed (use Nil assms in \<open>auto simp: inv_flags_def positions_def list_update_same_conv intro!: can_moveI [OF pstep.worker_end [OF assms(1,2)]]\<close>)
qed

lemma collector_can_move:
  assumes "inv_flags g s" and "\<not> coll_done s" and "pl_pending s = []" and "pl_coll s = CRecv \<longrightarrow> pl_results s \<noteq> [] \<or> pl_resultsClosed s"
  shows "can_move env g target s"
proof (cases "pl_coll s")
  case CRecv
  show ?thesis
  proof (cases "pl_results s")
    case (Cons x rs)
    show ?thesis by (rule can_moveI [OF pstep.collect [OF CRecv, of "fst x" "snd x" rs]]) (use Cons in \<open>simp_all add: positions_def\<close>)
  next
    case Nil
    show ?thesis by (rule can_moveI [OF pstep.collect_closed [OF CRecv Nil]]) (use Nil assms(4) CRecv in \<open>simp_all add: positions_def\<close>)
  qed
next
  case (CFlush final)
  show ?thesis
  proof (cases "map_of (pl_reorder s) (pl_next s) = None \<or> final \<and> target < pl_next s")
    case True
    show ?thesis
    proof (cases final)
      case f: True
      show ?thesis by (rule can_moveI [OF pstep.flush_end]) (use f True CFlush in \<open>auto simp: positions_def\<close>)
    next
      case f: False
      show ?thesis by (rule can_moveI [OF pstep.flush_none]) (use f True CFlush in \<open>auto simp: positions_def\<close>)
    qed
  next
    case False
    then obtain res where r: "map_of (pl_reorder s) (pl_next s) = Some res" by (cases "map_of (pl_reorder s) (pl_next s)") auto
    show ?thesis by (rule can_moveI [OF pstep.flush_some [OF CFlush _ r]]) (use False in \<open>auto simp: positions_def CFlush\<close>)
  qed
next
  case (CSend final x)
  obtain e r where x: "x = (e, r)" by (cases x)
  show ?thesis
  proof (cases r)
    case (Inl err)
    show ?thesis by (rule can_moveI [OF pstep.pend_err [of s final e err]]) (use CSend x Inl assms(3) in \<open>simp_all add: positions_def\<close>)
  next
    case (Inr be)
    show ?thesis by (rule can_moveI [OF pstep.pend_ok [of s final e be]]) (use CSend x Inr assms(3) in \<open>simp_all add: positions_def\<close>)
  qed
qed (use assms(2) in \<open>simp add: coll_done_def\<close>)

lemma consumer_can_move:
  assumes "pl_cons s = KRecv" and "pl_pending s \<noteq> [] \<or> pl_pendingClosed s"
  shows "can_move env g target s"
proof (cases "pl_pending s")
  case Nil
  show ?thesis by (rule can_moveI [OF pstep.consume_end [OF assms(1) Nil]]) (use assms Nil in \<open>simp_all add: positions_def\<close>)
next
  case (Cons x js)
  obtain e r where x: "x = (e, r)" by (cases x)
  show ?thesis
  proof (cases r)
    case (Inl err)
    show ?thesis by (rule can_moveI [OF pstep.consume_err [OF assms(1), of e err js]]) (use Cons x Inl in \<open>simp_all add: positions_def\<close>)
  next
    case (Inr be)
    obtain c w' where c: "consumer_body env g e be (pl_world s) = (c, w')" by fastforce
    have p: "pl_pending s = (e, Inr be) # js" using Cons x Inr by simp
    show ?thesis
    proof (cases c)
      case (Inl err)
      show ?thesis by (rule can_moveI [OF pstep.consume_fail [OF assms(1) p c [unfolded Inl]]]) (simp add: positions_def p)
    next
      case ok: (Inr u)
      show ?thesis by (rule can_moveI [OF pstep.consume_ok [OF assms(1) p c [unfolded ok]]]) (simp add: positions_def p)
    qed
  qed
qed

lemma pipeline_moves:
  assumes inv: "pipeline_inv g from target t0 s" and nc: "\<not> pl_canceled s" and nr: "\<forall>e. pl_cons s \<noteq> KReturn e"
  shows "can_move env g target s"
proof -
  from inv have i: "inv_items target s" "inv_once target s" "inv_flags g s" "inv_err s" "inv_end target s"
    by (auto simp: pipeline_inv_def pipe_inv_def)
  consider (join) "pl_cons s = KJoin None" | (recv) "pl_cons s = KRecv"
    using nr nc i(3) by (cases "pl_cons s") (auto simp: inv_flags_def elim!: option.exhaust)
  then show ?thesis
  proof cases
    case join
    then have "coll_done s" using i(3) by (simp add: inv_flags_def)
    then have c: "pl_coll s = CDone None" using i(5) nc by (auto simp: coll_done_def inv_end_def)
    with i(3,5) join have "pl_disp s = DDone" by (simp add: inv_end_def inv_flags_def)
    from pstep.join [OF join this c] show ?thesis by (rule can_moveI) (simp add: positions_def join)
  next
    case recv
    show ?thesis
    proof (rule ccontr)
      assume stuck: "\<not> can_move env g target s"
      have p: "pl_pending s = []" "\<not> coll_done s" using consumer_can_move [OF recv] stuck i(3) by (auto simp: inv_flags_def)
      have c: "pl_coll s = CRecv" "pl_results s = []" "\<not> pl_resultsClosed s"
        using collector_can_move [OF i(3) p(2,1)] stuck by auto
      have room: "length (pl_results s) < backfill_workers g" using c(2) backfill_workers_pos by simp
      have ex: "\<forall>wk \<in> set (pl_workers s). wk = WExit"
      proof
        fix wk assume "wk \<in> set (pl_workers s)"
        then obtain j where j: "j < length (pl_workers s)" "pl_workers s ! j = wk" by (auto simp: in_set_conv_nth)
        show "wk = WExit" using worker_can_move [OF j(1)] idle_can_move [OF j(1) _ i(3)] j(2) room stuck
          by (cases wk) auto
      qed
      have "map_of (pl_reorder s) (pl_next s) = None" using c(1) i(3) by (simp add: inv_flags_def)
      with gap_free [OF i(1-4) p(2) ex c(2)] c(1) have "pl_work s = []" by (simp add: upstream_def)
      then show False
        using dispatcher_can_move [of s] backfill_workers_pos [of g] stuck i(3) c(3) nc
          can_moveI [OF pstep.dispatch_done [OF _ ex]]
        by (cases "pl_disp s") (auto simp: inv_flags_def positions_def)
    qed
  qed
qed

section \<open>Properties\<close>

text \<open>One epoch, one worker: the run in which nothing fails.\<close>

lemma single_run:
  assumes "backfill_workers g = 1" and "e < maxUint64"
    and "worker_body env g e w = (Inr be, w1)" and "consumer_body env g e be w1 = (Inr u, w2)"
  shows "\<exists>s. (pstep env g e)\<^sup>*\<^sup>* (pipeline_start g e w) s \<and> pl_cons s = KReturn None \<and> pl_world s = w2 \<and> pl_resume s = e + 1 \<and> \<not> pl_canceled s"
proof -
  have lt: "e < e + 1" using uint_Suc_word [of e e] assms(2) by (simp add: word_less_def)
  note ss = pipeline_start_def AList.delete_eq
  show ?thesis
    apply (intro exI conjI)
        apply (rule converse_rtranclp_into_rtranclp, rule pstep.dispatch_send [where e = e]; (simp add: assms lt ss)?)
        apply (rule converse_rtranclp_into_rtranclp, rule pstep.worker_take [where i = 0 and e = e and es = "[]"]; (simp add: assms lt ss)?)
        apply (rule converse_rtranclp_into_rtranclp, rule pstep.worker_build [where i = 0 and e = e and r = "Inr be" and w' = w1]; (simp add: assms lt ss)?)
        apply (rule converse_rtranclp_into_rtranclp, rule pstep.worker_send [where i = 0 and e = e and r = "Inr be"]; (simp add: assms lt ss)?)
        apply (rule converse_rtranclp_into_rtranclp, rule pstep.collect [where e = e and r = "Inr be" and rs = "[]"]; (simp add: assms lt ss)?)
        apply (rule converse_rtranclp_into_rtranclp, rule pstep.flush_some [where final = False and res = "(e, Inr be)"]; (simp add: assms lt ss)?)
        apply (rule converse_rtranclp_into_rtranclp, rule pstep.pend_ok [where final = False and e = e and be = be]; (simp add: assms lt ss)?)
        apply (rule converse_rtranclp_into_rtranclp, rule pstep.flush_none; (simp add: assms lt ss)?)
        apply (rule converse_rtranclp_into_rtranclp, rule pstep.consume_ok [where e = e and be = be and js = "[]" and u = u and w' = w2]; (simp add: assms lt ss)?)
        apply (rule converse_rtranclp_into_rtranclp, rule pstep.dispatch_close [where e = "e + 1"]; (simp add: assms lt ss)?)
        apply (rule converse_rtranclp_into_rtranclp, rule pstep.worker_end [where i = 0]; (simp add: assms lt ss)?)
        apply (rule converse_rtranclp_into_rtranclp, rule pstep.dispatch_done; (simp add: assms lt ss)?)
        apply (rule converse_rtranclp_into_rtranclp, rule pstep.collect_closed; (simp add: assms lt ss)?)
        apply (rule converse_rtranclp_into_rtranclp, rule pstep.flush_end; (simp add: assms lt ss)?)
        apply (rule converse_rtranclp_into_rtranclp, rule pstep.consume_end; (simp add: assms lt ss)?)
        apply (rule converse_rtranclp_into_rtranclp, rule pstep.join [where failed = None and perr = None]; (simp add: assms lt ss)?)
        apply (rule rtranclp.rtrancl_refl)
       apply simp_all
    done
qed

lemma demo_workers: "backfill_workers demo_gen = 1"
  by (simp add: backfill_workers_def demo_gen_def zeroConfig_def)

lemma demo_pipeline_at:
  "\<exists>s. (pstep demo_outside demo_gen 5)\<^sup>*\<^sup>* (pipeline_start demo_gen 5 (demo_world\<lparr>w_tick := k\<rparr>)) s \<and> pl_cons s = KReturn None"
proof -
  have "EpochExists noFaults (w_tables demo_world) ''mainnet'' 5 = Inr False"
    by (simp add: EpochExists_def enc_int8_def fault_def demo_world_def schema_empty_def)
  then have x: "wrapP m (db_read demo_outside (\<lambda>flt t. EpochExists flt t (g_network demo_gen) 5)) (demo_world\<lparr>w_tick := k\<rparr>) = (Inr False, demo_world\<lparr>w_tick := Suc k\<rparr>)" for m
    by (simp add: wrapP_def db_read_def bindP_def ask_eq demo_network demo_world_def)
  have "cl_slotsPerEpoch (w_beacon (demo_world\<lparr>w_tick := Suc k\<rparr>)) = 2" "tb_blobs (w_tables (demo_world\<lparr>w_tick := Suc k\<rparr>)) = []"
    by (simp_all add: demo_world_def schema_empty_def demo_client_def NewClient_def)
  from demo_build [OF this] obtain w1 where "buildEpoch demo_outside demo_gen 5 (demo_world\<lparr>w_tick := Suc k\<rparr>) =
      (Inr (newBuiltEpoch 5\<lparr>be_empty := True\<rparr>), w1)" by blast
  with x have wk: "worker_body demo_outside demo_gen 5 (demo_world\<lparr>w_tick := k\<rparr>) = (Inr (newBuiltEpoch 5\<lparr>be_empty := True\<rparr>), w1)"
    by (simp add: worker_body_def bindP_def wrapP_def)
  obtain w2 where w2: "persistEpoch demo_outside demo_gen (newBuiltEpoch 5\<lparr>be_empty := True\<rparr>) w1 = (Inr (), w2)"
    using demo_persist by blast
  have "\<exists>w3. state_SetBackfillCursor demo_outside demo_gen 5 w2 = (Inr (), w3)"
    by (simp add: state_SetBackfillCursor_def db_write_def bindP_def ask_eq DB_SetBackfillCursor_def enc_int8_def fault_def)
  then obtain w3 where "state_SetBackfillCursor demo_outside demo_gen 5 w2 = (Inr (), w3)" by blast
  with w2 have "consumer_body demo_outside demo_gen 5 (newBuiltEpoch 5\<lparr>be_empty := True\<rparr>) w1 = (Inr (), w3)"
    by (simp add: consumer_body_def bindP_def wrapP_def newBuiltEpoch_def)
  from single_run [OF demo_workers _ wk this] show ?thesis by auto
qed

lemma demo_pipeline:
  "\<exists>s. (pstep demo_outside demo_gen 5)\<^sup>*\<^sup>* (pipeline_start demo_gen 5 demo_world) s \<and> pl_cons s = KReturn None"
  using demo_pipeline_at [of 0] by (simp add: demo_world_def)

text \<open>
  C1. The concurrent backfill is safe at every moment, whatever the interleaving of its goroutines and whatever fails:
  in every state that can be reached, no epoch row is lost, every epoch before the point where the consumer will
  resume has its row in the database, and the stored backfill cursor is either untouched (nothing was consumed) or
  the epoch just before the resume point. So the cursor only covers epochs that are in the database, and a process
  that dies at any moment resumes without a hole.
\<close>

theorem pipeline_safe:
  assumes "(pstep env g target)\<^sup>*\<^sup>* (pipeline_start g from w) s"
    and "gn_db g" and "rows_ok (g_network g) (w_tables w)" and "from \<le> target" and "target < maxUint64"
  shows "rows_ok (g_network g) (w_tables (pl_world s)) \<and> has_epochs (w_tables w) \<subseteq> has_epochs (w_tables (pl_world s)) \<and>
    from \<le> pl_resume s \<and> (\<forall>e. from \<le> e \<and> e < pl_resume s \<longrightarrow> uint e \<in> has_epochs (w_tables (pl_world s))) \<and>
    map_of (tb_state (w_tables (pl_world s))) (backfill_key (g_network g)) =
      (if pl_resume s = from then map_of (tb_state (w_tables w)) (backfill_key (g_network g)) else Some (uint (pl_resume s) - 1))"
  using pipeline_inv_reachable [OF assms(1,3,4,2,5)] by (simp add: pipeline_inv_def pipe_inv_def inv_done_def)

theorem pipeline_safe_witness:
  "\<exists>s. (pstep demo_outside demo_gen 5)\<^sup>*\<^sup>* (pipeline_start demo_gen 5 demo_world) s \<and> pl_cons s = KReturn None \<and>
     rows_ok ''mainnet'' (w_tables (pl_world s)) \<and> 5 \<le> pl_resume s"
proof -
  obtain s where s: "(pstep demo_outside demo_gen 5)\<^sup>*\<^sup>* (pipeline_start demo_gen 5 demo_world) s" "pl_cons s = KReturn None"
    using demo_pipeline by blast
  from pipeline_safe [OF s(1)] s demo_rows_ok show ?thesis by (auto simp: demo_network)
qed

lemma complete_run:
  assumes "(pstep env g target)\<^sup>*\<^sup>* (pipeline_start g from w) s" and "pl_cons s = KReturn None"
    and "gn_db g" and "rows_ok (g_network g) (w_tables w)" and "from \<le> target" and "target < maxUint64"
  shows "pl_resume s = target + 1 \<and> (\<forall>e. from \<le> e \<and> e \<le> target \<longrightarrow> uint e \<in> has_epochs (w_tables (pl_world s))) \<and>
    map_of (tb_state (w_tables (pl_world s))) (backfill_key (g_network g)) = Some (uint target)"
proof -
  from pipeline_inv_reachable [OF assms(1,4,5,3,6)]
  have d: "inv_done (g_network g) from (w_tables w) s" and r: "uint (pl_resume s) = uint target + 1"
    using assms(2) by (auto simp: pipeline_inv_def pipe_inv_def inv_end_def)
  from uint_Suc_word [OF order.refl assms(6)] r have eq: "pl_resume s = target + 1" by (simp add: word_uint_eq_iff)
  have "e < pl_resume s" if "e \<le> target" for e using that r by (simp add: word_le_def word_less_def)
  moreover have "pl_resume s \<noteq> from" using assms(5) r by (auto simp: word_le_def)
  ultimately show ?thesis using d r eq by (simp add: inv_done_def)
qed

text \<open>
  C7. When the pipeline returns no error, nothing is missing: the resume point is one past the target, every epoch
  from the start to the target has its row, and the backfill cursor is the target.
\<close>

theorem pipeline_complete:
  assumes "(pstep env g target)\<^sup>*\<^sup>* (pipeline_start g from w) s" and "pl_cons s = KReturn None"
    and "gn_db g" and "rows_ok (g_network g) (w_tables w)" and "from \<le> target" and "target < maxUint64"
  shows "pl_resume s = target + 1 \<and> (\<forall>e. from \<le> e \<and> e \<le> target \<longrightarrow> uint e \<in> has_epochs (w_tables (pl_world s))) \<and>
    map_of (tb_state (w_tables (pl_world s))) (backfill_key (g_network g)) = Some (uint target)"
  using assms by (rule complete_run)

theorem pipeline_complete_witness:
  "\<exists>s. (pstep demo_outside demo_gen 5)\<^sup>*\<^sup>* (pipeline_start demo_gen 5 demo_world) s \<and>
     map_of (tb_state (w_tables (pl_world s))) (backfill_key ''mainnet'') = Some 5"
proof -
  obtain s where s: "(pstep demo_outside demo_gen 5)\<^sup>*\<^sup>* (pipeline_start demo_gen 5 demo_world) s" "pl_cons s = KReturn None"
    using demo_pipeline by blast
  from pipeline_complete [OF s] s demo_rows_ok show ?thesis by (auto simp: demo_network)
qed

text \<open>
  C12. Every run of the pipeline is finite, with a bound known in advance: nine actions per epoch, one per worker and
  eight more. No interleaving of the goroutines makes it run on. (The bound needs a target below the largest 64-bit
  number, or the dispatcher's counter would wrap.)
\<close>

theorem pipeline_terminates:
  assumes "((pstep env g target) ^^ n) (pipeline_start g from w) s" and "target < maxUint64"
  shows "n \<le> 9 * (Suc (unat target) - unat from) + backfill_workers g + 8"
proof -
  have "n + pipe_weight target s \<le> pipe_weight target (pipeline_start g from w)"
    by (rule relpowp_weight [OF _ assms(1)]) (rule pstep_weight [OF _ assms(2)])
  then show ?thesis by (simp add: pipe_weight_start)
qed

theorem pipeline_terminates_witness:
  "\<exists>n s. 0 < n \<and> ((pstep demo_outside demo_gen 5) ^^ n) (pipeline_start demo_gen 5 demo_world) s \<and> n \<le> 18"
proof -
  obtain s where "(pstep demo_outside demo_gen 5)\<^sup>*\<^sup>* (pipeline_start demo_gen 5 demo_world) s" "pl_cons s = KReturn None"
    using demo_pipeline by blast
  then obtain n where n: "((pstep demo_outside demo_gen 5) ^^ n) (pipeline_start demo_gen 5 demo_world) s" "pl_cons s = KReturn None"
    by (auto simp: rtranclp_is_Sup_relpowp)
  then have "n \<noteq> 0" by (cases n) (auto simp: pipeline_start_def)
  with pipeline_terminates [OF n(1)] n show ?thesis by (auto simp: demo_workers)
qed

text \<open>
  C13. As long as the pipeline's context is not canceled, it never deadlocks: in every reachable state in which the
  consumer has not returned, some goroutine can act. With the bound on the number of actions, an uncanceled pipeline
  that is scheduled at all comes to its return.
\<close>

theorem pipeline_progress:
  assumes "(pstep env g target)\<^sup>*\<^sup>* (pipeline_start g from w) s"
    and "gn_db g" and "rows_ok (g_network g) (w_tables w)" and "from \<le> target" and "target < maxUint64"
    and "\<not> pl_canceled s" and "\<forall>e. pl_cons s \<noteq> KReturn e"
  shows "\<exists>s'. pstep env g target s s' \<and> positions s' \<noteq> positions s"
  using pipeline_moves [OF pipeline_inv_reachable [OF assms(1,3,4,2,5)] assms(6,7)] by (simp add: can_move_def)

theorem pipeline_progress_witness:
  "\<exists>s'. pstep demo_outside demo_gen 7 (pipeline_start demo_gen 5 demo_world) s' \<and> positions s' \<noteq> positions (pipeline_start demo_gen 5 demo_world)"
  by (rule pipeline_progress [of demo_outside demo_gen 7 5 demo_world "pipeline_start demo_gen 5 demo_world"])
    (use demo_rows_ok in \<open>simp_all add: demo_network pipeline_start_def\<close>)

lemma workers_end:
  assumes "pl_work s = []" and "pl_workClosed s" and "\<forall>wk \<in> set (pl_workers s). wk = WIdle \<or> wk = WExit"
  shows "(pstep env g target)\<^sup>*\<^sup>* s (s\<lparr>pl_workers := replicate (length (pl_workers s)) WExit\<rparr>)"
  using assms
proof (induction "length (filter (\<lambda>wk. wk = WIdle) (pl_workers s))" arbitrary: s)
  case 0
  then have "\<forall>wk \<in> set (pl_workers s). wk = WExit" by (auto simp: filter_empty_conv)
  then have "pl_workers s = replicate (length (pl_workers s)) WExit" by (simp add: replicate_eqI)
  then have "s\<lparr>pl_workers := replicate (length (pl_workers s)) WExit\<rparr> = s" by (cases s) simp
  then show ?case by simp
next
  case (Suc n)
  then have "filter (\<lambda>wk. wk = WIdle) (pl_workers s) \<noteq> []" by (metis length_0_conv nat.distinct(1))
  then obtain i where i: "i < length (pl_workers s)" "pl_workers s ! i = WIdle" by (auto simp: filter_empty_conv in_set_conv_nth)
  let ?s = "s\<lparr>pl_workers := (pl_workers s)[i := WExit]\<rparr>"
  have "length (filter (\<lambda>wk. wk = WIdle) (pl_workers ?s)) + 1 = length (filter (\<lambda>wk. wk = WIdle) (pl_workers s))"
    using sum_list_map_update [OF i(1), of "\<lambda>wk. if wk = WIdle then 1 else 0" WExit] i(2)
    by (simp add: sum_list_map_filter' [symmetric] sum_list_triv)
  with Suc have "(pstep env g target)\<^sup>*\<^sup>* ?s (?s\<lparr>pl_workers := replicate (length (pl_workers ?s)) WExit\<rparr>)"
    by (intro Suc(1)) (auto dest!: in_set_update)
  moreover have "pstep env g target s ?s" using i Suc(3,4) by (intro pstep.worker_end) auto
  ultimately show ?case by (simp add: converse_rtranclp_into_rtranclp)
qed

text \<open>
  C20. Once the context is canceled (a shutdown, or an epoch that failed), the pipeline can hang for ever, with every
  configuration and for every range: the dispatcher that meets the cancellation while it has epochs left returns
  without closing \<^verbatim>\<open>resultCh\<close>, so the collector waits for a result, the consumer waits for the collector, and no
  goroutine can act, though the consumer has not returned.
\<close>

theorem pipeline_can_hang:
  assumes "from \<le> target"
  shows "\<exists>s. (pstep env g target)\<^sup>*\<^sup>* (pipeline_start g from w) s \<and> pl_cons s = KRecv \<and> (\<nexists>s'. pstep env g target s s')"
proof -
  let ?s0 = "pipeline_start g from w"
  let ?s1 = "?s0\<lparr>pl_canceled := True\<rparr>"
  let ?s2 = "?s1\<lparr>pl_workClosed := True, pl_disp := DDone\<rparr>"
  let ?s3 = "?s2\<lparr>pl_workers := replicate (length (pl_workers ?s2)) WExit\<rparr>"
  have "pstep env g target ?s0 ?s1" by (rule pstep.cancel) (simp add: pipeline_start_def)
  moreover have "pstep env g target ?s1 ?s2" by (rule pstep.dispatch_cancel) (use assms in \<open>simp_all add: pipeline_start_def\<close>)
  moreover have "(pstep env g target)\<^sup>*\<^sup>* ?s2 ?s3" by (rule workers_end) (simp_all add: pipeline_start_def)
  ultimately have "(pstep env g target)\<^sup>*\<^sup>* ?s0 ?s3" by (meson converse_rtranclp_into_rtranclp)
  moreover have "\<not> pstep env g target ?s3 s'" for s'
    by (auto simp: pipeline_start_def elim!: pstep.cases)
  ultimately show ?thesis by (intro exI [of _ ?s3]) (simp add: pipeline_start_def)
qed

theorem pipeline_can_hang_witness:
  "\<exists>s. (pstep demo_outside demo_gen 7)\<^sup>*\<^sup>* (pipeline_start demo_gen 5 demo_world) s \<and> pl_cons s = KRecv \<and>
     (\<nexists>s'. pstep demo_outside demo_gen 7 s s')"
  by (rule pipeline_can_hang) simp


section \<open>The retry loop\<close>

text \<open>
  \<^verbatim>\<open>runBackfill\<close> from the epoch \<open>next\<close> on: attempts of the pipeline until one returns no error or the context is
  canceled. An attempt is any run of the pipeline to its return.
\<close>

inductive runBackfill :: "outside \<Rightarrow> Generator \<Rightarrow> uint64 \<Rightarrow> uint64 \<Rightarrow> world \<Rightarrow> unit res \<Rightarrow> world \<Rightarrow> bool" for env g target where
  backfill_end:
    "\<lbrakk>target < next; logP (rebuildNetworkRoot env g) w = (r, w')\<rbrakk> \<Longrightarrow> runBackfill env g target next w r w'"
| backfill_canceled:
    "\<lbrakk>next \<le> target; ctx_canceled env w = (Inr True, w')\<rbrakk> \<Longrightarrow> runBackfill env g target next w (Inl ErrCanceled) w'"
| backfill_complete:
    "\<lbrakk>next \<le> target; ctx_canceled env w = (Inr False, w1); (pstep env g target)\<^sup>*\<^sup>* (pipeline_start g next w1) s;
      pl_cons s = KReturn None; logP (rebuildNetworkRoot env g) (pl_world s) = (r, w')\<rbrakk> \<Longrightarrow>
     runBackfill env g target next w r w'"
| backfill_stopped:
    "\<lbrakk>next \<le> target; ctx_canceled env w = (Inr False, w1); (pstep env g target)\<^sup>*\<^sup>* (pipeline_start g next w1) s;
      pl_cons s = KReturn (Some err); ctx_canceled env (pl_world s) = (Inr True, w')\<rbrakk> \<Longrightarrow>
     runBackfill env g target next w (Inl ErrCanceled) w'"
| backfill_retry:
    "\<lbrakk>next \<le> target; ctx_canceled env w = (Inr False, w1); (pstep env g target)\<^sup>*\<^sup>* (pipeline_start g next w1) s;
      pl_cons s = KReturn (Some err); ctx_canceled env (pl_world s) = (Inr False, w2); runBackfill env g target (pl_resume s) w2 r w'\<rbrakk> \<Longrightarrow>
     runBackfill env g target next w r w'"

text \<open>The epochs from \<open>start\<close> up to \<open>next\<close> are stored, and the cursor is at the last of them.\<close>

definition backfilled :: "string \<Rightarrow> tables \<Rightarrow> uint64 \<Rightarrow> uint64 \<Rightarrow> uint64 \<Rightarrow> world \<Rightarrow> bool" where
  "backfilled n t0 start target next w \<longleftrightarrow> rows_ok n (w_tables w) \<and> has_epochs t0 \<subseteq> has_epochs (w_tables w) \<and>
     start \<le> next \<and> uint next \<le> uint target + 1 \<and>
     (\<forall>e. start \<le> e \<and> e < next \<longrightarrow> uint e \<in> has_epochs (w_tables w)) \<and>
     map_of (tb_state (w_tables w)) (backfill_key n) =
       (if next = start then map_of (tb_state t0) (backfill_key n) else Some (uint next - 1))"

lemma canceled_run: "ctx_canceled env w = (r, w') \<Longrightarrow> w_tables w' = w_tables w"
  by (auto simp: ctx_canceled_def ask_def)

lemma resume_bound:
  assumes "(pstep env g target)\<^sup>*\<^sup>* s s'" and "pipe_inv g from target t0 s" and "gn_db g" and "target < maxUint64"
    and "uint (pl_resume s) \<le> uint target + 1"
  shows "uint (pl_resume s') \<le> uint target + 1"
  using assms(1,5)
proof (induction rule: rtranclp_induct)
  case (step y z)
  from pipe_inv_run [OF step(1) assms(2-4)] have items: "inv_items target y" by (simp add: pipe_inv_def)
  from step(2) show ?case
  proof cases
    case (consume_ok e be js u w')
    then have "(e, Inr be) \<in> flight y" by (simp add: flight_def)
    with items have le: "e \<le> target" by (auto simp: inv_items_def)
    then show ?thesis using consume_ok uint_Suc_word [OF le assms(4)] by (simp add: word_le_def)
  qed (use step in simp_all)
qed

lemma backfilled_attempt:
  assumes "backfilled (g_network g) t0 start target next w" and "w_tables w1 = w_tables w"
    and "(pstep env g target)\<^sup>*\<^sup>* (pipeline_start g next w1) s" and "gn_db g" "next \<le> target" "target < maxUint64"
  shows "backfilled (g_network g) t0 start target (pl_resume s) (pl_world s)"
proof -
  have ok: "rows_ok (g_network g) (w_tables w1)" using assms(1,2) by (simp add: backfilled_def)
  from pipeline_inv_reachable [OF assms(3) ok assms(5,4,6)] have d: "inv_done (g_network g) next (w_tables w1) s"
    by (simp add: pipeline_inv_def pipe_inv_def)
  have b: "uint (pl_resume s) \<le> uint target + 1"
    using resume_bound [OF assms(3) pipe_inv_start [OF ok] assms(4,6)] assms(5)
    by (simp add: pipeline_start_def word_le_def)
  have "uint e \<in> has_epochs (w_tables (pl_world s))" if "start \<le> e" "e < pl_resume s" for e
    using that d assms(1,2) by (cases "e < next") (auto simp: inv_done_def backfilled_def not_less)
  moreover have "pl_resume s = start \<longleftrightarrow> pl_resume s = next \<and> next = start"
    using d assms(1) by (auto simp: inv_done_def backfilled_def)
  ultimately show ?thesis using d b assms(1,2) by (auto simp: inv_done_def backfilled_def split: if_splits)
qed

lemma backfilled_root:
  assumes "backfilled n t0 start target next w" and "logP (rebuildNetworkRoot env g) w = (r, w')"
  shows "backfilled n t0 start target next w'"
proof -
  have "moves (epoch_ext n) (logP (rebuildNetworkRoot env g))" by (intro moves_intros)
  from movesD [OF this assms(2)] assms(1) show ?thesis by (auto simp: backfilled_def epoch_ext_def table_ext_def split: if_splits)
qed

lemma runBackfill_run:
  assumes "runBackfill env g target next w r w'" and "gn_db g" and "target < maxUint64" and "start \<le> target"
    and "backfilled (g_network g) t0 start target next w"
  shows "\<exists>m. backfilled (g_network g) t0 start target m w' \<and> (r = Inr () \<longrightarrow> target < m)"
  using assms(1,5)
proof induction
  case (backfill_end "next" w r w')
  then show ?case using backfilled_root by blast
next
  case (backfill_canceled "next" w w')
  then have "backfilled (g_network g) t0 start target next w'" by (simp add: backfilled_def canceled_run [of env w _ w'])
  then show ?case by auto
next
  case (backfill_complete "next" w w1 s r w')
  have t: "w_tables w1 = w_tables w" using backfill_complete(2) by (rule canceled_run)
  from backfilled_attempt [OF backfill_complete(6) t backfill_complete(3) assms(2) backfill_complete(1) assms(3)]
  have b: "backfilled (g_network g) t0 start target (pl_resume s) w'" using backfill_complete(5) by (rule backfilled_root)
  have "rows_ok (g_network g) (w_tables w1)" using backfill_complete(6) t by (simp add: backfilled_def)
  from complete_run [OF backfill_complete(3,4) assms(2) this backfill_complete(1) assms(3)] have "pl_resume s = target + 1" by simp
  moreover have "target < target + 1" using uint_Suc_word [OF order.refl assms(3)] by (simp add: word_less_def)
  ultimately show ?case using b by auto
next
  case (backfill_stopped "next" w w1 s err w')
  from backfilled_attempt [OF backfill_stopped(6) canceled_run [OF backfill_stopped(2)] backfill_stopped(3) assms(2) backfill_stopped(1) assms(3)]
    canceled_run [OF backfill_stopped(5)] have "backfilled (g_network g) t0 start target (pl_resume s) w'" by (simp add: backfilled_def)
  then show ?case by auto
next
  case (backfill_retry "next" w w1 s err w2 r w')
  from backfilled_attempt [OF backfill_retry(8) canceled_run [OF backfill_retry(2)] backfill_retry(3) assms(2) backfill_retry(1) assms(3)]
    canceled_run [OF backfill_retry(5)] have "backfilled (g_network g) t0 start target (pl_resume s) w2" by (simp add: backfilled_def)
  from backfill_retry(7) [OF this] show ?case .
qed

text \<open>
  C14. The backfill as a whole, whatever attempts of the pipeline fail and are retried, and whether it ends or is
  canceled: no row of an epoch is lost; there is an epoch \<open>m\<close>, at most one past the target, such that every epoch from
  the start up to \<open>m\<close> (excluded) has its row, and the backfill cursor is the one before the call when \<open>m\<close> is the start
  and \<open>m - 1\<close> otherwise, so that also an error or a cancellation never leaves the cursor on an epoch that has no row; and
  when no error is returned \<open>m\<close> is past the target, so that every epoch of the range has its row and the cursor is the
  target.
\<close>

theorem runBackfill_covers:
  assumes "runBackfill env g target start w r w'" and "gn_db g" and "rows_ok (g_network g) (w_tables w)"
    and "start \<le> target" and "target < maxUint64"
  shows "rows_ok (g_network g) (w_tables w') \<and> has_epochs (w_tables w) \<subseteq> has_epochs (w_tables w') \<and>
    (\<exists>m. start \<le> m \<and> uint m \<le> uint target + 1 \<and>
         (\<forall>e. start \<le> e \<and> e < m \<longrightarrow> uint e \<in> has_epochs (w_tables w')) \<and>
         map_of (tb_state (w_tables w')) (backfill_key (g_network g)) =
           (if m = start then map_of (tb_state (w_tables w)) (backfill_key (g_network g)) else Some (uint m - 1)) \<and>
         (r = Inr () \<longrightarrow> uint m = uint target + 1))"
proof -
  have "backfilled (g_network g) (w_tables w) start target start w"
  proof -
    have "uint start \<le> uint target" using assms(4) by (simp add: word_le_def)
    with assms(3) show ?thesis unfolding backfilled_def by auto
  qed
  from runBackfill_run [OF assms(1,2,5,4) this] obtain m where
    m: "backfilled (g_network g) (w_tables w) start target m w'" "r = Inr () \<longrightarrow> target < m" by blast
  have "r = Inr () \<longrightarrow> uint m = uint target + 1" using m by (auto simp: backfilled_def word_less_def)
  with m(1) show ?thesis unfolding backfilled_def by (intro conjI exI [of _ m]) auto
qed

theorem runBackfill_covers_witness:
  "\<exists>w'. runBackfill demo_outside demo_gen 5 5 demo_world (Inr ()) w' \<and> 5 \<in> has_epochs (w_tables w') \<and>
     map_of (tb_state (w_tables w')) (backfill_key ''mainnet'') = Some 5"
proof -
  obtain s where s: "(pstep demo_outside demo_gen 5)\<^sup>*\<^sup>* (pipeline_start demo_gen 5 (demo_world\<lparr>w_tick := 1\<rparr>)) s" "pl_cons s = KReturn None"
    using demo_pipeline_at [of 1] by blast
  have "ctx_canceled demo_outside demo_world = (Inr False, demo_world\<lparr>w_tick := 1\<rparr>)"
    by (simp add: ctx_canceled_def ask_def demo_outside_def demo_world_def)
  moreover have "logP (rebuildNetworkRoot demo_outside demo_gen) (pl_world s) = (Inr (), pl_world s)"
    by (simp add: logP_def rebuildNetworkRoot_def bindP_def tryP_def returnP_def)
  ultimately have r: "runBackfill demo_outside demo_gen 5 5 demo_world (Inr ()) (pl_world s)"
    using s by (intro runBackfill.backfill_complete) auto
  obtain m :: uint64 where m: "\<forall>e. 5 \<le> e \<and> e < m \<longrightarrow> uint e \<in> has_epochs (w_tables (pl_world s))"
    "map_of (tb_state (w_tables (pl_world s))) (backfill_key ''mainnet'') =
       (if m = 5 then map_of (tb_state (w_tables demo_world)) (backfill_key ''mainnet'') else Some (uint m - 1))"
    "uint m = uint (5 :: uint64) + 1"
    using runBackfill_covers [OF r] demo_rows_ok unfolding demo_network by auto
  from m(3) have "m = 6" by (simp add: word_uint_eq_iff)
  with m(1) [rule_format, of 5] have "uint (5 :: uint64) \<in> has_epochs (w_tables (pl_world s))" by simp
  with r m \<open>m = 6\<close> show ?thesis by auto
qed

end
