(* ===== verification/Commands.thy ===== *)
theory Commands
  imports Pipeline
begin

text \<open>
  The commands of \<^verbatim>\<open>cmd/blobscan-ipld/main.go\<close> that drive the generator: \<^verbatim>\<open>epoch\<close>, \<^verbatim>\<open>finalize-epoch\<close>, \<^verbatim>\<open>backfill-ipfs\<close>
  and \<^verbatim>\<open>repair-epochs\<close>, with the dispatch on the subcommand. The arguments are the values of the flags after
  \<^verbatim>\<open>flag.Parse\<close>. A command is a program on the world; \<^verbatim>\<open>os.Exit(1)\<close> after a message is the error with that message.
  Log lines are left out.
\<close>

section \<open>Dispatch\<close>

datatype command =
  CmdRun | CmdServe | CmdEpoch | CmdFinalizeEpoch | CmdExportCAR | CmdExportCARRange | CmdBackfillIPFS | CmdPinExisting
| CmdExportBlobRefs | CmdSummary | CmdRepairEpochs | CmdHealthCheck

definition subcommands :: "(string \<times> command) list" where
  "subcommands =
     [(''run'', CmdRun), (''serve'', CmdServe), (''epoch'', CmdEpoch), (''finalize-epoch'', CmdFinalizeEpoch),
      (''export-car'', CmdExportCAR), (''export-car-range'', CmdExportCARRange), (''backfill-ipfs'', CmdBackfillIPFS),
      (''pin-existing'', CmdPinExisting), (''export-blob-refs'', CmdExportBlobRefs), (''summary'', CmdSummary),
      (''repair-epochs'', CmdRepairEpochs), (''health-check'', CmdHealthCheck), (''check'', CmdHealthCheck)]"

definition dispatch :: "string \<Rightarrow> command res" where
  "dispatch subcommand =
     (case map_of subcommands subcommand of
        None \<Rightarrow> Inl (Errorf (''unknown subcommand '' @ subcommand))
      | Some c \<Rightarrow> Inr c)"

section \<open>Connections\<close>

definition connect_db :: "outside \<Rightarrow> unit prog" where
  "connect_db env = bindP (ask (o_connect env)) (\<lambda>r. wrapP ''failed to connect to postgres'' (liftP r))"

text \<open>The check of the DSN, with the message of the command, and the connection.\<close>

definition open_db :: "outside \<Rightarrow> Config \<Rightarrow> string \<Rightarrow> unit prog" where
  "open_db env cfg missing =
     (if sg_PostgresDSN (cf_Storage cfg) = '''' then failP (Errorf missing) else connect_db env)"

definition newIPFSClientFromConfig :: "Config \<Rightarrow> ipfsClient" where
  "newIPFSClientFromConfig cfg =
     NewIpfsClient (ic_APIAddr (cf_IPFS cfg)) (ic_Timeout (cf_IPFS cfg)) (ic_PinOnAdd (cf_IPFS cfg)) (ic_UploadWorkers (cf_IPFS cfg))"

abbreviation cfg_network :: "Config \<Rightarrow> string" where
  "cfg_network cfg \<equiv> nc_Name (cf_Network cfg)"

section \<open>Single epochs\<close>

definition cmdEpoch :: "outside \<Rightarrow> Config \<Rightarrow> uint64 \<Rightarrow> unit prog" where
  "cmdEpoch env cfg epochNum =
     (if epochNum = 0 then failP (Errorf ''epoch: -n <epoch> is required'')
      else bindP (wrapP ''failed to create generator'' (New env cfg)) (\<lambda>gen.
             wrapP ''epoch processing failed'' (ProcessSingleEpoch env gen epochNum)))"

definition cmdFinalizeEpoch :: "outside \<Rightarrow> Config \<Rightarrow> uint64 \<Rightarrow> unit prog" where
  "cmdFinalizeEpoch env cfg epochNum =
     (if epochNum = 0 then failP (Errorf ''finalize-epoch: -n <epoch> is required'')
      else bindP (wrapP ''failed to create generator'' (New env cfg)) (\<lambda>gen.
             wrapP ''finalize epoch failed'' (FinalizeEpoch env gen epochNum)))"

section \<open>Re-upload\<close>

text \<open>The last epoch: the flag, or the highest one in the database (\<^term>\<open>None\<close>: there is none).\<close>

definition backfill_to :: "outside \<Rightarrow> Config \<Rightarrow> uint64 \<Rightarrow> uint64 option prog" where
  "backfill_to env cfg toEpoch =
     (if toEpoch \<noteq> 0 then returnP (Some toEpoch)
      else bindP (connect_db env) (\<lambda>_.
           bindP (wrapP ''failed to query max epoch'' (db_read env (\<lambda>flt t. GetMaxEpoch flt t (cfg_network cfg)))) (\<lambda>maxEpoch.
             returnP (if maxEpoch = 0 then None else Some maxEpoch))))"

definition unless_canceled :: "string \<Rightarrow> unit prog \<Rightarrow> unit prog" where
  "unless_canceled msg m =
     bindP (tryP m) (\<lambda>r. case r of
       Inr _ \<Rightarrow> returnP ()
     | Inl err \<Rightarrow> if errors_Is err ErrCanceled then returnP () else failP (Wrap msg err))"

definition cmdBackfillIPFS :: "outside \<Rightarrow> Config \<Rightarrow> nat \<Rightarrow> uint64 \<Rightarrow> uint64 \<Rightarrow> unit prog" where
  "cmdBackfillIPFS env cfg retries fromEpoch toEpoch =
     (if sg_PostgresDSN (cf_Storage cfg) = '''' then failP (Errorf ''backfill-ipfs: postgres_dsn is required'')
      else if ic_SkipUpload (cf_IPFS cfg) then failP (Errorf ''backfill-ipfs: ipfs.skip_upload must be false'')
      else if nc_BeaconRPC (cf_Network cfg) = '''' then failP (Errorf ''backfill-ipfs: beacon_rpc is required to re-fetch blob data'')
      else bindP (wrapP ''failed to create generator'' (New env cfg)) (\<lambda>gen.
             let from = (if fromEpoch = 0 then gc_StartEpoch (cf_Generator cfg) else fromEpoch)
             in bindP (backfill_to env cfg toEpoch) (\<lambda>to.
                  case to of
                    None \<Rightarrow> returnP ()
                  | Some to \<Rightarrow> unless_canceled ''backfill-ipfs failed'' (BackfillIPFS env gen retries from to))))"

section \<open>Repair\<close>

text \<open>The lines that are printed: the mismatches on a dry run.\<close>

definition mismatch_line :: "EpochCountMismatch \<Rightarrow> string" where
  "mismatch_line m =
     FormatUint (cm_Epoch m) @ [CHR 0x09] @ ''stored='' @ fmt_int (cm_Stored m) @ [CHR 0x09] @ ''actual='' @ fmt_int (cm_Actual m)"

definition cmdRepairEpochs :: "outside \<Rightarrow> Config \<Rightarrow> bool \<Rightarrow> bool \<Rightarrow> string list prog" where
  "cmdRepairEpochs env cfg dryRun noVerify =
     bindP (open_db env cfg ''repair-epochs: postgres_dsn is required'') (\<lambda>_.
     bindP (wrapP ''failed to query blob_count mismatches''
              (db_read env (\<lambda>flt t. GetBlobCountMismatches flt t (cfg_network cfg)))) (\<lambda>mismatches.
       if mismatches = [] then returnP []
       else if dryRun then returnP (map mismatch_line mismatches)
       else bindP (wrapP ''failed to create generator'' (New env cfg)) (\<lambda>gen.
            bindP (RepairEpochs env gen (map cm_Epoch mismatches) (\<not> noVerify)) (\<lambda>(outcomes, ok, failed).
              if 0 < failed then failP (Errorf ''repair complete'') else returnP []))))"

section \<open>The re-upload moves the backfill cursor\<close>

text \<open>\<open>ensures P m\<close>: when the program returns, its start, result and end satisfy \<open>P\<close>.\<close>

definition ensures :: "(world \<Rightarrow> 'a \<Rightarrow> world \<Rightarrow> bool) \<Rightarrow> 'a prog \<Rightarrow> bool" where
  "ensures P m \<longleftrightarrow> (\<forall>w a w'. m w = (Inr a, w') \<longrightarrow> P w a w')"

text \<open>An epoch was re-uploaded and the backfill cursor is this epoch, or it was skipped and the tables are as before.\<close>

definition cursor_moved :: "Generator \<Rightarrow> uint64 \<Rightarrow> world \<Rightarrow> bool \<Rightarrow> world \<Rightarrow> bool" where
  "cursor_moved g epoch w up w' \<longleftrightarrow>
     (if up then map_of (tb_state (w_tables w')) (backfill_key (g_network g)) = Some (uint epoch) else w_tables w' = w_tables w)"

definition cursor_set :: "Generator \<Rightarrow> uint64 \<Rightarrow> world \<Rightarrow> bool \<Rightarrow> world \<Rightarrow> bool" where
  "cursor_set g epoch w up w' \<longleftrightarrow> up \<and> cursor_moved g epoch w up w'"

named_theorems ensures_intros

lemma ensures_skip [ensures_intros]: "ensures (cursor_moved g epoch) (returnP False)"
  by (simp add: ensures_def cursor_moved_def returnP_def)

lemma ensures_read [ensures_intros]:
  assumes m: "moves (\<lambda>w w'. w_tables w' = w_tables w) m" and f: "\<And>x. ensures (cursor_moved g epoch) (f x)"
  shows "ensures (cursor_moved g epoch) (bindP m f)"
  unfolding ensures_def
proof (intro allI impI)
  fix w up w' assume "bindP m f w = (Inr up, w')"
  then obtain x w1 where "m w = (Inr x, w1)" "f x w1 = (Inr up, w')" by (auto simp: bindP_Inr)
  with movesD [OF m] f show "cursor_moved g epoch w up w'" by (fastforce simp: ensures_def cursor_moved_def)
qed

lemma ensures_split [ensures_intros]:
  "(b \<Longrightarrow> ensures P m) \<Longrightarrow> (\<not> b \<Longrightarrow> ensures P n) \<Longrightarrow> ensures P (if b then m else n)"
  "(\<And>x. ensures P (h x)) \<Longrightarrow> (\<And>x. ensures P (k x)) \<Longrightarrow> ensures P (case z of Inl x \<Rightarrow> h x | Inr x \<Rightarrow> k x)"
  "(\<And>x y. ensures P (p x y)) \<Longrightarrow> ensures P (case q of (x, y) \<Rightarrow> p x y)"
  by (simp_all split: sum.split prod.split)

lemma ensures_set: "ensures (cursor_set g epoch) m \<Longrightarrow> ensures (cursor_moved g epoch) m"
  by (auto simp: ensures_def cursor_set_def)

lemma ensures_set_bind: "(\<And>x. ensures (cursor_set g epoch) (f x)) \<Longrightarrow> ensures (cursor_set g epoch) (bindP m f)"
  by (fastforce simp: ensures_def bindP_Inr cursor_set_def cursor_moved_def)

lemma ensures_cursor:
  assumes "gn_db g"
  shows "ensures (cursor_set g epoch) (bindP (wrapP s (state_SetBackfillCursor env g epoch)) (\<lambda>_. returnP True))"
  unfolding ensures_def
proof (intro allI impI)
  fix w up w'
  assume "bindP (wrapP s (state_SetBackfillCursor env g epoch)) (\<lambda>_. returnP True) w = (Inr up, w')"
  then have up: "up" and run: "state_SetBackfillCursor env g epoch w = (Inr (), w')"
    by (auto simp: bindP_Inr wrapP_def returnP_def split: prod.splits)
  from run assms obtain flt where "DB_SetBackfillCursor flt (g_network g) (w_tables w) epoch = (Inr (), w_tables w')"
    by (auto simp: state_SetBackfillCursor_def db_write_def bindP_Inr split: prod.splits)
  then have "\<exists>v. enc_int8 epoch = Inr v \<and> w_tables w' = set_cursor (backfill_key (g_network g)) v (w_tables w)"
    using DB_SetBackfill_cases by fastforce
  then show "cursor_set g epoch w up w'" using up by (auto simp: cursor_set_def cursor_moved_def enc_int8_def split: if_splits)
qed

lemma backfill_one_cursor:
  assumes "gn_db g"
  shows "ensures (cursor_moved g epoch) (backfill_ipfs_one env g retries epoch)"
proof -
  have up: "moves (\<lambda>w w'. w_tables w' = w_tables w) (upload_retry env g bs c epoch retries)" for bs c retries
  proof (induction retries)
    case 0
    show ?case unfolding upload_retry.simps [of _ _ _ _ _ 0] nat.case by (intro moves_intros)
  next
    case (Suc k)
    then show ?case unfolding upload_retry.simps [of _ _ _ _ _ "Suc k"] nat.case by (intro moves_intros)
  qed
  have saved: "ensures (cursor_moved g epoch) (bindP (wrapP s (call_SaveEpoch env g res n epoch)) (\<lambda>_. bindP m (\<lambda>_.
      bindP (wrapP s' (state_SetBackfillCursor env g epoch)) (\<lambda>_. returnP True))))" for s res n m s'
    by (intro ensures_set ensures_set_bind ensures_cursor assms)
  show ?thesis
    unfolding backfill_ipfs_one_def Let_def by (intro saved ensures_intros moves_intros up)
qed

text \<open>
  C36. The re-upload of epochs moves the cursor of the historical backfill: after the loop of \<^verbatim>\<open>BackfillIPFS\<close> over some
  epochs, the tables are as before when every epoch was skipped, and otherwise the backfill cursor is the last epoch that
  was re-uploaded, wherever the backfill had come to before. A later run starts the backfill behind that epoch and never
  visits the epochs in between.
\<close>

theorem backfill_ipfs_moves_cursor:
  assumes "gn_db g" and "backfill_ipfs_loop env g retries epochs w = (Inr ups, w')"
  shows "case map fst (filter snd (zip epochs ups)) of
      [] \<Rightarrow> w_tables w' = w_tables w
    | es \<Rightarrow> map_of (tb_state (w_tables w')) (backfill_key (g_network g)) = Some (uint (last es)) \<and>
            (0 < last es \<longrightarrow> backfill_start g (last es) = last es + 1)"
  using assms(2)
proof (induction epochs arbitrary: w ups)
  case (Cons e epochs)
  let ?w1 = "w\<lparr>w_tick := Suc (w_tick w)\<rparr>"
  from Cons.prems obtain up w2 rest where one: "backfill_ipfs_one env g retries e ?w1 = (Inr up, w2)"
    and loop: "backfill_ipfs_loop env g retries epochs w2 = (Inr rest, w')" and ups: "ups = up # rest"
    by (auto simp: bindP_Inr ctx_canceled_def ask_eq failP_def returnP_def split: if_splits)
  have w1: "w_tables ?w1 = w_tables w" by simp
  have "cursor_moved g e ?w1 up w2" using backfill_one_cursor [OF assms(1)] one by (auto simp: ensures_def)
  then show ?case using Cons.IH [OF loop] w1 ups
    by (auto simp: cursor_moved_def backfill_start_def split: list.splits if_splits)
qed (simp add: returnP_def)

text \<open>A generator with an IPFS node, one saved blob of epoch 5, and a beacon node that still serves the blob.\<close>

definition demo_ipfs_gen :: Generator where
  "demo_ipfs_gen = demo_gen\<lparr>gn_ipfs := Some (NewIpfsClient '''' 0 False 1)\<rparr>"

definition demo_long_sidecar :: BlobSidecar where
  "demo_long_sidecar = demo_sidecar\<lparr>sc_KZGCommitment := ''0xC0C0C0C0C0C0C0''\<rparr>"

definition demo_refetch :: outside where
  "demo_refetch = demo_outside\<lparr>o_sidecars := (\<lambda>_ slot. if slot = 11 then Inr [demo_long_sidecar] else Inr []), o_blobOrder := (\<lambda>_. [0])\<rparr>"

definition demo_refetched :: BlobInput where
  "demo_refetched = \<lparr>bi_Commitment = ''0xC0C0C0C0C0C0C0'', bi_VersionedHash = ''0x01c0c0c0c0c0c0'', bi_TxHash = '''', bi_BlockNumber = 0, bi_BlockHash = ''0xr'',
       bi_Slot = 11, bi_Epoch = 5, bi_Index = 3, bi_Data = [1, 2], bi_Size = 0\<rparr>"

definition demo_saved_world :: world where
  "demo_saved_world = demo_world\<lparr>w_tables := schema_empty\<lparr>tb_blobs :=
     [\<lparr>bw_commitment = ''0xC0C0C0C0C0C0C0'', bw_epoch = 5, bw_slot = 11, bw_slot_time = None, bw_network = ''mainnet'', bw_blob_index = 3,
       bw_data_cid = ''bafy'', bw_meta_cid = ''bafz'', bw_versioned_hash = ''0x01'', bw_tx_hash = '''', bw_block_number = 0,
       bw_block_hash = '''', bw_size_bytes = 2\<rparr>]\<rparr>\<rparr>"

lemma demo_refetch_input:
  "FetchEpochInput id demo_client (\<lambda>_. None) (o_sidecars demo_refetch k) [1, 0] 5 = Inr \<lparr>ei_Epoch = 5, ei_Slot = 10, ei_Blobs = [demo_refetched]\<rparr>"
proof -
  have s: "cl_slotsPerEpoch demo_client = 2" "unat (cl_slotsPerEpoch demo_client) = 2"
    by (simp_all add: demo_client_def NewClient_def)
  have h: "hexToBytes ''0x0102'' = Inr [1, 2]"
    by (simp add: hexToBytes_def strings_TrimPrefix_def strings_HasPrefix_def hexVal_def)
  have k: "kzgCommitmentToVersionedHash id ''0xC0C0C0C0C0C0C0'' = Inr ''0x01c0c0c0c0c0c0''"
    by (simp add: kzgCommitmentToVersionedHash_def strings_TrimPrefix_def strings_HasPrefix_def hex_nibble_def
        nibble_char_def char_of_def bit_Suc_0_iff)
  have i: "Atoi_value ''3'' = 3" by (simp add: Atoi_value_def parse_int_def parse_nat_def char_digit_def)
  show ?thesis
    by (simp add: FetchEpochInput_def EpochToFirstSlot_def s slot_task_def slot_blob_def demo_refetch_def demo_long_sidecar_def
        demo_sidecar_def h k i el_enrich_def demo_refetched_def)
      (simp add: numeral_2_eq_2)
qed

lemma demo_upload: "fst (PutBlockstore cid_lib c (\<lambda>_. demo_http) order bs) = Inr ()"
proof -
  have "fst (upload_task cid_lib c (\<lambda>_. demo_http) blks i) = Inr ()" for blks i
    by (simp add: upload_task_def PutBlock_def send_ok_def send_def demo_http_def Let_def)
  then have "first_error (map fst (map (upload_task cid_lib c (\<lambda>_. demo_http) blks) order)) = Inr ()" for blks
    by (induction order) simp_all
  then show ?thesis by (simp add: PutBlockstore_def Let_def)
qed

lemma demo_reprocess:
  "\<exists>r m. receive_results cid_lib [demo_refetched] [0] [zeroBlobResult] (BMem NewMemBlockstore) = Inr ([r], BMem m) \<and>
     (\<exists>p d. br_DataCID r = Cid p d) \<and> (\<exists>p d. br_MetaCID r = Cid p d)"
proof -
  obtain raw where raw: "dagcbor_Encode cid_lib (NMap (metadata_entries demo_refetched (Cid linkProtoRaw (id (bi_Data demo_refetched))))) = Inr raw"
    by (simp add: cid_lib_def demo_lib_def)
  obtain m where "foldl backend_add (BMem NewMemBlockstore) [\<lparr>blkCid = Cid linkProtoRaw (bi_Data demo_refetched), blkData = bi_Data demo_refetched\<rparr>,
      \<lparr>blkCid = Cid linkProtoDagCBOR raw, blkData = raw\<rparr>] = BMem m" using foldl_add_Mem by blast
  then show ?thesis using blob_blocks_doc [OF cid_lib_doc(3,1,2) raw] by (simp add: ProcessBlob_pure) (simp add: demo_refetched_def)
qed

lemma demo_renode:
  "\<exists>res m'. BuildEpochNode cid_lib (BMem m) \<lparr>ei_Epoch = 5, ei_Slot = 10, ei_Blobs = [demo_refetched]\<rparr> [r] ''mainnet'' 5000 = Inr (res, BMem m') \<and>
     er_Epoch res = 5"
  by (simp add: BuildEpochNode_def buildMapBlobIndex_def groupByVersionedHash_def cid_lib_def demo_lib_def go_len_def
      lsys_Store_def StorageWriteCommit_def EncoderChooser_def linkProtoDagCBOR_def epoch_entries_def demo_refetched_def)

definition succeeds :: "'a prog \<Rightarrow> bool" where
  "succeeds m \<longleftrightarrow> (\<forall>w. isOk (fst (m w)))"

lemma succeeds_bind: "succeeds m \<Longrightarrow> (\<And>x. succeeds (f x)) \<Longrightarrow> succeeds (bindP m f)"
  unfolding succeeds_def bindP_def by (auto split: prod.split sum.split) (metis fst_conv isOk_simps(1))

lemma succeeds_wrap: "succeeds m \<Longrightarrow> succeeds (wrapP s m)"
  unfolding succeeds_def wrapP_def by (auto split: prod.split) (metis fst_conv)

lemma succeeds_write: "(\<And>t. isOk (fst (wr noFaults t))) \<Longrightarrow> succeeds (db_write demo_refetch wr)"
  by (simp add: succeeds_def db_write_def bindP_def ask_eq demo_refetch_def demo_outside_def split: prod.split) (metis fst_conv)

lemma succeeds_return: "succeeds (returnP a)"
  by (simp add: succeeds_def returnP_def)

lemma succeeds_retry:
  assumes "succeeds (uploadAndPin env g bs c epoch)"
  shows "succeeds (upload_retry env g bs c epoch 0)"
  unfolding succeeds_def
proof
  fix w
  obtain w' where "uploadAndPin env g bs c epoch w = (Inr (), w')" using assms unfolding succeeds_def by (metis isOk_iff old.unit.exhaust prod.collapse)
  then show "isOk (fst (upload_retry env g bs c epoch 0 w))" by (simp add: bindP_def tryP_def returnP_def)
qed

lemma demo_backfill_tail:
  assumes "er_Epoch res = 5"
  shows "succeeds (bindP (case backend_mem (BMem m') of None \<Rightarrow> returnP () | Some bs \<Rightarrow> upload_retry demo_refetch demo_ipfs_gen bs c 5 0) (\<lambda>_.
    bindP (wrapP s1 (call_SaveEpoch demo_refetch demo_ipfs_gen res (go_len [r :: BlobResult]) 5)) (\<lambda>_.
    bindP (if b then wrapP s2 (call_SaveBlobs demo_refetch demo_ipfs_gen 5 [demo_refetched] [r]) else returnP ()) (\<lambda>_.
    bindP (wrapP s3 (state_SetBackfillCursor demo_refetch demo_ipfs_gen 5)) (\<lambda>_. returnP True)))))"
proof -
  have g: "gn_db demo_ipfs_gen" "gn_ipfs demo_ipfs_gen = Some (NewIpfsClient '''' 0 False 1)" "\<not> ic_PinOnAdd (cf_IPFS (gn_cfg demo_ipfs_gen))"
    by (simp_all add: demo_ipfs_gen_def) (simp_all add: demo_gen_def zeroConfig_def)
  have o: "o_lib demo_refetch = cid_lib" "o_upload demo_refetch n = (\<lambda>_. demo_http)" for n
    by (simp_all add: demo_refetch_def demo_outside_def)
  have "isOk (fst (PutBlockstore cid_lib (NewIpfsClient '''' 0 False 1) (\<lambda>_. demo_http) order m'))" for order by (simp add: demo_upload)
  then have "succeeds (call_PutBlockstore demo_refetch demo_ipfs_gen m')"
    by (simp add: succeeds_def call_PutBlockstore_def bindP_def ask_eq g o split: prod.split) (metis fst_conv)
  then have "succeeds (uploadAndPin demo_refetch demo_ipfs_gen m' c 5)"
    unfolding uploadAndPin_def using g by (simp add: succeeds_bind succeeds_wrap) (intro succeeds_bind succeeds_wrap, simp_all add: succeeds_def returnP_def)
  then have "succeeds (upload_retry demo_refetch demo_ipfs_gen m' c 5 0)" by (rule succeeds_retry)
  moreover have "succeeds (call_SaveEpoch demo_refetch demo_ipfs_gen res (go_len [r]) 5)"
    unfolding call_SaveEpoch_def using assms
    by (intro succeeds_write) (simp add: SaveEpoch_def enc_int8_def enc_int4_def fault_def go_len_def)
  moreover have "succeeds (call_SaveBlobs demo_refetch demo_ipfs_gen 5 [demo_refetched] [r])"
    unfolding call_SaveBlobs_def
    by (intro succeeds_write) (simp add: SaveBlobs_def SaveBlobs_tx_def fault_def blob_stage_row_def enc_int4_def demo_refetched_def)
  moreover have "succeeds (state_SetBackfillCursor demo_refetch demo_ipfs_gen 5)"
    using g by (simp add: state_SetBackfillCursor_def) (intro succeeds_write, simp add: DB_SetBackfillCursor_def enc_int8_def fault_def)
  ultimately show ?thesis by (auto intro!: succeeds_bind succeeds_wrap succeeds_return simp del: upload_retry.simps)
qed

lemma demo_backfill_one: "\<exists>w'. backfill_ipfs_one demo_refetch demo_ipfs_gen 0 5 (demo_saved_world\<lparr>w_tick := k\<rparr>) = (Inr True, w')"
proof -
  let ?inp = "\<lparr>ei_Epoch = 5, ei_Slot = 10, ei_Blobs = [demo_refetched]\<rparr>"
  have g: "g_network demo_ipfs_gen = ''mainnet''" "gn_db demo_ipfs_gen" "gn_beacon demo_ipfs_gen" "gn_ipfs demo_ipfs_gen = Some (NewIpfsClient '''' 0 False 1)"
    "gc_Workers (cf_Generator (gn_cfg demo_ipfs_gen)) = 4" "gc_HAMTThreshold (cf_Generator (gn_cfg demo_ipfs_gen)) = 5000"
    "\<not> ic_PinOnAdd (cf_IPFS (gn_cfg demo_ipfs_gen))"
    by (simp_all add: g_network_def demo_ipfs_gen_def) (simp_all add: demo_gen_def zeroConfig_def)
  have o: "o_db demo_refetch n = noFaults" "o_lib demo_refetch = cid_lib" "o_sha256 demo_refetch = id" "o_slotOrder demo_refetch n = [1, 0]"
    "o_blobOrder demo_refetch n = [0]" "o_upload demo_refetch n = (\<lambda>_. demo_http)" for n
    by (simp_all add: demo_refetch_def demo_outside_def)
  obtain rec where get: "GetBlobsByEpoch noFaults (w_tables demo_saved_world) ''mainnet'' 5 = Inr [rec]"
    by (simp add: GetBlobsByEpoch_def enc_int8_def fault_def epoch_blobs_def demo_saved_world_def schema_empty_def scan_blob_record_def scan_uint64_def)
  have beacon: "w_beacon demo_saved_world = demo_client" by (simp add: demo_saved_world_def demo_world_def)
  obtain r m where rr: "receive_results cid_lib [demo_refetched] [0] [zeroBlobResult] (BMem NewMemBlockstore) = Inr ([r], BMem m)"
    using demo_reprocess by blast
  obtain res m' where node: "BuildEpochNode cid_lib (BMem m) ?inp [r] ''mainnet'' 5000 = Inr (res, BMem m')" "er_Epoch res = 5"
    using demo_renode by blast
  let ?w = "\<lambda>k. demo_saved_world\<lparr>w_tick := k\<rparr>"
  define tail where "tail s1 s2 s3 b = bindP (case backend_mem (BMem m') of None \<Rightarrow> returnP () | Some bs \<Rightarrow> upload_retry demo_refetch demo_ipfs_gen bs (er_CID res) 5 0) (\<lambda>_.
    bindP (wrapP s1 (call_SaveEpoch demo_refetch demo_ipfs_gen res (go_len [r]) 5)) (\<lambda>_.
    bindP (if b then wrapP s2 (call_SaveBlobs demo_refetch demo_ipfs_gen 5 [demo_refetched] [r]) else returnP ()) (\<lambda>_.
    bindP (wrapP s3 (state_SetBackfillCursor demo_refetch demo_ipfs_gen 5)) (\<lambda>_. returnP True))))" for s1 s2 s3 b
  have r1: "wrapP s (db_read demo_refetch (\<lambda>flt t. GetBlobsByEpoch flt t (g_network demo_ipfs_gen) 5)) (?w k) = (Inr [rec], ?w (Suc k))" for s
    using get by (simp add: wrapP_def db_read_def bindP_def ask_eq g o)
  have r2: "tryP (call_FetchEpochInput demo_refetch demo_ipfs_gen False 5) (?w (Suc k)) = (Inr (Inr ?inp), ?w (Suc (Suc k)))"
    using demo_refetch_input [of "Suc k"] by (simp add: tryP_def call_FetchEpochInput_def bindP_def ask_eq g o beacon)
  have r3: "tryP (processEpochBlobs demo_refetch demo_ipfs_gen ?inp (BMem NewMemBlockstore)) (?w (Suc (Suc k))) = (Inr (Inr ([r], BMem m)), ?w (Suc (Suc (Suc k))))"
    using rr by (simp add: tryP_def processEpochBlobs_def Let_def bindP_def ask_eq liftP_def g o del: receive_results.simps)
  have r4: "tryP (liftP (g_BuildEpochNode demo_refetch demo_ipfs_gen (BMem m) ?inp [r])) w = (Inr (Inr (res, BMem m')), w)" for w
    using node(1) by (simp add: tryP_def liftP_def g_BuildEpochNode_def g o)
  have "backfill_ipfs_one demo_refetch demo_ipfs_gen 0 5 (?w k) =
      tail (''backfill-ipfs: save epoch '' @ FormatUint 5) (''backfill-ipfs: save blobs epoch '' @ FormatUint 5)
        (''backfill-ipfs: set cursor '' @ FormatUint 5) (list_ex (blob_mismatch (o_lib demo_refetch) [rec]) (zip [demo_refetched] [r]))
        (?w (Suc (Suc (Suc k))))"
    unfolding backfill_ipfs_one_def Let_def tail_def
    apply (subst bindP_step, rule r1)
    apply (simp only: list.distinct if_False)
    apply (subst bindP_step, rule r2)
    apply (simp only: sum.case EpochInput.simps list.distinct if_False)
    apply (subst bindP_step, rule r3)
    apply (simp only: sum.case prod.case)
    apply (subst bindP_step, rule r4)
    apply (simp only: sum.case prod.case)
    done
  moreover have "\<exists>w'. tail s1 s2 s3 b w = (Inr True, w')" for s1 s2 s3 b w
  proof -
    have "succeeds (tail s1 s2 s3 b)" unfolding tail_def by (rule demo_backfill_tail [OF node(2)])
    then obtain up w' where run: "tail s1 s2 s3 b w = (Inr up, w')" unfolding succeeds_def by (metis isOk_iff prod.collapse)
    have "ensures (cursor_set demo_ipfs_gen 5) (tail s1 s2 s3 b)"
      unfolding tail_def by (intro ensures_set_bind ensures_cursor g(2))
    with run show ?thesis by (auto simp: ensures_def cursor_set_def)
  qed
  ultimately show ?thesis by simp
qed

theorem backfill_ipfs_moves_cursor_witness:
  "\<exists>w'. backfill_ipfs_loop demo_refetch demo_ipfs_gen 0 [5] demo_saved_world = (Inr [True], w') \<and>
     map_of (tb_state (w_tables demo_saved_world)) (backfill_key ''mainnet'') = None \<and>
     map_of (tb_state (w_tables w')) (backfill_key ''mainnet'') = Some 5 \<and> backfill_start demo_ipfs_gen 5 = 6"
proof -
  have g: "gn_db demo_ipfs_gen" "g_network demo_ipfs_gen = ''mainnet''"
    by (simp_all add: demo_ipfs_gen_def g_network_def) (simp_all add: demo_gen_def zeroConfig_def)
  have "ctx_canceled demo_refetch demo_saved_world = (Inr False, demo_saved_world\<lparr>w_tick := Suc 0\<rparr>)"
    by (simp add: ctx_canceled_def ask_eq demo_refetch_def demo_outside_def demo_saved_world_def demo_world_def)
  moreover obtain w' where "backfill_ipfs_one demo_refetch demo_ipfs_gen 0 5 (demo_saved_world\<lparr>w_tick := Suc 0\<rparr>) = (Inr True, w')"
    using demo_backfill_one by blast
  ultimately have run: "backfill_ipfs_loop demo_refetch demo_ipfs_gen 0 [5] demo_saved_world = (Inr [True], w')"
    by (simp add: bindP_def returnP_def)
  from backfill_ipfs_moves_cursor [OF g(1) run] run g(2) show ?thesis by (simp add: demo_saved_world_def schema_empty_def)
qed

text \<open>A configuration with a database, for the witnesses of the other commands.\<close>

definition demo_cmd_cfg :: Config where
  "demo_cmd_cfg = (gn_cfg demo_gen)\<lparr>cf_Storage := \<lparr>sg_DataDir = '''', sg_CARDir = ''car'', sg_PostgresDSN = ''dsn''\<rparr>\<rparr>"

end
