(* ===== verification/Flags.thy ===== *)
theory Flags
  imports Commands
begin

text \<open>
  The command line: the parsing of flags (the part of Go's \<^verbatim>\<open>flag\<close> package that \<^verbatim>\<open>cmd/blobscan-ipld/main.go\<close> uses, with
  \<^verbatim>\<open>strconv\<close>'s integers in base 0) and the flags of the subcommands with their defaults. A flag set is the list of its
  names with their values, at first the defaults; the constructor of a value is the type of the flag.
\<close>

section \<open>Integers with a base prefix\<close>

definition alnum_value :: "char \<Rightarrow> nat option" where
  "alnum_value c =
     (let n = of_char (lower_char c) :: nat
      in if 48 \<le> n \<and> n \<le> 57 then Some (n - 48) else if 97 \<le> n \<and> n \<le> 122 then Some (n - 87) else None)"

fun based_digits :: "nat \<Rightarrow> nat \<Rightarrow> string \<Rightarrow> nat option" where
  "based_digits base acc [] = Some acc"
| "based_digits base acc (c # cs) =
     (if c = CHR ''_'' then based_digits base acc cs
      else case alnum_value c of
             None \<Rightarrow> None
           | Some d \<Rightarrow> if d < base then based_digits base (base * acc + d) cs else None)"

definition prefix_base :: "char \<Rightarrow> nat option" where
  "prefix_base c =
     (if lower_char c = CHR ''b'' then Some 2 else if lower_char c = CHR ''o'' then Some 8
      else if lower_char c = CHR ''x'' then Some 16 else None)"

text \<open>The base and the digits: a prefix counts when a character follows it, and a leading zero means base 8.\<close>

definition split_base :: "string \<Rightarrow> nat \<times> string" where
  "split_base s =
     (case s of
        c # t \<Rightarrow>
          if c \<noteq> CHR ''0'' then (10, s)
          else (case t of
                  p # d # r \<Rightarrow> (case prefix_base p of None \<Rightarrow> (8, t) | Some b \<Rightarrow> (b, d # r))
                | _ \<Rightarrow> (8, t))
      | [] \<Rightarrow> (10, s))"

text \<open>
  \<^verbatim>\<open>underscoreOK\<close>: an underscore stands between digits, or between the prefix and a digit. The first argument is the last
  character seen: none (\<^verbatim>\<open>^\<close>), a digit (\<^verbatim>\<open>0\<close>), an underscore or another one (\<^verbatim>\<open>!\<close>).
\<close>

fun underscore_loop :: "bool \<Rightarrow> char \<Rightarrow> string \<Rightarrow> bool" where
  "underscore_loop hex i [] \<longleftrightarrow> i \<noteq> CHR ''_''"
| "underscore_loop hex i (c # cs) \<longleftrightarrow>
     (if char_digit c \<noteq> None \<or> hex \<and> hex_nibble c \<noteq> None then underscore_loop hex (CHR ''0'') cs
      else if c = CHR ''_'' then i = CHR ''0'' \<and> underscore_loop hex (CHR ''_'') cs
      else i \<noteq> CHR ''_'' \<and> underscore_loop hex (CHR ''!'') cs)"

definition underscoreOK :: "string \<Rightarrow> bool" where
  "underscoreOK s \<longleftrightarrow>
     (case s of
        c # p # r \<Rightarrow> if c = CHR ''0'' \<and> prefix_base p \<noteq> None
                     then underscore_loop (prefix_base p = Some 16) (CHR ''0'') r else underscore_loop False (CHR ''^'') s
      | _ \<Rightarrow> underscore_loop False (CHR ''^'') s)"

definition parse_based :: "string \<Rightarrow> nat option" where
  "parse_based s =
     (let (base, digits) = split_base s
      in if s = '''' \<or> CHR ''_'' \<in> set digits \<and> \<not> underscoreOK s then None else based_digits base 0 digits)"

definition ParseUint0 :: "string \<Rightarrow> uint64 res" where
  "ParseUint0 s =
     (case parse_based s of
        None \<Rightarrow> Inl (Errorf ''parse error'')
      | Some n \<Rightarrow> if n < 2 ^ 64 then Inr (word_of_nat n) else Inl (Errorf ''value out of range''))"

definition ParseInt0 :: "string \<Rightarrow> goint res" where
  "ParseInt0 s =
     (let neg = (s \<noteq> '''' \<and> hd s = CHR ''-''); u = (if s \<noteq> '''' \<and> hd s \<in> {CHR ''-'', CHR ''+''} then tl s else s)
      in (case parse_based u of
            None \<Rightarrow> Inl (Errorf ''parse error'')
          | Some n \<Rightarrow>
              if n < 2 ^ 63 \<or> neg \<and> n = 2 ^ 63 then Inr (word_of_int (if neg then - int n else int n))
              else Inl (Errorf ''value out of range'')))"

definition ParseBool :: "string \<Rightarrow> bool res" where
  "ParseBool s =
     (if s \<in> {''1'', ''t'', ''T'', ''true'', ''TRUE'', ''True''} then Inr True
      else if s \<in> {''0'', ''f'', ''F'', ''false'', ''FALSE'', ''False''} then Inr False
      else Inl (Errorf ''parse error''))"

section \<open>Flags\<close>

datatype flag_value = VBool bool | VUint64 uint64 | VInt goint | VString string | VDuration duration

type_synonym flag_set = "(string \<times> flag_value) list"

text \<open>\<^verbatim>\<open>Value.Set\<close>: the new value has the type of the old one.\<close>

fun flag_Set :: "parse_lib \<Rightarrow> flag_value \<Rightarrow> string \<Rightarrow> flag_value res" where
  "flag_Set pl (VBool _) s = bindR (ParseBool s) (\<lambda>v. Inr (VBool v))"
| "flag_Set pl (VUint64 _) s = bindR (ParseUint0 s) (\<lambda>v. Inr (VUint64 v))"
| "flag_Set pl (VInt _) s = bindR (ParseInt0 s) (\<lambda>v. Inr (VInt v))"
| "flag_Set pl (VString _) s = Inr (VString s)"
| "flag_Set pl (VDuration _) s = bindR (time_ParseDuration pl s) (\<lambda>v. Inr (VDuration v))"

fun isBoolFlag :: "flag_value \<Rightarrow> bool" where
  "isBoolFlag (VBool _) \<longleftrightarrow> True"
| "isBoolFlag _ \<longleftrightarrow> False"

text \<open>
  The outcome of one argument: the flags end and these arguments are left, the flag was set, or the process exits (with 0
  after \<^verbatim>\<open>-help\<close>, with 2 on an error).
\<close>

datatype one_flag = FlagsEnd "string list" | FlagSet flag_set "string list" | FlagExit nat

definition cut_equals :: "string \<Rightarrow> string \<times> string option" where
  "cut_equals name =
     (case dropWhile (\<lambda>c. c \<noteq> CHR ''='') name of
        [] \<Rightarrow> (name, None)
      | _ # value \<Rightarrow> (takeWhile (\<lambda>c. c \<noteq> CHR ''='') name, Some value))"

definition set_flag :: "parse_lib \<Rightarrow> flag_set \<Rightarrow> string \<Rightarrow> string option \<Rightarrow> string list \<Rightarrow> one_flag" where
  "set_flag pl fs name value args =
     (case map_of fs name of
        None \<Rightarrow> FlagExit (if name = ''help'' \<or> name = ''h'' then 0 else 2)
      | Some old \<Rightarrow>
          (let (value, args) =
             (if isBoolFlag old then (Some (case value of None \<Rightarrow> ''true'' | Some v \<Rightarrow> v), args)
              else case value of
                     Some v \<Rightarrow> (Some v, args)
                   | None \<Rightarrow> (case args of [] \<Rightarrow> (None, []) | v # rest \<Rightarrow> (Some v, rest)))
           in (case value of
                 None \<Rightarrow> FlagExit 2
               | Some v \<Rightarrow>
                   (case flag_Set pl old v of
                      Inl _ \<Rightarrow> FlagExit 2
                    | Inr new \<Rightarrow> FlagSet (AList.update name new fs) args))))"

definition parseOne :: "parse_lib \<Rightarrow> flag_set \<Rightarrow> string \<Rightarrow> string list \<Rightarrow> one_flag" where
  "parseOne pl fs s args =
     (if length s < 2 \<or> hd s \<noteq> CHR ''-'' then FlagsEnd (s # args)
      else if s = ''--'' then FlagsEnd args
      else let name = drop (if s ! 1 = CHR ''-'' then 2 else 1) s
           in if hd name = CHR ''-'' \<or> hd name = CHR ''='' then FlagExit 2
              else case cut_equals name of (name, value) \<Rightarrow> set_flag pl fs name value args)"

lemma parseOne_shorter: "parseOne pl fs s args = FlagSet fs' rest \<Longrightarrow> length rest \<le> length args"
  by (auto simp: parseOne_def set_flag_def Let_def split: if_splits option.splits list.splits sum.splits prod.splits)

function flag_Parse :: "parse_lib \<Rightarrow> flag_set \<Rightarrow> string list \<Rightarrow> nat + (flag_set \<times> string list)" where
  "flag_Parse pl fs [] = Inr (fs, [])"
| "flag_Parse pl fs (s # args) =
     (case parseOne pl fs s args of
        FlagsEnd rest \<Rightarrow> Inr (fs, rest)
      | FlagExit code \<Rightarrow> Inl code
      | FlagSet fs' rest \<Rightarrow> flag_Parse pl fs' rest)"
  by pat_completeness auto

termination by (relation "measure (\<lambda>(pl, fs, args). length args)") (auto dest: parseOne_shorter)

section \<open>The flags of the subcommands\<close>

definition global_flags :: flag_set where
  "global_flags = [(''log-level'', VString ''info'')]"

definition run_flags :: flag_set where
  "run_flags = []"

definition serve_flags :: flag_set where
  "serve_flags = [(''pull'', VBool False)]"

definition epoch_flags :: flag_set where
  "epoch_flags = [(''n'', VUint64 0)]"

definition finalize_flags :: flag_set where
  "finalize_flags = [(''n'', VUint64 0)]"

definition export_flags :: flag_set where
  "export_flags = [(''n'', VUint64 0), (''out'', VString '''')]"

definition range_flags :: flag_set where
  "range_flags = [(''from'', VUint64 0), (''to'', VUint64 0), (''out'', VString '''')]"

definition backfill_flags :: flag_set where
  "backfill_flags = [(''from'', VUint64 0), (''to'', VUint64 0)]"

definition pin_flags :: flag_set where
  "pin_flags = [(''dry-run'', VBool False), (''workers'', VInt 4), (''pin-timeout'', VDuration 120000000000), (''retries'', VInt 2), (''limit'', VInt 0)]"

definition refs_flags :: flag_set where
  "refs_flags = [(''from'', VUint64 0), (''to'', VUint64 0), (''out'', VString ''''), (''meta'', VBool False), (''binary'', VBool False)]"

definition summary_flags :: flag_set where
  "summary_flags = [(''check-ipfs'', VBool False), (''gaps'', VBool False), (''empty'', VBool False), (''top'', VInt 0), (''monthly'', VBool False)]"

definition repair_flags :: flag_set where
  "repair_flags = [(''dry-run'', VBool False), (''no-verify'', VBool False)]"

definition health_flags :: flag_set where
  "health_flags = [(''tier'', VInt 1), (''samples'', VInt 10)]"

lemmas flag_sets [simp] = run_flags_def serve_flags_def epoch_flags_def finalize_flags_def export_flags_def range_flags_def backfill_flags_def pin_flags_def refs_flags_def summary_flags_def repair_flags_def health_flags_def

fun command_flags :: "command \<Rightarrow> flag_set" where
  "command_flags CmdRun = run_flags"
| "command_flags CmdServe = serve_flags"
| "command_flags CmdEpoch = epoch_flags"
| "command_flags CmdFinalizeEpoch = finalize_flags"
| "command_flags CmdExportCAR = export_flags"
| "command_flags CmdExportCARRange = range_flags"
| "command_flags CmdBackfillIPFS = backfill_flags"
| "command_flags CmdPinExisting = pin_flags"
| "command_flags CmdExportBlobRefs = refs_flags"
| "command_flags CmdSummary = summary_flags"
| "command_flags CmdRepairEpochs = repair_flags"
| "command_flags CmdHealthCheck = health_flags"

text \<open>The value that a flag's pointer holds after parsing.\<close>

definition flag_bool :: "flag_set \<Rightarrow> string \<Rightarrow> bool" where
  "flag_bool fs name = (case map_of fs name of Some (VBool b) \<Rightarrow> b | _ \<Rightarrow> False)"

definition flag_uint64 :: "flag_set \<Rightarrow> string \<Rightarrow> uint64" where
  "flag_uint64 fs name = (case map_of fs name of Some (VUint64 v) \<Rightarrow> v | _ \<Rightarrow> 0)"

definition flag_int :: "flag_set \<Rightarrow> string \<Rightarrow> goint" where
  "flag_int fs name = (case map_of fs name of Some (VInt v) \<Rightarrow> v | _ \<Rightarrow> 0)"

definition flag_string :: "flag_set \<Rightarrow> string \<Rightarrow> string" where
  "flag_string fs name = (case map_of fs name of Some (VString v) \<Rightarrow> v | _ \<Rightarrow> '''')"

section \<open>Every flag keeps its type\<close>

fun same_type :: "flag_value \<Rightarrow> flag_value \<Rightarrow> bool" where
  "same_type (VBool _) (VBool _) \<longleftrightarrow> True"
| "same_type (VUint64 _) (VUint64 _) \<longleftrightarrow> True"
| "same_type (VInt _) (VInt _) \<longleftrightarrow> True"
| "same_type (VString _) (VString _) \<longleftrightarrow> True"
| "same_type (VDuration _) (VDuration _) \<longleftrightarrow> True"
| "same_type _ _ \<longleftrightarrow> False"

definition flags_typed :: "flag_set \<Rightarrow> flag_set \<Rightarrow> bool" where
  "flags_typed fs fs' \<longleftrightarrow> list_all2 (\<lambda>x y. fst x = fst y \<and> same_type (snd x) (snd y)) fs fs'"

lemma same_type_refl [simp]: "same_type v v"
  by (cases v) auto

lemma same_type_trans: "same_type u v \<Longrightarrow> same_type v w \<Longrightarrow> same_type u w"
  by (cases u; cases v; cases w) auto

lemma flag_Set_type: "flag_Set pl old s = Inr new \<Longrightarrow> same_type old new"
  by (cases old) (auto simp: bindR_eq_Inr)

lemma flags_typed_update: "map_of fs name = Some old \<Longrightarrow> same_type old new \<Longrightarrow> flags_typed fs (AList.update name new fs)"
  unfolding flags_typed_def by (induction fs) (auto simp: list_all2_refl split: if_splits)

lemma flags_typed_refl [simp]: "flags_typed fs fs"
  by (simp add: flags_typed_def list_all2_refl)

lemma parseOne_typed: "parseOne pl fs s args = FlagSet fs' rest \<Longrightarrow> flags_typed fs fs'"
  by (auto simp: parseOne_def set_flag_def Let_def intro: flags_typed_update flag_Set_type
      split: if_splits option.splits list.splits sum.splits prod.splits)

lemma flags_typed_trans: "flags_typed a b \<Longrightarrow> flags_typed b c \<Longrightarrow> flags_typed a c"
  unfolding flags_typed_def by (erule (1) list_all2_trans [rotated]) (auto intro: same_type_trans)

text \<open>
  Parsing changes neither the names nor the types of the flags, so a command that reads one of its flags finds a value of
  the type it declared.
\<close>

lemma flag_Parse_typed: "flag_Parse pl fs args = Inr (fs', rest) \<Longrightarrow> flags_typed fs fs'"
proof (induction pl fs args rule: flag_Parse.induct)
  case (2 pl fs s args)
  then show ?case by (auto split: one_flag.splits dest: parseOne_typed intro: flags_typed_trans)
qed simp

section \<open>Printed numbers are read back\<close>

lemma based_digits_val: "digits_val acc s = Some n \<Longrightarrow> based_digits 10 acc s = Some n"
proof (induction s arbitrary: acc)
  case (Cons c cs)
  then obtain d where d: "char_digit c = Some d" "digits_val (10 * acc + d) cs = Some n" by (auto split: option.splits)
  then have "c \<noteq> CHR ''_''" "alnum_value c = Some d" "d < 10"
    by (auto simp: char_digit_def alnum_value_def lower_char_def Let_def split: if_splits)
  with Cons.IH d show ?case by simp
qed simp

lemma digits_only: "digits_val acc s = Some n \<Longrightarrow> c \<in> set s \<Longrightarrow> char_digit c \<noteq> None"
  by (induction s arbitrary: acc) (auto split: option.splits)

lemma fmt_nat_digit: "c \<in> set (fmt_nat n) \<Longrightarrow> char_digit c \<noteq> None"
  using digits_only [OF digits_val_fmt_nat] .

lemma fmt_nat_hd: "0 < n \<Longrightarrow> hd (fmt_nat n) \<noteq> CHR ''0''"
proof (induction n rule: fmt_nat.induct)
  case (1 n)
  show ?case
  proof (cases "n < 10")
    case True
    then have "fmt_nat n = [digit_char n]" by (simp add: fmt_nat.simps [of n])
    moreover have "(of_char (digit_char n) :: nat) \<noteq> of_char (CHR ''0'')" using True \<open>0 < n\<close> by (simp add: of_char_digit)
    ultimately show ?thesis by auto
  next
    case False
    then have "fmt_nat n = fmt_nat (n div 10) @ [digit_char (n mod 10)]" by (simp add: fmt_nat.simps [of n])
    with False 1 show ?thesis by simp
  qed
qed

lemma parse_based_fmt_nat: "parse_based (fmt_nat n) = Some n"
proof (cases "n = 0")
  case True
  have "digit_char 0 = CHR ''0''" by code_simp
  with True show ?thesis by (simp add: fmt_nat.simps [of 0] parse_based_def split_base_def)
next
  case False
  obtain c cs where s: "fmt_nat n = c # cs" by (cases "fmt_nat n") auto
  have "split_base (fmt_nat n) = (10, fmt_nat n)" using fmt_nat_hd [of n] False by (simp add: split_base_def s)
  moreover have "CHR ''_'' \<notin> set (fmt_nat n)" using fmt_nat_digit [of "CHR ''_''" n] by (auto simp: char_digit_def)
  ultimately show ?thesis using based_digits_val [OF digits_val_fmt_nat] by (simp add: parse_based_def)
qed

lemma ParseUint0_FormatUint [simp]: "ParseUint0 (FormatUint v) = Inr v"
  using unsigned_less [of v, where 'a = nat] by (simp add: ParseUint0_def FormatUint_def parse_based_fmt_nat)

text \<open>A flag with its value as the next argument.\<close>

lemma flag_Parse_uint64:
  assumes "map_of fs name = Some (VUint64 old)" and "name \<noteq> ''''" and "CHR ''='' \<notin> set name" and "hd name \<noteq> CHR ''-''"
  shows "flag_Parse pl fs ((CHR ''-'' # name) # FormatUint v # args) = flag_Parse pl (AList.update name (VUint64 v) fs) args"
proof -
  obtain c cs where n: "name = c # cs" using assms(2) by (cases name) auto
  have "dropWhile (\<lambda>c. c \<noteq> CHR ''='') name = []" using assms(3) by (auto simp: dropWhile_eq_Nil_conv)
  then have "cut_equals name = (name, None)" by (simp only: cut_equals_def list.case)
  with assms n show ?thesis by (auto simp: parseOne_def set_flag_def)
qed

end
