(* ===== verification/Format.thy ===== *)
theory Format
  imports Golib "HOL-Library.Log_Nat"
begin

text \<open>
  The printing of numbers and times that the summary of \<^verbatim>\<open>cmd/blobscan-ipld/main.go\<close> uses: \<^verbatim>\<open>float64\<close> arithmetic with its
  rounding, \<^verbatim>\<open>fmt\<close>'s fixed-point verb and padding, \<^verbatim>\<open>time.Time\<close> in UTC, and \<^verbatim>\<open>formatBytes\<close> and \<^verbatim>\<open>formatElapsed\<close>. A
  \<^verbatim>\<open>float64\<close> is the rational number it stands for; the operands here lie far inside the range of normal numbers.
\<close>

section \<open>Floating point\<close>

text \<open>Rounding to an integer, halves to even; and to 53 significant bits.\<close>

definition round_even :: "rat \<Rightarrow> int" where
  "round_even x =
     (let f = \<lfloor>x\<rfloor>; r = x - of_int f
      in if r < 1 / 2 \<or> r = 1 / 2 \<and> even f then f else f + 1)"

text \<open>\<open>f64_exp x\<close>: the exponent \<open>k\<close> with \<open>2 ^ 52 \<le> x / 2 ^ k < 2 ^ 53\<close>.\<close>

definition f64_exp :: "rat \<Rightarrow> int" where
  "f64_exp x =
     (let (p, q) = quotient_of x; b = bitlen p - bitlen q
      in (if x < power_int 2 b then b - 1 else b) - 52)"

definition f64 :: "rat \<Rightarrow> rat" where
  "f64 x =
     (if x = 0 then 0
      else let k = f64_exp \<bar>x\<bar> in sgn x * of_int (round_even (\<bar>x\<bar> / power_int 2 k)) * power_int 2 k)"

definition f64_div :: "rat \<Rightarrow> rat \<Rightarrow> rat" where
  "f64_div x y = f64 (x / y)"

text \<open>\<^verbatim>\<open>%.<d>f\<close>: the exact value of the number, rounded to \<open>d\<close> decimals, halves to even.\<close>

definition fmt_fixed :: "nat \<Rightarrow> rat \<Rightarrow> string" where
  "fmt_fixed d x =
     (let n = nat (round_even (\<bar>x\<bar> * 10 ^ d))
      in (if x < 0 then ''-'' else '''') @ fmt_nat (n div 10 ^ d) @ (if d = 0 then '''' else CHR ''.'' # pad_digits d n))"

section \<open>Padding\<close>

text \<open>\<^verbatim>\<open>%-<w>s\<close> and \<^verbatim>\<open>%<w>s\<close>, for texts in ASCII.\<close>

definition pad_right :: "nat \<Rightarrow> string \<Rightarrow> string" where
  "pad_right w s = s @ replicate (w - length s) (CHR '' '')"

definition pad_left :: "nat \<Rightarrow> string \<Rightarrow> string" where
  "pad_left w s = replicate (w - length s) (CHR '' '') @ s"

section \<open>Dates\<close>

text \<open>
  The proleptic Gregorian calendar: \<open>civil n\<close> is the date of day \<open>n\<close>, counted from January 1 of year 1, by the cycles of
  400, 100, 4 and 1 years.
\<close>

definition leap :: "int \<Rightarrow> bool" where
  "leap y \<longleftrightarrow> y mod 4 = 0 \<and> (y mod 100 \<noteq> 0 \<or> y mod 400 = 0)"

definition month_lengths :: "int \<Rightarrow> int list" where
  "month_lengths y = [31, if leap y then 29 else 28, 31, 30, 31, 30, 31, 31, 30, 31, 30, 31]"

text \<open>The month, counted from the first of the list, and the day in it.\<close>

fun find_month :: "int list \<Rightarrow> int \<Rightarrow> nat \<times> int" where
  "find_month [] d = (0, d + 1)"
| "find_month [l] d = (1, d + 1)"
| "find_month (l # ls) d = (if d < l then (1, d + 1) else (case find_month ls (d - l) of (m, day) \<Rightarrow> (Suc m, day)))"

definition civil_year :: "int \<Rightarrow> int \<times> int" where
  "civil_year n =
     (let n400 = n div 146097; d400 = n mod 146097;
          n100 = min 3 (d400 div 36524); d100 = d400 - n100 * 36524;
          n4 = d100 div 1461; d4 = d100 mod 1461;
          n1 = min 3 (d4 div 365)
      in (400 * n400 + 100 * n100 + 4 * n4 + n1 + 1, d4 - n1 * 365))"

definition civil :: "int \<Rightarrow> int \<times> nat \<times> int" where
  "civil n = (let (y, yday) = civil_year n; (m, day) = find_month (month_lengths y) yday in (y, m, day))"

text \<open>\<^verbatim>\<open>t.UTC().Format("2006-01-02T15:04:05Z")\<close> and \<^verbatim>\<open>t.UTC().Format("2006-01")\<close>.\<close>

definition zero_pad :: "nat \<Rightarrow> int \<Rightarrow> string" where
  "zero_pad w i =
     (let s = fmt_nat (nat \<bar>i\<bar>) in (if i < 0 then ''-'' else '''') @ replicate (w - length s) (CHR ''0'') @ s)"

definition format_month :: "gotime \<Rightarrow> string" where
  "format_month t = (case civil (t div 86400000000000) of (y, m, _) \<Rightarrow> zero_pad 4 y @ ''-'' @ zero_pad 2 (int m))"

definition format_time :: "gotime \<Rightarrow> string" where
  "format_time t =
     (case civil (t div 86400000000000) of
        (y, m, day) \<Rightarrow>
          (let secs = t div 1000000000 mod 86400
           in zero_pad 4 y @ ''-'' @ zero_pad 2 (int m) @ ''-'' @ zero_pad 2 day @ ''T'' @
              zero_pad 2 (secs div 3600) @ '':'' @ zero_pad 2 (secs div 60 mod 60) @ '':'' @ zero_pad 2 (secs mod 60) @ ''Z''))"

section \<open>The formatting helpers\<close>

definition formatBytes :: "int \<Rightarrow> string" where
  "formatBytes n =
     (if 2 ^ 30 \<le> n then fmt_fixed 2 (f64 (of_int n) / 2 ^ 30) @ '' GiB''
      else if 2 ^ 20 \<le> n then fmt_fixed 1 (f64 (of_int n) / 2 ^ 20) @ '' MiB''
      else if 2 ^ 10 \<le> n then fmt_fixed 1 (f64 (of_int n) / 2 ^ 10) @ '' KiB''
      else fmt_int n @ '' B'')"

text \<open>
  \<^verbatim>\<open>time.Time.Sub\<close> saturates. \<^verbatim>\<open>Duration.Hours\<close> adds the whole hours and the rest as \<^verbatim>\<open>float64\<close>, \<^verbatim>\<open>Duration.Minutes\<close>
  likewise; the duration is negated when it is negative, which leaves the least one as it is. The conversion to
  \<^verbatim>\<open>int\<close> drops the fraction.
\<close>

definition time_Sub :: "gotime \<Rightarrow> gotime \<Rightarrow> duration" where
  "time_Sub t u = word_of_int (max (- (2 ^ 63)) (min (2 ^ 63 - 1) (t - u)))"

definition trunc_div :: "int \<Rightarrow> int \<Rightarrow> int" where
  "trunc_div a b = sgn a * (\<bar>a\<bar> div b)"

definition in_units :: "int \<Rightarrow> duration \<Rightarrow> rat" where
  "in_units u d =
     (let whole = trunc_div (sint d) u
      in f64 (of_int whole + f64_div (of_int (sint d - whole * u)) (of_int u)))"

definition Duration_Hours :: "duration \<Rightarrow> rat" where
  "Duration_Hours d = in_units 3600000000000 d"

definition Duration_Minutes :: "duration \<Rightarrow> rat" where
  "Duration_Minutes d = in_units 60000000000 d"

definition trunc :: "rat \<Rightarrow> int" where
  "trunc x = (if x < 0 then - \<lfloor>- x\<rfloor> else \<lfloor>x\<rfloor>)"

definition formatElapsed :: "gotime \<Rightarrow> gotime \<Rightarrow> string" where
  "formatElapsed a b =
     (let d = time_Sub b a; d = (if sint d < 0 then - d else d);
          days = trunc (f64_div (Duration_Hours d) 24)
      in if 2 \<le> days then fmt_int days @ '' days''
         else if days = 1 then ''1 day''
         else let h = trunc (Duration_Hours d)
              in if 1 \<le> h then fmt_int h @ ''h'' else fmt_int (trunc (Duration_Minutes d)) @ ''m'')"

section \<open>The dates are right\<close>

definition days_before_year :: "int \<Rightarrow> int" where
  "days_before_year y = 365 * (y - 1) + (y - 1) div 4 - (y - 1) div 100 + (y - 1) div 400"

definition day_number :: "int \<times> nat \<times> int \<Rightarrow> int" where
  "day_number = (\<lambda>(y, m, day). days_before_year y + sum_list (take (m - 1) (month_lengths y)) + day - 1)"

definition valid_date :: "int \<times> nat \<times> int \<Rightarrow> bool" where
  "valid_date = (\<lambda>(y, m, day). 1 \<le> m \<and> m \<le> 12 \<and> 1 \<le> day \<and> day \<le> month_lengths y ! (m - 1))"

lemma find_month_spec:
  assumes "0 \<le> d" and "d < sum_list ls" and "find_month ls d = (m, day)"
  shows "1 \<le> m \<and> m \<le> length ls \<and> 1 \<le> day \<and> day \<le> ls ! (m - 1) \<and> sum_list (take (m - 1) ls) + day - 1 = d"
  using assms
proof (induction ls d arbitrary: m day rule: find_month.induct)
  case (3 l l' ls d)
  show ?case
  proof (cases "d < l")
    case False
    obtain m' day' where r: "find_month (l' # ls) (d - l) = (m', day')" by fastforce
    have "1 \<le> m' \<and> m' \<le> length (l' # ls) \<and> 1 \<le> day' \<and> day' \<le> (l' # ls) ! (m' - 1) \<and>
        sum_list (take (m' - 1) (l' # ls)) + day' - 1 = d - l"
      using "3.IH" [OF False _ _ r] "3.prems"(2) False by simp
    moreover have "m = Suc m'" "day = day'" using "3.prems"(3) False r by simp_all
    moreover from calculation(1) obtain k where "m' = Suc k" by (cases m') auto
    ultimately show ?thesis by auto
  qed (use "3.prems" in auto)
qed auto

lemma civil_year_spec:
  assumes "civil_year n = (y, yday)"
  shows "days_before_year y + yday = n \<and> 0 \<le> yday \<and> yday < (if leap y then 366 else 365)"
proof -
  define a d4h where ad: "a = n div 146097" "d4h = n mod 146097"
  define b dh where bd: "b = min 3 (d4h div 36524)" "dh = d4h - b * 36524"
  define c d where cd: "c = dh div 1461" "d = dh mod 1461"
  define e where ed: "e = min 3 (d div 365)"
  have "civil_year n = (400 * a + 100 * b + 4 * c + e + 1, d - e * 365)"
    unfolding civil_year_def Let_def ad [symmetric] bd [symmetric] cd [symmetric] ed [symmetric] by (rule refl)
  with assms have y: "y - 1 = 400 * a + 100 * b + 4 * c + e" and yd: "yday = d - e * 365" by simp_all
  have n: "n = 146097 * a + d4h" "0 \<le> d4h" "d4h < 146097" by (simp_all add: ad)
  have b: "0 \<le> b" "b \<le> 3" "d4h = 36524 * b + dh" "0 \<le> dh" "b < 3 \<Longrightarrow> dh < 36524" "dh \<le> 36524"
    using n(2,3) by (auto simp: bd min_def)
  have c: "dh = 1461 * c + d" "0 \<le> d" "d < 1461" "0 \<le> c" "c \<le> 24" using b(4,6) by (simp_all add: cd)
  have e: "0 \<le> e" "e \<le> 3" "0 \<le> d - e * 365" "d - e * 365 \<le> 365" "e < 3 \<Longrightarrow> d - e * 365 < 365"
    using c(2,3) by (auto simp: ed min_def)
  have q: "(y - 1) div 4 = 100 * a + 25 * b + c" "(y - 1) div 100 = 4 * a + b" "(y - 1) div 400 = a"
    using y b(1,2) c(4,5) e(1,2)
    by (auto intro: int_div_pos_eq [where r = e] int_div_pos_eq [where r = "4 * c + e"] int_div_pos_eq [where r = "100 * b + 4 * c + e"])
  have "days_before_year y = 365 * (y - 1) + (100 * a + 25 * b + c) - (4 * a + b) + a" by (simp only: days_before_year_def q)
  then have "days_before_year y + yday = n" using n(1) b(3) c(1) yd y by simp
  moreover have "leap y" if "yday = 365"
  proof -
    have "e = 3" using that yd e(2,5) by force
    then have "d = 1460" using that yd by simp
    moreover have "b = 3" if "c = 24" using that c(1) b(2,5) \<open>d = 1460\<close> by force
    moreover note \<open>e = 3\<close>
    ultimately have "y = 400 * a + 100 * b + 4 * c + 4" "c = 24 \<longrightarrow> b = 3" using y by auto
    then have y4: "y = 4 * (100 * a + 25 * b + c + 1)" "y = (4 * c + 4) + (4 * a + b) * 100" "c = 24 \<Longrightarrow> y = 400 * (a + 1)" by simp_all
    have "y mod 100 = (4 * c + 4) mod 100" unfolding y4(2) by (rule mod_mult_self1)
    then have "y mod 100 \<noteq> 0" if "c \<noteq> 24" using that c(4,5) by simp
    moreover have "y mod 4 = 0" unfolding y4(1) by simp
    moreover have "y mod 400 = 0" if "c = 24" unfolding y4(3) [OF that] by simp
    ultimately show ?thesis unfolding leap_def by (cases "c = 24") simp_all
  qed
  moreover have "0 \<le> yday" "yday \<le> 365" using yd e by simp_all
  ultimately show ?thesis by (cases "yday = 365") simp_all
qed

lemma sum_month_lengths: "sum_list (month_lengths y) = (if leap y then 366 else 365)"
  by (simp add: month_lengths_def)

text \<open>
  The date that is printed is a date of the calendar, and the day that it names, by the number of days in the years and
  months before it, is the day of the instant.
\<close>

lemma civil_correct: "valid_date (civil n) \<and> day_number (civil n) = n"
proof -
  obtain y yday where y: "civil_year n = (y, yday)" by fastforce
  obtain m day where m: "find_month (month_lengths y) yday = (m, day)" by fastforce
  have "length (month_lengths y) = 12" by (simp add: month_lengths_def)
  with find_month_spec [OF _ _ m] civil_year_spec [OF y] sum_month_lengths [of y] y m show ?thesis
    by (auto simp: civil_def valid_date_def day_number_def)
qed

section \<open>The numbers are right\<close>

lemma round_even_error: "\<bar>of_int (round_even x) - x\<bar> \<le> 1 / 2"
proof -
  define f :: rat where "f = of_int \<lfloor>x\<rfloor>"
  have "f \<le> x" "x < f + 1" unfolding f_def by linarith+
  moreover have "of_int (round_even x) = (if x - f < 1 / 2 \<or> x - f = 1 / 2 \<and> even \<lfloor>x\<rfloor> then f else f + 1)"
    by (simp add: round_even_def Let_def f_def)
  ultimately show ?thesis by (auto simp: abs_if)
qed

lemma round_even_int [simp]: "round_even (of_int i) = i"
  by (simp add: round_even_def)

lemma bitlen_pos_bounds:
  assumes "0 < p"
  shows "2 powi (bitlen p - 1) \<le> (of_int p :: rat)" "(of_int p :: rat) < 2 powi (bitlen p)"
proof -
  have b: "2 ^ nat (bitlen p - 1) \<le> p" "p < 2 ^ nat (bitlen p)" using bitlen_bounds [OF assms] by auto
  have "1 \<le> bitlen p" using assms by (metis add.commute add_0 bitlen_eq_zero_iff bitlen_nonneg int_one_le_iff_zero_less leD not_less_iff_gr_or_eq)
  then have "(2 :: rat) powi (bitlen p - 1) = of_int (2 ^ nat (bitlen p - 1))" "(2 :: rat) powi (bitlen p) = of_int (2 ^ nat (bitlen p))"
    by (simp_all add: power_int_def)
  with b show "2 powi (bitlen p - 1) \<le> (of_int p :: rat)" "(of_int p :: rat) < 2 powi (bitlen p)" by (metis of_int_le_iff, metis of_int_less_iff)
qed

lemma f64_exp_bounds:
  assumes "0 < x"
  shows "2 ^ 52 \<le> x / 2 powi (f64_exp x)" "x / 2 powi (f64_exp x) < 2 ^ 53"
proof -
  obtain p q where pq: "quotient_of x = (p, q)" by fastforce
  have q: "0 < q" and x: "x = of_int p / of_int q" using pq quotient_of_denom_pos quotient_of_div by blast+
  have p: "0 < p" using assms x q by (simp add: zero_less_divide_iff)
  define b where "b = bitlen p - bitlen q"
  have "2 powi (bitlen p - 1) / 2 powi (bitlen q) < (of_int p / of_int q :: rat)"
    using bitlen_pos_bounds(1) [OF p] bitlen_pos_bounds(2) [OF q] p q by (intro frac_less2) simp_all
  then have lo: "2 powi (b - 1) < x" by (simp add: x b_def algebra_simps flip: power_int_diff)
  have "of_int p / of_int q < (2 powi (bitlen p) / 2 powi (bitlen q - 1) :: rat)"
    using bitlen_pos_bounds(2) [OF p] bitlen_pos_bounds(1) [OF q] p q by (intro frac_less) simp_all
  then have hi: "x < 2 powi (b + 1)" by (simp add: x b_def algebra_simps flip: power_int_diff)
  define e where "e = (if x < 2 powi b then b - 1 else b)"
  have fe: "f64_exp x = e - 52" using pq by (simp add: f64_exp_def e_def b_def)
  have "2 powi e \<le> x" "x < 2 powi (e + 1)" using lo hi by (auto simp: e_def)
  moreover have "2 powi e = 2 ^ 52 * (2 powi (e - 52) :: rat)" "2 powi (e + 1) = 2 ^ 53 * (2 powi (e - 52) :: rat)"
    using power_int_add [of "2 :: rat" 52 "e - 52"] power_int_add [of "2 :: rat" 53 "e - 52"] by (simp_all add: add.commute)
  ultimately show "2 ^ 52 \<le> x / 2 powi (f64_exp x)" "x / 2 powi (f64_exp x) < 2 ^ 53"
    unfolding fe by (simp_all add: le_divide_eq divide_less_eq mult.commute)
qed

text \<open>Rounding to a \<^verbatim>\<open>float64\<close> errs by at most one part in \<open>2 ^ 53\<close>, and not at all on integers below \<open>2 ^ 53\<close>.\<close>

lemma f64_error: "\<bar>f64 x - x\<bar> \<le> \<bar>x\<bar> / 2 ^ 53"
proof (cases "x = 0")
  case False
  define s :: rat where "s = 2 powi (f64_exp \<bar>x\<bar>)"
  define z where "z = \<bar>x\<bar> / s"
  have s: "0 < s" by (simp add: s_def)
  have z: "2 ^ 52 \<le> z" using f64_exp_bounds(1) [of "\<bar>x\<bar>"] False by (simp add: z_def s_def)
  have x: "x = sgn x * z * s" using s by (simp add: z_def sgn_mult_abs)
  have "f64 x - x = sgn x * (of_int (round_even z) - z) * s"
    using False by (subst (2) x) (simp add: f64_def Let_def s_def z_def algebra_simps)
  then have "\<bar>f64 x - x\<bar> = \<bar>of_int (round_even z) - z\<bar> * s" using s False by (simp add: abs_mult abs_sgn_eq)
  also have "\<dots> \<le> (z / 2 ^ 53) * s"
    using round_even_error [of z] z s by (intro mult_right_mono) simp_all
  also have "\<dots> = \<bar>x\<bar> / 2 ^ 53" using s by (simp add: z_def)
  finally show ?thesis .
qed (simp add: f64_def)

lemma f64_int_exact:
  assumes "\<bar>i\<bar> < 2 ^ 53"
  shows "f64 (of_int i) = of_int i"
proof (cases "i = 0")
  case False
  define k where "k = f64_exp \<bar>of_int i\<bar>"
  have b: "2 ^ 52 \<le> \<bar>of_int i\<bar> / (2 powi k :: rat)" using f64_exp_bounds(1) [of "\<bar>of_int i\<bar>"] False by (simp add: k_def)
  have "k \<le> 0"
  proof (rule ccontr)
    assume "\<not> k \<le> 0"
    then have "(2 :: rat) powi 1 \<le> 2 powi k" by (intro power_int_increasing) simp_all
    moreover have "\<bar>of_int i\<bar> < (2 :: rat) ^ 53" using assms by (metis of_int_abs of_int_less_iff of_int_numeral of_int_power)
    ultimately show False using b by (simp add: le_divide_eq)
  qed
  then obtain m where "k = - int m" by (metis nonneg_int_cases minus_minus neg_0_le_iff_le)
  then have "\<bar>of_int i\<bar> / 2 powi k = (of_int (\<bar>i\<bar> * 2 ^ m) :: rat)" by (simp add: power_int_minus divide_inverse)
  then have r: "of_int (round_even (\<bar>of_int i\<bar> / 2 powi k)) = \<bar>of_int i\<bar> / (2 powi k :: rat)" by (simp only: round_even_int)
  have "f64 (of_int i) = sgn (of_int i) * of_int (round_even (\<bar>of_int i\<bar> / 2 powi k)) * 2 powi k"
    using False by (simp add: f64_def Let_def k_def)
  also have "\<dots> = of_int i" unfolding r by (simp add: sgn_mult_abs)
  finally show ?thesis .
qed (simp add: f64_def)

lemma fmt_fixed_near:
  assumes "0 \<le> x" and "0 < d"
  shows "\<exists>n. fmt_fixed d x = fmt_nat (n div 10 ^ d) @ CHR ''.'' # pad_digits d n \<and> \<bar>of_nat n / 10 ^ d - x\<bar> \<le> 1 / (2 * 10 ^ d)"
proof -
  let ?r = "round_even (x * 10 ^ d)"
  have e: "\<bar>of_int ?r - x * 10 ^ d\<bar> \<le> 1 / 2" by (rule round_even_error)
  have "0 \<le> ?r"
  proof (rule ccontr)
    assume "\<not> 0 \<le> ?r"
    then have "?r \<le> - 1" by simp
    then have "of_int ?r \<le> (of_int (- 1) :: rat)" by (simp only: of_int_le_iff)
    then have "of_int ?r \<le> (- 1 :: rat)" by simp
    moreover have "0 \<le> x * 10 ^ d" using assms(1) by simp
    ultimately show False using e by linarith
  qed
  then have "of_nat (nat ?r) = (of_int ?r :: rat)" by simp
  moreover have "of_int ?r / 10 ^ d - x = (of_int ?r - x * 10 ^ d) / 10 ^ d" by (simp add: field_simps)
  then have "\<bar>of_int ?r / 10 ^ d - x\<bar> \<le> 1 / (2 * 10 ^ d)" using e by (simp add: abs_divide divide_le_eq field_simps)
  ultimately show ?thesis using assms by (intro exI [of _ "nat ?r"]) (simp add: fmt_fixed_def Let_def)
qed

text \<open>
  A size is printed in the largest unit that is not larger than it, with the decimals of that unit, and what is printed
  differs from the size by at most half a unit of the last place and the rounding of the conversion to \<^verbatim>\<open>float64\<close>.
\<close>

lemma fixed_bytes:
  assumes "0 \<le> n" and "0 < d"
  shows "\<exists>k. fmt_fixed d (f64 (of_int n) / 2 ^ u) = fmt_nat (k div 10 ^ d) @ CHR ''.'' # pad_digits d k \<and>
    \<bar>of_nat k / 10 ^ d * 2 ^ u - of_int n\<bar> \<le> 2 ^ u / (2 * 10 ^ d) + (of_int n :: rat) / 2 ^ 53"
proof -
  let ?x = "f64 (of_int n)"
  have err: "\<bar>?x - of_int n\<bar> \<le> of_int n / 2 ^ 53" using f64_error [of "of_int n"] assms(1) by simp
  have n: "(of_int n :: rat) / 2 ^ 53 \<le> of_int n" using assms(1) by (simp add: divide_le_eq)
  then have "0 \<le> ?x" using err by linarith
  then obtain k where k: "fmt_fixed d (?x / 2 ^ u) = fmt_nat (k div 10 ^ d) @ CHR ''.'' # pad_digits d k"
    and e: "\<bar>of_nat k / 10 ^ d - ?x / 2 ^ u\<bar> \<le> 1 / (2 * 10 ^ d)"
    using fmt_fixed_near [of "?x / 2 ^ u" d] assms(2) by auto
  have "of_nat k / 10 ^ d * 2 ^ u - ?x = (of_nat k / 10 ^ d - ?x / 2 ^ u) * 2 ^ u" by (simp add: field_simps)
  then have "\<bar>of_nat k / 10 ^ d * 2 ^ u - ?x\<bar> = \<bar>of_nat k / 10 ^ d - ?x / 2 ^ u\<bar> * 2 ^ u" by (simp add: abs_mult)
  also have "\<dots> \<le> 1 / (2 * 10 ^ d) * 2 ^ u" using e by (rule mult_right_mono) simp
  also have "\<dots> = 2 ^ u / (2 * 10 ^ d)" by simp
  finally have "\<bar>of_nat k / 10 ^ d * 2 ^ u - of_int n\<bar> \<le> 2 ^ u / (2 * 10 ^ d) + (of_int n :: rat) / 2 ^ 53" using err by linarith
  with k show ?thesis by blast
qed

lemma formatBytes_near:
  assumes "2 ^ 10 \<le> n"
  shows "\<exists>d u unit k. (d, u, unit) \<in> {(2, 30, '' GiB''), (1, 20, '' MiB''), (1, 10, '' KiB'')} \<and> 2 ^ u \<le> n \<and> (u < 30 \<longrightarrow> n < 2 ^ (u + 10)) \<and>
    formatBytes n = fmt_nat (k div 10 ^ d) @ CHR ''.'' # pad_digits d k @ unit \<and>
    \<bar>of_nat k / 10 ^ d * 2 ^ u - of_int n\<bar> \<le> 2 ^ u / (2 * 10 ^ d) + (of_int n :: rat) / 2 ^ 53"
proof -
  obtain d u unit where du: "(d, u, unit) \<in> {(2 :: nat, 30 :: nat, '' GiB''), (1, 20, '' MiB''), (1, 10, '' KiB'')}" "2 ^ u \<le> n"
    "u < 30 \<longrightarrow> n < 2 ^ (u + 10)" "formatBytes n = fmt_fixed d (f64 (of_int n) / 2 ^ u) @ unit"
  proof (cases "2 ^ 30 \<le> n")
    case True
    then show thesis by (intro that [of 2 30 "'' GiB''"]) (simp_all add: formatBytes_def)
  next
    case False
    then show thesis
      by (cases "2 ^ 20 \<le> n") (use assms in \<open>(intro that [of 1 20 "'' MiB''"]; simp add: formatBytes_def), (intro that [of 1 10 "'' KiB''"]; simp add: formatBytes_def)\<close>)
  qed
  have "0 < d" "0 \<le> n" using du(1) assms by auto
  from fixed_bytes [OF this(2,1), of u] obtain k where "fmt_fixed d (f64 (of_int n) / 2 ^ u) = fmt_nat (k div 10 ^ d) @ CHR ''.'' # pad_digits d k"
    "\<bar>of_nat k / 10 ^ d * 2 ^ u - of_int n\<bar> \<le> 2 ^ u / (2 * 10 ^ d) + (of_int n :: rat) / 2 ^ 53" by blast
  with du show ?thesis by (intro exI [of _ d] exI [of _ u] exI [of _ unit] exI [of _ k]) simp
qed

end
