(* ===== verification/Health.thy ===== *)
theory Health
  imports Pipeline
begin

text \<open>
  The health check of \<^verbatim>\<open>cmd/blobscan-ipld/main.go\<close>: the SQL invariants (tier 0), the offline recomputation of the
  metadata and epoch CIDs from the rows (tier 1), the report, the suggested remediation and the exit code; the check of
  the epochs against the IPFS node; and the helpers these use. The queries are those of \<open>DbQueries\<close>, each with its own
  failure (the argument \<open>flt\<close> by number). An index out of range is a \<^const>\<open>GoPanic\<close>.
\<close>

section \<open>Helpers\<close>

text \<open>\<^verbatim>\<open>sortUint64\<close>: insertion by exchanging neighbours, in place.\<close>

fun sink :: "uint64 list \<Rightarrow> nat \<Rightarrow> uint64 list" where
  "sink a 0 = a"
| "sink a (Suc j) = (if a ! Suc j < a ! j then sink (a[Suc j := a ! j, j := a ! Suc j]) j else a)"

definition sortUint64 :: "uint64 list \<Rightarrow> uint64 list" where
  "sortUint64 a = fold (\<lambda>i a. sink a i) [1..<length a] a"

fun dedup_loop :: "uint64 list \<Rightarrow> uint64 list \<Rightarrow> uint64 list" where
  "dedup_loop out [] = out"
| "dedup_loop out (v # vs) = (if v \<in> set out then dedup_loop out vs else dedup_loop (out @ [v]) vs)"

definition dedupUint64 :: "uint64 list \<Rightarrow> uint64 list" where
  "dedupUint64 xs = sortUint64 (dedup_loop [] xs)"

fun collapse_loop :: "uint64 \<Rightarrow> uint64 \<Rightarrow> uint64 list \<Rightarrow> (uint64 \<times> uint64) list" where
  "collapse_loop start end [] = [(start, end)]"
| "collapse_loop start end (e # es) =
     (if e = end + 1 then collapse_loop start e es else (start, end) # collapse_loop e e es)"

definition collapseRanges :: "uint64 list \<Rightarrow> (uint64 \<times> uint64) list" where
  "collapseRanges epochs = (case dedupUint64 epochs of [] \<Rightarrow> [] | e # es \<Rightarrow> collapse_loop e e es)"

text \<open>\<^verbatim>\<open>epochs[:n]\<close> with a negative \<open>n\<close> panics.\<close>

definition capSamples :: "uint64 list \<Rightarrow> goint \<Rightarrow> uint64 list res" where
  "capSamples epochs n =
     (if int (length epochs) \<le> sint n then Inr epochs
      else if sint n < 0 then Inl (GoPanic ''slice bounds out of range'')
      else Inr (take (nat (sint n)) epochs))"

definition firstN :: "uint64 list \<Rightarrow> goint \<Rightarrow> uint64 list res" where
  "firstN s n =
     (if sint n < int (length s)
      then if sint n < 0 then Inl (GoPanic ''slice bounds out of range'') else Inr (take (nat (sint n)) s)
      else Inr s)"

definition pluralS :: "int \<Rightarrow> string" where
  "pluralS n = (if n = 1 then '''' else ''s'')"

text \<open>The counts that are formatted are not the least 64-bit integer, whose negation is itself.\<close>

definition commas :: "string \<Rightarrow> string" where
  "commas s = concat (map (\<lambda>i. if 0 < i \<and> (length s - i) mod 3 = 0 then [CHR '','', s ! i] else [s ! i]) [0..<length s])"

definition formatCount :: "int \<Rightarrow> string" where
  "formatCount n = (if n < 0 then ''-'' @ commas (fmt_nat (nat (- n))) else commas (fmt_nat (nat n)))"

text \<open>The middle dot, the ellipsis and the inequality sign of the messages, in UTF-8.\<close>

definition mid_dot :: string where
  "mid_dot = [CHR '' '', char_of (0xC2 :: nat), char_of (0xB7 :: nat), CHR '' '']"

definition ellipsis :: string where
  "ellipsis = [CHR '' '', char_of (0xE2 :: nat), char_of (0x80 :: nat), char_of (0xA6 :: nat), CHR '' '']"

definition not_equal :: string where
  "not_equal = [char_of (0xE2 :: nat), char_of (0x89 :: nat), char_of (0xA0 :: nat)]"

definition formatEpochSamples :: "uint64 list \<Rightarrow> goint \<Rightarrow> string res" where
  "formatEpochSamples epochs mx =
     bindR (capSamples epochs mx) (\<lambda>shown.
       let extra = length epochs - length shown; s = strings_Join mid_dot (map FormatUint shown)
       in Inr (if 0 < extra then s @ ellipsis @ ''+'' @ fmt_nat extra else s))"

section \<open>The report\<close>

datatype checkStatus = StatusPass | StatusWarn | StatusFail | StatusSkip

fun status_code :: "checkStatus \<Rightarrow> nat" where
  "status_code StatusPass = 0"
| "status_code StatusWarn = 1"
| "status_code StatusFail = 2"
| "status_code StatusSkip = 3"

text \<open>Statuses are compared as the integers they are in the source.\<close>

instantiation checkStatus :: linorder
begin

definition less_eq_checkStatus :: "checkStatus \<Rightarrow> checkStatus \<Rightarrow> bool" where
  "less_eq_checkStatus a b \<longleftrightarrow> status_code a \<le> status_code b"

definition less_checkStatus :: "checkStatus \<Rightarrow> checkStatus \<Rightarrow> bool" where
  "less_checkStatus a b \<longleftrightarrow> status_code a < status_code b"

instance
proof
  show "a \<le> b \<Longrightarrow> b \<le> a \<Longrightarrow> a = b" for a b :: checkStatus
    by (cases a; cases b) (simp_all add: less_eq_checkStatus_def)
qed (auto simp: less_eq_checkStatus_def less_checkStatus_def)

end

fun status_String :: "checkStatus \<Rightarrow> string" where
  "status_String StatusPass = ''PASS''"
| "status_String StatusWarn = ''WARN''"
| "status_String StatusFail = ''FAIL''"
| "status_String StatusSkip = ''SKIP''"

record checkResult =
  ck_name :: string
  ck_tier :: nat
  ck_status :: checkStatus
  ck_detail :: string
  ck_samples :: "uint64 list"

record healthReport =
  hr_results :: "checkResult list"
  hr_repairEpochs :: "uint64 list"
  hr_backfillEpochs :: "uint64 list"

definition emptyReport :: healthReport where
  "emptyReport = \<lparr>hr_results = [], hr_repairEpochs = [], hr_backfillEpochs = []\<rparr>"

definition add_result :: "string \<Rightarrow> nat \<Rightarrow> checkStatus \<Rightarrow> string \<Rightarrow> uint64 list \<Rightarrow> healthReport \<Rightarrow> healthReport" where
  "add_result name tier status detail samples rep =
     rep\<lparr>hr_results := hr_results rep @
       [\<lparr>ck_name = name, ck_tier = tier, ck_status = status, ck_detail = detail, ck_samples = sortUint64 samples\<rparr>]\<rparr>"

definition add_capped :: "string \<Rightarrow> nat \<Rightarrow> checkStatus \<Rightarrow> string \<Rightarrow> uint64 list \<Rightarrow> goint \<Rightarrow> healthReport \<Rightarrow> healthReport res" where
  "add_capped name tier status detail epochs samples rep =
     bindR (capSamples epochs samples) (\<lambda>ex. Inr (add_result name tier status detail ex rep))"

definition query_error :: "string \<Rightarrow> nat \<Rightarrow> error \<Rightarrow> healthReport \<Rightarrow> healthReport" where
  "query_error name tier err = add_result name tier StatusFail (''query error: '' @ error_text err) []"

definition worst :: "healthReport \<Rightarrow> checkStatus" where
  "worst rep = fold (\<lambda>c w. if w < ck_status c \<and> ck_status c \<noteq> StatusSkip then ck_status c else w)
     (hr_results rep) StatusPass"

definition count_epochs :: "nat \<Rightarrow> string" where
  "count_epochs n = fmt_nat n @ '' epoch'' @ pluralS (int n)"

section \<open>Tier 0: SQL invariants\<close>

definition addAnomalyCheck :: "string \<Rightarrow> goint \<Rightarrow> EpochAnomaly list res \<Rightarrow> checkStatus \<Rightarrow> string \<Rightarrow> healthReport \<Rightarrow> healthReport res" where
  "addAnomalyCheck name samples result failStatus what rep =
     (case result of
        Inl err \<Rightarrow> Inr (query_error name 0 err rep)
      | Inr an \<Rightarrow>
          if an = [] then Inr (add_result name 0 StatusPass '''' [] rep)
          else add_capped name 0 failStatus
                 (formatCount (sum_list (map an_Count an)) @ '' '' @ what @ '' in '' @ count_epochs (length an))
                 (map an_Epoch an) samples rep)"

definition check_blob_count :: "goint \<Rightarrow> EpochCountMismatch list res \<Rightarrow> healthReport \<Rightarrow> healthReport res" where
  "check_blob_count samples result rep =
     (case result of
        Inl err \<Rightarrow> Inr (query_error ''blob_count match'' 0 err rep)
      | Inr mm \<Rightarrow>
          if mm = [] then Inr (add_result ''blob_count match'' 0 StatusPass '''' [] rep)
          else add_capped ''blob_count match'' 0 StatusFail (count_epochs (length mm) @ '' (stored'' @ not_equal @ ''actual)'')
                 (map cm_Epoch mm) samples (rep\<lparr>hr_repairEpochs := hr_repairEpochs rep @ map cm_Epoch mm\<rparr>))"

definition check_sizes :: "goint \<Rightarrow> EpochSizeMismatch list res \<Rightarrow> healthReport \<Rightarrow> healthReport res" where
  "check_sizes samples result rep =
     (case result of
        Inl err \<Rightarrow> Inr (query_error ''size_bytes match'' 0 err rep)
      | Inr mm \<Rightarrow>
          if mm = [] then Inr (add_result ''size_bytes match'' 0 StatusPass '''' [] rep)
          else add_capped ''size_bytes match'' 0 StatusWarn (count_epochs (length mm) @ '' (approximate)'') (map zm_Epoch mm) samples rep)"

definition check_index :: "goint \<Rightarrow> BlobIndexAnomaly list res \<Rightarrow> healthReport \<Rightarrow> healthReport res" where
  "check_index samples result rep =
     (case result of
        Inl err \<Rightarrow> Inr (query_error ''blob_index'' 0 err rep)
      | Inr an \<Rightarrow>
          let dups = map ia_Epoch (filter (\<lambda>a. ia_Rows a \<noteq> ia_DistinctIdx a) an);
              gaps = map ia_Epoch (filter (\<lambda>a. ia_Rows a = ia_DistinctIdx a) an)
          in if dups \<noteq> [] then add_capped ''blob_index'' 0 StatusFail (count_epochs (length dups) @ '' with duplicate index'') dups samples rep
             else if gaps \<noteq> [] then add_capped ''blob_index'' 0 StatusWarn (count_epochs (length gaps) @ '' with index gaps'') gaps samples rep
             else Inr (add_result ''blob_index'' 0 StatusPass '''' [] rep))"

definition cursor_issues :: "SummaryStats \<Rightarrow> string list" where
  "cursor_issues stats =
     (if ss_LastEpoch stats < ss_LiveCursor stats
      then [''live('' @ FormatUint (ss_LiveCursor stats) @ '') > max('' @ FormatUint (ss_LastEpoch stats) @ '')''] else []) @
     (if ss_LiveCursor stats < ss_BackfillCursor stats \<and> ss_LastEpoch stats < ss_BackfillCursor stats
      then [''backfill('' @ FormatUint (ss_BackfillCursor stats) @ '') > live('' @ FormatUint (ss_LiveCursor stats) @ '')''] else [])"

definition check_gaps :: "SummaryStats \<Rightarrow> GapRange list res \<Rightarrow> healthReport \<Rightarrow> healthReport" where
  "check_gaps stats ranges rep =
     (if ss_GapCount stats = 0 then add_result ''epoch gaps'' 0 StatusPass '''' [] rep
      else let detail = formatCount (ss_GapCount stats) @ '' epoch'' @ pluralS (ss_GapCount stats) @ '' missing''
           in add_result ''epoch gaps'' 0 StatusWarn
                (case ranges of
                   Inl _ \<Rightarrow> detail
                 | Inr gaps \<Rightarrow> fmt_nat (length gaps) @ '' range'' @ pluralS (int (length gaps)) @ mid_dot @ detail) [] rep)"

definition check_cursors :: "SummaryStats \<Rightarrow> healthReport \<Rightarrow> healthReport" where
  "check_cursors stats rep =
     (if cursor_issues stats = [] then add_result ''cursors'' 0 StatusPass '''' [] rep
      else add_result ''cursors'' 0 StatusWarn (strings_Join '', '' (cursor_issues stats)) [] rep)"

definition runTier0 :: "(nat \<Rightarrow> faults) \<Rightarrow> tables \<Rightarrow> string \<Rightarrow> goint \<Rightarrow> healthReport \<Rightarrow> healthReport res" where
  "runTier0 flt t network samples rep =
     bindR (check_blob_count samples (GetBlobCountMismatches (flt 0) t network) rep) (\<lambda>rep.
     bindR (check_sizes samples (GetSizeMismatches (flt 1) t network) rep) (\<lambda>rep.
     bindR (addAnomalyCheck ''network match'' samples (GetNetworkMismatches (flt 2) t network) StatusFail ''blobs on wrong network'' rep) (\<lambda>rep.
     bindR (addAnomalyCheck ''orphan blobs'' samples (GetOrphanBlobs (flt 3) t network) StatusFail ''blobs without an epoch row'' rep) (\<lambda>rep.
     bindR (check_index samples (GetBlobIndexAnomalies (flt 4) t network) rep) (\<lambda>rep.
       case GetSummaryStats (flt 5) t network of
         Inl err \<Rightarrow> Inr (query_error ''cursors'' 0 err (query_error ''epoch gaps'' 0 err rep))
       | Inr stats \<Rightarrow> Inr (check_cursors stats (check_gaps stats (GetEpochGapRanges (flt 6) t network) rep)))))))"

section \<open>Tier 1: recomputing the CIDs\<close>

record epochCheck =
  ec_epoch :: uint64
  ec_metaBad :: bool
  ec_rootBad :: bool
  ec_blobsBad :: int

text \<open>
  The metadata of one blob on a fresh store: whether it could not be built, and whether its CID is not the stored one.
\<close>

definition meta_check :: "ipld_lib \<Rightarrow> BlobInput \<Rightarrow> BlobResult \<Rightarrow> BlobRecord \<Rightarrow> (bool \<times> int) res" where
  "meta_check lib blob res rec =
     (case StoreBlobMetadata lib (BMem NewMemBlockstore) blob (br_DataCID res) of
        Inl e \<Rightarrow> if isPanic e then Inl e else Inr (True, 0)
      | Inr (metaCID, _) \<Rightarrow> Inr (if cid_String lib metaCID \<noteq> bd_MetaCID rec then (True, 1) else (False, 0)))"

definition check_epoch :: "ipld_lib \<Rightarrow> faults \<Rightarrow> tables \<Rightarrow> string \<Rightarrow> uint64 \<Rightarrow> goint \<Rightarrow> EpochRecord \<Rightarrow> epochCheck res" where
  "check_epoch lib flt t network slotsPerEpoch threshold e =
     (let r = \<lparr>ec_epoch = rec_Epoch e, ec_metaBad = False, ec_rootBad = False, ec_blobsBad = 0\<rparr>
      in case GetBlobsByEpoch flt t network (rec_Epoch e) of
           Inl _ \<Rightarrow> Inr r
         | Inr records \<Rightarrow>
             if records = [] then Inr r
             else (case ReconstructFromDB lib (rec_Epoch e) records slotsPerEpoch of
                     Inl _ \<Rightarrow> Inr (r\<lparr>ec_metaBad := True\<rparr>)
                   | Inr (inp, results) \<Rightarrow>
                       bindR (mapR (\<lambda>(blob, res, rec). meta_check lib blob res rec) (zip (ei_Blobs inp) (zip results records))) (\<lambda>metas.
                         let r = r\<lparr>ec_metaBad := (\<exists>m \<in> set metas. fst m), ec_blobsBad := sum_list (map snd metas)\<rparr>
                         in case BuildEpochNode lib (BMem NewMemBlockstore) inp results network threshold of
                              Inl err \<Rightarrow> if isPanic err then Inl err else Inr (r\<lparr>ec_rootBad := True\<rparr>)
                            | Inr (res, _) \<Rightarrow> Inr (r\<lparr>ec_rootBad := (cid_String lib (er_CID res) \<noteq> rec_CID e)\<rparr>))))"

definition no_check :: epochCheck where
  "no_check = \<lparr>ec_epoch = 0, ec_metaBad = False, ec_rootBad = False, ec_blobsBad = 0\<rparr>"

text \<open>
  The workers fill one slot per epoch, so their order does not matter; when the context is canceled after \<open>fed\<close> epochs
  were handed out, the other slots keep their zero value.
\<close>

definition tier1_results :: "ipld_lib \<Rightarrow> (nat \<Rightarrow> faults) \<Rightarrow> tables \<Rightarrow> string \<Rightarrow> uint64 \<Rightarrow> goint \<Rightarrow> nat \<Rightarrow> EpochRecord list \<Rightarrow> epochCheck list res" where
  "tier1_results lib flt t network slotsPerEpoch threshold fed epochs =
     mapR (\<lambda>(i, e). if i < fed then check_epoch lib (flt i) t network slotsPerEpoch threshold e else Inr no_check)
       (zip [0..<length epochs] epochs)"

definition tier1_report :: "goint \<Rightarrow> epochCheck list \<Rightarrow> healthReport \<Rightarrow> healthReport res" where
  "tier1_report samples results rep =
     (let metaBad = map ec_epoch (filter ec_metaBad results); rootBad = map ec_epoch (filter ec_rootBad results);
          blobBad = sum_list (map ec_blobsBad (filter ec_metaBad results));
          backfill = map ec_epoch (filter (\<lambda>r. ec_metaBad r \<or> ec_rootBad r) results);
          pureRoot = filter (\<lambda>e. e \<notin> set metaBad) rootBad;
          rep = rep\<lparr>hr_backfillEpochs := hr_backfillEpochs rep @ backfill\<rparr>
      in bindR (if metaBad = [] then Inr (add_result ''meta_cid recompute'' 1 StatusPass '''' [] rep)
                else add_capped ''meta_cid recompute'' 1 StatusFail
                       (fmt_int blobBad @ '' blob'' @ pluralS blobBad @ '' wrong in '' @ count_epochs (length metaBad)) metaBad samples rep) (\<lambda>rep.
         if rootBad = [] then Inr (add_result ''epoch root recompute'' 1 StatusPass '''' [] rep)
         else if pureRoot \<noteq> []
         then add_capped ''epoch root recompute'' 1 StatusFail
                (count_epochs (length rootBad) @ '' ('' @ fmt_nat (length pureRoot) @ '' not explained by meta_cid)'') pureRoot samples rep
         else add_capped ''epoch root recompute'' 1 StatusFail
                (count_epochs (length rootBad) @ '' (all correlate with meta_cid)'') rootBad samples rep))"

definition runTier1 ::
  "ipld_lib \<Rightarrow> Config \<Rightarrow> faults \<Rightarrow> (nat \<Rightarrow> faults) \<Rightarrow> tables \<Rightarrow> string \<Rightarrow> goint \<Rightarrow> nat \<Rightarrow> healthReport \<Rightarrow> healthReport res" where
  "runTier1 lib cfg flt0 flt t network samples fed rep =
     (case GetAllEpochs flt0 t network of
        Inl err \<Rightarrow> Inr (query_error ''epoch root recompute'' 1 err (query_error ''meta_cid recompute'' 1 err rep))
      | Inr epochs \<Rightarrow>
          bindR (tier1_results lib flt t network (nc_SlotsPerEpoch (cf_Network cfg)) (gc_HAMTThreshold (cf_Generator cfg)) fed epochs)
            (\<lambda>results. tier1_report samples results rep))"

section \<open>Remediation and exit code\<close>

definition remediation :: "healthReport \<Rightarrow> string list" where
  "remediation rep =
     (let repair = dedupUint64 (hr_repairEpochs rep); backfill = dedupUint64 (hr_backfillEpochs rep)
      in (if repair = [] then []
          else [''  blobscan-ipld repair-epochs        # fix '' @ fmt_nat (length repair) @ '' blob_count mismatch'' @
                (if length repair \<noteq> 1 then ''es'' else '''')]) @
         map (\<lambda>(a, b). if a = b
                then ''  blobscan-ipld backfill-ipfs -from '' @ FormatUint a @ '' -to '' @ FormatUint b @ ''   # re-fetch & self-heal CIDs''
                else ''  blobscan-ipld backfill-ipfs -from '' @ FormatUint a @ '' -to '' @ FormatUint b @ ''   # re-fetch & self-heal '' @
                     FormatUint (b - a + 1) @ '' epochs'') (collapseRanges backfill))"

text \<open>\<^verbatim>\<open>cmdHealthCheck\<close> after the connection: the report and the exit code.\<close>

definition cmdHealthCheck ::
  "ipld_lib \<Rightarrow> Config \<Rightarrow> (nat \<Rightarrow> faults) \<Rightarrow> faults \<Rightarrow> (nat \<Rightarrow> faults) \<Rightarrow> tables \<Rightarrow> goint \<Rightarrow> goint \<Rightarrow> nat \<Rightarrow> (healthReport \<times> nat) res" where
  "cmdHealthCheck lib cfg flt0 fltAll flt1 t maxTier samples fed =
     (let network = nc_Name (cf_Network cfg)
      in bindR (runTier0 flt0 t network samples emptyReport) (\<lambda>rep.
         bindR (if 1 \<le> sint maxTier then runTier1 lib cfg fltAll flt1 t network samples fed rep else Inr rep) (\<lambda>rep.
           Inr (rep, if worst rep = StatusFail then 2 else 0))))"

section \<open>Epochs on the IPFS node\<close>

definition epoch_pinned :: "ipld_lib \<Rightarrow> string set \<Rightarrow> EpochRecord \<Rightarrow> bool" where
  "epoch_pinned lib pins rec = (case cid_Decode lib (rec_CID rec) of Inl _ \<Rightarrow> False | Inr c \<Rightarrow> cid_String lib c \<in> pins)"

definition checkEpochsAgainstPins :: "ipld_lib \<Rightarrow> EpochRecord list \<Rightarrow> string set \<Rightarrow> int \<times> uint64 list" where
  "checkEpochsAgainstPins lib records pins =
     (int (length (filter (epoch_pinned lib pins) records)),
      sortUint64 (map rec_Epoch (filter (\<lambda>rec. \<not> epoch_pinned lib pins rec) records)))"

text \<open>
  \<open>order\<close>: the order in which the workers send their results; request \<open>i\<close> is that of record \<open>i\<close>. Without a worker the
  results channel is closed at once.
\<close>

definition epoch_stat :: "ipld_lib \<Rightarrow> ipfsClient \<Rightarrow> (nat \<Rightarrow> http_env) \<Rightarrow> EpochRecord list \<Rightarrow> nat \<Rightarrow> uint64 \<times> bool" where
  "epoch_stat lib c he records i =
     (rec_Epoch (records ! i),
      case cid_Decode lib (rec_CID (records ! i)) of
        Inl _ \<Rightarrow> False
      | Inr b \<Rightarrow> (case HasBlock lib c (he i) b of Inl _ \<Rightarrow> False | Inr ok \<Rightarrow> ok))"

definition checkEpochsByBlockStat ::
  "ipld_lib \<Rightarrow> ipfsClient \<Rightarrow> (nat \<Rightarrow> http_env) \<Rightarrow> nat list \<Rightarrow> EpochRecord list \<Rightarrow> goint \<Rightarrow> int \<times> uint64 list" where
  "checkEpochsByBlockStat lib c he order records workers =
     (let results = (if sint workers \<le> 0 then [] else map (epoch_stat lib c he records) order)
      in (int (length (filter snd results)), sortUint64 (map fst (filter (\<lambda>r. \<not> snd r) results))))"

definition checkEpochsInIPFS ::
  "ipld_lib \<Rightarrow> ipfsClient \<Rightarrow> faults \<Rightarrow> tables \<Rightarrow> http_env \<Rightarrow> (nat \<Rightarrow> http_env) \<Rightarrow> nat list \<Rightarrow> string \<Rightarrow> goint \<Rightarrow> int \<times> uint64 list" where
  "checkEpochsInIPFS lib c flt t he0 he order network workers =
     (case GetAllEpochs flt t network of
        Inl _ \<Rightarrow> (0, [])
      | Inr records \<Rightarrow>
          if records = [] then (0, [])
          else (case ListRecursivePins lib c he0 of
                  Inr pins \<Rightarrow> checkEpochsAgainstPins lib records pins
                | Inl _ \<Rightarrow> checkEpochsByBlockStat lib c he order records workers))"

section \<open>Sorting, deduplicating, collapsing\<close>

lemma sink_insert: "sorted xs \<Longrightarrow> sink (xs @ x # ys) (length xs) = sort (xs @ [x]) @ ys"
proof (induction xs arbitrary: ys rule: rev_induct)
  case (snoc z zs)
  show ?case
  proof (cases "x < z")
    case True
    have "mset (sort (zs @ [x]) @ [z]) = mset (zs @ [z, x])" by simp
    moreover have "sorted (sort (zs @ [x]) @ [z])" using snoc.prems True by (auto simp: sorted_append)
    ultimately have "sort (zs @ [z, x]) = sort (zs @ [x]) @ [z]" by (rule properties_for_sort)
    moreover have "sink (zs @ x # z # ys) (length zs) = sort (zs @ [x]) @ z # ys" using snoc by (simp add: sorted_append)
    ultimately show ?thesis using True by (simp add: nth_append list_update_append)
  next
    case False
    then have "sorted (zs @ [z, x])" using snoc.prems by (auto simp: sorted_append)
    then show ?thesis using False by (simp add: nth_append sorted_sort_id)
  qed
qed simp

text \<open>The insertion sort sorts.\<close>

lemma sort_Nil: "sort xs = [] \<longleftrightarrow> xs = []"
  by (metis set_empty set_sort)

lemma sortUint64_sort: "sortUint64 a = sort a"
proof (cases "a = []")
  case False
  have "fold (\<lambda>i a. sink a i) [1..<Suc k] a = sort (take (Suc k) a) @ drop (Suc k) a" if "Suc k \<le> length a" for k
    using that
  proof (induction k)
    case 0
    then show ?case by (cases a) simp_all
  next
    case (Suc k)
    let ?xs = "sort (take (Suc k) a)"
    have "fold (\<lambda>i a. sink a i) [1..<Suc (Suc k)] a = sink (?xs @ drop (Suc k) a) (Suc k)" using Suc by simp
    also have "drop (Suc k) a = a ! Suc k # drop (Suc (Suc k)) a" using Suc.prems by (simp add: Cons_nth_drop_Suc)
    also have "sink (?xs @ a ! Suc k # drop (Suc (Suc k)) a) (Suc k) = sort (?xs @ [a ! Suc k]) @ drop (Suc (Suc k)) a"
      using sink_insert [of ?xs "a ! Suc k" "drop (Suc (Suc k)) a"] Suc.prems by simp
    also have "sort (?xs @ [a ! Suc k]) = sort (take (Suc (Suc k)) a)"
      using Suc.prems by (intro properties_for_sort) (simp_all add: take_Suc_conv_app_nth)
    finally show ?case .
  qed
  from this [of "length a - 1"] False show ?thesis by (simp add: sortUint64_def)
qed (simp add: sortUint64_def)

lemma dedup_loop_spec: "distinct out \<Longrightarrow> distinct (dedup_loop out xs) \<and> set (dedup_loop out xs) = set out \<union> set xs"
  by (induction out xs rule: dedup_loop.induct) auto

lemma dedupUint64_spec: "sorted (dedupUint64 xs) \<and> distinct (dedupUint64 xs) \<and> set (dedupUint64 xs) = set xs"
  using dedup_loop_spec [of "[]" xs] by (simp add: dedupUint64_def sortUint64_sort)

text \<open>
  The ranges: each from its start to its end, in order, two of them separated by at least one epoch that is in neither,
  together the epochs of the list.
\<close>

fun ranges_ok :: "(uint64 \<times> uint64) list \<Rightarrow> bool" where
  "ranges_ok ((a, b) # (c, d) # rs) \<longleftrightarrow> a \<le> b \<and> uint b + 1 < uint c \<and> ranges_ok ((c, d) # rs)"
| "ranges_ok [(a, b)] \<longleftrightarrow> a \<le> b"
| "ranges_ok [] \<longleftrightarrow> True"

definition in_ranges :: "(uint64 \<times> uint64) list \<Rightarrow> uint64 set" where
  "in_ranges rs = (\<Union>(a, b) \<in> set rs. {a..b})"

lemma word_gap:
  fixes a b :: uint64
  assumes "a < b" and "b \<noteq> a + 1"
  shows "uint a + 1 < uint b"
proof -
  have "uint a < uint b" using assms(1) by (simp add: word_less_def)
  moreover have "uint b \<noteq> uint a + 1"
  proof
    assume "uint b = uint a + 1"
    then have "of_int (uint b) = (of_int (uint a + 1) :: uint64)" by simp
    then show False using assms(2) by simp
  qed
  ultimately show ?thesis by linarith
qed

lemma word_next:
  fixes a b :: uint64
  assumes "a < b" and "b = a + 1" and "s \<le> a"
  shows "{s..b} = insert b {s..a}"
proof -
  have "x \<le> a" if "x \<le> b" "x \<noteq> b" for x
  proof -
    have "uint a + 1 < 2 ^ 64" using assms(1) uint_lt2p [of b] by (simp add: word_less_def)
    then have "uint b = uint a + 1" using assms(2) uint_ge_0 [of a] by (simp add: uint_word_ariths(1))
    moreover have "uint x \<noteq> uint b" using that(2) by (simp add: word_uint_eq_iff)
    ultimately show ?thesis using that(1) by (simp add: word_le_def)
  qed
  moreover have "s \<le> b" "x \<le> b" if "x \<le> a" for x using assms(1,3) that by auto
  ultimately show ?thesis using assms(1,3) by (intro set_eqI) (simp, blast)
qed

lemma collapse_loop_spec:
  assumes "start \<le> end" and "sorted (end # es)" and "distinct (end # es)"
  shows "ranges_ok (collapse_loop start end es) \<and> in_ranges (collapse_loop start end es) = {start..end} \<union> set es \<and>
    (\<exists>b rs. collapse_loop start end es = (start, b) # rs)"
  using assms
proof (induction start "end" es rule: collapse_loop.induct)
  case (2 start "end" e es)
  have lt: "end < e" using "2.prems" by (auto simp: less_le)
  have es: "sorted (e # es)" "distinct (e # es)" using "2.prems" by auto
  show ?case
  proof (cases "e = end + 1")
    case True
    have "{start..e} = insert e {start..end}" by (rule word_next [OF lt True "2.prems"(1)])
    moreover have "start \<le> e" using lt "2.prems"(1) by simp
    ultimately show ?thesis using "2.IH"(1) [OF True _ es] True by auto
  next
    case False
    have "uint end + 1 < uint e" by (rule word_gap [OF lt False])
    moreover obtain b rs where "collapse_loop e e es = (e, b) # rs" "ranges_ok (collapse_loop e e es)"
      "in_ranges (collapse_loop e e es) = {e..e} \<union> set es" using "2.IH"(2) [OF False _ es] by auto
    ultimately show ?thesis using False "2.prems"(1) by (auto simp: in_ranges_def)
  qed
qed (simp add: in_ranges_def)

text \<open>
  The epochs to re-fetch, given in any order and with repetitions, are collapsed into ranges that contain exactly
  these epochs; every range runs upwards, and between two neighbouring ranges at least one epoch is left out, so no
  shorter list of ranges names the same epochs.
\<close>

lemma collapseRanges_exact: "ranges_ok (collapseRanges epochs) \<and> in_ranges (collapseRanges epochs) = set epochs"
proof -
  have d: "sorted (dedupUint64 epochs)" "distinct (dedupUint64 epochs)" "set (dedupUint64 epochs) = set epochs"
    using dedupUint64_spec by blast+
  show ?thesis
  proof (cases "dedupUint64 epochs")
    case Nil
    then show ?thesis using d by (simp add: collapseRanges_def in_ranges_def)
  next
    case (Cons e es)
    then show ?thesis using d collapse_loop_spec [of e e es] by (auto simp: collapseRanges_def)
  qed
qed

section \<open>The recomputation accepts what was saved\<close>

lemma meta_check_stored:
  assumes "cid_doc lib" and "ProcessBlob lib bs b = Inr (r, bs')" and "bi_Size b = 0" and "bi_Epoch b = epoch"
    and "\<exists>p d. br_DataCID r = Cid p d" and "\<exists>p d. br_MetaCID r = Cid p d"
    and "reconstruct_result lib (stored_record lib gt sps (b, r)) = Inr res"
  shows "meta_check lib (reconstruct_blob epoch (stored_record lib gt sps (b, r))) res (stored_record lib gt sps (b, r)) = Inr (False, 0)"
proof -
  from assms(2) obtain db mb where data: "blob_data_block lib (bi_Data b) = Inr (br_DataCID r, db)"
    and meta: "blob_meta_block lib b (br_DataCID r) = Inr (br_MetaCID r, mb)" and size: "br_SizeBytes r = go_len (bi_Data b)"
    by (auto simp: ProcessBlob_pure blob_blocks_def bindR_eq_Inr)
  have "br_DataCID res = br_DataCID r"
    using reconstruct_stored [of lib "(b, r)" gt sps] assms(1,5,6,7) by auto
  moreover have "blob_meta_block lib (reconstruct_blob epoch (stored_record lib gt sps (b, r))) (br_DataCID r) = Inr (br_MetaCID r, mb)"
    unfolding meta [symmetric]
    by (rule blob_meta_block_cong) (use assms(3,4) size in \<open>auto simp: metadata_size_def reconstruct_blob_def stored_record_def go_len_def\<close>)
  ultimately show ?thesis by (simp add: meta_check_def StoreBlobMetadata_pure) (simp add: stored_record_def)
qed

text \<open>
  C18. When the offline recomputation of the health check raises no false alarm: after the blobs of an epoch and the
  results of processing them were saved, and the epoch row carries the CID of the epoch node built from them, the check
  of that epoch finds every metadata CID and the root CID as stored, although it rebuilds both from the rows alone. This
  needs that each blob got a row of its own, that is: the commitments of the epoch are pairwise different and none of
  them was stored before, and the epoch had no blob rows. (A commitment that occurs twice, such as the zero blob,
  keeps a single row, so the rebuilt node has fewer blobs than the stored one and a sound epoch is reported.) The other
  conditions: slot and index tell the blobs of one versioned hash apart, the epoch, slots and block numbers fit the
  columns, the CIDs are defined, the blobs are those of that epoch with no explicit size, as \<^verbatim>\<open>FetchEpochInput\<close> gives them,
  and the library's CID printing can be decoded.
\<close>

theorem tier1_accepts_saved:
  assumes "cid_doc lib"
    and "SaveBlobs lib flt t network epoch (ei_Blobs inp) results gt sps = (Inr (), t')" and "ei_Blobs inp \<noteq> []"
    and "distinct (map bi_Commitment (ei_Blobs inp))"
    and "bi_Commitment ` set (ei_Blobs inp) \<inter> bw_commitment ` set (tb_blobs t) = {}"
    and "epoch_blobs t network (sint epoch) = []" and "unat epoch < 2 ^ 63"
    and "\<forall>b \<in> set (ei_Blobs inp). unat (bi_Slot b) < 2 ^ 63 \<and> unat (bi_BlockNumber b) < 2 ^ 63"
    and "\<forall>r \<in> set results. (\<exists>p d. br_DataCID r = Cid p d) \<and> (\<exists>p d. br_MetaCID r = Cid p d)"
    and "distinct (map occ_id (zip (ei_Blobs inp) results))"
    and "ei_Epoch inp = epoch" "ei_Slot inp = EpochToFirstSlot epoch spe"
    and blobs: "\<forall>(b, r) \<in> set (zip (ei_Blobs inp) results). bi_Size b = 0 \<and> bi_Epoch b = epoch \<and> (\<exists>bs bs'. ProcessBlob lib bs b = Inr (r, bs'))"
    and build: "BuildEpochNode lib bs inp results network thr = Inr (node, bs')"
    and row: "rec_Epoch e = epoch" "rec_CID e = cid_String lib (er_CID node)"
  shows "check_epoch lib noFaults t' network spe thr e =
    Inr \<lparr>ec_epoch = epoch, ec_metaBad = False, ec_rootBad = False, ec_blobsBad = 0\<rparr>"
proof -
  let ?z = "zip (ei_Blobs inp) results" and ?st = "stored_record lib gt sps"
  define recs where "recs = sort_key (\<lambda>r. sint (bd_BlobIndex r)) (map ?st ?z)"
  from SaveBlobs_stored [OF assms(2-8)] have get: "GetBlobsByEpoch noFaults t' network epoch = Inr recs"
    and len: "length (ei_Blobs inp) = length results" by (simp_all add: recs_def)
  from len \<open>ei_Blobs inp \<noteq> []\<close> have ne: "recs \<noteq> []" by (cases "ei_Blobs inp"; cases results) (auto simp: recs_def)
  have "mset recs = mset (map ?st ?z)" by (simp add: recs_def)
  from reconstruct_build [OF assms(1) len assms(9) this assms(10-12)] obtain inp' results' where
    rec: "ReconstructFromDB lib epoch recs spe = Inr (inp', results')"
    and same: "\<And>bs. BuildEpochNode lib bs inp' results' network thr = BuildEpochNode lib bs inp results network thr" by blast
  then have inp': "ei_Blobs inp' = map (reconstruct_blob epoch) recs" and res: "mapR (reconstruct_result lib) recs = Inr results'"
    by (auto simp: ReconstructFromDB_def bindR_eq_Inr)
  from build obtain bs'' where node: "BuildEpochNode lib (BMem NewMemBlockstore) inp results network thr = Inr (node, bs'')"
    by (auto simp: BuildEpochNode_pure bindR_eq_Inr)
  have "meta_check lib (reconstruct_blob epoch r) s r = Inr (False, 0)" if "r \<in> set recs" "reconstruct_result lib r = Inr s" for r s
  proof -
    from that(1) obtain b br where x: "r = ?st (b, br)" "(b, br) \<in> set ?z" by (auto simp: recs_def)
    then show ?thesis using that(2) blobs assms(9) meta_check_stored [OF assms(1)] by (fastforce dest: set_zip_rightD)
  qed
  then have "mapR (\<lambda>(blob, res, rec). meta_check lib blob res rec) (zip (ei_Blobs inp') (zip results' recs)) =
    Inr (map (\<lambda>_. (False, 0)) (zip (ei_Blobs inp') (zip results' recs)))"
    using res [unfolded mapR_eq_Inr] unfolding inp' by (intro mapR_total) (auto simp: in_set_zip list_all2_conv_all_nth)
  then show ?thesis using get ne rec row same node
    by (auto simp: check_epoch_def in_set_zip o_def simp del: mapR_eq_Inr)
qed

theorem tier1_accepts_saved_witness:
  "\<exists>r t' node bs'. ProcessBlob cid_lib BNull demo_blob = Inr (r, BNull) \<and>
     SaveBlobs cid_lib noFaults schema_empty ''mainnet'' 1 [demo_blob] [r] 0 12 = (Inr (), t') \<and>
     BuildEpochNode cid_lib BNull \<lparr>ei_Epoch = 1, ei_Slot = 32, ei_Blobs = [demo_blob]\<rparr> [r] ''mainnet'' 5000 = Inr (node, bs') \<and>
     (\<forall>e. rec_Epoch e = 1 \<and> rec_CID e = cid_String cid_lib (er_CID node) \<longrightarrow>
        check_epoch cid_lib noFaults t' ''mainnet'' 32 5000 e = Inr \<lparr>ec_epoch = 1, ec_metaBad = False, ec_rootBad = False, ec_blobsBad = 0\<rparr>)"
proof -
  let ?inp = "\<lparr>ei_Epoch = 1, ei_Slot = 32, ei_Blobs = [demo_blob]\<rparr>"
  obtain r where r: "ProcessBlob cid_lib BNull demo_blob = Inr (r, BNull)" "\<exists>p d. br_DataCID r = Cid p d" "\<exists>p d. br_MetaCID r = Cid p d"
    by (simp add: ProcessBlob_def StoreRawBlob_def StoreBlobMetadata_def demo_store qp_docD [OF cid_lib_doc(3)] metadata_keys_distinct)
  obtain t' where t': "SaveBlobs cid_lib noFaults schema_empty ''mainnet'' 1 [demo_blob] [r] 0 12 = (Inr (), t')"
    by (simp add: SaveBlobs_def SaveBlobs_tx_def fault_def blob_stage_row_def enc_int4_def demo_blob_def)
  obtain node where node: "BuildEpochNode cid_lib BNull ?inp [r] ''mainnet'' 5000 = Inr (node, BNull)"
    by (simp add: BuildEpochNode_def buildMapBlobIndex_def groupByVersionedHash_def go_len_def demo_store qp_docD [OF cid_lib_doc(3)]
        epoch_entries_def demo_blob_def)
  have "check_epoch cid_lib noFaults t' ''mainnet'' 32 5000 e = Inr \<lparr>ec_epoch = 1, ec_metaBad = False, ec_rootBad = False, ec_blobsBad = 0\<rparr>"
    if "rec_Epoch e = 1" "rec_CID e = cid_String cid_lib (er_CID node)" for e
    by (rule tier1_accepts_saved [where inp = ?inp and results = "[r]" and t = schema_empty and gt = 0 and sps = 12 and bs = BNull
          and bs' = BNull and node = node and flt = noFaults])
      (use that r t' node in \<open>auto simp: cid_lib_doc demo_blob_def schema_empty_def epoch_blobs_def EpochToFirstSlot_def occ_id_def\<close>)
  with r(1) t' node show ?thesis by blast
qed

section \<open>The exit code\<close>

text \<open>The worst status is the greatest one of the checks that were not skipped, and the command fails when a check did.\<close>

lemma worst_Max: "worst rep = Max (set (StatusPass # filter (\<lambda>s. s \<noteq> StatusSkip) (map ck_status (hr_results rep))))"
proof -
  have "fold (\<lambda>c w. if w < ck_status c \<and> ck_status c \<noteq> StatusSkip then ck_status c else w) rs w =
      fold max (filter (\<lambda>s. s \<noteq> StatusSkip) (map ck_status rs)) w" for rs w
    by (induction rs arbitrary: w) (auto simp: max_def not_less intro: arg_cong2 [of _ _ _ _ "fold max"])
  then show ?thesis unfolding worst_def by (simp only: Max.set_eq_fold)
qed

lemma worst_fails: "worst rep = StatusFail \<longleftrightarrow> (\<exists>c \<in> set (hr_results rep). ck_status c = StatusFail)"
proof -
  let ?ss = "StatusPass # filter (\<lambda>s. s \<noteq> StatusSkip) (map ck_status (hr_results rep))"
  have "s \<noteq> StatusSkip \<Longrightarrow> s \<le> StatusFail" for s by (cases s) (simp_all add: less_eq_checkStatus_def)
  then have le: "s \<le> StatusFail" if "s \<in> set ?ss" for s using that by auto
  have "Max (set ?ss) = StatusFail \<longleftrightarrow> StatusFail \<in> set ?ss"
    using Max_in [of "set ?ss"] Max_eqI [of "set ?ss" StatusFail] le by (metis List.finite_set empty_set list.distinct(1) set_empty)
  also have "\<dots> \<longleftrightarrow> (\<exists>c \<in> set (hr_results rep). ck_status c = StatusFail)" by force
  finally show ?thesis unfolding worst_Max .
qed

end
