(* ===== verification/Summary.thy ===== *)
theory Summary
  imports Format Health Commands
begin

text \<open>
  The reports of \<^verbatim>\<open>cmd/blobscan-ipld/main.go\<close>: the command \<^verbatim>\<open>summary\<close> with its sections, and the rendering of the health
  check. A report is the list of its lines; the output of a command that ends with an error is dropped. The characters
  outside ASCII are their bytes in UTF-8, as in the source.
\<close>

section \<open>Lines\<close>

definition utf8 :: "nat list \<Rightarrow> string" where
  "utf8 ns = map char_of ns"

definition arrow :: string where
  "arrow = utf8 [0xE2, 0x86, 0x92]"

definition rule_char :: string where
  "rule_char = utf8 [0xE2, 0x94, 0x80]"

definition warn_sign :: string where
  "warn_sign = utf8 [0xE2, 0x9A, 0xA0]"

definition em_dash :: string where
  "em_dash = utf8 [0xE2, 0x80, 0x94]"

definition strings_Repeat :: "string \<Rightarrow> nat \<Rightarrow> string" where
  "strings_Repeat s n = concat (replicate n s)"

definition ruled :: "string \<Rightarrow> nat \<Rightarrow> string" where
  "ruled title width = title @ strings_Repeat rule_char (max 2 (width - length title))"

definition printSummaryHeader :: "string \<Rightarrow> nat \<Rightarrow> string list" where
  "printSummaryHeader network width =
     [ruled (rule_char @ rule_char @ '' blobscan-ipld summary '' @ rule_char @ rule_char @ '' '' @ network @ '' '') width]"

definition printSectionHeader :: "string \<Rightarrow> string \<Rightarrow> nat \<Rightarrow> string list" where
  "printSectionHeader title detail width =
     ['''', ruled (rule_char @ rule_char @ '' '' @ title @ '' '' @ (if detail \<noteq> '''' then ''('' @ detail @ '') '' else '''')) width]"

definition printRow :: "string \<Rightarrow> string \<Rightarrow> string list" where
  "printRow label value = [''  '' @ pad_right 16 label @ '' '' @ value]"

definition plural :: "string \<Rightarrow> int \<Rightarrow> string" where
  "plural noun n = formatCount n @ '' '' @ noun @ pluralS n"

text \<open>\<^verbatim>\<open>float64(a)/float64(b)*100\<close> with one decimal.\<close>

definition percent :: "int \<Rightarrow> int \<Rightarrow> string" where
  "percent a b = fmt_fixed 1 (f64 (f64_div (f64 (of_int a)) (f64 (of_int b)) * 100)) @ ''%''"

abbreviation sumWidth :: nat where
  "sumWidth \<equiv> 72"

section \<open>The default section\<close>

definition epochs_line :: "SummaryStats \<Rightarrow> GapRange list \<Rightarrow> string" where
  "epochs_line stats gaps =
     formatCount (ss_EpochCount stats) @ ''  ['' @ FormatUint (ss_FirstEpoch stats) @ '' '' @ arrow @ '' '' @ FormatUint (ss_LastEpoch stats) @ '']'' @
     (if gaps \<noteq> []
      then ''  ('' @ fmt_nat (length gaps) @ '' gap range'' @ pluralS (int (length gaps)) @ mid_dot @
           plural ''epoch'' (ss_GapCount stats) @ '' missing'' @ mid_dot @
           percent (ss_EpochCount stats) (ss_ExpectedEpochCount stats) @ '' coverage)''
      else ''  (no gaps)'')"

definition blobs_line :: "SummaryStats \<Rightarrow> string" where
  "blobs_line stats =
     formatCount (ss_TotalBlobs stats) @ ''  (avg '' @ fmt_fixed 1 (f64 (ss_AvgBlobsPerEpoch stats)) @ ''/epoch'' @ mid_dot @
     ''peak '' @ formatCount (ss_MaxBlobsPerEpoch stats) @ '' in epoch '' @ FormatUint (ss_MaxBlobsEpoch stats) @ '')'' @
     (if 0 < ss_EmptyEpochCount stats then '' '' @ mid_dot @ plural ''empty epoch'' (ss_EmptyEpochCount stats) else '''')"

definition size_line :: "SummaryStats \<Rightarrow> string" where
  "size_line stats =
     formatBytes (ss_TotalSizeBytes stats) @ ''  (avg '' @ formatBytes (trunc_div (ss_TotalSizeBytes stats) (ss_EpochCount stats)) @ ''/epoch)''"

definition time_rows :: "SummaryStats \<Rightarrow> string list" where
  "time_rows stats =
     (case (ss_FirstEpochTime stats, ss_LastEpochTime stats) of
        (Some a, Some b) \<Rightarrow>
          printRow ''Time'' (format_time a @ '' '' @ arrow @ '' '' @ format_time b @ ''  ('' @ formatElapsed a b @ '')'')
      | _ \<Rightarrow> [])"

definition cursor_line :: "SummaryStats \<Rightarrow> string" where
  "cursor_line stats =
     ''live='' @ FormatUint (ss_LiveCursor stats) @
     (if 0 < ss_BackfillCursor stats then ''  backfill='' @ FormatUint (ss_BackfillCursor stats) else '''')"

definition default_rows :: "SummaryStats \<Rightarrow> GapRange list \<Rightarrow> string list" where
  "default_rows stats gaps =
     printRow ''Epochs'' (epochs_line stats gaps) @ printRow ''Blobs'' (blobs_line stats) @ printRow ''Data size'' (size_line stats) @
     time_rows stats @ printRow ''Cursors'' (cursor_line stats)"

section \<open>The IPFS node\<close>

definition node_rows :: "NodeInfo res \<Rightarrow> string list" where
  "node_rows r =
     (case r of
        Inl e \<Rightarrow> printRow ''IPFS node'' (warn_sign @ '' id: '' @ error_text e)
      | Inr info \<Rightarrow> printRow ''IPFS node'' (ni_ID info @ ''  ('' @ ni_AgentVersion info @ '')''))"

definition storage_rows :: "RepoStat res \<Rightarrow> string list" where
  "storage_rows r =
     (case r of
        Inl e \<Rightarrow> printRow ''IPFS storage'' (warn_sign @ '' repo/stat: '' @ error_text e)
      | Inr st \<Rightarrow>
          printRow ''IPFS storage''
            (formatBytes (sint (rs_RepoSize st)) @ '' / '' @ formatBytes (sint (rs_StorageMax st)) @ ''  ('' @
             (if 0 < rs_StorageMax st then percent (uint (rs_RepoSize st)) (uint (rs_StorageMax st)) else ''0.0%'') @ '' used)''))"

definition missing_list :: "uint64 list \<Rightarrow> string" where
  "missing_list missing =
     (if missing = [] then ''''
      else [CHR 0x0A] @ replicate 18 (CHR '' '') @ ''missing: '' @ strings_Join mid_dot (map FormatUint (take 10 missing)) @
           (if 10 < length missing then ellipsis @ ''+'' @ fmt_nat (length missing - 10) @ '' more'' else ''''))"

definition presence_rows :: "int \<times> uint64 list \<Rightarrow> string list" where
  "presence_rows = (\<lambda>(present, missing).
     let total = present + int (length missing)
     in printRow ''IPFS epochs''
          (formatCount present @ ''/'' @ formatCount total @ '' epoch nodes present  ('' @
           (if 0 < total then percent present total else ''0.0%'') @ '')'' @ missing_list missing))"

text \<open>
  \<^verbatim>\<open>ipfs.NewClient\<close> never fails. The requests for single epochs, which the check sends when the pins cannot be listed, are
  answered by \<open>o_upload\<close>, in the order \<open>o_uploadOrder\<close>.
\<close>

definition summary_ipfs :: "outside \<Rightarrow> Config \<Rightarrow> bool \<Rightarrow> string list prog" where
  "summary_ipfs env cfg checkIPFS =
     (if ic_SkipUpload (cf_IPFS cfg) \<or> ic_APIAddr (cf_IPFS cfg) = ''''
      then returnP (printRow ''IPFS'' (warn_sign @ '' not configured (skip_upload=true or no api_addr)''))
      else let c = NewIpfsClient (ic_APIAddr (cf_IPFS cfg)) (ic_Timeout (cf_IPFS cfg)) False 64
           in bindP (ask (o_http env)) (\<lambda>he1.
              bindP (ask (o_http env)) (\<lambda>he2.
              bindP (if checkIPFS
                     then bindP (ask (o_db env)) (\<lambda>flt.
                          bindP (ask (o_http env)) (\<lambda>he0.
                          bindP (ask (o_upload env)) (\<lambda>he.
                          bindP (ask (o_uploadOrder env)) (\<lambda>order.
                            (\<lambda>w. (Inr (presence_rows
                               (checkEpochsInIPFS (o_lib env) c flt (w_tables w) he0 he order (cfg_network cfg) 64)), w))))))
                     else returnP (printRow ''IPFS epochs'' ''use -check-ipfs to verify upload status'')) (\<lambda>epochs.
                returnP (node_rows (GetNodeInfo c he1) @ storage_rows (GetRepoStat c he2 True) @ epochs)))))"

section \<open>Details\<close>

definition range_line :: "uint64 \<times> uint64 \<Rightarrow> string" where
  "range_line = (\<lambda>(a, b).
     if a = b then ''  '' @ FormatUint a
     else ''  '' @ FormatUint a @ '' '' @ arrow @ '' '' @ FormatUint b @ ''  ('' @ plural ''epoch'' (sint (b - a + 1)) @ '')'')"

definition gap_section :: "GapRange list \<Rightarrow> string list" where
  "gap_section gaps =
     (if gaps = [] then printSectionHeader ''Epoch gaps'' ''none'' sumWidth
      else let totalMissing = sum_list (map (\<lambda>g. sint (Gap_Count g)) gaps)
           in printSectionHeader ''Epoch gaps''
                (fmt_nat (length gaps) @ '' range'' @ pluralS (int (length gaps)) @ mid_dot @ plural ''epoch'' totalMissing @ '' missing'') sumWidth @
              map (\<lambda>g. range_line (gr_Start g, gr_End g)) gaps)"

definition empty_section :: "uint64 list \<Rightarrow> string list" where
  "empty_section emptyEpochs =
     (case emptyEpochs of
        [] \<Rightarrow> printSectionHeader ''Empty epochs'' ''none'' sumWidth
      | e # es \<Rightarrow>
          printSectionHeader ''Empty epochs'' (plural ''epoch'' (int (length emptyEpochs)) @ '' with no blobs on-chain'') sumWidth @
          map range_line (collapse_loop e e es))"

definition top_section :: "goint \<Rightarrow> EpochTopRow list \<Rightarrow> string list" where
  "top_section topN rows =
     printSectionHeader (''Top '' @ fmt_int (sint topN) @ '' epochs by blob count'') '''' sumWidth @
     [''  '' @ pad_right 10 ''EPOCH'' @ ''  '' @ pad_left 8 ''BLOBS'' @ ''  '' @ pad_left 10 ''SIZE'' @ ''  '' @ ''TIME''] @
     map (\<lambda>r. ''  '' @ pad_right 10 (FormatUint (tr_Epoch r)) @ ''  '' @ pad_left 8 (formatCount (tr_BlobCount r)) @ ''  '' @
               pad_left 10 (formatBytes (tr_SizeBytes r)) @ ''  '' @
               (case tr_EpochTime r of None \<Rightarrow> em_dash | Some t \<Rightarrow> format_time t)) rows"

definition month_section :: "MonthlyBlobStat list \<Rightarrow> string list" where
  "month_section months =
     (if months = [] then printSectionHeader ''Monthly breakdown'' ''no epoch_time data available'' sumWidth
      else printSectionHeader ''Monthly breakdown'' '''' sumWidth @
           [''  '' @ pad_right 10 ''MONTH'' @ ''  '' @ pad_left 8 ''EPOCHS'' @ ''  '' @ pad_left 10 ''BLOBS'' @ ''  '' @ pad_left 10 ''SIZE''] @
           map (\<lambda>m. ''  '' @ pad_right 10 (format_month (ms_Month m)) @ ''  '' @ pad_left 8 (formatCount (ms_EpochCount m)) @ ''  '' @
                     pad_left 10 (formatCount (ms_BlobCount m)) @ ''  '' @ pad_left 10 (formatBytes (ms_SizeBytes m))) months)"

section \<open>The command\<close>

definition only_if :: "bool \<Rightarrow> string list prog \<Rightarrow> string list prog" where
  "only_if b m = (if b then m else returnP [])"

text \<open>\<open>month\<close>: the server's truncation of a time to its month, for \<^verbatim>\<open>GetMonthlyStats\<close>.\<close>

definition summary_details :: "outside \<Rightarrow> (gotime \<Rightarrow> gotime) \<Rightarrow> Config \<Rightarrow> bool \<Rightarrow> bool \<Rightarrow> goint \<Rightarrow> bool \<Rightarrow> GapRange list \<Rightarrow> string list prog" where
  "summary_details env month cfg showGaps showEmpty topN monthly gaps =
     bindP (only_if showEmpty
              (bindP (wrapP ''summary: query empty epochs'' (db_read env (\<lambda>flt t. GetEmptyEpochs flt t (cfg_network cfg)))) (\<lambda>es.
                 returnP (empty_section es)))) (\<lambda>empty.
     bindP (only_if (0 < sint topN)
              (bindP (wrapP ''summary: query top epochs'' (db_read env (\<lambda>flt t. GetTopEpochsByBlobCount flt t (cfg_network cfg) topN))) (\<lambda>rs.
                 returnP (top_section topN rs)))) (\<lambda>top.
     bindP (only_if monthly
              (bindP (wrapP ''summary: query monthly stats'' (db_read env (\<lambda>flt t. GetMonthlyStats month flt t (cfg_network cfg)))) (\<lambda>ms.
                 returnP (month_section ms)))) (\<lambda>months.
       returnP ((if showGaps then gap_section gaps else []) @ empty @ top @ months))))"

definition cmdSummary :: "outside \<Rightarrow> (gotime \<Rightarrow> gotime) \<Rightarrow> Config \<Rightarrow> bool \<Rightarrow> bool \<Rightarrow> bool \<Rightarrow> goint \<Rightarrow> bool \<Rightarrow> string list prog" where
  "cmdSummary env month cfg checkIPFS showGaps showEmpty topN monthly =
     bindP (open_db env cfg ''summary: postgres_dsn is required'') (\<lambda>_.
     bindP (wrapP ''summary: query stats'' (db_read env (\<lambda>flt t. GetSummaryStats flt t (cfg_network cfg)))) (\<lambda>stats.
       let header = printSummaryHeader (cfg_network cfg) sumWidth
       in if ss_EpochCount stats = 0 then returnP (header @ [''  (no epochs indexed yet)''])
          else
            bindP (if 0 < ss_GapCount stats
                   then wrapP ''summary: query gaps'' (db_read env (\<lambda>flt t. GetEpochGapRanges flt t (cfg_network cfg)))
                   else returnP []) (\<lambda>gaps.
            bindP (summary_ipfs env cfg checkIPFS) (\<lambda>ipfs.
            bindP (summary_details env month cfg showGaps showEmpty topN monthly gaps) (\<lambda>details.
              returnP (header @ default_rows stats gaps @ ipfs @ details))))))"

section \<open>The health report\<close>

definition tier_title :: "nat \<Rightarrow> string" where
  "tier_title tier = ''Tier '' @ fmt_nat tier @ (if tier = 0 then ''  SQL invariants'' else ''  offline CID recompute'')"

definition check_row :: "goint \<Rightarrow> checkResult \<Rightarrow> string list res" where
  "check_row samples c =
     bindR (if ck_samples c = [] then Inr ''''
            else bindR (formatEpochSamples (ck_samples c) samples) (\<lambda>s. Inr (''  e.g. '' @ s))) (\<lambda>eg.
       Inr (printRow (ck_name c) (strings_TrimRight (pad_right 6 (status_String (ck_status c)) @ '' '' @ ck_detail c @ eg) (CHR '' ''))))"

definition render_tier :: "healthReport \<Rightarrow> goint \<Rightarrow> goint \<Rightarrow> nat \<Rightarrow> nat \<Rightarrow> string list res" where
  "render_tier rep maxTier samples width tier =
     (if sint maxTier < int tier then Inr (printSectionHeader (tier_title tier) (''skipped '' @ em_dash @ '' raise -tier'') width)
      else bindR (mapR (check_row samples) (filter (\<lambda>c. ck_tier c = tier) (hr_results rep))) (\<lambda>rows.
             Inr (printSectionHeader (tier_title tier) '''' width @ concat rows)))"

definition renderReport :: "healthReport \<Rightarrow> goint \<Rightarrow> goint \<Rightarrow> nat \<Rightarrow> string list res" where
  "renderReport rep maxTier samples width =
     bindR (mapR (render_tier rep maxTier samples width) [0, 1]) (\<lambda>ts. Inr (concat ts))"

definition renderRemediation :: "healthReport \<Rightarrow> nat \<Rightarrow> string list" where
  "renderRemediation rep width =
     (if dedupUint64 (hr_repairEpochs rep) = [] \<and> dedupUint64 (hr_backfillEpochs rep) = [] then []
      else printSectionHeader ''Suggested remediation'' '''' width @ remediation rep)"

text \<open>The whole command: what it prints and its exit code.\<close>

definition health_command ::
  "outside \<Rightarrow> Config \<Rightarrow> (nat \<Rightarrow> faults) \<Rightarrow> faults \<Rightarrow> (nat \<Rightarrow> faults) \<Rightarrow> goint \<Rightarrow> goint \<Rightarrow> nat \<Rightarrow> (string list \<times> nat) prog" where
  "health_command env cfg flt0 fltAll flt1 tier samples fed =
     (let maxTier = (if sint tier < 0 then 0 else tier)
      in bindP (open_db env cfg ''health-check: postgres_dsn is required'') (\<lambda>_ w.
           (bindR (cmdHealthCheck (o_lib env) cfg flt0 fltAll flt1 (w_tables w) maxTier samples fed) (\<lambda>(rep, code).
              bindR (renderReport rep maxTier samples sumWidth) (\<lambda>table.
                Inr (printSummaryHeader (cfg_network cfg @ '' health-check'') sumWidth @ table @ renderRemediation rep sumWidth, code))), w)))"

section \<open>The gap figures agree\<close>

lemma lead_pairs_sum:
  "sorted (x # xs) \<Longrightarrow> distinct (x # xs) \<Longrightarrow>
     sum_list (map (\<lambda>(a, b). b - a - 1) (filter (\<lambda>(a, b). b > a + 1) (lead_pairs (x # xs)))) = last (x # xs) - x + 1 - int (length (x # xs))"
proof (induction xs arbitrary: x)
  case (Cons y ys)
  then have "x < y" by (auto simp: less_le)
  with Cons.IH [of y] Cons.prems show ?case by auto
qed simp

lemma sql_max_Max: "xs \<noteq> [] \<Longrightarrow> sql_max xs = Some (Max (set xs))" "xs \<noteq> [] \<Longrightarrow> sql_min xs = Some (Min (set xs))"
proof -
  have "foldr max ys z = Max (insert z (set ys))" "foldr min ys z = Min (insert z (set ys))" for ys and z :: int
    by (induction ys) (auto simp: insert_commute [of z] max.commute min.commute)
  then show "xs \<noteq> [] \<Longrightarrow> sql_max xs = Some (Max (set xs))" "xs \<noteq> [] \<Longrightarrow> sql_min xs = Some (Min (set xs))"
    by (simp_all add: sql_max_def sql_min_def insert_absorb)
qed

lemma gap_rows_sum:
  assumes "distinct eps" and "eps \<noteq> []"
  shows "sum_list (map (\<lambda>(a, b). b - a + 1) (gap_rows eps)) = Max (set eps) - Min (set eps) + 1 - int (length eps)"
proof -
  obtain x xs where s: "sort eps = x # xs" using assms(2) by (metis list.exhaust sort_Nil)
  have srt: "sorted (x # xs)" "distinct (x # xs)" "set (x # xs) = set eps" "length (x # xs) = length eps"
    using assms(1) unfolding s [symmetric] by simp_all
  have "Min (set eps) = x" using srt(1) unfolding srt(3) [symmetric] by (intro Min_eqI) auto
  moreover have "Max (set eps) = last (x # xs)" using srt(1) unfolding srt(3) [symmetric]
    by (intro Max_eqI) (auto dest: sorted_hd_last)
  moreover have "sum_list (map (\<lambda>(a, b). b - a + 1) (gap_rows eps)) = last (x # xs) - x + 1 - int (length (x # xs))"
    unfolding lead_pairs_sum [OF srt(1,2), symmetric] gap_rows_def s map_map
    by (intro arg_cong [where f = sum_list] map_cong) auto
  ultimately show ?thesis using srt(4) by simp
qed

lemma sum_list_pos: "xs \<noteq> [] \<Longrightarrow> (\<And>x. x \<in> set xs \<Longrightarrow> 0 < x) \<Longrightarrow> 0 < (sum_list xs :: int)"
  by (induction xs) (force intro: add_pos_nonneg sum_list_nonneg less_imp_le)+

lemma sint_small: "0 \<le> i \<Longrightarrow> i < 2 ^ 63 \<Longrightarrow> sint (word_of_int i :: uint64) = i"
  by (simp add: sint_sbintrunc' signed_take_bit_int_eq_self)

lemma missing_card:
  assumes "distinct eps" and "eps \<noteq> []"
  shows "int (card ({Min (set eps)..Max (set eps)} - set eps)) = Max (set eps) - Min (set eps) + 1 - int (length eps)"
proof -
  have "set eps \<subseteq> {Min (set eps)..Max (set eps)}" by auto
  then have "card ({Min (set eps)..Max (set eps)} - set eps) = card {Min (set eps)..Max (set eps)} - card (set eps)"
    and "card (set eps) \<le> card {Min (set eps)..Max (set eps)}"
    using card_mono [of "{Min (set eps)..Max (set eps)}" "set eps"] by (simp_all only: card_Diff_subset List.finite_set finite_atLeastAtMost_int)
  moreover have "card (set eps) = length eps" using assms(1) by (rule distinct_card)
  moreover have "Min (set eps) \<le> Max (set eps)" using assms(2) by (simp add: Min_le_iff)
  ultimately show ?thesis by (simp add: of_nat_diff)
qed

text \<open>What the statistics and the gap query say of each other, on the same tables.\<close>

lemma gap_figures:
  assumes "db_wf t" and "GetSummaryStats flt t network = Inr stats" and "network_epochs t network \<noteq> []"
  defines "eps \<equiv> map ew_epoch (network_epochs t network)"
  shows "\<exists>gaps. GetEpochGapRanges noFaults t network = Inr gaps \<and>
     (\<forall>flt' gaps'. GetEpochGapRanges flt' t network = Inr gaps' \<longrightarrow> gaps' = gaps) \<and>
     sum_list (map (\<lambda>g. sint (Gap_Count g)) gaps) = ss_GapCount stats \<and> (gaps \<noteq> [] \<longleftrightarrow> 0 < ss_GapCount stats) \<and>
     ss_GapCount stats = int (card ({Min (set eps)..Max (set eps)} - set eps))"
proof -
  let ?g = "\<lambda>(a, b). \<lparr>gr_Start = word_of_int a, gr_End = word_of_int b\<rparr> :: GapRange"
  have ne: "eps \<noteq> []" using assms(3) by (simp add: eps_def)
  have gap: "ss_GapCount stats = Max (set eps) - Min (set eps) + 1 - int (length eps)" and min: "0 \<le> Min (set eps)"
    using assms(2,3) by (auto simp: eps_def GetSummaryStats_def Let_def bindR_eq_Inr sql_max_Max coalesce_def scan_uint64_def split: if_splits)
  have pos: "\<forall>r \<in> set (network_epochs t network). 0 \<le> ew_epoch r"
    using min unfolding eps_def by (meson Min_le List.finite_set image_eqI order_trans set_map [THEN equalityD2, THEN subsetD])
  note bounds = gap_rows_bounds [OF assms(1) pos, folded eps_def]
  have "mapR (\<lambda>(a, b). wrapR ''db: epoch gap scan''
      (bindR (scan_uint64 a) (\<lambda>s. bindR (scan_uint64 b) (\<lambda>e. Inr \<lparr>gr_Start = s, gr_End = e\<rparr>)))) (gap_rows eps) = Inr (map ?g (gap_rows eps))"
    using bounds by (intro mapR_total) (force simp: scan_uint64_def)
  then have q: "GetEpochGapRanges noFaults t network = Inr (map ?g (gap_rows eps))"
    by (simp add: GetEpochGapRanges_def fault_def eps_def)
  have "sint (word_of_int b - word_of_int a + 1 :: uint64) = b - a + 1" if "(a, b) \<in> set (gap_rows eps)" for a b
    using bounds [OF that] sint_small [of "b - a + 1"] by simp
  then have len: "map (\<lambda>g. sint (Gap_Count g)) (map ?g (gap_rows eps)) = map (\<lambda>(a, b). b - a + 1) (gap_rows eps)"
    by (auto simp: Gap_Count_def)
  have d: "distinct eps" using assms(1) by (simp add: eps_def db_wf_def network_epochs_def distinct_map_filter)
  have sum: "sum_list (map (\<lambda>g. sint (Gap_Count g)) (map ?g (gap_rows eps))) = ss_GapCount stats"
    unfolding len gap by (rule gap_rows_sum [OF d ne])
  have "0 < sum_list (map (\<lambda>(a, b). b - a + 1) (gap_rows eps))" if "gap_rows eps \<noteq> []"
    using bounds that by (intro sum_list_pos) force+
  with sum [unfolded len] have "map ?g (gap_rows eps) \<noteq> [] \<longleftrightarrow> 0 < ss_GapCount stats" by (cases "gap_rows eps = []") auto
  moreover have "\<forall>flt' gaps'. GetEpochGapRanges flt' t network = Inr gaps' \<longrightarrow> gaps' = map ?g (gap_rows eps)"
    using gap_ranges_rows unfolding eps_def by blast
  moreover have "ss_GapCount stats = int (card ({Min (set eps)..Max (set eps)} - set eps))"
    unfolding gap missing_card [OF d ne] ..
  ultimately show ?thesis using q sum by blast
qed

lemma cmdSummary_run:
  assumes "cmdSummary env month cfg checkIPFS showGaps showEmpty topN monthly w = (Inr out, w')"
  shows "\<exists>flt stats. GetSummaryStats flt (w_tables w) (cfg_network cfg) = Inr stats \<and>
     (if ss_EpochCount stats = 0 then out = printSummaryHeader (cfg_network cfg) 72 @ [''  (no epochs indexed yet)'']
      else \<exists>gaps ipfs rest. (if 0 < ss_GapCount stats then \<exists>flt'. GetEpochGapRanges flt' (w_tables w) (cfg_network cfg) = Inr gaps else gaps = []) \<and>
         out = printSummaryHeader (cfg_network cfg) 72 @ default_rows stats gaps @ ipfs @ (if showGaps then gap_section gaps else []) @ rest)"
proof -
  let ?n = "cfg_network cfg"
  from assms obtain u w1 where o: "open_db env cfg ''summary: postgres_dsn is required'' w = (Inr u, w1)"
    and r1: "bindP (wrapP ''summary: query stats'' (db_read env (\<lambda>flt t. GetSummaryStats flt t ?n))) (\<lambda>stats.
       let header = printSummaryHeader ?n sumWidth
       in if ss_EpochCount stats = 0 then returnP (header @ [''  (no epochs indexed yet)''])
          else
            bindP (if 0 < ss_GapCount stats
                   then wrapP ''summary: query gaps'' (db_read env (\<lambda>flt t. GetEpochGapRanges flt t ?n))
                   else returnP []) (\<lambda>gaps.
            bindP (summary_ipfs env cfg checkIPFS) (\<lambda>ipfs.
            bindP (summary_details env month cfg showGaps showEmpty topN monthly gaps) (\<lambda>details.
              returnP (header @ default_rows stats gaps @ ipfs @ details))))) w1 = (Inr out, w')"
    unfolding cmdSummary_def bindP_Inr [of "open_db env cfg ''summary: postgres_dsn is required''"] by blast
  have t1: "w_tables w1 = w_tables w"
    using o by (auto simp: open_db_def connect_db_def bindP_def ask_eq split: if_splits sum.splits)
  from r1 obtain stats flt where st: "GetSummaryStats flt (w_tables w) ?n = Inr stats"
    and r2: "(if ss_EpochCount stats = 0 then returnP (printSummaryHeader ?n sumWidth @ [''  (no epochs indexed yet)''])
          else
            bindP (if 0 < ss_GapCount stats
                   then wrapP ''summary: query gaps'' (db_read env (\<lambda>flt t. GetEpochGapRanges flt t ?n))
                   else returnP []) (\<lambda>gaps.
            bindP (summary_ipfs env cfg checkIPFS) (\<lambda>ipfs.
            bindP (summary_details env month cfg showGaps showEmpty topN monthly gaps) (\<lambda>details.
              returnP (printSummaryHeader ?n sumWidth @ default_rows stats gaps @ ipfs @ details))))) (w1\<lparr>w_tick := Suc (w_tick w1)\<rparr>) = (Inr out, w')"
    using t1 by (auto simp: bindP_Inr [of "wrapP _ _"] db_read_def ask_eq bindP_def [of "ask _"] Let_def)
  show ?thesis
  proof (cases "ss_EpochCount stats = 0")
    case True
    with r2 st show ?thesis by auto
  next
    case False
    with r2 obtain gaps w2 ipfs w3 details where
      g: "(if 0 < ss_GapCount stats then wrapP ''summary: query gaps'' (db_read env (\<lambda>flt t. GetEpochGapRanges flt t ?n))
           else returnP []) (w1\<lparr>w_tick := Suc (w_tick w1)\<rparr>) = (Inr gaps, w2)"
      and d: "\<exists>w4. summary_details env month cfg showGaps showEmpty topN monthly gaps w3 = (Inr details, w4)"
      and out: "out = printSummaryHeader ?n sumWidth @ default_rows stats gaps @ ipfs @ details"
    proof -
      from r2 False obtain gaps w2 ipfs w3 details where
        "(if 0 < ss_GapCount stats then wrapP ''summary: query gaps'' (db_read env (\<lambda>flt t. GetEpochGapRanges flt t ?n))
           else returnP []) (w1\<lparr>w_tick := Suc (w_tick w1)\<rparr>) = (Inr gaps, w2)"
        "summary_details env month cfg showGaps showEmpty topN monthly gaps w3 = (Inr details, w')"
        "out = printSummaryHeader ?n sumWidth @ default_rows stats gaps @ ipfs @ details"
        unfolding if_not_P [OF False] bindP_Inr returnP_eq by auto
      then show thesis by (intro that) blast+
    qed
    from g have "if 0 < ss_GapCount stats then \<exists>flt'. GetEpochGapRanges flt' (w_tables w) ?n = Inr gaps else gaps = []"
      using t1 by (auto simp: db_read_def ask_eq bindP_def split: if_splits)
    moreover from d obtain rest where "details = (if showGaps then gap_section gaps else []) @ rest"
      by (auto simp: summary_details_def bindP_Inr)
    ultimately have "\<exists>gaps ipfs rest. (if 0 < ss_GapCount stats then \<exists>flt'. GetEpochGapRanges flt' (w_tables w) ?n = Inr gaps else gaps = []) \<and>
         out = printSummaryHeader ?n 72 @ default_rows stats gaps @ ipfs @ (if showGaps then gap_section gaps else []) @ rest"
      using out by blast
    with st False show ?thesis by (intro exI [of _ flt] exI [of _ stats]) simp
  qed
qed

text \<open>
  C27. The figures on gaps that the command \<^verbatim>\<open>summary\<close> prints agree with each other and with the tables. For a database that
  satisfies its constraints and an output without error: with no epoch of the network the output says so; otherwise
  it is the header, the default lines, what is printed of the IPFS node, the section of the gaps when asked for, and
  the other sections, where the missing epochs counted on the line of the epochs (\<^verbatim>\<open>GapCount\<close>) are the numbers
  between the first and the last epoch that have no row, the ranges printed are all the ranges of the gap query, also when
  the command has not sent the query (it does not when the count is 0, and then there is no range), and their lengths
  (the total of the \<^verbatim>\<open>-gaps\<close> section) add up to that count.
\<close>

theorem summary_gaps_agree:
  assumes "db_wf (w_tables w)" and "cmdSummary env month cfg checkIPFS showGaps showEmpty topN monthly w = (Inr out, w')"
  shows "let S = ew_epoch ` set (network_epochs (w_tables w) (cfg_network cfg))
    in if S = {} then out = printSummaryHeader (cfg_network cfg) 72 @ [''  (no epochs indexed yet)'']
       else \<exists>flt stats gaps ipfs rest.
         GetSummaryStats flt (w_tables w) (cfg_network cfg) = Inr stats \<and>
         GetEpochGapRanges noFaults (w_tables w) (cfg_network cfg) = Inr gaps \<and>
         ss_GapCount stats = int (card ({Min S..Max S} - S)) \<and>
         sum_list (map (\<lambda>g. sint (Gap_Count g)) gaps) = ss_GapCount stats \<and>
         out = printSummaryHeader (cfg_network cfg) 72 @ default_rows stats gaps @ ipfs @ (if showGaps then gap_section gaps else []) @ rest"
proof -
  let ?t = "w_tables w" and ?n = "cfg_network cfg"
  from cmdSummary_run [OF assms(2)] obtain flt stats where st: "GetSummaryStats flt ?t ?n = Inr stats"
    and out: "if ss_EpochCount stats = 0 then out = printSummaryHeader ?n 72 @ [''  (no epochs indexed yet)'']
      else \<exists>gaps ipfs rest. (if 0 < ss_GapCount stats then \<exists>flt'. GetEpochGapRanges flt' ?t ?n = Inr gaps else gaps = []) \<and>
         out = printSummaryHeader ?n 72 @ default_rows stats gaps @ ipfs @ (if showGaps then gap_section gaps else []) @ rest" by blast
  have c: "ss_EpochCount stats = int (length (network_epochs ?t ?n))"
    using st by (auto simp: GetSummaryStats_def Let_def bindR_eq_Inr)
  show ?thesis
  proof (cases "network_epochs ?t ?n = []")
    case True
    with out c show ?thesis by simp
  next
    case False
    from gap_figures [OF assms(1) st False] obtain gaps where q: "GetEpochGapRanges noFaults ?t ?n = Inr gaps"
      and uniq: "\<forall>flt' gaps'. GetEpochGapRanges flt' ?t ?n = Inr gaps' \<longrightarrow> gaps' = gaps"
      and fig: "sum_list (map (\<lambda>g. sint (Gap_Count g)) gaps) = ss_GapCount stats" "gaps \<noteq> [] \<longleftrightarrow> 0 < ss_GapCount stats"
        "ss_GapCount stats = int (card ({Min (ew_epoch ` set (network_epochs ?t ?n))..Max (ew_epoch ` set (network_epochs ?t ?n))} -
           ew_epoch ` set (network_epochs ?t ?n)))"
      unfolding set_map by blast
    from out c False obtain gaps' ipfs rest where
      g': "if 0 < ss_GapCount stats then \<exists>flt'. GetEpochGapRanges flt' ?t ?n = Inr gaps' else gaps' = []"
      and o': "out = printSummaryHeader ?n 72 @ default_rows stats gaps' @ ipfs @ (if showGaps then gap_section gaps' else []) @ rest"
      by (simp only: if_False of_nat_eq_0_iff length_0_conv) blast
    have "gaps' = gaps" using g' uniq fig(2) by (cases "0 < ss_GapCount stats") auto
    with o' have o: "out = printSummaryHeader ?n 72 @ default_rows stats gaps @ ipfs @ (if showGaps then gap_section gaps else []) @ rest"
      by simp
    have ne: "ew_epoch ` set (network_epochs ?t ?n) \<noteq> {}" using False by simp
    show ?thesis unfolding Let_def if_not_P [OF ne] by (intro exI conjI) (rule st q fig o)+
  qed
qed

definition demo_summary_cfg :: Config where
  "demo_summary_cfg = zeroConfig\<lparr>cf_Network := (cf_Network zeroConfig)\<lparr>nc_Name := ''mainnet''\<rparr>,
     cf_Storage := (cf_Storage zeroConfig)\<lparr>sg_PostgresDSN := ''postgres://db''\<rparr>, cf_IPFS := (cf_IPFS zeroConfig)\<lparr>ic_SkipUpload := True\<rparr>\<rparr>"

theorem summary_gaps_agree_witness:
  "\<exists>out w' stats pre ipfs post.
     cmdSummary demo_outside id demo_summary_cfg False True False 0 False (demo_world\<lparr>w_tables := schema_empty\<lparr>tb_epochs := [demo_row 9, demo_row 5]\<rparr>\<rparr>) = (Inr out, w') \<and>
     ss_GapCount stats = 3 \<and>
     out = pre @ default_rows stats [\<lparr>gr_Start = 6, gr_End = 8\<rparr>] @ ipfs @ gap_section [\<lparr>gr_Start = 6, gr_End = 8\<rparr>] @ post"
proof -
  let ?t = "schema_empty\<lparr>tb_epochs := [demo_row 9, demo_row 5]\<rparr>"
  let ?w = "demo_world\<lparr>w_tables := ?t\<rparr>"
  have wf: "db_wf (w_tables ?w)" by (simp add: db_wf_def schema_empty_def demo_row_def bigint_def)
  have rows: "network_epochs ?t ''mainnet'' = [demo_row 9, demo_row 5]" by (simp add: network_epochs_def demo_row_def)
  have gaps: "GetEpochGapRanges noFaults ?t ''mainnet'' = Inr [\<lparr>gr_Start = 6, gr_End = 8\<rparr>]"
    unfolding GetEpochGapRanges_def rows by (simp add: fault_def gap_rows_def demo_row_def scan_uint64_def)
  have "\<exists>stats. GetSummaryStats noFaults ?t ''mainnet'' = Inr stats"
    unfolding GetSummaryStats_def rows Let_def
    by (simp add: fault_def sql_max_def sql_min_def coalesce_def scan_uint64_def max_blobs_epoch_def cursor_value_def schema_empty_def epoch_times_def
        demo_row_def)
  then obtain st where st: "GetSummaryStats noFaults ?t ''mainnet'' = Inr st" by blast
  have cfg: "cfg_network demo_summary_cfg = ''mainnet''" "sg_PostgresDSN (cf_Storage demo_summary_cfg) \<noteq> ''''"
    "ic_SkipUpload (cf_IPFS demo_summary_cfg)" by (simp_all add: demo_summary_cfg_def)
  have "\<exists>out w'. cmdSummary demo_outside id demo_summary_cfg False True False 0 False ?w = (Inr out, w')"
    using st gaps cfg
    by (simp add: cmdSummary_def open_db_def connect_db_def bindP_def wrapP_def db_read_def ask_eq Let_def summary_ipfs_def
        summary_details_def only_if_def demo_outside_def)
  then obtain out w' where run: "cmdSummary demo_outside id demo_summary_cfg False True False 0 False ?w = (Inr out, w')" by blast
  have S: "ew_epoch ` set (network_epochs (w_tables ?w) (cfg_network demo_summary_cfg)) = {5, 9}"
    by (auto simp: cfg rows) (auto simp: demo_row_def)
  have "{5..9} - {5, 9} = {6, 7, 8 :: int}" by auto
  then have card: "card ({5..9} - {5, 9 :: int}) = 3" by simp
  from summary_gaps_agree [OF wf run, unfolded S Let_def] cfg gaps card obtain stats ipfs rest where
    "ss_GapCount stats = 3"
    "out = printSummaryHeader ''mainnet'' 72 @ default_rows stats [\<lparr>gr_Start = 6, gr_End = 8\<rparr>] @ ipfs @ gap_section [\<lparr>gr_Start = 6, gr_End = 8\<rparr>] @ rest"
    by auto
  with run show ?thesis by blast
qed

text \<open>The lines of the section on empty epochs name exactly these epochs, in ranges that cannot be joined.\<close>

lemma empty_section_exact:
  assumes "db_wf t" and "GetEmptyEpochs flt t network = Inr (e # es)"
  shows "ranges_ok (collapse_loop e e es) \<and> in_ranges (collapse_loop e e es) = set (e # es)"
proof -
  let ?rows = "sort_key ew_epoch (filter (\<lambda>r. ew_blob_count r = 0 \<and> epoch_blobs t network (ew_epoch r) = []) (network_epochs t network))"
  from assms(2) have "list_all2 (\<lambda>r x. 0 \<le> ew_epoch r \<and> x = word_of_int (ew_epoch r)) ?rows (e # es)"
    by (auto simp: GetEmptyEpochs_def bindR_eq_Inr mapR_eq_Inr scan_uint64_def elim!: list_all2_mono split: if_splits)
  then have eq: "e # es = map (word_of_int \<circ> ew_epoch) ?rows" and pos: "\<forall>r \<in> set ?rows. 0 \<le> ew_epoch r"
    by (induction rule: list_all2_induct) auto
  have big: "\<forall>r \<in> set ?rows. ew_epoch r < 2 ^ 64"
    using assms(1) by (auto simp: db_wf_def network_epochs_def bigint_def image_subset_iff)
  have dist: "distinct (map ew_epoch ?rows)" using assms(1) by (simp add: db_wf_def network_epochs_def distinct_map_filter)
  have u: "uint (word_of_int (ew_epoch r) :: uint64) = ew_epoch r" if "r \<in> set ?rows" for r
    using pos big that by (simp add: unsigned_of_int take_bit_eq_mod)
  have ue: "map uint (e # es) = map ew_epoch ?rows" unfolding eq using u by (simp add: comp_def)
  have "sorted (map uint (e # es))" "distinct (map uint (e # es))" unfolding ue using dist by simp_all
  moreover have "(\<le>) = (\<lambda>x y :: uint64. uint x \<le> uint y)" by (simp add: fun_eq_iff word_le_def)
  ultimately have "sorted (e # es)" "distinct (e # es)" by (simp_all only: sorted_wrt_map sorted_map distinct_map)
  with collapse_loop_spec [of e e es] show ?thesis by auto
qed

text \<open>The reports only read: whatever the flags, nothing but the interaction counter changes.\<close>

definition only_reads :: "world \<Rightarrow> world \<Rightarrow> bool" where
  "only_reads w w' \<longleftrightarrow> (\<exists>k. w' = w\<lparr>w_tick := k\<rparr>)"

lemma only_reads_refl: "only_reads w w"
  unfolding only_reads_def by (rule exI [of _ "w_tick w"]) simp

interpretation only_reads: effect_frame only_reads
  by unfold_locales (auto simp: only_reads_refl, auto simp: only_reads_def)

lemma reports_read: "moves only_reads (cmdSummary env month cfg checkIPFS showGaps showEmpty topN monthly)"
    "moves only_reads (health_command env cfg flt0 fltAll flt1 tier samples fed)"
proof -
  have pure: "moves only_reads (\<lambda>w. (f w, w))" for f :: "world \<Rightarrow> 'a res"
    by (simp add: moves_def only_reads_refl)
  have db: "moves only_reads (open_db env cfg s)" for s unfolding open_db_def connect_db_def by (intro moves_intros)
  show "moves only_reads (cmdSummary env month cfg checkIPFS showGaps showEmpty topN monthly)"
    unfolding cmdSummary_def summary_ipfs_def summary_details_def only_if_def Let_def by (intro moves_intros db pure)
  show "moves only_reads (health_command env cfg flt0 fltAll flt1 tier samples fed)"
    unfolding health_command_def Let_def by (intro moves_intros db pure)
qed

end
