(* ===== verification/Run.thy ===== *)
theory Run
  imports Pipeline
begin

text \<open>
  \<^verbatim>\<open>Generator.Run\<close> with its two goroutines: the live loop and the backfill run side by side on one world. A step is a
  step of the backfill pipeline, the end or the restart of one of its attempts, or a step of the live loop between two
  of its calls that change the database. The live loop's steps, run without the backfill in between, are the program
  \<open>processLiveTick\<close> of \<open>Generator\<close>.
\<close>

section \<open>The live loop in steps\<close>

text \<open>
  \<open>LTick\<close>: waiting for the ticker. \<open>LEpoch es\<close>: at the head of the loop, with the epochs \<open>es\<close> to go. \<open>LBuilt be e es\<close>: epoch
  \<open>e\<close> is built. \<open>LSet e es\<close>: it is persisted. \<open>LStop err\<close>: the loop has returned.
\<close>

datatype live_pos = LTick | LEpoch "uint64 list" | LBuilt builtEpoch uint64 "uint64 list" | LSet uint64 "uint64 list" | LStop error

text \<open>A tick that fails is logged, unless the beacon node cannot serve the blobs; a panic ends the process.\<close>

definition live_failed :: "error \<Rightarrow> live_pos" where
  "live_failed e = (if errors_Is e ErrInsufficientCustody \<or> isPanic e then LStop e else LTick)"

definition after_call :: "'a res \<times> world \<Rightarrow> ('a \<Rightarrow> world \<Rightarrow> live_pos \<times> world) \<Rightarrow> live_pos \<times> world" where
  "after_call rw f = (case rw of (Inl e, w) \<Rightarrow> (live_failed e, w) | (Inr a, w) \<Rightarrow> f a w)"

fun live_step :: "outside \<Rightarrow> Generator \<Rightarrow> live_pos \<Rightarrow> world \<Rightarrow> live_pos \<times> world" where
  "live_step env g LTick w =
     after_call (wrapP ''generator: get finality checkpoints'' (call_GetFinalityCheckpoints env) w) (\<lambda>checkpoints w1.
     after_call (wrapP ''generator: get live cursor'' (state_GetLastProcessedEpoch env g) w1) (\<lambda>liveCursor w2.
       let startEpoch = live_start g liveCursor; finalizedEpoch = fc_FinalizedEpoch checkpoints
       in (if finalizedEpoch < startEpoch then LTick else LEpoch (epoch_range startEpoch finalizedEpoch), w2)))"
| "live_step env g (LEpoch []) w = after_call (logP (rebuildNetworkRoot env g) w) (\<lambda>_ w1. (LTick, w1))"
| "live_step env g (LEpoch (e # es)) w =
     after_call (wrapP (''generator: process epoch '' @ FormatUint e) (buildEpoch env g e) w) (\<lambda>be w1. (LBuilt be e es, w1))"
| "live_step env g (LBuilt be e es) w =
     after_call (wrapP (''generator: process epoch '' @ FormatUint e) (persistEpoch env g be) w) (\<lambda>_ w1. (LSet e es, w1))"
| "live_step env g (LSet e es) w =
     after_call (wrapP (''generator: set live cursor '' @ FormatUint e) (state_SetLastProcessedEpoch env g e) w) (\<lambda>_ w1. (LEpoch es, w1))"
| "live_step env g (LStop err) w = (LStop err, w)"

section \<open>Both goroutines\<close>

text \<open>\<open>rn_back\<close>: what \<^verbatim>\<open>runBackfill\<close> has returned, if it has. The world is in the state of the pipeline.\<close>

record run =
  rn_pipe :: pipeline
  rn_back :: "unit res option"
  rn_live :: live_pos

definition with_world :: "world \<Rightarrow> run \<Rightarrow> run" where
  "with_world w s = s\<lparr>rn_pipe := (rn_pipe s)\<lparr>pl_world := w\<rparr>\<rparr>"

abbreviation run_world :: "run \<Rightarrow> world" where
  "run_world s \<equiv> pl_world (rn_pipe s)"

definition run_start :: "Generator \<Rightarrow> uint64 \<Rightarrow> world \<Rightarrow> run" where
  "run_start g start w = \<lparr>rn_pipe = pipeline_start g start w, rn_back = None, rn_live = LTick\<rparr>"

text \<open>
  An attempt that returns an error is followed by the check of the context, a wait that a cancellation ends, and the
  loop's condition and check again; the network root is rebuilt after the loop.
\<close>

inductive rstep :: "outside \<Rightarrow> Generator \<Rightarrow> uint64 \<Rightarrow> run \<Rightarrow> run \<Rightarrow> bool" for env g target where
  back_step:
    "\<lbrakk>rn_back s = None; pstep env g target (rn_pipe s) p\<rbrakk> \<Longrightarrow> rstep env g target s (s\<lparr>rn_pipe := p\<rparr>)"
| back_retry:
    "\<lbrakk>rn_back s = None; pl_cons (rn_pipe s) = KReturn (Some err); ctx_canceled env (run_world s) = (Inr False, w1);
      pl_resume (rn_pipe s) \<le> target; ctx_canceled env w1 = (Inr False, w2)\<rbrakk> \<Longrightarrow>
     rstep env g target s (s\<lparr>rn_pipe := pipeline_start g (pl_resume (rn_pipe s)) w2\<rparr>)"
| back_canceled:
    "\<lbrakk>rn_back s = None; pl_cons (rn_pipe s) = KReturn (Some err); ctx_canceled env (run_world s) = (Inr True, w1)\<rbrakk> \<Longrightarrow>
     rstep env g target s (with_world w1 (s\<lparr>rn_back := Some (Inl ErrCanceled)\<rparr>))"
| back_canceled_waiting:
    "\<lbrakk>rn_back s = None; pl_cons (rn_pipe s) = KReturn (Some err); ctx_canceled env (run_world s) = (Inr False, w1);
      ctx_canceled env w1 = (Inr True, w2)\<rbrakk> \<Longrightarrow>
     rstep env g target s (with_world w2 (s\<lparr>rn_back := Some (Inl ErrCanceled)\<rparr>))"
| back_end:
    "\<lbrakk>rn_back s = None; pl_cons (rn_pipe s) = KReturn None; logP (rebuildNetworkRoot env g) (run_world s) = (r, w1)\<rbrakk> \<Longrightarrow>
     rstep env g target s (with_world w1 (s\<lparr>rn_back := Some r\<rparr>))"
| back_end_beyond:
    "\<lbrakk>rn_back s = None; pl_cons (rn_pipe s) = KReturn (Some err); ctx_canceled env (run_world s) = (Inr False, w1);
      target < pl_resume (rn_pipe s); logP (rebuildNetworkRoot env g) w1 = (r, w2)\<rbrakk> \<Longrightarrow>
     rstep env g target s (with_world w2 (s\<lparr>rn_back := Some r\<rparr>))"
| live:
    "\<lbrakk>live_step env g (rn_live s) (run_world s) = (pos, w1)\<rbrakk> \<Longrightarrow> rstep env g target s (with_world w1 (s\<lparr>rn_live := pos\<rparr>))"
| live_canceled:
    "rn_live s = LTick \<Longrightarrow> rstep env g target s (s\<lparr>rn_live := LStop ErrCanceled\<rparr>)"


section \<open>The steps of a tick are the tick\<close>

definition live_moves :: "outside \<Rightarrow> Generator \<Rightarrow> live_pos \<times> world \<Rightarrow> live_pos \<times> world \<Rightarrow> bool" where
  "live_moves env g x y \<longleftrightarrow> y = live_step env g (fst x) (snd x)"

lemma live_moves_to: "live_step env g p w = x \<Longrightarrow> (live_moves env g)\<^sup>*\<^sup>* x y \<Longrightarrow> (live_moves env g)\<^sup>*\<^sup>* (p, w) y"
  by (rule converse_rtranclp_into_rtranclp [of _ _ x]) (simp_all add: live_moves_def)

lemma live_epochs_steps:
  assumes "gn_db g" and "live_epochs env g es w = (r, w')"
  shows "(live_moves env g)\<^sup>*\<^sup>* (LEpoch es, w) (case r of Inl e \<Rightarrow> live_failed e | Inr _ \<Rightarrow> LEpoch [], w')"
  using assms(2)
proof (induction es arbitrary: w)
  case (Cons e es)
  note wrapP_Inr [simp del]
  let ?s = "''generator: process epoch '' @ FormatUint e" and ?c = "''generator: set live cursor '' @ FormatUint e"
  obtain r1 w1 where b: "wrapP ?s (buildEpoch env g e) w = (r1, w1)" by fastforce
  obtain r2 w2 where p: "wrapP ?s (persistEpoch env g (projr r1)) w1 = (r2, w2)" by fastforce
  obtain r3 w3 where c: "wrapP ?c (state_SetLastProcessedEpoch env g e) w2 = (r3, w3)" by fastforce
  have proc: "wrapP ?s (processEpoch env g e) w = (case r1 of Inl x \<Rightarrow> (Inl x, w1) | Inr be \<Rightarrow> (r2, w2))"
    using b p assms(1) by (auto simp: processEpoch_def wrapP_def bindP_def split: prod.splits sum.splits)
  show ?case
  proof (cases r1)
    case (Inl x)
    then have "(r, w') = (Inl x, w1)" using Cons.prems proc by (simp add: bindP_stop)
    with Inl b show ?thesis by (intro live_moves_to [OF refl]) (simp add: after_call_def)
  next
    case (Inr be)
    have built: "live_step env g (LEpoch (e # es)) w = (LBuilt be e es, w1)" using b Inr by (simp add: after_call_def)
    have "(live_moves env g)\<^sup>*\<^sup>* (LBuilt be e es, w1) (case r of Inl e \<Rightarrow> live_failed e | Inr _ \<Rightarrow> LEpoch [], w')"
    proof (cases r2)
      case (Inl x)
      then have "(r, w') = (Inl x, w2)" using Cons.prems proc \<open>r1 = Inr be\<close> by (simp add: bindP_stop)
      with Inl p \<open>r1 = Inr be\<close> show ?thesis by (intro live_moves_to [OF refl]) (simp add: after_call_def)
    next
      case (Inr u)
      then have rest: "bindP (wrapP ?c (state_SetLastProcessedEpoch env g e)) (\<lambda>_. live_epochs env g es) w2 = (r, w')"
        using Cons.prems proc \<open>r1 = Inr be\<close> by (simp add: bindP_step)
      have persisted: "live_step env g (LBuilt be e es) w1 = (LSet e es, w2)"
        using p Inr \<open>r1 = Inr be\<close> by (simp add: after_call_def)
      have "(live_moves env g)\<^sup>*\<^sup>* (LSet e es, w2) (case r of Inl e \<Rightarrow> live_failed e | Inr _ \<Rightarrow> LEpoch [], w')"
      proof (cases r3)
        case (Inl x)
        with rest c have "(r, w') = (Inl x, w3)" by (simp add: bindP_stop)
        with Inl c show ?thesis by (intro live_moves_to [OF refl]) (simp add: after_call_def)
      next
        case (Inr v)
        with rest c have "live_epochs env g es w3 = (r, w')" by (simp add: bindP_step)
        from Cons.IH [OF this] Inr c show ?thesis by (intro live_moves_to [OF refl]) (simp add: after_call_def)
      qed
      with persisted show ?thesis by (rule live_moves_to)
    qed
    with built show ?thesis by (rule live_moves_to)
  qed
qed auto

text \<open>
  Without the backfill in between, the steps of the live loop from one tick to its end are the program \<open>processLiveTick\<close>:
  they lead to the same world, and back to the ticker or, with the error of the tick, to the end of the loop.
\<close>

lemma live_tick_steps:
  assumes "gn_db g" and "processLiveTick env g w = (r, w')"
  shows "(live_moves env g)\<^sup>*\<^sup>* (LTick, w) (case r of Inl e \<Rightarrow> live_failed e | Inr _ \<Rightarrow> LTick, w')"
proof -
  note wrapP_Inr [simp del]
  obtain r1 w1 where f: "wrapP ''generator: get finality checkpoints'' (call_GetFinalityCheckpoints env) w = (r1, w1)" by fastforce
  obtain r2 w2 where c: "wrapP ''generator: get live cursor'' (state_GetLastProcessedEpoch env g) w1 = (r2, w2)" by fastforce
  show ?thesis
  proof (cases "isOk r1 \<and> isOk r2")
    case False
    then have "live_step env g LTick w = (case r of Inl e \<Rightarrow> live_failed e | Inr _ \<Rightarrow> LTick, w')"
      using assms(2) f c by (cases r1; cases r2) (auto simp: processLiveTick_def bindP_def after_call_def isOk_def)
    then show ?thesis by (rule live_moves_to) simp
  next
    case True
    then obtain cp cur where [simp]: "r1 = Inr cp" "r2 = Inr cur" by (cases r1; cases r2) (auto simp: isOk_def)
    show ?thesis
    proof (cases "fc_FinalizedEpoch cp < live_start g cur")
      case True
      then have "live_step env g LTick w = (case r of Inl e \<Rightarrow> live_failed e | Inr _ \<Rightarrow> LTick, w')"
        using assms(2) f c by (auto simp: processLiveTick_def bindP_def after_call_def)
      then show ?thesis by (rule live_moves_to) simp
    next
      case False
      let ?es = "epoch_range (live_start g cur) (fc_FinalizedEpoch cp)"
      have step: "live_step env g LTick w = (LEpoch ?es, w2)" using f c False by (simp add: after_call_def)
      have run: "bindP (live_epochs env g ?es) (\<lambda>_. logP (rebuildNetworkRoot env g)) w2 = (r, w')"
        using assms(2) f c False by (simp add: processLiveTick_def bindP_def)
      obtain r3 w3 where le: "live_epochs env g ?es w2 = (r3, w3)" by fastforce
      have "(live_moves env g)\<^sup>*\<^sup>* (case r3 of Inl e \<Rightarrow> live_failed e | Inr _ \<Rightarrow> LEpoch [], w3) (case r of Inl e \<Rightarrow> live_failed e | Inr _ \<Rightarrow> LTick, w')"
      proof (cases r3)
        case (Inr u)
        with run le have "logP (rebuildNetworkRoot env g) w3 = (r, w')" by (simp add: bindP_def)
        with Inr show ?thesis by (cases r) (auto intro!: live_moves_to [OF refl] simp: after_call_def)
      qed (use run le in \<open>auto simp: bindP_def\<close>)
      with live_epochs_steps [OF assms(1) le] have "(live_moves env g)\<^sup>*\<^sup>* (LEpoch ?es, w2) (case r of Inl e \<Rightarrow> live_failed e | Inr _ \<Rightarrow> LTick, w')"
        by (rule rtranclp_trans)
      with step show ?thesis by (rule live_moves_to)
    qed
  qed
qed

section \<open>Both cursors are safe\<close>

text \<open>
  \<open>live_inv n c0 t pos\<close>: the live cursor \<open>c\<close> is stored, every epoch after \<open>c0\<close> up to it has its row, and the epochs that the
  loop still has to do follow it.
\<close>

definition follow :: "uint64 \<Rightarrow> uint64 list \<Rightarrow> bool" where
  "follow c es \<longleftrightarrow> (\<forall>i < length es. uint (es ! i) = uint c + 1 + int i)"

fun pos_ok :: "tables \<Rightarrow> uint64 \<Rightarrow> live_pos \<Rightarrow> bool" where
  "pos_ok t c (LEpoch es) \<longleftrightarrow> follow c es"
| "pos_ok t c (LBuilt be e es) \<longleftrightarrow> follow c (e # es) \<and> be_epoch be = e \<and> (be_empty be \<or> er_Epoch (be_epochResult be) = e)"
| "pos_ok t c (LSet e es) \<longleftrightarrow> follow c (e # es) \<and> uint e \<in> has_epochs t"
| "pos_ok t c _ \<longleftrightarrow> True"

definition live_inv :: "string \<Rightarrow> uint64 \<Rightarrow> tables \<Rightarrow> live_pos \<Rightarrow> bool" where
  "live_inv n c0 t pos \<longleftrightarrow>
     (\<exists>c. map_of (tb_state t) (live_key n) = Some (uint c) \<and> c0 \<le> c \<and> uint c < 2 ^ 63 \<and>
          (\<forall>e. c0 < e \<and> e \<le> c \<longrightarrow> uint e \<in> has_epochs t) \<and> pos_ok t c pos)"

lemma follow_Cons: "follow c (e # es) \<longleftrightarrow> uint e = uint c + 1 \<and> follow e es"
  by (auto simp: follow_def All_less_Suc2)

lemma pos_ok_ext: "pos_ok t c pos \<Longrightarrow> has_epochs t \<subseteq> has_epochs t' \<Longrightarrow> pos_ok t' c pos"
  by (cases pos) auto

lemma live_inv_ext:
  assumes "live_inv n c0 t pos" and "has_epochs t \<subseteq> has_epochs t'" and "map_of (tb_state t') (live_key n) = map_of (tb_state t) (live_key n)"
  shows "live_inv n c0 t' pos"
  using assms pos_ok_ext [OF _ assms(2)] unfolding live_inv_def by (metis in_mono)

lemma live_inv_stop: "live_inv n c0 t pos \<Longrightarrow> live_inv n c0 t (live_failed e)" "live_inv n c0 t pos \<Longrightarrow> live_inv n c0 t LTick"
  by (auto simp: live_inv_def live_failed_def)

text \<open>The epochs of a tick follow the cursor.\<close>

lemma follow_range:
  assumes "uint c < 2 ^ 63" and "0 < c" and "live_start g c \<le> hi"
  shows "follow c (epoch_range (live_start g c) hi)"
proof -
  have "uint (c + 1) = uint c + 1" using assms(1) uint_ge_0 [of c] by (simp add: uint_word_ariths(1))
  then have lo: "uint (live_start g c) = uint c + 1" using assms(2) by (simp add: live_start_def)
  show ?thesis unfolding follow_def using epoch_range_nth [OF assms(3)] lo by simp
qed

text \<open>A step of the live loop keeps the rows and the backfill cursor, and its own invariant.\<close>

lemma moves_live: "rows_kept (g_network g) w (snd (live_step env g pos w))"
proof -
  have call: "rows_kept n w (snd (after_call (m w) f))"
    if "moves (rows_kept n) m" and "\<And>a w1. rows_kept n w1 (snd (f a w1))" for n f w and m :: "'a prog"
    using that movesD [OF that(1)] rows_kept.trans by (cases "m w") (fastforce simp: after_call_def split: sum.splits)
  show ?thesis
  proof (induction env g pos w rule: live_step.induct)
    case (1 env g w)
    show ?case
      by (auto intro!: call moves_intros simp: Let_def rows_kept.refl)
  next
    case (4 env g be e es w)
    show ?case by (auto intro!: call moves_intros moves_kept simp: rows_kept.refl)
  next
    case (5 env g e es w)
    show ?case by (auto intro!: call moves_intros moves_cursor_kept simp: rows_kept.refl)
  qed (auto intro!: call moves_intros simp: rows_kept.refl)
qed

lemma after_call_wrap:
  assumes "after_call (wrapP s m w) f = (pos', w')"
  obtains e where "snd (m w) = w'" "pos' = live_failed e" | a w1 where "m w = (Inr a, w1)" "f a w1 = (pos', w')"
  using assms by (cases "m w") (auto simp: after_call_def wrapP_def wrapR_def split: sum.splits)

lemma same_live:
  assumes "w_tables w' = w_tables w" and "rows_ok n (w_tables w)" and "live_inv n c0 (w_tables w) pos'"
  shows "live_inv n c0 (w_tables w') pos'"
  using assms by simp

lemma live_inv_tick:
  assumes "live_step env g LTick w = (pos', w')" and "gn_db g" and "rows_ok (g_network g) (w_tables w)" and "0 < c0"
    and inv: "live_inv (g_network g) c0 (w_tables w) LTick"
  shows "live_inv (g_network g) c0 (w_tables w') pos'"
proof -
  from inv obtain c where c: "map_of (tb_state (w_tables w)) (live_key (g_network g)) = Some (uint c)" "c0 \<le> c" "uint c < 2 ^ 63"
    "\<forall>e. c0 < e \<and> e \<le> c \<longrightarrow> uint e \<in> has_epochs (w_tables w)" by (auto simp: live_inv_def)
  have fin: "w_tables (snd (call_GetFinalityCheckpoints env w)) = w_tables w"
    using same_tables.moves_calls(6) unfolding moves_def by blast
  from assms(1) [unfolded live_step.simps] show ?thesis
  proof (cases rule: after_call_wrap)
    case (1 e)
    with fin inv assms(3) show ?thesis by - (rule same_live, auto intro: live_inv_stop)
  next
    case (2 cp w1)
    then have w1: "w_tables w1 = w_tables w" using fin by simp
    from 2(2) show ?thesis
    proof (cases rule: after_call_wrap)
      case (1 e)
      have "w_tables w' = w_tables w" using 1(1) w1 same_tables.moves_state_reads(1) unfolding moves_def by metis
      with 1 inv assms(3) show ?thesis by - (rule same_live, auto intro: live_inv_stop)
    next
      case cur: (2 cur w2)
      from GetLast_run [OF cur(1) assms(2)] c(1) w1 have "cur = c" and w2: "w_tables w2 = w_tables w" by auto
      with cur(2) have "w' = w2" and "pos' = LTick \<or> live_start g c \<le> fc_FinalizedEpoch cp \<and> pos' = LEpoch (epoch_range (live_start g c) (fc_FinalizedEpoch cp))"
        by (auto simp: Let_def not_less split: if_splits)
      moreover have "0 < c" using c(2) assms(4) by simp
      ultimately have "live_inv (g_network g) c0 (w_tables w) pos'"
        using c follow_range [OF c(3)] by (auto simp: live_inv_def)
      with \<open>w' = w2\<close> w2 assms(3) show ?thesis by - (rule same_live, auto)
    qed
  qed
qed

lemma live_inv_set:
  assumes "live_step env g (LSet e es) w = (pos', w')" and "gn_db g" and "rows_ok (g_network g) (w_tables w)"
    and inv: "live_inv (g_network g) c0 (w_tables w) (LSet e es)"
  shows "live_inv (g_network g) c0 (w_tables w') pos'"
proof -
  let ?n = "g_network g"
  from inv obtain c where c: "map_of (tb_state (w_tables w)) (live_key ?n) = Some (uint c)" "c0 \<le> c" "uint c < 2 ^ 63"
    "\<forall>x. c0 < x \<and> x \<le> c \<longrightarrow> uint x \<in> has_epochs (w_tables w)" "follow c (e # es)" "uint e \<in> has_epochs (w_tables w)"
    by (auto simp: live_inv_def)
  have e: "uint e = uint c + 1" using c(5) by (simp add: follow_Cons)
  obtain r1 w1 where set: "state_SetLastProcessedEpoch env g e w = (r1, w1)" by fastforce
  have "w_tables w1 = w_tables w \<and> \<not> isOk r1 \<or> r1 = Inr () \<and> w_tables w1 = set_cursor (live_key ?n) (uint e) (w_tables w)"
    using SetLast_run [OF set assms(2)] by auto
  then show ?thesis
  proof
    assume "w_tables w1 = w_tables w \<and> \<not> isOk r1"
    with assms(1) set have "w_tables w' = w_tables w" "\<exists>err. pos' = live_failed err"
      by (cases r1; auto simp: after_call_def wrapP_def)+
    with inv assms(3) show ?thesis by - (rule same_live, auto intro: live_inv_stop)
  next
    assume ok: "r1 = Inr () \<and> w_tables w1 = set_cursor (live_key ?n) (uint e) (w_tables w)"
    with assms(1) set have w': "w_tables w' = set_cursor (live_key ?n) (uint e) (w_tables w)" and pos': "pos' = LEpoch es"
      by (auto simp: after_call_def wrapP_def)
    have "uint e < 2 ^ 63" using c(6) assms(3) by (auto simp: rows_ok_def db_wf_def has_epochs_def bigint_def image_subset_iff)
    moreover have "follow e es" using c(5) by (simp add: follow_Cons)
    moreover have "c0 \<le> e" using c(2) e by (simp add: word_le_def)
    moreover have "uint x \<in> has_epochs (w_tables w)" if "c0 < x" "x \<le> e" for x
    proof (cases "x = e")
      case False
      then have "uint x \<noteq> uint e" by (simp add: word_uint_eq_iff)
      with that(2) e have "x \<le> c" by (simp add: word_le_def)
      with that(1) c(4) show ?thesis by blast
    qed (simp add: c(6))
    ultimately show ?thesis unfolding w' pos'
      using assms(3) by (auto simp: live_inv_def rows_ok_def set_cursor_wf has_epochs_def intro!: exI [of _ e])
  qed
qed

lemma ext_live:
  assumes "epoch_ext n w w'" and "rows_ok n (w_tables w)" and "live_inv n c0 (w_tables w) pos'"
  shows "live_inv n c0 (w_tables w') pos'"
  using assms live_inv_ext [OF assms(3), of "w_tables w'"] by (simp add: epoch_ext_def table_ext_def)

lemma live_inv_built:
  assumes "live_step env g (LEpoch (e # es)) w = (pos', w')" and "rows_ok (g_network g) (w_tables w)"
    and inv: "live_inv (g_network g) c0 (w_tables w) (LEpoch (e # es))"
  shows "live_inv (g_network g) c0 (w_tables w') pos'"
proof -
  have same: "w_tables (snd (buildEpoch env g e w)) = w_tables w"
    using same_tables.moves_buildEpoch unfolding moves_def by blast
  from assms(1) [unfolded live_step.simps] show ?thesis
  proof (cases rule: after_call_wrap)
    case (1 err)
    with same inv assms(2) show ?thesis by - (rule same_live, auto intro: live_inv_stop)
  next
    case (2 be w1)
    then have "pos' = LBuilt be e es" and t: "w_tables w' = w_tables w" using same by auto
    moreover from buildEpoch_epoch [OF 2(1)] have "be_epoch be = e \<and> (be_empty be \<or> er_Epoch (be_epochResult be) = e)" by auto
    ultimately have "live_inv (g_network g) c0 (w_tables w) pos'" using inv by (simp add: live_inv_def)
    with t assms(2) show ?thesis by - (rule same_live, auto)
  qed
qed

lemma live_inv_persist:
  assumes "live_step env g (LBuilt be e es) w = (pos', w')" and "gn_db g" and "rows_ok (g_network g) (w_tables w)"
    and inv: "live_inv (g_network g) c0 (w_tables w) (LBuilt be e es)"
  shows "live_inv (g_network g) c0 (w_tables w') pos'"
proof -
  have ext: "epoch_ext (g_network g) w (snd (persistEpoch env g be w))"
    using moves_persistEpoch unfolding moves_def by blast
  from assms(1) [unfolded live_step.simps] show ?thesis
  proof (cases rule: after_call_wrap)
    case (1 err)
    with ext inv assms(3) show ?thesis by - (rule ext_live, auto intro: live_inv_stop)
  next
    case (2 u w1)
    then have pos': "pos' = LSet e es" and ext': "epoch_ext (g_network g) w w'" using ext by auto
    have be: "be_epoch be = e" "be_empty be \<or> er_Epoch (be_epochResult be) = e" using inv by (auto simp: live_inv_def)
    have "uint e \<in> has_epochs (w_tables w')" using persistEpoch_has [OF 2(1) assms(2) _ assms(3)] be 2(2) by auto
    moreover from ext_live [OF ext' assms(3) inv] have "live_inv (g_network g) c0 (w_tables w') (LBuilt be e es)" .
    ultimately show ?thesis unfolding pos' by (auto simp: live_inv_def)
  qed
qed

lemma live_inv_step:
  assumes "live_step env g pos w = (pos', w')" and "gn_db g" and "rows_ok (g_network g) (w_tables w)" and "0 < c0"
    and "live_inv (g_network g) c0 (w_tables w) pos"
  shows "live_inv (g_network g) c0 (w_tables w') pos'"
proof (cases pos)
  case LTick
  with assms show ?thesis using live_inv_tick by blast
next
  case (LEpoch es)
  show ?thesis
  proof (cases es)
    case Nil
    have "moves (epoch_ext (g_network g)) (logP (rebuildNetworkRoot env g))" by (intro moves_intros)
    then have "epoch_ext (g_network g) w (snd (logP (rebuildNetworkRoot env g) w))" unfolding moves_def by blast
    moreover have "snd (logP (rebuildNetworkRoot env g) w) = w'" "pos' = LTick \<or> (\<exists>e. pos' = live_failed e)"
      using assms(1) LEpoch Nil by (cases "logP (rebuildNetworkRoot env g) w", auto simp: after_call_def split: sum.splits)+
    ultimately show ?thesis using assms(3,5) by - (rule ext_live, auto intro: live_inv_stop)
  next
    case (Cons e es')
    with LEpoch assms live_inv_built show ?thesis by blast
  qed
next
  case (LBuilt be e es)
  with assms live_inv_persist show ?thesis by blast
next
  case (LSet e es)
  with assms live_inv_set show ?thesis by blast
next
  case (LStop err)
  with assms show ?thesis by - (rule same_live, auto)
qed

text \<open>The pipeline keeps the live loop's cursor, and its invariant does not mind what the live loop writes.\<close>

lemma consumer_keeps_live:
  assumes "consumer_body env g e be w = (r, w')" and "gn_db g"
  shows "map_of (tb_state (w_tables w')) (live_key (g_network g)) = map_of (tb_state (w_tables w)) (live_key (g_network g))"
proof -
  let ?p = "if be_skip be then returnP () else wrapP (''backfill: persist epoch '' @ FormatUint e) (persistEpoch env g be)"
  obtain r1 w1 where p: "?p w = (r1, w1)" by fastforce
  have "moves (epoch_ext (g_network g)) ?p" by (intro moves_intros)
  from movesD [OF this p] have t: "tb_state (w_tables w1) = tb_state (w_tables w)" by (simp add: epoch_ext_def)
  show ?thesis
  proof (cases r1)
    case (Inl err)
    with p assms(1) have "w' = w1" by (auto simp: consumer_body_def bindP_def)
    with t show ?thesis by simp
  next
    case (Inr u)
    with p assms(1) obtain r2 where "state_SetBackfillCursor env g e w1 = (r2, w')"
      by (auto simp: consumer_body_def bindP_def wrapP_def split: prod.splits)
    from SetBackfill_run [OF this assms(2)] t show ?thesis by auto
  qed
qed

lemma pstep_keeps_live:
  assumes "pstep env g target s s'" and "gn_db g" and "rows_ok (g_network g) (w_tables (pl_world s))"
  shows "map_of (tb_state (w_tables (pl_world s'))) (live_key (g_network g)) =
    map_of (tb_state (w_tables (pl_world s))) (live_key (g_network g))"
  using assms(1)
proof cases
  case (worker_build i e r w')
  with worker_body_good [OF worker_build(4) assms(3)] show ?thesis by simp
qed (use assms(2) in \<open>auto dest: consumer_keeps_live\<close>)

lemma pipe_inv_world:
  assumes "pipe_inv g from target t s" and "rows_kept (g_network g) (pl_world s) w'"
  shows "pipe_inv g from target t (s\<lparr>pl_world := w'\<rparr>)"
proof -
  have kept: "rows_ok (g_network g) (w_tables w')" "has_epochs (w_tables (pl_world s)) \<subseteq> has_epochs (w_tables w')"
    "map_of (tb_state (w_tables w')) (backfill_key (g_network g)) = map_of (tb_state (w_tables (pl_world s))) (backfill_key (g_network g))"
    using assms by (auto simp: pipe_inv_def inv_done_def rows_kept_def table_ext_def)
  have "flight (s\<lparr>pl_world := w'\<rparr>) = flight s" "waiting (s\<lparr>pl_world := w'\<rparr>) = waiting s" by (simp_all add: flight_def waiting_def)
  then have "inv_items target (s\<lparr>pl_world := w'\<rparr>)"
    using assms(1) kept(2) by (auto simp: pipe_inv_def inv_items_def intro: good_result_ext)
  moreover have "inv_order (s\<lparr>pl_world := w'\<rparr>)" using assms(1) by (simp add: pipe_inv_def inv_order_def)
  moreover have "inv_done (g_network g) from t (s\<lparr>pl_world := w'\<rparr>)"
    using assms(1) kept by (auto simp: pipe_inv_def inv_done_def)
  ultimately show ?thesis by (simp add: pipe_inv_def)
qed

text \<open>
  \<open>attempted\<close>: the backfill started with the tables \<open>t0\<close> at the epoch \<open>start\<close> and is at \<open>from\<close> with the tables \<open>t\<close>; every
  attempt of the pipeline begins in such a state.
\<close>

definition attempted :: "string \<Rightarrow> uint64 \<Rightarrow> tables \<Rightarrow> uint64 \<Rightarrow> tables \<Rightarrow> bool" where
  "attempted n start t0 from t \<longleftrightarrow> start \<le> from \<and> rows_ok n t \<and> has_epochs t0 \<subseteq> has_epochs t \<and>
     (\<forall>e. start \<le> e \<and> e < from \<longrightarrow> uint e \<in> has_epochs t) \<and>
     map_of (tb_state t) (backfill_key n) = (if from = start then map_of (tb_state t0) (backfill_key n) else Some (uint from - 1))"

lemma attempted_done:
  assumes "attempted n start t0 from t" and "inv_done n from t s"
  shows "attempted n start t0 (pl_resume s) (w_tables (pl_world s))"
proof -
  have "uint e \<in> has_epochs (w_tables (pl_world s))" if "start \<le> e" "e < pl_resume s" for e
    using that assms by (cases "e < from") (auto simp: inv_done_def attempted_def not_less)
  with assms show ?thesis by (auto simp: inv_done_def attempted_def)
qed

text \<open>The invariant of the backfill: it does not mind what others do to the world, as long as they keep the rows and its cursor.\<close>

definition back_inv :: "Generator \<Rightarrow> uint64 \<Rightarrow> uint64 \<Rightarrow> tables \<Rightarrow> pipeline \<Rightarrow> bool" where
  "back_inv g start target t0 p \<longleftrightarrow> (\<exists>from t. attempted (g_network g) start t0 from t \<and> pipe_inv g from target t p)"

lemma back_inv_now: "back_inv g start target t0 p \<Longrightarrow> attempted (g_network g) start t0 (pl_resume p) (w_tables (pl_world p))"
  by (auto simp: back_inv_def pipe_inv_def intro: attempted_done)

lemma back_inv_rows: "back_inv g start target t0 p \<Longrightarrow> rows_ok (g_network g) (w_tables (pl_world p))"
  using back_inv_now by (auto simp: attempted_def)

lemma back_inv_pstep:
  assumes "back_inv g start target t0 p" and "pstep env g target p p'" and "gn_db g" and "target < maxUint64"
  shows "back_inv g start target t0 p'"
  using assms(1) pipe_inv_run [OF r_into_rtranclp [of "pstep env g target", OF assms(2)] _ assms(3,4)] by (auto simp: back_inv_def)

lemma back_inv_world:
  assumes "back_inv g start target t0 p" and "rows_kept (g_network g) (pl_world p) w'"
  shows "back_inv g start target t0 (p\<lparr>pl_world := w'\<rparr>)"
  using assms(1) pipe_inv_world [OF _ assms(2)] unfolding back_inv_def by blast

lemma back_inv_retry:
  assumes "back_inv g start target t0 p" and "w_tables w = w_tables (pl_world p)"
  shows "back_inv g start target t0 (pipeline_start g (pl_resume p) w)"
proof -
  have a: "attempted (g_network g) start t0 (pl_resume p) (w_tables w)" using back_inv_now [OF assms(1)] assms(2) by simp
  then have "pipe_inv g (pl_resume p) target (w_tables w) (pipeline_start g (pl_resume p) w)"
    by (intro pipe_inv_start) (simp add: attempted_def)
  with a show ?thesis by (auto simp: back_inv_def)
qed

lemma back_inv_start: "rows_ok (g_network g) (w_tables w) \<Longrightarrow> back_inv g start target (w_tables w) (pipeline_start g start w)"
  using pipe_inv_start [of g w start target] by (auto simp: back_inv_def attempted_def intro!: exI [of _ start] exI [of _ "w_tables w"])

lemma rebuild_kept: "moves (rows_kept (g_network g)) (logP (rebuildNetworkRoot env g))"
  by (intro moves_intros)

lemma rebuild_ext: "moves (epoch_ext (g_network g)) (logP (rebuildNetworkRoot env g))"
  by (intro moves_intros)

lemma back_inv_rstep:
  assumes "rstep env g target s s'" and "back_inv g start target t0 (rn_pipe s)" and "gn_db g" and "target < maxUint64"
  shows "back_inv g start target t0 (rn_pipe s')"
  using assms(1)
proof cases
  case (back_step p)
  with assms(2-4) show ?thesis by (auto intro: back_inv_pstep)
next
  case (back_retry err w1 w2)
  have "w_tables w2 = w_tables (run_world s)" using canceled_run [OF back_retry(4)] canceled_run [OF back_retry(6)] by simp
  with back_retry(1) assms(2) show ?thesis by (simp add: back_inv_retry)
next
  case (back_canceled err w1)
  have "rows_kept (g_network g) (run_world s) w1" using canceled_run [OF back_canceled(4)] by (rule rows_kept.side)
  with back_canceled(1) assms(2) show ?thesis by (simp add: with_world_def back_inv_world)
next
  case (back_canceled_waiting err w1 w2)
  have "rows_kept (g_network g) (run_world s) w2"
    using canceled_run [OF back_canceled_waiting(4)] canceled_run [OF back_canceled_waiting(5)] by (intro rows_kept.side) simp
  with back_canceled_waiting(1) assms(2) show ?thesis by (simp add: with_world_def back_inv_world)
next
  case (back_end r w1)
  from movesD [OF rebuild_kept back_end(4)] back_end(1) assms(2) show ?thesis by (simp add: with_world_def back_inv_world)
next
  case (back_end_beyond err w1 r w2)
  have "rows_kept (g_network g) (run_world s) w1" using canceled_run [OF back_end_beyond(4)] by (rule rows_kept.side)
  with movesD [OF rebuild_kept back_end_beyond(6)] have "rows_kept (g_network g) (run_world s) w2" by (blast intro: rows_kept.trans)
  with back_end_beyond(1) assms(2) show ?thesis by (simp add: with_world_def back_inv_world)
next
  case (live pos w1)
  have "rows_kept (g_network g) (run_world s) w1" using moves_live [of g "run_world s" env "rn_live s"] live(2) by simp
  with live(1) assms(2) show ?thesis by (simp add: with_world_def back_inv_world)
next
  case live_canceled
  with assms(2) show ?thesis by simp
qed

text \<open>The two together.\<close>

definition run_inv :: "Generator \<Rightarrow> uint64 \<Rightarrow> uint64 \<Rightarrow> tables \<Rightarrow> uint64 \<Rightarrow> run \<Rightarrow> bool" where
  "run_inv g start target t0 c0 s \<longleftrightarrow>
     back_inv g start target t0 (rn_pipe s) \<and> live_inv (g_network g) c0 (w_tables (run_world s)) (rn_live s)"

lemma live_inv_rstep:
  assumes "rstep env g target s s'" and "run_inv g start target t0 c0 s" and "gn_db g" and "0 < c0"
  shows "live_inv (g_network g) c0 (w_tables (run_world s')) (rn_live s')"
proof -
  have l: "live_inv (g_network g) c0 (w_tables (run_world s)) (rn_live s)" using assms(2) by (simp add: run_inv_def)
  have ok: "rows_ok (g_network g) (w_tables (run_world s))" using assms(2) unfolding run_inv_def by (blast intro: back_inv_rows)
  from assms(1) show ?thesis
  proof cases
    case (back_step p)
    have "inv_items target (rn_pipe s)" using assms(2) by (auto simp: run_inv_def back_inv_def pipe_inv_def)
    from tables_step [OF back_step(3) assms(3) ok this] pstep_keeps_live [OF back_step(3) assms(3) ok] live_inv_ext [OF l] back_step(1)
    show ?thesis by simp
  next
    case (back_retry err w1 w2)
    with l canceled_run [OF back_retry(4)] canceled_run [OF back_retry(6)] show ?thesis by (simp add: pipeline_start_def)
  next
    case (back_canceled err w1)
    with l canceled_run [OF back_canceled(4)] show ?thesis by (simp add: with_world_def)
  next
    case (back_canceled_waiting err w1 w2)
    with l canceled_run [OF back_canceled_waiting(4)] canceled_run [OF back_canceled_waiting(5)] show ?thesis by (simp add: with_world_def)
  next
    case (back_end r w1)
    from ext_live [OF movesD [OF rebuild_ext back_end(4)] ok l] back_end(1) show ?thesis by (simp add: with_world_def)
  next
    case (back_end_beyond err w1 r w2)
    have "w_tables w1 = w_tables (run_world s)" using back_end_beyond(4) by (rule canceled_run)
    with ext_live [OF movesD [OF rebuild_ext back_end_beyond(6)]] ok l back_end_beyond(1) show ?thesis by (simp add: with_world_def)
  next
    case (live pos w1)
    from live_inv_step [OF live(2) assms(3) ok assms(4) l] live(1) show ?thesis by (simp add: with_world_def)
  next
    case live_canceled
    with l show ?thesis by (simp add: live_inv_def)
  qed
qed

lemma run_inv_step:
  assumes "rstep env g target s s'" and "run_inv g start target t0 c0 s" and "gn_db g" and "target < maxUint64" and "0 < c0"
  shows "run_inv g start target t0 c0 s'"
  using live_inv_rstep [OF assms(1,2,3,5)] back_inv_rstep [OF assms(1) _ assms(3,4)] assms(2) by (simp add: run_inv_def)

lemma GetLast_stored:
  assumes "state_GetLastProcessedEpoch env g w = (Inr l, w')" "gn_db g"
    and "map_of (tb_state (w_tables w)) (live_key (g_network g)) = Some v" and "v \<in> bigint"
  shows "v = uint l"
  using assms
  by (auto simp: state_GetLastProcessedEpoch_def db_read_def bindP_def ask_eq DB_GetLastProcessedEpoch_def fault_def
      coalesce_def scan_uint64_def bigint_def uint_word_of_int split: option.splits if_splits)

text \<open>The range that \<open>Run_plan\<close> gives to the backfill ends before the live cursor, which it may have moved.\<close>

lemma Run_plan_range:
  assumes "Run_plan env g w0 = (Inr (Parallel (Some (start, target))), w)" and "gn_db g"
    and "map_of (tb_state (w_tables w)) (live_key (g_network g)) = Some v" and "v \<in> bigint"
  shows "v = uint (target + 1) \<and> start < target + 1 \<and> tb_epochs (w_tables w) = tb_epochs (w_tables w0) \<and>
    (rows_ok (g_network g) (w_tables w0) \<longrightarrow> rows_ok (g_network g) (w_tables w)) \<and>
    map_of (tb_state (w_tables w)) (backfill_key (g_network g)) = map_of (tb_state (w_tables w0)) (backfill_key (g_network g))"
proof -
  have "gn_beacon g" using assms(1) by (auto simp: Run_plan_def split: if_splits)
  with assms(1,2) obtain cp w1 l w2 bc w3 where f: "call_GetFinalityCheckpoints env w0 = (Inr cp, w1)"
    and l: "state_GetLastProcessedEpoch env g w1 = (Inr l, w2)" and b: "state_GetBackfillCursor env g w2 = (Inr bc, w3)"
    and rest: "bindP (if backfill_start g bc < fc_FinalizedEpoch cp
         then bindP (wrapP ''generator: set live cursor'' (state_SetLastProcessedEpoch env g (fc_FinalizedEpoch cp - 1)))
                (\<lambda>_. returnP (fc_FinalizedEpoch cp - 1))
         else returnP l) (\<lambda>liveCursor.
           returnP (Parallel (if backfill_start g bc < liveCursor then Some (backfill_start g bc, liveCursor - 1) else None))) w3 =
         (Inr (Parallel (Some (start, target))), w)"
    unfolding Run_plan_def Let_def by (simp only: if_False if_True not_True_eq_False bindP_Inr wrapP_Inr) blast
  have t: "w_tables w1 = w_tables w0" "w_tables w2 = w_tables w1" "w_tables w3 = w_tables w2"
    using movesD [OF same_tables.moves_calls(6) f] movesD [OF same_tables.moves_state_reads(1) l] movesD [OF same_tables.moves_state_reads(2) b]
    by simp_all
  show ?thesis
  proof (cases "backfill_start g bc < fc_FinalizedEpoch cp")
    case True
    with rest obtain u where s: "state_SetLastProcessedEpoch env g (fc_FinalizedEpoch cp - 1) w3 = (Inr u, w)"
      and "start < fc_FinalizedEpoch cp - 1" "target = fc_FinalizedEpoch cp - 1 - 1"
      by (auto simp: bindP_Inr split: if_splits)
    with SetLast_run [OF s assms(2)] assms(3) t show ?thesis by (auto simp: rows_ok_def set_cursor_wf)
  next
    case False
    with rest have w: "w = w3" "start < l" "target = l - 1" by (auto simp: bindP_Inr split: if_splits)
    with GetLast_stored [OF l assms(2) _ assms(4)] assms(3) t show ?thesis by auto
  qed
qed

lemma run_inv_start:
  assumes "rows_ok (g_network g) (w_tables w)" and "map_of (tb_state (w_tables w)) (live_key (g_network g)) = Some (uint c)"
    and "uint c < 2 ^ 63"
  shows "run_inv g start target (w_tables w) c (run_start g start w)"
  using back_inv_start [OF assms(1), of start target] assms
  by (auto simp: run_inv_def live_inv_def run_start_def pipeline_start_def)

lemma run_inv_reachable:
  assumes "(rstep env g target)\<^sup>*\<^sup>* s s'" and "run_inv g start target t0 c0 s" and "gn_db g" and "target < maxUint64" and "0 < c0"
  shows "run_inv g start target t0 c0 s'"
  using assms(1,2) by (induction) (auto intro: run_inv_step [OF _ _ assms(3-5)])

text \<open>A plan of the demonstration: the backfill from 0 to 3, the live cursor at 4.\<close>

lemma demo_finality_any:
  "\<exists>c'. GetFinalityCheckpoints c (o_get demo_outside k) ''head'' = (Inr \<lparr>fc_FinalizedEpoch = 5, fc_JustifiedEpoch = 6\<rparr>, c') \<and>
     cl_slotsPerEpoch c' = cl_slotsPerEpoch c"
  by (simp add: GetFinalityCheckpoints_def client_get_def handle_response_def Let_def
      demo_outside_def dec_finality_def demo_finality_def ParseUint_def parse_nat_def char_digit_def)

lemma demo_plan:
  "\<exists>w. Run_plan demo_outside demo_gen demo_world = (Inr (Parallel (Some (0, 3))), w) \<and>
     map_of (tb_state (w_tables w)) (live_key ''mainnet'') = Some 4 \<and> tb_blobs (w_tables w) = [] \<and> cl_slotsPerEpoch (w_beacon w) = 2"
proof -
  obtain b where b: "GetFinalityCheckpoints demo_client (o_get demo_outside 0) ''head'' = (Inr \<lparr>fc_FinalizedEpoch = 5, fc_JustifiedEpoch = 6\<rparr>, b)"
    and b2: "cl_slotsPerEpoch b = 2"
    using demo_finality_answer by blast
  have bf: "DB_GetBackfillCursor noFaults ''mainnet'' (w_tables demo_world) = Inr 0"
    by (simp add: DB_GetBackfillCursor_def fault_def coalesce_def scan_uint64_def demo_world_def) (simp add: schema_empty_def)
  have start: "backfill_start demo_gen 0 = 0" "gn_beacon demo_gen" by (simp_all add: backfill_start_def demo_gen_def zeroConfig_def)
  have "tb_blobs (set_cursor k v (set_cursor k' v' schema_empty)) = []" for k v k' v' by (simp add: set_cursor_def schema_empty_def)
  then show ?thesis
    using b b2 bf start
      by (simp add: Run_plan_def Let_def bindP_def wrapP_def call_GetFinalityCheckpoints_def state_GetLastProcessedEpoch_def
          state_GetBackfillCursor_def state_SetLastProcessedEpoch_def db_read_def db_write_def ask_eq demo_network
          DB_GetLastProcessedEpoch_def DB_SetLastProcessedEpoch_def fault_def coalesce_def scan_uint64_def enc_int8_def
          demo_world_def)
qed

text \<open>The live loop of the demonstration stores epoch 5 and moves its cursor there.\<close>

lemma demo_live:
  assumes "map_of (tb_state (w_tables w)) (live_key ''mainnet'') = Some 4" "tb_blobs (w_tables w) = []" "cl_slotsPerEpoch (w_beacon w) = 2"
  shows "\<exists>w'. (live_moves demo_outside demo_gen)\<^sup>*\<^sup>* (LTick, w) (LEpoch [], w') \<and>
     map_of (tb_state (w_tables w')) (live_key ''mainnet'') = Some 5"
proof -
  obtain b where b: "GetFinalityCheckpoints (w_beacon w) (o_get demo_outside (w_tick w)) ''head'' = (Inr \<lparr>fc_FinalizedEpoch = 5, fc_JustifiedEpoch = 6\<rparr>, b)"
    "cl_slotsPerEpoch b = 2"
    using demo_finality_any [of "w_beacon w" "w_tick w"] assms(3) by auto
  let ?w2 = "w\<lparr>w_tick := Suc (Suc (w_tick w)), w_beacon := b\<rparr>"
  have "epoch_range (live_start demo_gen 4) 5 = [5]" "\<not> 5 < live_start demo_gen 4" by (simp_all add: live_start_def epoch_range_def)
  then have tick: "live_step demo_outside demo_gen LTick w = (LEpoch [5], ?w2)"
    using b assms(1)
    by (simp add: after_call_def wrapP_def call_GetFinalityCheckpoints_def bindP_def ask_eq state_GetLastProcessedEpoch_def
        db_read_def DB_GetLastProcessedEpoch_def fault_def coalesce_def scan_uint64_def demo_network Let_def)
  have "cl_slotsPerEpoch (w_beacon ?w2) = 2" "tb_blobs (w_tables ?w2) = []" using b assms(2) by simp_all
  from demo_build [OF this] obtain w3 where
    w3: "buildEpoch demo_outside demo_gen 5 ?w2 = (Inr (newBuiltEpoch 5\<lparr>be_empty := True\<rparr>), w3)" by blast
  obtain w4 where w4: "persistEpoch demo_outside demo_gen (newBuiltEpoch 5\<lparr>be_empty := True\<rparr>) w3 = (Inr (), w4)"
    using demo_persist by blast
  have "\<exists>w5. state_SetLastProcessedEpoch demo_outside demo_gen 5 w4 = (Inr (), w5)"
    by (simp add: state_SetLastProcessedEpoch_def db_write_def bindP_def ask_eq DB_SetLastProcessedEpoch_def enc_int8_def fault_def)
  then obtain w5 where w5: "state_SetLastProcessedEpoch demo_outside demo_gen 5 w4 = (Inr (), w5)" by blast
  have steps: "live_step demo_outside demo_gen (LEpoch [5]) ?w2 = (LBuilt (newBuiltEpoch 5\<lparr>be_empty := True\<rparr>) 5 [], w3)"
    "live_step demo_outside demo_gen (LBuilt (newBuiltEpoch 5\<lparr>be_empty := True\<rparr>) 5 []) w3 = (LSet 5 [], w4)"
    "live_step demo_outside demo_gen (LSet 5 []) w4 = (LEpoch [], w5)"
    using w3 w4 w5 by (simp_all add: after_call_def wrapP_def)
  have "(live_moves demo_outside demo_gen)\<^sup>*\<^sup>* (LTick, w) (LEpoch [], w5)"
    by (rule live_moves_to [OF tick], rule live_moves_to [OF steps(1)], rule live_moves_to [OF steps(2)],
        rule live_moves_to [OF steps(3)], rule rtranclp.rtrancl_refl)
  moreover have "map_of (tb_state (w_tables w5)) (live_key ''mainnet'') = Some 5"
    using SetLast_run [OF w5 demo_fields(3)] by (simp add: demo_network)
  ultimately show ?thesis by blast
qed

lemma live_rsteps:
  "(live_moves env g)\<^sup>*\<^sup>* (rn_live s, run_world s) (pos, w') \<Longrightarrow>
     \<exists>s'. (rstep env g target)\<^sup>*\<^sup>* s s' \<and> rn_live s' = pos \<and> run_world s' = w'"
proof (induction "(pos, w')" arbitrary: pos w' rule: rtranclp_induct)
  case base
  then show ?case by blast
next
  case (step y)
  obtain p1 w1 where y: "y = (p1, w1)" by (cases y)
  from step(3) [OF y] obtain s1 where s1: "(rstep env g target)\<^sup>*\<^sup>* s s1" "rn_live s1 = p1" "run_world s1 = w1" by blast
  have "live_step env g (rn_live s1) (run_world s1) = (pos, w')" using step(2) s1 y by (simp add: live_moves_def)
  from rstep.live [OF this] have "rstep env g target s1 (with_world w' (s1\<lparr>rn_live := pos\<rparr>))" .
  with s1(1) show ?case by (intro exI [of _ "with_world w' (s1\<lparr>rn_live := pos\<rparr>)"]) (auto simp: with_world_def)
qed

lemma plan_below:
  fixes start target :: uint64
  assumes "start < target + 1"
  shows "0 < target + 1" and "target < maxUint64"
proof -
  show pos: "0 < target + 1" using assms by (rule le_less_trans [OF word_zero_le])
  then show "target < maxUint64" by (cases "target = maxUint64") (simp_all add: order_less_le)
qed

text \<open>
  C2. The whole service, from its start: \<^verbatim>\<open>Run\<close> plans the range of the backfill and the live cursor, and then the two
  goroutines interleave in any way, with retries of the backfill, failing ticks and a cancellation at any moment. In
  every state they reach the tables are consistent, no row of an epoch is lost, and the backfill cursor marks the end
  of a gap-free range of stored epochs from the start of the backfill (or is as it was). The live cursor is at or
  after the epoch \<open>target + 1\<close> that \<^verbatim>\<open>Run\<close> anchored it at, and every epoch strictly after that anchor up to the live
  cursor is stored. Nothing is claimed of the anchor itself: \<^verbatim>\<open>Run\<close> writes it as the live cursor without storing it, the
  backfill ends before it and the live loop starts after it, so that neither gives it a row (C21).
\<close>

theorem run_safe:
  assumes "Run_plan env g w0 = (Inr (Parallel (Some (start, target))), w)" and "gn_db g" and "rows_ok (g_network g) (w_tables w0)"
    and "map_of (tb_state (w_tables w)) (live_key (g_network g)) = Some v" and "v \<in> bigint"
    and "(rstep env g target)\<^sup>*\<^sup>* (run_start g start w) s"
  shows "rows_ok (g_network g) (w_tables (run_world s)) \<and> has_epochs (w_tables w0) \<subseteq> has_epochs (w_tables (run_world s)) \<and>
    (\<exists>m. start \<le> m \<and> (\<forall>e. start \<le> e \<and> e < m \<longrightarrow> uint e \<in> has_epochs (w_tables (run_world s))) \<and>
         map_of (tb_state (w_tables (run_world s))) (backfill_key (g_network g)) =
           (if m = start then map_of (tb_state (w_tables w0)) (backfill_key (g_network g)) else Some (uint m - 1))) \<and>
    (\<exists>c. target + 1 \<le> c \<and> map_of (tb_state (w_tables (run_world s))) (live_key (g_network g)) = Some (uint c) \<and>
         (\<forall>e. target + 1 < e \<and> e \<le> c \<longrightarrow> uint e \<in> has_epochs (w_tables (run_world s))))"
proof -
  have plan: "v = uint (target + 1)" "start < target + 1" "has_epochs (w_tables w) = has_epochs (w_tables w0)"
    "rows_ok (g_network g) (w_tables w)"
    "map_of (tb_state (w_tables w)) (backfill_key (g_network g)) = map_of (tb_state (w_tables w0)) (backfill_key (g_network g))"
    using Run_plan_range [OF assms(1,2,4,5)] assms(3) by (simp_all add: has_epochs_def)
  have "uint (target + 1) < 2 ^ 63" using assms(5) plan(1) by (simp add: bigint_def)
  from run_inv_start [OF plan(4) assms(4) [unfolded plan(1)] this]
  have "run_inv g start target (w_tables w) (target + 1) (run_start g start w)" .
  from run_inv_reachable [OF assms(6) this assms(2) plan_below(2,1) [OF plan(2)]]
  have a: "attempted (g_network g) start (w_tables w) (pl_resume (rn_pipe s)) (w_tables (run_world s))"
    and l: "live_inv (g_network g) (target + 1) (w_tables (run_world s)) (rn_live s)" by (auto simp: run_inv_def intro: back_inv_now)
  note a
  moreover from l obtain c where "target + 1 \<le> c" "map_of (tb_state (w_tables (run_world s))) (live_key (g_network g)) = Some (uint c)"
    "\<forall>e. target + 1 < e \<and> e \<le> c \<longrightarrow> uint e \<in> has_epochs (w_tables (run_world s))" by (auto simp: live_inv_def)
  ultimately show ?thesis using plan(3,5) by (auto simp: attempted_def)
qed

theorem run_safe_witness:
  "\<exists>w s. Run_plan demo_outside demo_gen demo_world = (Inr (Parallel (Some (0, 3))), w) \<and>
     (rstep demo_outside demo_gen 3)\<^sup>*\<^sup>* (run_start demo_gen 0 w) s \<and> rows_ok ''mainnet'' (w_tables (run_world s)) \<and>
     map_of (tb_state (w_tables (run_world s))) (live_key ''mainnet'') = Some 5 \<and> 5 \<in> has_epochs (w_tables (run_world s))"
proof -
  obtain w where w: "Run_plan demo_outside demo_gen demo_world = (Inr (Parallel (Some (0, 3))), w)"
    "map_of (tb_state (w_tables w)) (live_key ''mainnet'') = Some 4" "tb_blobs (w_tables w) = []" "cl_slotsPerEpoch (w_beacon w) = 2"
    using demo_plan by blast
  from demo_live [OF w(2-4)] obtain w' where live: "(live_moves demo_outside demo_gen)\<^sup>*\<^sup>* (LTick, w) (LEpoch [], w')"
    and c5: "map_of (tb_state (w_tables w')) (live_key ''mainnet'') = Some 5" by blast
  have "(live_moves demo_outside demo_gen)\<^sup>*\<^sup>* (rn_live (run_start demo_gen 0 w), run_world (run_start demo_gen 0 w)) (LEpoch [], w')"
    using live by (simp add: run_start_def pipeline_start_def)
  from live_rsteps [OF this, of 3] obtain s where
    run: "(rstep demo_outside demo_gen 3)\<^sup>*\<^sup>* (run_start demo_gen 0 w) s" and w': "run_world s = w'" by blast
  have safe: "rows_ok ''mainnet'' (w_tables w')"
    "\<exists>c. map_of (tb_state (w_tables w')) (live_key ''mainnet'') = Some (uint (c :: uint64)) \<and>
       (\<forall>e. 4 < e \<and> e \<le> c \<longrightarrow> uint e \<in> has_epochs (w_tables w'))"
    using run_safe [OF w(1) _ _ _ _ run, of 4] w(2) w' demo_rows_ok by (auto simp: demo_network bigint_def)
  from safe(2) obtain c :: uint64 where c: "map_of (tb_state (w_tables w')) (live_key ''mainnet'') = Some (uint c)"
    "\<forall>e. 4 < e \<and> e \<le> c \<longrightarrow> uint e \<in> has_epochs (w_tables w')" by blast
  from c(1) c5 have "c = 5" by (simp add: word_uint_eq_iff)
  with c(2) [rule_format, of 5] have "5 \<in> has_epochs (w_tables w')" by simp
  with w(1) run w' c5 safe(1) show ?thesis by blast
qed

end
