(* ===== verification/Metrics.thy ===== *)
theory Metrics
  imports Frames
begin

text \<open>
  \<^verbatim>\<open>metrics/metrics.go\<close>: the live instruments as an explicit state (a counter per label set, the observations of a
  histogram in order), their record helpers with the nil receiver as \<^term>\<open>None\<close>, and the scrape-time collector; and
  \<^verbatim>\<open>Generator.MetricsSnapshot\<close>, which the collector calls. Values that the code converts to \<^verbatim>\<open>float64\<close> are kept as the
  integers they come from, durations as nanoseconds. The registry and the text format belong to the Prometheus client
  library. The generator's programs do not carry the instruments, which nothing reads back.
\<close>

section \<open>Live instruments\<close>

text \<open>The description of an instrument: its full name and the names of its labels.\<close>

record Desc =
  ds_fqName :: string
  ds_labels :: "string list"

definition fqName :: "string \<Rightarrow> string" where
  "fqName name = ''blobscanipld_'' @ name"

definition NewDesc :: "string \<Rightarrow> string list \<Rightarrow> Desc" where
  "NewDesc name labels = \<lparr>ds_fqName = fqName name, ds_labels = labels\<rparr>"

definition blobsProcessed :: Desc where
  "blobsProcessed = NewDesc ''blobs_processed_total'' [''network'', ''source'']"

definition epochsProcessed :: Desc where
  "epochsProcessed = NewDesc ''epochs_processed_total'' [''network'', ''source'', ''result'']"

definition epochBuild :: Desc where
  "epochBuild = NewDesc ''epoch_build_duration_seconds'' [''network'']"

definition ipfsUpload :: Desc where
  "ipfsUpload = NewDesc ''ipfs_upload_duration_seconds'' []"

definition blocksUploaded :: Desc where
  "blocksUploaded = NewDesc ''ipfs_blocks_uploaded_total'' []"

definition ipfsPins :: Desc where
  "ipfsPins = NewDesc ''ipfs_pin_total'' [''result'']"

definition networkRoot :: Desc where
  "networkRoot = NewDesc ''network_root_rebuild_duration_seconds'' []"

definition httpDuration :: Desc where
  "httpDuration = NewDesc ''http_request_duration_seconds'' [''method'', ''path'', ''status'']"

lemmas instrument_defs = blobsProcessed_def epochsProcessed_def epochBuild_def ipfsUpload_def blocksUploaded_def ipfsPins_def
  networkRoot_def httpDuration_def NewDesc_def

text \<open>A series is an instrument with the values of its labels; \<open>mt_reg\<close> lists the registered instruments.\<close>

type_synonym series = "Desc \<times> string list"

record Metrics =
  mt_reg :: "Desc list"
  mt_counters :: "series \<Rightarrow> int"
  mt_observed :: "series \<Rightarrow> duration list"

text \<open>
  \<^verbatim>\<open>New\<close> also registers the client library's own collectors of the Go run-time and of the process; their series, whose
  documented names begin with \<^verbatim>\<open>go_\<close> and \<^verbatim>\<open>process_\<close>, are not touched by the program and not listed here. The names of the
  program's instruments all begin with \<^verbatim>\<open>blobscanipld_\<close> (part of the property below), so they are different.
\<close>

definition New_Metrics :: "Metrics option" where
  "New_Metrics =
     Some \<lparr>mt_reg = [blobsProcessed, epochsProcessed, epochBuild, ipfsUpload, blocksUploaded, ipfsPins, networkRoot, httpDuration],
           mt_counters = (\<lambda>_. 0), mt_observed = (\<lambda>_. [])\<rparr>"

definition counter_add :: "series \<Rightarrow> int \<Rightarrow> Metrics \<Rightarrow> Metrics" where
  "counter_add k n m = m\<lparr>mt_counters := (mt_counters m)(k := mt_counters m k + n)\<rparr>"

definition observe_series :: "series \<Rightarrow> duration \<Rightarrow> Metrics \<Rightarrow> Metrics" where
  "observe_series k d m = m\<lparr>mt_observed := (mt_observed m)(k := mt_observed m k @ [d])\<rparr>"

definition RecordBlob :: "string \<Rightarrow> string \<Rightarrow> Metrics option \<Rightarrow> Metrics option" where
  "RecordBlob network source = map_option (counter_add (blobsProcessed, [network, source]) 1)"

definition RecordBlobs :: "string \<Rightarrow> string \<Rightarrow> goint \<Rightarrow> Metrics option \<Rightarrow> Metrics option" where
  "RecordBlobs network source n m =
     (if sint n \<le> 0 then m else map_option (counter_add (blobsProcessed, [network, source]) (sint n)) m)"

definition RecordEpoch :: "string \<Rightarrow> string \<Rightarrow> string \<Rightarrow> Metrics option \<Rightarrow> Metrics option" where
  "RecordEpoch network source result = map_option (counter_add (epochsProcessed, [network, source, result]) 1)"

definition ObserveEpochBuild :: "string \<Rightarrow> duration \<Rightarrow> Metrics option \<Rightarrow> Metrics option" where
  "ObserveEpochBuild network d = map_option (observe_series (epochBuild, [network]) d)"

definition ObserveIPFSUpload :: "duration \<Rightarrow> goint \<Rightarrow> Metrics option \<Rightarrow> Metrics option" where
  "ObserveIPFSUpload d blocks =
     map_option (\<lambda>m. (if 0 < sint blocks then counter_add (blocksUploaded, []) (sint blocks) else id)
                        (observe_series (ipfsUpload, []) d m))"

definition RecordPin :: "string \<Rightarrow> Metrics option \<Rightarrow> Metrics option" where
  "RecordPin result = map_option (counter_add (ipfsPins, [result]) 1)"

definition ObserveNetworkRootRebuild :: "duration \<Rightarrow> Metrics option \<Rightarrow> Metrics option" where
  "ObserveNetworkRootRebuild d = map_option (observe_series (networkRoot, []) d)"

definition ObserveHTTPRequest :: "string \<Rightarrow> string \<Rightarrow> string \<Rightarrow> duration \<Rightarrow> Metrics option \<Rightarrow> Metrics option" where
  "ObserveHTTPRequest method path status d = map_option (observe_series (httpDuration, [method, path, status]) d)"

section \<open>The scrape-time collector\<close>

record DBSnapshot =
  dbs_Network :: string
  dbs_EpochsIndexed :: int
  dbs_EmptyEpochs :: int
  dbs_BlobsIndexed :: int
  dbs_SizeBytes :: int
  dbs_FirstEpoch :: uint64
  dbs_LastEpoch :: uint64
  dbs_GapCount :: int
  dbs_LiveCursor :: uint64
  dbs_BackfillCursor :: uint64

record IPFSSnapshot =
  ips_RepoSizeBytes :: uint64
  ips_StorageMaxBytes :: uint64

text \<open>\<^verbatim>\<open>Has*\<close> is whether the part is there.\<close>

record Snapshot =
  sn_DB :: "DBSnapshot option"
  sn_IPFS :: "IPFSSnapshot option"
  sn_Beacon :: "(int64 \<times> int64) option"

datatype valueType = GaugeValue | CounterValue

record sample =
  sm_desc :: Desc
  sm_kind :: valueType
  sm_labels :: "string list"
  sm_value :: int

definition networkLabel :: "string list" where
  "networkLabel = [''network'']"

text \<open>The descriptions that \<^verbatim>\<open>RegisterSnapshot\<close> builds, in the order in which \<^verbatim>\<open>Describe\<close> sends them.\<close>

definition Describe :: "Desc list" where
  "Describe =
     map (\<lambda>name. NewDesc name networkLabel)
       [''epochs_indexed'', ''empty_epochs'', ''blobs_indexed_total'', ''indexed_size_bytes'', ''first_epoch'', ''last_epoch'',
        ''epoch_gap_count'', ''live_cursor'', ''backfill_cursor''] @
     map (\<lambda>name. NewDesc name [])
       [''ipfs_repo_size_bytes'', ''ipfs_storage_max_bytes'', ''beacon_rpc_requests_total'', ''beacon_rpc_429_total'',
        ''scrape_db_up'', ''scrape_ipfs_up'']"

definition RegisterSnapshot :: "Metrics option \<Rightarrow> Metrics option" where
  "RegisterSnapshot = map_option (\<lambda>m. m\<lparr>mt_reg := mt_reg m @ Describe\<rparr>)"

text \<open>\<^verbatim>\<open>prometheus.MustNewConstMetric\<close> of the description that \<^verbatim>\<open>RegisterSnapshot\<close> built for the name.\<close>

definition const_metric :: "string \<Rightarrow> string list \<Rightarrow> valueType \<Rightarrow> int \<Rightarrow> string list \<Rightarrow> sample" where
  "const_metric name labels kind v values = \<lparr>sm_desc = NewDesc name labels, sm_kind = kind, sm_labels = values, sm_value = v\<rparr>"

definition Collect_samples :: "Snapshot \<Rightarrow> sample list" where
  "Collect_samples s =
     (case sn_DB s of
        Some d \<Rightarrow>
          (let g = (\<lambda>name v. const_metric name networkLabel GaugeValue v [dbs_Network d])
           in [g ''epochs_indexed'' (dbs_EpochsIndexed d), g ''empty_epochs'' (dbs_EmptyEpochs d),
               g ''blobs_indexed_total'' (dbs_BlobsIndexed d), g ''indexed_size_bytes'' (dbs_SizeBytes d),
               g ''first_epoch'' (uint (dbs_FirstEpoch d)), g ''last_epoch'' (uint (dbs_LastEpoch d)),
               g ''epoch_gap_count'' (dbs_GapCount d), g ''live_cursor'' (uint (dbs_LiveCursor d)),
               g ''backfill_cursor'' (uint (dbs_BackfillCursor d)), const_metric ''scrape_db_up'' [] GaugeValue 1 []])
      | None \<Rightarrow> [const_metric ''scrape_db_up'' [] GaugeValue 0 []]) @
     (case sn_IPFS s of
        Some i \<Rightarrow> [const_metric ''ipfs_repo_size_bytes'' [] GaugeValue (uint (ips_RepoSizeBytes i)) [],
                   const_metric ''ipfs_storage_max_bytes'' [] GaugeValue (uint (ips_StorageMaxBytes i)) [],
                   const_metric ''scrape_ipfs_up'' [] GaugeValue 1 []]
      | None \<Rightarrow> [const_metric ''scrape_ipfs_up'' [] GaugeValue 0 []]) @
     (case sn_Beacon s of
        Some (requests, rejected) \<Rightarrow>
          [const_metric ''beacon_rpc_requests_total'' [] CounterValue (sint requests) [],
           const_metric ''beacon_rpc_429_total'' [] CounterValue (sint rejected) []]
      | None \<Rightarrow> [])"

section \<open>The generator's snapshot\<close>

definition snapshot_of_stats :: "string \<Rightarrow> SummaryStats \<Rightarrow> DBSnapshot" where
  "snapshot_of_stats network stats =
     \<lparr>dbs_Network = network, dbs_EpochsIndexed = ss_EpochCount stats, dbs_EmptyEpochs = ss_EmptyEpochCount stats,
      dbs_BlobsIndexed = ss_TotalBlobs stats, dbs_SizeBytes = ss_TotalSizeBytes stats, dbs_FirstEpoch = ss_FirstEpoch stats,
      dbs_LastEpoch = ss_LastEpoch stats, dbs_GapCount = ss_GapCount stats, dbs_LiveCursor = ss_LiveCursor stats,
      dbs_BackfillCursor = ss_BackfillCursor stats\<rparr>"

fun ok_option :: "'a res \<Rightarrow> 'a option" where
  "ok_option (Inl _) = None"
| "ok_option (Inr a) = Some a"

definition MetricsSnapshot :: "outside \<Rightarrow> Generator \<Rightarrow> Snapshot prog" where
  "MetricsSnapshot env g =
     bindP (if gn_db g
            then bindP (tryP (db_read env (\<lambda>flt t. GetSummaryStats flt t (g_network g)))) (\<lambda>r.
                   returnP (map_option (snapshot_of_stats (g_network g)) (ok_option r)))
            else returnP None) (\<lambda>d.
     bindP (case gn_ipfs g of
              None \<Rightarrow> returnP None
            | Some c \<Rightarrow> bindP (ask (o_http env)) (\<lambda>he.
                returnP (map_option (\<lambda>st. \<lparr>ips_RepoSizeBytes = rs_RepoSize st, ips_StorageMaxBytes = rs_StorageMax st\<rparr>)
                           (ok_option (GetRepoStat c he True))))) (\<lambda>i.
     (\<lambda>w. (Inr \<lparr>sn_DB = d, sn_IPFS = i,
                sn_Beacon = (if gn_beacon g then Some (GetRPCRequestCount (w_beacon w), Get429Count (w_beacon w)) else None)\<rparr>, w))))"

section \<open>Labels\<close>

text \<open>
  The client library panics when an instrument is used with a number of label values that is not the number of its label
  names, and when two registered instruments have one name. \<open>labels_ok\<close>: neither can have happened, and only registered
  instruments have values.
\<close>

definition used_series :: "Metrics \<Rightarrow> series set" where
  "used_series m = {k. mt_counters m k \<noteq> 0 \<or> mt_observed m k \<noteq> []}"

definition labels_ok :: "Metrics \<Rightarrow> bool" where
  "labels_ok m \<longleftrightarrow> distinct (map ds_fqName (mt_reg m)) \<and>
     (\<forall>k \<in> used_series m. fst k \<in> set (mt_reg m) \<and> length (snd k) = length (ds_labels (fst k)))"

lemma used_series_step:
  "used_series (counter_add k n m) \<subseteq> insert k (used_series m)" "used_series (observe_series k t m) \<subseteq> insert k (used_series m)"
  "mt_reg (counter_add k n m) = mt_reg m" "mt_reg (observe_series k t m) = mt_reg m"
  by (auto simp: used_series_def counter_add_def observe_series_def)

text \<open>The states of the instruments in a process: those that the helpers reach from a new registry with the collector.\<close>

inductive metrics_state :: "Metrics option \<Rightarrow> bool" where
  new: "metrics_state (RegisterSnapshot New_Metrics)"
| blob: "metrics_state m \<Longrightarrow> metrics_state (RecordBlob network source m)"
| blobs: "metrics_state m \<Longrightarrow> metrics_state (RecordBlobs network source n m)"
| epoch: "metrics_state m \<Longrightarrow> metrics_state (RecordEpoch network source result m)"
| build: "metrics_state m \<Longrightarrow> metrics_state (ObserveEpochBuild network d m)"
| upload: "metrics_state m \<Longrightarrow> metrics_state (ObserveIPFSUpload d blocks m)"
| pin: "metrics_state m \<Longrightarrow> metrics_state (RecordPin result m)"
| networkRoot: "metrics_state m \<Longrightarrow> metrics_state (ObserveNetworkRootRebuild d m)"
| request: "metrics_state m \<Longrightarrow> metrics_state (ObserveHTTPRequest method path status d m)"

definition all_instruments :: "Desc list" where
  "all_instruments = [blobsProcessed, epochsProcessed, epochBuild, ipfsUpload, blocksUploaded, ipfsPins, networkRoot, httpDuration] @ Describe"

definition reg_ok :: "Metrics option \<Rightarrow> bool" where
  "reg_ok m \<longleftrightarrow> (case m of None \<Rightarrow> False | Some m \<Rightarrow> mt_reg m = all_instruments \<and> labels_ok m)"

lemma subset_ball: "A \<subseteq> B \<Longrightarrow> \<forall>x \<in> B. P x \<Longrightarrow> \<forall>x \<in> A. P x"
  by blast

lemma reg_ok_use:
  assumes "reg_ok m" and "d \<in> set all_instruments" and "length vs = length (ds_labels d)"
  shows "reg_ok (map_option (counter_add (d, vs) n) m)" "reg_ok (map_option (observe_series (d, vs) t) m)"
proof -
  from assms(1) obtain m' where m: "m = Some m'" "mt_reg m' = all_instruments" "labels_ok m'" by (auto simp: reg_ok_def split: option.splits)
  then have all: "\<forall>k \<in> insert (d, vs) (used_series m'). fst k \<in> set all_instruments \<and> length (snd k) = length (ds_labels (fst k))"
    using assms(2,3) by (auto simp: labels_ok_def)
  show "reg_ok (map_option (counter_add (d, vs) n) m)"
    using m subset_ball [OF used_series_step(1) all] by (simp add: reg_ok_def labels_ok_def used_series_step(3))
  show "reg_ok (map_option (observe_series (d, vs) t) m)"
    using m subset_ball [OF used_series_step(2) all] by (simp add: reg_ok_def labels_ok_def used_series_step(4))
qed

lemma instrument_labels:
  "blobsProcessed \<in> set all_instruments" "epochsProcessed \<in> set all_instruments" "epochBuild \<in> set all_instruments"
  "ipfsUpload \<in> set all_instruments" "blocksUploaded \<in> set all_instruments" "ipfsPins \<in> set all_instruments"
  "networkRoot \<in> set all_instruments" "httpDuration \<in> set all_instruments"
  "length (ds_labels blobsProcessed) = 2" "length (ds_labels epochsProcessed) = 3" "length (ds_labels epochBuild) = 1"
  "ds_labels ipfsUpload = []" "ds_labels blocksUploaded = []" "length (ds_labels ipfsPins) = 1" "ds_labels networkRoot = []"
  "length (ds_labels httpDuration) = 3"
  by (simp_all add: all_instruments_def) (simp_all add: instrument_defs)

lemma metrics_state_ok: "metrics_state m \<Longrightarrow> reg_ok m"
proof (induction rule: metrics_state.induct)
  case new
  have "distinct (map ds_fqName all_instruments)"
    by (simp add: all_instruments_def Describe_def instrument_defs fqName_def)
  then show ?case by (simp add: reg_ok_def labels_ok_def used_series_def RegisterSnapshot_def New_Metrics_def all_instruments_def)
next
  case (upload m d blocks)
  have "ObserveIPFSUpload d blocks m =
      (if 0 < sint blocks then map_option (counter_add (blocksUploaded, []) (sint blocks)) (map_option (observe_series (ipfsUpload, []) d) m)
       else map_option (observe_series (ipfsUpload, []) d) m)"
    by (cases m) (simp_all add: ObserveIPFSUpload_def)
  with upload show ?case by (simp add: reg_ok_use instrument_labels)
qed (simp_all add: reg_ok_use instrument_labels RecordBlob_def RecordBlobs_def RecordEpoch_def ObserveEpochBuild_def RecordPin_def
       ObserveNetworkRootRebuild_def ObserveHTTPRequest_def)

lemma Collect_labels:
  "list_all (\<lambda>x. sm_desc x \<in> set Describe \<and> length (sm_labels x) = length (ds_labels (sm_desc x))) (Collect_samples s)"
  "distinct (map (ds_fqName \<circ> sm_desc) (Collect_samples s))"
  by (cases "sn_DB s"; cases "sn_IPFS s"; cases "sn_Beacon s",
      auto simp: Collect_samples_def Describe_def const_metric_def NewDesc_def networkLabel_def fqName_def Let_def split: prod.splits)+

text \<open>
  C40. The metrics are well typed: in every state that the record helpers reach from \<^verbatim>\<open>New\<close> with the collector
  registered, only registered instruments have values and each of them as many label values as it has labels, no two
  instruments share a name, and a scrape of that state emits, for every snapshot, only described series with the right
  number of label values and no series twice, so that the client library never panics or refuses the scrape. Every name
  begins with the program's namespace, so that none is a name of the library's own Go and process collectors.
\<close>

theorem metrics_well_labelled:
  assumes "metrics_state (Some m)"
  shows "labels_ok m \<and> list_all (\<lambda>x. sm_desc x \<in> set (mt_reg m) \<and> length (sm_labels x) = length (ds_labels (sm_desc x))) (Collect_samples s) \<and>
     distinct (map (ds_fqName \<circ> sm_desc) (Collect_samples s)) \<and>
     list_all (\<lambda>d. strings_HasPrefix (ds_fqName d) ''blobscanipld_'') (mt_reg m)"
proof -
  from metrics_state_ok [OF assms] have reg: "mt_reg m = all_instruments" and ok: "labels_ok m" by (simp_all add: reg_ok_def)
  have "list_all (\<lambda>d. strings_HasPrefix (ds_fqName d) ''blobscanipld_'') (mt_reg m)"
    unfolding reg by (simp add: all_instruments_def Describe_def instrument_defs fqName_def strings_HasPrefix_def)
  moreover
  have "list_all (\<lambda>x. sm_desc x \<in> set (mt_reg m) \<and> length (sm_labels x) = length (ds_labels (sm_desc x))) (Collect_samples s)"
    using Collect_labels(1) [of s] by (rule list.pred_mono_strong) (simp add: reg all_instruments_def)
  ultimately show ?thesis using ok Collect_labels(2) by blast
qed

theorem metrics_well_labelled_witness:
  "labels_ok (the (RecordPin ''ok'' (RegisterSnapshot New_Metrics))) \<and>
   mt_counters (the (RecordPin ''ok'' (RegisterSnapshot New_Metrics))) (ipfsPins, [''ok'']) = 1"
proof -
  have "metrics_state (RecordPin ''ok'' (RegisterSnapshot New_Metrics))" by (intro metrics_state.intros)
  moreover obtain m where m: "RecordPin ''ok'' (RegisterSnapshot New_Metrics) = Some m"
    by (simp add: RecordPin_def RegisterSnapshot_def New_Metrics_def)
  ultimately have "labels_ok m" using metrics_well_labelled [of m] by simp
  moreover from m have "mt_counters m (ipfsPins, [''ok'']) = 1"
    by (auto simp: RecordPin_def RegisterSnapshot_def New_Metrics_def counter_add_def)
  ultimately show ?thesis using m by simp
qed

text \<open>The two up/down series are in every scrape, with the value 1 just when the part is in the snapshot.\<close>

lemma Collect_up:
  "const_metric ''scrape_db_up'' [] GaugeValue (if sn_DB s = None then 0 else 1) [] \<in> set (Collect_samples s)"
  "const_metric ''scrape_ipfs_up'' [] GaugeValue (if sn_IPFS s = None then 0 else 1) [] \<in> set (Collect_samples s)"
  by (simp_all add: Collect_samples_def Let_def split: option.splits)

text \<open>Taking a snapshot changes nothing but the interaction counter.\<close>

lemma MetricsSnapshot_reads: "\<exists>k. snd (MetricsSnapshot env g w) = w\<lparr>w_tick := k\<rparr>"
  by (auto simp: MetricsSnapshot_def bindP_def tryP_def db_read_def ask_eq intro: exI [of _ "w_tick w"]
      split: sum.splits option.splits prod.splits)

end
