(* ===== verification/Api.thy ===== *)
theory Api
  imports Pipeline Metrics
begin

text \<open>
  \<^verbatim>\<open>api/server.go\<close>: the HTTP server that takes pushed blobs, its routes, handlers, request validation and the
  logging middleware with its metric labels; and \<^verbatim>\<open>Generator.Ping\<close>, the readiness check that the server is given.
  A handler is a program on the world that returns the reply. The processor and the finalizer are arguments of the
  server, as in the code; the locale \<open>blob_service\<close> is what the server needs of them, and it is interpreted with the
  generator's \<open>ProcessBlobInput\<close> and \<open>FinalizeEpochWithCID\<close>.
\<close>

section \<open>Requests and replies\<close>

text \<open>
  \<open>hq_body\<close>: the first JSON value of the body, or the error of the decoder. The path is the clean path of the URL
  (the multiplexer redirects others before it looks for a route).
\<close>

record http_request =
  hq_method :: string
  hq_path :: string
  hq_body :: "json res"

datatype reply_body = BodyJson json | BodyText string | BodyEmpty

record http_reply =
  rp_status :: nat
  rp_type :: string
  rp_cache :: string
  rp_body :: reply_body

text \<open>
  Decoding a JSON value into \<^verbatim>\<open>BlobPushRequest\<close>. Member names match without regard to (ASCII) case, the last of several
  wins, and a null leaves the field as it is. A member whose value does not fit its field is an error, also when a
  later member of the same name fits: the decoder keeps the first such error and returns it at the end.
\<close>

definition push_members :: "(string \<times> json) list \<Rightarrow> string \<rightharpoonup> json" where
  "push_members ms = map_of (rev (filter (\<lambda>(k, v). v \<noteq> JNull) (map (\<lambda>(k, v). (strings_ToLower k, v)) ms)))"

definition dec_goint :: "string \<Rightarrow> (string \<rightharpoonup> json) \<Rightarrow> goint res" where
  "dec_goint k m =
     (case m k of
        None \<Rightarrow> Inr 0
      | Some (JInt i) \<Rightarrow> if - (2 ^ 63) \<le> i \<and> i < 2 ^ 63 then Inr (word_of_int i) else Inl (json_type_error k)
      | Some _ \<Rightarrow> Inl (json_type_error k))"

definition dec_bool :: "string \<Rightarrow> (string \<rightharpoonup> json) \<Rightarrow> bool res" where
  "dec_bool k m = (case m k of None \<Rightarrow> Inr False | Some (JBool b) \<Rightarrow> Inr b | Some _ \<Rightarrow> Inl (json_type_error k))"

definition dec_fields :: "(string \<rightharpoonup> json) \<Rightarrow> BlobPushRequest res" where
  "dec_fields m =
     bindR (json_string ''commitment'' (m ''commitment'')) (\<lambda>commitment.
     bindR (json_string ''versioned_hash'' (m ''versioned_hash'')) (\<lambda>vh.
     bindR (json_string ''data'' (m ''data'')) (\<lambda>data.
     bindR (json_string ''tx_hash'' (m ''tx_hash'')) (\<lambda>tx.
     bindR (dec_uint ''block_number'' m) (\<lambda>bn.
     bindR (json_string ''block_hash'' (m ''block_hash'')) (\<lambda>bh.
     bindR (dec_uint ''slot'' m) (\<lambda>slot.
     bindR (dec_uint ''epoch'' m) (\<lambda>epoch.
     bindR (dec_goint ''index'' m) (\<lambda>index.
     bindR (dec_bool ''finalize'' m) (\<lambda>finalize.
       Inr \<lparr>pq_Commitment = commitment, pq_VersionedHash = vh, pq_Data = data, pq_TxHash = tx, pq_BlockNumber = bn,
            pq_BlockHash = bh, pq_Slot = slot, pq_Epoch = epoch, pq_Index = index, pq_Finalize = finalize\<rparr>))))))))))"

definition push_member_check :: "string \<times> json \<Rightarrow> unit res" where
  "push_member_check = (\<lambda>(name, v).
     let k = strings_ToLower name
     in if k \<in> {''commitment'', ''versioned_hash'', ''data'', ''tx_hash'', ''block_hash''}
        then bindR (json_string k (Some v)) (\<lambda>_. Inr ())
        else if k \<in> {''block_number'', ''slot'', ''epoch''} then bindR (dec_uint k [k \<mapsto> v]) (\<lambda>_. Inr ())
        else if v = JNull then Inr ()
        else if k = ''index'' then bindR (dec_goint k [k \<mapsto> v]) (\<lambda>_. Inr ())
        else if k = ''finalize'' then bindR (dec_bool k [k \<mapsto> v]) (\<lambda>_. Inr ())
        else Inr ())"

fun dec_push :: "json \<Rightarrow> BlobPushRequest res" where
  "dec_push JNull = dec_fields Map.empty"
| "dec_push (JObj ms) = bindR (mapR push_member_check ms) (\<lambda>_. dec_fields (push_members ms))"
| "dec_push _ = Inl (json_type_error ''BlobPushRequest'')"

text \<open>Encoding of the responses, with \<^verbatim>\<open>omitempty\<close>.\<close>

definition enc_push :: "BlobPushResponse \<Rightarrow> json" where
  "enc_push r =
     JObj ([(''data_cid'', JStr (ps_DataCID r)), (''meta_cid'', JStr (ps_MetaCID r)), (''commitment'', JStr (ps_Commitment r)),
            (''epoch'', JInt (uint (ps_Epoch r)))] @
           (if ps_Finalized r then [(''finalized'', JBool True)] else []) @
           (if ps_EpochCID r = '''' then [] else [(''epoch_cid'', JStr (ps_EpochCID r))]))"

definition json_reply :: "nat \<Rightarrow> json \<Rightarrow> http_reply" where
  "json_reply code j = \<lparr>rp_status = code, rp_type = ''application/json'', rp_cache = '''', rp_body = BodyJson j\<rparr>"

definition writeError :: "nat \<Rightarrow> string \<Rightarrow> http_reply" where
  "writeError code msg = json_reply code (JObj [(''error'', JStr msg)])"

section \<open>Validation\<close>

definition validateBlobRequest :: "BlobPushRequest \<Rightarrow> unit res" where
  "validateBlobRequest req =
     (if pq_Commitment req = '''' then Inl (Errorf ''commitment is required'')
      else if pq_VersionedHash req = '''' then Inl (Errorf ''versioned_hash is required'')
      else if pq_Data req = '''' then Inl (Errorf ''data is required'')
      else bindR (wrapR ''data: invalid hex'' (hexDecode (pq_Data req))) (\<lambda>raw.
        if length raw \<noteq> 131072 then Inl (Errorf (''data: expected 131072 bytes, got '' @ fmt_nat (length raw)))
        else if pq_Epoch req = 0 \<and> pq_Slot req = 0 then Inl (Errorf ''epoch or slot is required'')
        else if sint (pq_Index req) < 0 then Inl (Errorf ''index must be non-negative'')
        else Inr ()))"

section \<open>The server and its handlers\<close>

record Server =
  sv_processor :: "BlobPushRequest \<Rightarrow> BlobPushResponse prog"
  sv_finalizer :: "(uint64 \<Rightarrow> string prog) option"
  sv_ready :: "unit prog option"
  sv_metrics :: "http_reply prog option"
  sv_openapi :: string

definition handleHealth :: "http_reply prog" where
  "handleHealth = returnP (json_reply 200 (JObj [(''status'', JStr ''ok'')]))"

definition handleReady :: "Server \<Rightarrow> http_reply prog" where
  "handleReady s =
     (case sv_ready s of
        None \<Rightarrow> returnP (json_reply 200 (JObj [(''status'', JStr ''ok'')]))
      | Some ready \<Rightarrow>
          bindP (tryP ready) (\<lambda>r. returnP (case r of
            Inl err \<Rightarrow> json_reply 503 (JObj [(''error'', JStr (error_text err)), (''status'', JStr ''unhealthy'')])
          | Inr _ \<Rightarrow> json_reply 200 (JObj [(''status'', JStr ''ok'')]))))"

definition handleOpenAPISpec :: "Server \<Rightarrow> http_reply prog" where
  "handleOpenAPISpec s = returnP \<lparr>rp_status = 200, rp_type = ''application/json'', rp_cache = ''private, max-age=3600'',
     rp_body = BodyText (sv_openapi s)\<rparr>"

definition swaggerUIHTML :: string where
  "swaggerUIHTML = strings_Join [CHR 0x0A]
     [''<!DOCTYPE html>'',
      ''<html>'',
      ''<head>'',
      ''  <title>blobscan-ipld API</title>'',
      ''  <meta charset=\"utf-8\"/>'',
      ''  <meta name=\"viewport\" content=\"width=device-width, initial-scale=1\">'',
      ''  <link rel=\"stylesheet\" type=\"text/css\" href=\"https://unpkg.com/swagger-ui-dist@5.32.8/swagger-ui.css\">'',
      ''</head>'',
      ''<body>'',
      ''<div id=\"swagger-ui\"></div>'',
      ''<script src=\"https://unpkg.com/swagger-ui-dist@5.32.8/swagger-ui-bundle.js\"></script>'',
      ''<script>'',
      ''  SwaggerUIBundle({ url: \"/openapi.json\", dom_id: \"#swagger-ui\" })'',
      ''</script>'',
      ''</body>'',
      ''</html>'']"

definition handleSwaggerUI :: "http_reply prog" where
  "handleSwaggerUI = returnP \<lparr>rp_status = 200, rp_type = ''text/html; charset=utf-8'', rp_cache = '''', rp_body = BodyText swaggerUIHTML\<rparr>"

text \<open>The part of \<^verbatim>\<open>handlePushBlob\<close> after the validation.\<close>

definition push_process :: "Server \<Rightarrow> BlobPushRequest \<Rightarrow> http_reply prog" where
  "push_process s req =
     bindP (tryP (sv_processor s req)) (\<lambda>processed.
       case processed of
         Inl err \<Rightarrow> returnP (writeError 500 (''processing failed: '' @ error_text err))
       | Inr resp \<Rightarrow>
           (case sv_finalizer s of
              None \<Rightarrow> returnP (json_reply 201 (enc_push resp))
            | Some finalizer \<Rightarrow>
                if \<not> pq_Finalize req then returnP (json_reply 201 (enc_push resp))
                else bindP (tryP (finalizer (pq_Epoch req))) (\<lambda>finalized. returnP (case finalized of
                       Inl err \<Rightarrow> writeError 500 (''finalize epoch failed: '' @ error_text err)
                     | Inr epochCID \<Rightarrow> json_reply 201 (enc_push (resp\<lparr>ps_Finalized := True, ps_EpochCID := epochCID\<rparr>))))))"

definition handlePushBlob :: "Server \<Rightarrow> json res \<Rightarrow> http_reply prog" where
  "handlePushBlob s body =
     (case bindR body dec_push of
        Inl err \<Rightarrow> returnP (writeError 400 (''invalid JSON: '' @ error_text err))
      | Inr req \<Rightarrow>
          (case validateBlobRequest req of
             Inl err \<Rightarrow> returnP (writeError 400 (error_text err))
           | Inr _ \<Rightarrow> push_process s req))"

section \<open>Routes and middleware\<close>

text \<open>The route of \<^verbatim>\<open>metricsHandler\<close> exists only when there is a handler.\<close>

definition handleMetrics :: "Server \<Rightarrow> http_reply prog" where
  "handleMetrics s = (case sv_metrics s of Some h \<Rightarrow> h | None \<Rightarrow> returnP (writeError 404 ''''))"

definition routes :: "Server \<Rightarrow> (string \<times> string) list" where
  "routes s = [(''POST'', ''/blob''), (''GET'', ''/healthz''), (''GET'', ''/readyz''), (''GET'', ''/openapi.json''), (''GET'', ''/docs'')] @
     (if sv_metrics s = None then [] else [(''GET'', ''/metrics'')])"

definition method_matches :: "string \<Rightarrow> string \<Rightarrow> bool" where
  "method_matches m method \<longleftrightarrow> method = m \<or> m = ''GET'' \<and> method = ''HEAD''"

definition mux :: "Server \<Rightarrow> http_request \<Rightarrow> http_reply prog" where
  "mux s r =
     (case map_of (map (\<lambda>(m, p). (p, m)) (routes s)) (hq_path r) of
        None \<Rightarrow> returnP \<lparr>rp_status = 404, rp_type = ''text/plain; charset=utf-8'', rp_cache = '''', rp_body = BodyText ''404 page not found''\<rparr>
      | Some m \<Rightarrow>
          if \<not> method_matches m (hq_method r)
          then returnP \<lparr>rp_status = 405, rp_type = ''text/plain; charset=utf-8'', rp_cache = '''', rp_body = BodyText ''Method Not Allowed''\<rparr>
          else if hq_path r = ''/blob'' then handlePushBlob s (hq_body r)
          else if hq_path r = ''/healthz'' then handleHealth
          else if hq_path r = ''/readyz'' then handleReady s
          else if hq_path r = ''/openapi.json'' then handleOpenAPISpec s
          else if hq_path r = ''/docs'' then handleSwaggerUI
          else handleMetrics s)"

definition knownRoutes :: "string list" where
  "knownRoutes = [''/blob'', ''/healthz'', ''/readyz'', ''/openapi.json'', ''/docs'', ''/metrics'']"

definition routeLabel :: "string \<Rightarrow> string" where
  "routeLabel path = (if path \<in> set knownRoutes then path else ''other'')"

definition knownMethods :: "string list" where
  "knownMethods = [''GET'', ''POST'']"

definition methodLabel :: "string \<Rightarrow> string" where
  "methodLabel m = (if m \<in> set knownMethods then m else ''other'')"

text \<open>
  \<^verbatim>\<open>logRequests\<close>: the reply and what is given to the observer, when there is one. A panic of the handler goes through,
  so it leaves no observation.
\<close>

definition logRequests :: "bool \<Rightarrow> (http_request \<Rightarrow> http_reply prog) \<Rightarrow> http_request \<Rightarrow> (http_reply \<times> (string \<times> string \<times> string) list) prog" where
  "logRequests observe handler r =
     bindP (handler r) (\<lambda>rp. returnP (rp,
       if observe then [(methodLabel (hq_method r), routeLabel (hq_path r), fmt_nat (rp_status rp))] else []))"

definition ServeHTTP :: "Server \<Rightarrow> bool \<Rightarrow> http_request \<Rightarrow> (http_reply \<times> (string \<times> string \<times> string) list) prog" where
  "ServeHTTP s observe r = logRequests observe (mux s) r"

definition Ping :: "outside \<Rightarrow> Generator \<Rightarrow> unit prog" where
  "Ping env g =
     (case gn_ipfs g of
        None \<Rightarrow> returnP ()
      | Some c \<Rightarrow> bindP (ask (o_http env)) (\<lambda>he. bindP (liftP (GetNodeInfo c he)) (\<lambda>_. returnP ())))"

text \<open>
  The server that \<^verbatim>\<open>cmdServe\<close> starts: the generator is the processor, the finalizer, the readiness check and the
  source of the scraped snapshot, which the metrics library renders.
\<close>

definition serve_server :: "outside \<Rightarrow> Generator \<Rightarrow> (Snapshot \<Rightarrow> http_reply) \<Rightarrow> string \<Rightarrow> Server" where
  "serve_server env g render openapi =
     \<lparr>sv_processor = ProcessBlobInput env g, sv_finalizer = Some (FinalizeEpochWithCID env g), sv_ready = Some (Ping env g),
      sv_metrics = Some (bindP (MetricsSnapshot env g) (\<lambda>snap. returnP (render snap))), sv_openapi = openapi\<rparr>"

section \<open>What the server needs of its processor and finalizer\<close>

definition serves :: "Server \<Rightarrow> bool \<Rightarrow> http_request list \<Rightarrow> world \<Rightarrow> world \<times> (string \<times> string \<times> string) list" where
  "serves s observe rs w =
     foldl (\<lambda>(w, obs) r. case ServeHTTP s observe r w of (Inl _, w') \<Rightarrow> (w', obs) | (Inr (_, o'), w') \<Rightarrow> (w', obs @ o')) (w, []) rs"

locale blob_service = effect_frame R for R +
  fixes s :: Server
  assumes processor: "moves R (sv_processor s req)"
    and finalizer: "sv_finalizer s = Some f \<Longrightarrow> moves R (f epoch)"
    and ready: "sv_ready s = Some p \<Longrightarrow> moves R p"
    and metrics: "sv_metrics s = Some h \<Longrightarrow> moves R h"
begin

lemma moves_push: "moves R (handlePushBlob s body)"
proof -
  have "moves R (case sv_finalizer s of None \<Rightarrow> returnP d | Some f \<Rightarrow>
      if b then returnP d else bindP (tryP (f e)) (\<lambda>z. returnP (k z)))" for e d b and k :: "string res \<Rightarrow> http_reply"
    by (cases "sv_finalizer s") (auto intro!: moves_intros finalizer)
  then have "moves R (push_process s req)" for req
    unfolding push_process_def by (intro moves_bind moves_try moves_sum moves_return processor)
  then show ?thesis unfolding handlePushBlob_def by (intro moves_intros)
qed

lemma moves_serve: "moves R (ServeHTTP s observe r)"
proof -
  have "moves R (handleReady s)"
    unfolding handleReady_def by (cases "sv_ready s") (auto intro!: moves_intros ready)
  moreover have "moves R (handleMetrics s)"
    unfolding handleMetrics_def by (cases "sv_metrics s") (auto intro!: moves_intros metrics)
  ultimately have "moves R (mux s r)"
    unfolding mux_def handleHealth_def handleOpenAPISpec_def handleSwaggerUI_def by (intro moves_intros moves_push)
  then show ?thesis unfolding ServeHTTP_def logRequests_def by (intro moves_intros)
qed

lemma serves_moves: "R w (fst (serves s observe rs w))"
proof (induction rs rule: rev_induct)
  case Nil
  show ?case by (simp add: serves_def refl)
next
  case (snoc r rs)
  let ?w = "fst (serves s observe rs w)"
  have "fst (serves s observe (rs @ [r]) w) = snd (ServeHTTP s observe r ?w)"
    by (simp add: serves_def split: prod.split sum.split)
  moreover have "R ?w (snd (ServeHTTP s observe r ?w))" using moves_serve by (simp add: moves_def)
  ultimately show ?case using snoc by (metis trans)
qed

end

lemma moves_ProcessBlobInput: "moves (epoch_ext (g_network g)) (ProcessBlobInput env g req)"
  unfolding ProcessBlobInput_def Let_def by (intro moves_intros)

lemma moves_FinalizeEpochWithCID: "moves (rows_kept (g_network g)) (FinalizeEpochWithCID env g epoch)"
  unfolding FinalizeEpochWithCID_def finalizeEpochInner_def Let_def
  by (intro moves_intros moves_kept moves_saves moves_cursor_kept)

lemma moves_Ping: "moves (rows_kept n) (Ping env g)"
  unfolding Ping_def by (intro moves_intros)

interpretation serve: blob_service "rows_kept (g_network g)" "serve_server env g render openapi" for env g render openapi
proof unfold_locales
  show "moves (rows_kept (g_network g)) (sv_processor (serve_server env g render openapi) req)" for req
    by (simp add: serve_server_def moves_kept moves_ProcessBlobInput)
  show "moves (rows_kept (g_network g)) (f epoch)" if "sv_finalizer (serve_server env g render openapi) = Some f" for f epoch
    using that by (auto simp: serve_server_def moves_FinalizeEpochWithCID)
  show "moves (rows_kept (g_network g)) p" if "sv_ready (serve_server env g render openapi) = Some p" for p
    using that by (auto simp: serve_server_def moves_Ping)
  have "moves (rows_kept (g_network g)) (MetricsSnapshot env g)"
  proof (rule rows_kept.moves_side)
    fix w :: world
    obtain k where "snd (MetricsSnapshot env g w) = w\<lparr>w_tick := k\<rparr>" using MetricsSnapshot_reads by blast
    then show "w_tables (snd (MetricsSnapshot env g w)) = w_tables w" by simp
  qed
  then show "moves (rows_kept (g_network g)) h" if "sv_metrics (serve_server env g render openapi) = Some h" for h
    using that by (auto simp: serve_server_def intro!: moves_intros)
qed

section \<open>Properties\<close>

definition valid_push :: "BlobPushRequest \<Rightarrow> bool" where
  "valid_push req \<longleftrightarrow> pq_Commitment req \<noteq> '''' \<and> pq_VersionedHash req \<noteq> '''' \<and>
     (\<exists>raw. hexDecode (pq_Data req) = Inr raw \<and> length raw = 131072) \<and> (pq_Epoch req \<noteq> 0 \<or> pq_Slot req \<noteq> 0) \<and> 0 \<le> sint (pq_Index req)"

lemma hexDecode_Nil: "hexDecode '''' = Inr []"
  by (simp add: hexDecode_def strings_TrimPrefix_def)

lemma validate_iff: "isOk (validateBlobRequest req) \<longleftrightarrow> valid_push req"
  by (cases "hexDecode (pq_Data req)") (auto simp: validateBlobRequest_def valid_push_def hexDecode_Nil)

lemma tryP_ok: "tryP m w = (Inr (Inr a), w') \<longleftrightarrow> m w = (Inr a, w')"
  by (auto simp: tryP_def split: prod.splits sum.splits)

lemma push_process_cases:
  assumes "push_process s req w = (Inr rp, w')"
  shows "rp_status rp = 500 \<or> (\<exists>resp w1. sv_processor s req w = (Inr resp, w1) \<and>
    ((\<exists>f c. pq_Finalize req \<and> sv_finalizer s = Some f \<and> f (pq_Epoch req) w1 = (Inr c, w') \<and>
        rp = json_reply 201 (enc_push (resp\<lparr>ps_Finalized := True, ps_EpochCID := c\<rparr>))) \<or>
     \<not> (pq_Finalize req \<and> sv_finalizer s \<noteq> None) \<and> w' = w1 \<and> rp = json_reply 201 (enc_push resp)))"
proof -
  from assms obtain pr w1 where p: "tryP (sv_processor s req) w = (Inr pr, w1)" by (auto simp: push_process_def bindP_Inr)
  show ?thesis
  proof (cases pr)
    case (Inl err)
    with p assms show ?thesis by (auto simp: push_process_def bindP_def writeError_def json_reply_def)
  next
    case (Inr resp)
    with p have run: "sv_processor s req w = (Inr resp, w1)" by (simp add: tryP_ok)
    show ?thesis
    proof (cases "pq_Finalize req \<and> sv_finalizer s \<noteq> None")
      case False
      with p Inr assms run show ?thesis by (auto simp: push_process_def bindP_def split: option.splits)
    next
      case True
      then obtain f where f: "sv_finalizer s = Some f" by blast
      with p Inr assms True obtain fr where fr: "tryP (f (pq_Epoch req)) w1 = (Inr fr, w')"
        and rp: "rp = (case fr of Inl err \<Rightarrow> writeError 500 (''finalize epoch failed: '' @ error_text err)
                       | Inr c \<Rightarrow> json_reply 201 (enc_push (resp\<lparr>ps_Finalized := True, ps_EpochCID := c\<rparr>)))"
        by (auto simp: push_process_def bindP_def [of "tryP (sv_processor s req)"] bindP_Inr)
      show ?thesis
      proof (cases fr)
        case ok: (Inr c)
        with fr have "f (pq_Epoch req) w1 = (Inr c, w')" by (simp add: tryP_ok)
        with run f True rp ok show ?thesis by auto
      qed (simp add: rp writeError_def json_reply_def)
    qed
  qed
qed

lemma push_status:
  assumes "handlePushBlob s body w = (Inr rp, w')"
  shows "rp_status rp \<in> {201, 400, 500}"
proof (cases "bindR body dec_push")
  case (Inl err)
  with assms show ?thesis by (auto simp: handlePushBlob_def writeError_def json_reply_def)
next
  case (Inr req)
  with assms push_process_cases [of s req w rp w'] show ?thesis
    by (cases "validateBlobRequest req") (auto simp: handlePushBlob_def writeError_def json_reply_def)
qed

text \<open>
  C29. A push is answered with 201, 400 or 500. It is 400 exactly when the body is not a request that names a
  commitment, a versioned hash, data of exactly 131072 bytes in hexadecimal, an epoch or a slot, and an index that is
  not negative; and then nothing has been done: no block, row or notification. This is what the code checks. The
  documentation (\<^verbatim>\<open>docs/api.md\<close>, \<^verbatim>\<open>POST /blob\<close>) marks slot, epoch and index as required, with 400 for missing fields; the
  code accepts a request without an index, or with only one of slot and epoch, and takes 0 for what is missing.
\<close>

theorem push_validation:
  assumes "handlePushBlob s body w = (Inr rp, w')"
  shows "rp_status rp \<in> {201, 400, 500} \<and>
    (rp_status rp = 400 \<longleftrightarrow> \<not> (\<exists>req. bindR body dec_push = Inr req \<and> valid_push req)) \<and> (rp_status rp = 400 \<longrightarrow> w' = w)"
proof (cases "bindR body dec_push")
  case (Inl err)
  with assms show ?thesis by (auto simp: handlePushBlob_def writeError_def json_reply_def)
next
  case (Inr req)
  show ?thesis
  proof (cases "validateBlobRequest req")
    case bad: (Inl err)
    with validate_iff [of req] Inr assms show ?thesis by (auto simp: handlePushBlob_def writeError_def json_reply_def)
  next
    case ok: (Inr u)
    with validate_iff [of req] have "valid_push req" by simp
    moreover have "rp_status rp \<in> {201, 500}"
      using push_process_cases [of s req w rp w'] assms by (auto simp: handlePushBlob_def Inr ok json_reply_def)
    ultimately show ?thesis using Inr by auto
  qed
qed

definition demo_server :: Server where
  "demo_server = serve_server demo_outside demo_gen (\<lambda>_. json_reply 200 JNull) ''''"

theorem push_validation_witness:
  "\<exists>rp. handlePushBlob demo_server (Inr (JObj [(''commitment'', JStr ''0xc0''), (''data'', JStr ''0x00'')])) demo_world = (Inr rp, demo_world) \<and>
     rp_status rp = 400"
proof -
  let ?body = "Inr (JObj [(''commitment'', JStr ''0xc0''), (''data'', JStr ''0x00'')]) :: json res"
  have d: "\<exists>req. bindR ?body dec_push = Inr req \<and> pq_VersionedHash req = ''''"
    by (simp add: dec_fields_def push_members_def push_member_check_def Let_def strings_ToLower_def dec_uint_def dec_goint_def dec_bool_def lower_char_def)
  then have "\<exists>rp. handlePushBlob demo_server ?body demo_world = (Inr rp, demo_world)"
    by (auto simp: handlePushBlob_def validateBlobRequest_def)
  then obtain rp where r: "handlePushBlob demo_server ?body demo_world = (Inr rp, demo_world)" by blast
  have "\<not> (\<exists>req. bindR ?body dec_push = Inr req \<and> valid_push req)" using d by (auto simp: valid_push_def)
  with push_validation [OF r] r show ?thesis by auto
qed


lemma finalize_steps:
  assumes "finalizeEpochInner env g epoch w = (Inr c, w')" and "gn_db g"
  shows "\<exists>res n w1 w2 w3. er_Epoch res = epoch \<and> er_CID res = c \<and> w_tables w1 = w_tables w \<and>
    call_SaveEpoch env g res n epoch w1 = (Inr (), w2) \<and> w_tables w3 = w_tables w2 \<and>
    state_SetLastProcessedEpoch env g epoch w3 = (Inr (), w')"
proof -
  from assms obtain blobs wa inp results res bs wb w2 w3 where
    a: "db_read env (\<lambda>flt t. GetBlobsByEpoch flt t (g_network g) epoch) w = (Inr blobs, wa)"
    and r: "ReconstructFromDB (o_lib env) epoch blobs (gn_slotsPerEpoch g) = Inr (inp, results)"
    and b: "g_BuildEpochNode env g (BMem NewMemBlockstore) inp results = Inr (res, bs)"
    and u: "(case backend_mem bs of None \<Rightarrow> returnP () | Some epochBS \<Rightarrow> uploadAndPin env g epochBS (er_CID res) epoch) wa = (Inr (), wb)"
    and sv: "call_SaveEpoch env g res (go_len blobs) epoch wb = (Inr (), w2)"
    and l: "logP (rebuildNetworkRoot env g) w2 = (Inr (), w3)"
    and c: "state_SetLastProcessedEpoch env g epoch w3 = (Inr (), w')" "er_CID res = c"
    unfolding finalizeEpochInner_def Let_def by (auto simp: bindP_Inr split: if_splits)
  let ?same = "\<lambda>w w'. w_tables w' = w_tables w"
  have ma: "moves ?same (db_read env (\<lambda>flt t. GetBlobsByEpoch flt t (g_network g) epoch))"
    and mu: "moves ?same (case backend_mem bs of None \<Rightarrow> returnP () | Some epochBS \<Rightarrow> uploadAndPin env g epochBS (er_CID res) epoch)"
    and ml: "moves ?same (logP (rebuildNetworkRoot env g))" by (intro moves_intros)+
  from movesD [OF ma a] have "w_tables wa = w_tables w" .
  moreover from movesD [OF mu u] have "w_tables wb = w_tables wa" .
  moreover from movesD [OF ml l] have "w_tables w3 = w_tables w2" .
  moreover have "er_Epoch res = epoch"
    using BuildEpochNode_epoch ReconstructFromDB_epoch [OF r] b by (fastforce simp: g_BuildEpochNode_def)
  ultimately show ?thesis using sv c by (metis)
qed

lemma finalize_run:
  assumes "finalizeEpochInner env g epoch w = (Inr c, w')" and "gn_db g" and "rows_ok (g_network g) (w_tables w)"
  shows "(\<exists>r \<in> set (tb_epochs (w_tables w')). ew_epoch r = uint epoch \<and> ew_cid r = cid_String (o_lib env) c) \<and>
    map_of (tb_state (w_tables w')) (live_key (g_network g)) = Some (uint epoch)"
proof -
  obtain res n w1 w2 w3 where res: "er_Epoch res = epoch" "er_CID res = c" "w_tables w1 = w_tables w"
    and sv: "call_SaveEpoch env g res n epoch w1 = (Inr (), w2)" and t3: "w_tables w3 = w_tables w2"
    and st: "state_SetLastProcessedEpoch env g epoch w3 = (Inr (), w')"
    using finalize_steps [OF assms(1,2)] by blast
  from SetLast_run [OF st assms(2)] have t': "w_tables w' = set_cursor (live_key (g_network g)) (uint epoch) (w_tables w2)"
    using t3 by auto
  from sv obtain flt t where "SaveEpoch (o_lib env) flt (w_tables w1) (g_network g) res n (g_epochTime g epoch) = (Inr (), t)"
    and t2: "w_tables w2 = t"
    by (auto simp: call_SaveEpoch_def db_write_def bindP_Inr split: prod.splits)
  have "\<forall>r \<in> set (tb_epochs (w_tables w1)). ew_epoch r = int (unat (er_Epoch res)) \<longrightarrow> ew_network r = g_network g"
    using assms(3) res(3) by (simp add: rows_ok_def)
  from SaveEpoch_row [OF \<open>SaveEpoch _ _ _ _ _ _ _ = _\<close> this] obtain r where r: "r \<in> set (tb_epochs t)"
    "ew_epoch r = int (unat epoch)" "ew_cid r = cid_String (o_lib env) c"
    unfolding res(1,2) network_epochs_def by auto
  have "set (tb_epochs (w_tables w')) = set (tb_epochs t)" using t' t2 by simp
  moreover have "ew_epoch r = uint epoch" using r(2) by (simp only: uint_nat)
  moreover have "map_of (tb_state (w_tables w')) (live_key (g_network g)) = Some (uint epoch)" using t' by simp
  ultimately show ?thesis using r(1,3) by blast
qed

text \<open>
  C16. A push that is answered with 201 and asked to finalize the epoch of its blob has done so: the database has a row
  for the epoch, whose CID is the one in the reply, and no other row is lost. But the live cursor is then that epoch,
  whatever it was before: finalizing an epoch moves the cursor of the pull loop back or forward to it.
\<close>

theorem push_finalizes:
  assumes "handlePushBlob (serve_server env g render openapi) body w = (Inr rp, w')" and "rp_status rp = 201"
    and "bindR body dec_push = Inr req" and "pq_Finalize req" and "gn_db g" and "rows_ok (g_network g) (w_tables w)"
  shows "rows_ok (g_network g) (w_tables w') \<and> has_epochs (w_tables w) \<subseteq> has_epochs (w_tables w') \<and>
    (\<exists>resp. rp_body rp = BodyJson (enc_push resp) \<and> ps_Finalized resp \<and>
       (\<exists>r \<in> set (tb_epochs (w_tables w')). ew_epoch r = uint (pq_Epoch req) \<and> ew_cid r = ps_EpochCID resp)) \<and>
    map_of (tb_state (w_tables w')) (live_key (g_network g)) = Some (uint (pq_Epoch req))"
proof -
  let ?s = "serve_server env g render openapi"
  have keep: "rows_kept (g_network g) w w'" using serve.moves_push assms(1) by (rule movesD)
  have "push_process ?s req w = (Inr rp, w')"
    using assms(1-3) by (auto simp: handlePushBlob_def writeError_def json_reply_def split: sum.splits)
  from push_process_cases [OF this] assms(2,4) obtain resp w1 c where
    p: "ProcessBlobInput env g req w = (Inr resp, w1)" and f: "FinalizeEpochWithCID env g (pq_Epoch req) w1 = (Inr c, w')"
    and rp: "rp = json_reply 201 (enc_push (resp\<lparr>ps_Finalized := True, ps_EpochCID := c\<rparr>))"
    by (auto simp: serve_server_def)
  have "rows_ok (g_network g) (w_tables w1)"
    using movesD [OF moves_ProcessBlobInput p] assms(6) by (simp add: epoch_ext_def table_ext_def)
  moreover from f obtain c' where c': "finalizeEpochInner env g (pq_Epoch req) w1 = (Inr c', w')" "c = cid_String (o_lib env) c'"
    by (auto simp: FinalizeEpochWithCID_def bindP_Inr)
  ultimately show ?thesis
    using finalize_run [OF c'(1) assms(5)] keep assms(6) rp
    by (auto simp: rows_kept_def table_ext_def json_reply_def c'(2) intro!: exI [of _ "resp\<lparr>ps_Finalized := True, ps_EpochCID := c\<rparr>"])
qed

text \<open>A push that succeeds.\<close>

definition demo_bytes :: bytes where
  "demo_bytes = replicate 131072 0"

definition demo_data :: string where
  "demo_data = ''0x'' @ hex_EncodeToString demo_bytes"

definition demo_push :: "bool \<Rightarrow> BlobPushRequest" where
  "demo_push fin = \<lparr>pq_Commitment = ''0xc0'', pq_VersionedHash = ''0x01'', pq_Data = demo_data, pq_TxHash = '''',
     pq_BlockNumber = 0, pq_BlockHash = '''', pq_Slot = 2, pq_Epoch = 1, pq_Index = 0, pq_Finalize = fin\<rparr>"

definition demo_push_json :: "bool \<Rightarrow> json" where
  "demo_push_json fin = JObj [(''commitment'', JStr ''0xc0''), (''versioned_hash'', JStr ''0x01''), (''data'', JStr demo_data),
     (''slot'', JInt 2), (''epoch'', JInt 1), (''finalize'', JBool fin)]"

definition demo_push_input :: BlobInput where
  "demo_push_input = \<lparr>bi_Commitment = ''0xc0'', bi_VersionedHash = ''0x01'', bi_TxHash = '''', bi_BlockNumber = 0, bi_BlockHash = '''',
     bi_Slot = 2, bi_Epoch = 1, bi_Index = 0, bi_Data = demo_bytes, bi_Size = 0\<rparr>"

lemma demo_push_dec: "dec_push (demo_push_json fin) = Inr (demo_push fin)"
  by (simp add: demo_push_json_def demo_push_def dec_fields_def push_members_def push_member_check_def Let_def strings_ToLower_def dec_uint_def dec_goint_def
      dec_bool_def lower_char_def)

lemma length_demo_bytes: "length demo_bytes = 131072"
  by (simp only: demo_bytes_def length_replicate)

lemma demo_hex: "hexDecode demo_data = Inr demo_bytes"
  unfolding hexDecode_def demo_data_def TrimPrefix_append by simp

lemma demo_push_blob:
  "\<exists>r. ProcessBlob cid_lib BNull demo_push_input = Inr (r, BNull) \<and>
    (\<exists>p d. br_DataCID r = Cid p d) \<and> (\<exists>p d. br_MetaCID r = Cid p d)"
  by (simp add: ProcessBlob_def StoreRawBlob_def StoreBlobMetadata_def demo_store qp_docD [OF cid_lib_doc(3)] metadata_keys_distinct)

lemma demo_push_processed:
  "\<exists>resp r w1 t. ProcessBlobInput demo_outside demo_gen (demo_push fin) demo_world = (Inr resp, w1) \<and> w_tables w1 = t \<and>
     SaveBlobs cid_lib noFaults (w_tables demo_world) ''mainnet'' 1 [demo_push_input] [r] 0 12 = (Inr (), t) \<and>
     (\<exists>p d. br_DataCID r = Cid p d) \<and> (\<exists>p d. br_MetaCID r = Cid p d)"
proof -
  obtain r where r: "ProcessBlob cid_lib BNull demo_push_input = Inr (r, BNull)" "\<exists>p d. br_DataCID r = Cid p d" "\<exists>p d. br_MetaCID r = Cid p d"
    using demo_push_blob by blast
  obtain t where t: "SaveBlobs cid_lib noFaults (w_tables demo_world) ''mainnet'' 1 [demo_push_input] [r] 0 12 = (Inr (), t)"
    by (simp add: SaveBlobs_def SaveBlobs_tx_def fault_def blob_stage_row_def enc_int4_def demo_push_input_def)
  have "gn_genesisTime demo_gen = 0" "gn_secondsPerSlot demo_gen = 12" "fresh_backend demo_gen = BNull"
    by (simp_all add: fresh_backend_def) (simp_all add: demo_gen_def)
  then have "\<exists>resp w1. ProcessBlobInput demo_outside demo_gen (demo_push fin) demo_world = (Inr resp, w1) \<and> w_tables w1 = t"
    using r(1) t unfolding ProcessBlobInput_def
    by (simp add: Let_def bindP_def wrapP_def demo_push_def demo_hex demo_push_input_def call_SaveBlobs_def db_write_def ask_eq
        call_NotifyBlobs_def demo_network)
  with t r show ?thesis by blast
qed

lemma demo_push_node:
  assumes "\<exists>p d. br_MetaCID r = Cid p d"
  shows "\<exists>res bs. BuildEpochNode cid_lib (BMem NewMemBlockstore) \<lparr>ei_Epoch = 1, ei_Slot = 2, ei_Blobs = [demo_push_input]\<rparr> [r] ''mainnet'' 5000 = Inr (res, BMem bs)"
  by (simp add: BuildEpochNode_def buildMapBlobIndex_def groupByVersionedHash_def cid_lib_def demo_lib_def go_len_def
      lsys_Store_def StorageWriteCommit_def EncoderChooser_def linkProtoDagCBOR_def epoch_entries_def demo_push_input_def)

lemma demo_push_finalized:
  assumes "SaveBlobs cid_lib noFaults (w_tables demo_world) ''mainnet'' 1 [demo_push_input] [r] 0 12 = (Inr (), w_tables w1)"
    and "\<exists>p d. br_DataCID r = Cid p d" "\<exists>p d. br_MetaCID r = Cid p d"
  shows "\<exists>c w'. FinalizeEpochWithCID demo_outside demo_gen 1 w1 = (Inr c, w')"
proof -
  let ?recs = "sort_key (\<lambda>r. sint (bd_BlobIndex r)) (map (stored_record cid_lib 0 12) (zip [demo_push_input] [r]))"
  let ?inp = "\<lparr>ei_Epoch = 1, ei_Slot = 2, ei_Blobs = [demo_push_input]\<rparr>"
  have recs: "GetBlobsByEpoch noFaults (w_tables w1) ''mainnet'' 1 = Inr ?recs"
    by (rule SaveBlobs_stored [OF assms(1), THEN conjunct1])
      (simp_all add: demo_push_input_def demo_world_def schema_empty_def epoch_blobs_def)
  have "mset ?recs = mset (map (stored_record cid_lib 0 12) (zip (ei_Blobs ?inp) [r]))" by simp
  from reconstruct_build [OF cid_lib_doc(4) _ _ this, of 1 2] assms(2,3) obtain inp' results' where
    rc: "ReconstructFromDB cid_lib 1 ?recs 2 = Inr (inp', results')"
    and b: "\<forall>bs network thr. BuildEpochNode cid_lib bs inp' results' network thr = BuildEpochNode cid_lib bs ?inp [r] network thr"
    by (auto simp: EpochToFirstSlot_def)
  obtain res bs where "BuildEpochNode cid_lib (BMem NewMemBlockstore) ?inp [r] ''mainnet'' 5000 = Inr (res, BMem bs)"
    using demo_push_node [OF assms(3)] by blast
  note node = this
  with b have g: "g_BuildEpochNode demo_outside demo_gen (BMem NewMemBlockstore) inp' results' = Inr (res, BMem bs)"
    by (simp add: g_BuildEpochNode_def demo_network) (simp add: demo_gen_def)
  have "er_Epoch res = 1" using BuildEpochNode_epoch [OF node] by simp
  moreover have "gn_slotsPerEpoch demo_gen = 2" by (simp add: demo_gen_def)
  moreover have "\<exists>x. ?recs = [x]" by simp
  ultimately show ?thesis using recs rc g
    by (auto simp: FinalizeEpochWithCID_def finalizeEpochInner_def Let_def bindP_def wrapP_def db_read_def ask_eq demo_network
        uploadAndPin_def call_SaveEpoch_def db_write_def SaveEpoch_def enc_int8_def enc_int4_def fault_def go_len_def
        rebuildNetworkRoot_def logP_def tryP_def state_SetLastProcessedEpoch_def DB_SetLastProcessedEpoch_def)
qed

lemma demo_push_valid: "isOk (validateBlobRequest (demo_push fin))"
  unfolding validate_iff by (simp add: valid_push_def demo_push_def demo_hex length_demo_bytes)

theorem push_finalizes_witness:
  "\<exists>rp w'. handlePushBlob demo_server (Inr (demo_push_json True)) demo_world = (Inr rp, w') \<and> rp_status rp = 201 \<and>
     map_of (tb_state (w_tables demo_world)) (live_key ''mainnet'') = Some 4 \<and>
     map_of (tb_state (w_tables w')) (live_key ''mainnet'') = Some 1"
proof -
  obtain resp r w1 where p: "ProcessBlobInput demo_outside demo_gen (demo_push True) demo_world = (Inr resp, w1)"
    and s: "SaveBlobs cid_lib noFaults (w_tables demo_world) ''mainnet'' 1 [demo_push_input] [r] 0 12 = (Inr (), w_tables w1)"
    "\<exists>p d. br_DataCID r = Cid p d" "\<exists>p d. br_MetaCID r = Cid p d"
    using demo_push_processed by blast
  obtain c w' where f: "FinalizeEpochWithCID demo_outside demo_gen 1 w1 = (Inr c, w')" using demo_push_finalized [OF s] by blast
  have "pq_Finalize (demo_push True)" "pq_Epoch (demo_push True) = 1" by (simp_all add: demo_push_def)
  then have "handlePushBlob demo_server (Inr (demo_push_json True)) demo_world =
      (Inr (json_reply 201 (enc_push (resp\<lparr>ps_Finalized := True, ps_EpochCID := c\<rparr>))), w')"
    using p f demo_push_valid [of True] by (auto simp: handlePushBlob_def demo_push_dec push_process_def bindP_def tryP_def demo_server_def serve_server_def isOk_iff)
  then obtain rp where run: "handlePushBlob demo_server (Inr (demo_push_json True)) demo_world = (Inr rp, w')" "rp_status rp = 201"
    by (simp add: json_reply_def)
  have "map_of (tb_state (w_tables w')) (live_key (g_network demo_gen)) = Some (uint (pq_Epoch (demo_push True)))"
    using push_finalizes [OF run(1) [unfolded demo_server_def] run(2), of "demo_push True"] demo_rows_ok \<open>pq_Finalize (demo_push True)\<close>
    by (simp add: demo_push_dec demo_network)
  with run \<open>pq_Epoch (demo_push True) = 1\<close> show ?thesis by (auto simp: demo_network demo_world_def)
qed

lemma mapR_each: "mapR f xs = Inr ys \<Longrightarrow> x \<in> set xs \<Longrightarrow> \<exists>y. f x = Inr y"
  by (induction xs arbitrary: ys) (auto simp: bindR_eq_Inr)

text \<open>What a blob that was pushed without finalizing leaves in the epoch table.\<close>

lemma ProcessBlobInput_row:
  assumes "ProcessBlobInput env g req w = (Inr resp, w')" and "gn_db g" and "unat (pq_Epoch req) < 2 ^ 63"
    and "uint (pq_Epoch req) \<notin> has_epochs (w_tables w)"
  shows "\<exists>r \<in> set (tb_epochs (w_tables w')). ew_epoch r = uint (pq_Epoch req) \<and> ew_network r = g_network g \<and> ew_cid r = ''''"
proof -
  let ?same = "\<lambda>w w'. w_tables w' = w_tables w"
  from assms(1,2) obtain inp result bs w1 w2 refs where
    u: "(case backend_mem bs of None \<Rightarrow> returnP () | Some blobBS \<Rightarrow> wrapP ''upload blob to ipfs'' (call_PutBlockstore env g blobBS)) w = (Inr (), w1)"
    and sv: "call_SaveBlobs env g (pq_Epoch req) [inp] [result] w1 = (Inr (), w2)"
    and n: "call_NotifyBlobs env g refs w2 = (Inr (), w')"
    unfolding ProcessBlobInput_def Let_def by (auto simp: bindP_Inr)
  have mu: "moves ?same (case backend_mem bs of None \<Rightarrow> returnP () | Some blobBS \<Rightarrow> wrapP ''upload blob to ipfs'' (call_PutBlockstore env g blobBS))"
    and mn: "moves ?same (call_NotifyBlobs env g refs)" by (intro moves_intros)+
  from movesD [OF mu u] movesD [OF mn n] have t: "w_tables w1 = w_tables w" "w_tables w' = w_tables w2" .
  from sv obtain flt t2 where "SaveBlobs (o_lib env) flt (w_tables w1) (g_network g) (pq_Epoch req) [inp] [result] (gn_genesisTime g) (gn_secondsPerSlot g) = (Inr (), t2)"
    "w_tables w2 = t2" by (auto simp: call_SaveBlobs_def db_write_def bindP_Inr split: prod.splits)
  with SaveBlobs_ok [OF this(1)] t have e: "tb_epochs (w_tables w') =
      upsert ew_epoch (\<lambda>old _. old) (placeholder_row (g_network g) (pq_Epoch req)) (tb_epochs (w_tables w))" by auto
  have ep: "sint (pq_Epoch req) = uint (pq_Epoch req)" unfolding sint_eq_unat [OF assms(3)] by (simp only: uint_nat)
  have "placeholder_row (g_network g) (pq_Epoch req) \<in> set (tb_epochs (w_tables w'))"
    using assms(4) ep unfolding e by (auto simp: upsert_def has_epochs_def placeholder_row_def image_iff)
  then show ?thesis using ep by (auto simp: placeholder_row_def intro!: bexI)
qed

text \<open>What such a row does, as long as it is there.\<close>

definition placeholder_at :: "string \<Rightarrow> uint64 \<Rightarrow> world \<Rightarrow> bool" where
  "placeholder_at n epoch w \<longleftrightarrow>
     (\<exists>r \<in> set (tb_epochs (w_tables w)). ew_epoch r = uint epoch \<and> ew_network r = n \<and> ew_cid r = '''')"

lemma placeholder_skipped:
  assumes "placeholder_at (g_network g) epoch w" and "gn_db g" "unat epoch < 2 ^ 63" "\<forall>k. o_db env k = noFaults"
  shows "fst (worker_body env g epoch w) = Inr (newBuiltEpoch epoch\<lparr>be_skip := True\<rparr>)"
proof -
  have "EpochExists noFaults (w_tables w) (g_network g) epoch = Inr True"
    using assms(1,3) by (auto simp: EpochExists_def enc_int8_def fault_def placeholder_at_def)
  then show ?thesis using assms(2,4) by (simp add: worker_body_def bindP_def wrapP_def db_read_def ask_eq)
qed

lemma placeholder_breaks_root:
  assumes "placeholder_at (g_network g) epoch w" and "gn_db g" "\<forall>k. o_db env k = noFaults"
    and "cid_Decode (o_lib env) '''' = Inl err" and "gn_ipfs g \<noteq> None"
  shows "\<not> isOk (fst (rebuildNetworkRoot env g w))"
proof
  assume "isOk (fst (rebuildNetworkRoot env g w))"
  then obtain u w2 where "rebuildNetworkRoot env g w = (Inr u, w2)" by (metis isOk_iff prod.collapse)
  with assms(2,3,5) obtain recs es where recs: "GetAllEpochs noFaults (w_tables w) (g_network g) = Inr recs"
    and es: "mapR (root_epoch (o_lib env)) recs = Inr es"
    by (auto simp: rebuildNetworkRoot_def bindP_Inr db_read_def)
  have "\<exists>x. x \<in> set recs \<and> rec_CID x = ''''"
    using GetAllEpochs_records [OF recs, THEN conjunct1] assms(1) by (force simp: network_epochs_def placeholder_at_def)
  then obtain x where x: "x \<in> set recs" "rec_CID x = ''''" by blast
  from mapR_each [OF es x(1)] x(2) assms(4) show False by (auto simp: root_epoch_def bindR_eq_Inr)
qed

text \<open>
  C17. A blob that is pushed for a new epoch without finalizing it leaves a placeholder row with an empty CID. In every
  later state that still has such a row (it stays until the epoch is finalized or saved) the backfill takes the
  epoch for done and skips it; and, when an IPFS client is configured (without one no network root is built), every
  rebuild of the network root fails on the empty CID, which the CID library does not decode. Stated for a database that
  answers without faults, and an epoch number that fits the column.
\<close>

theorem push_hides_epoch:
  assumes "handlePushBlob (serve_server env g render openapi) body w = (Inr rp, w')" and "rp_status rp = 201"
    and "bindR body dec_push = Inr req" and "\<not> pq_Finalize req" and "gn_db g"
    and "unat (pq_Epoch req) < 2 ^ 63" and "uint (pq_Epoch req) \<notin> has_epochs (w_tables w)"
    and "\<forall>k. o_db env k = noFaults" and "cid_Decode (o_lib env) '''' = Inl err"
  shows "placeholder_at (g_network g) (pq_Epoch req) w' \<and>
    (\<forall>w2. placeholder_at (g_network g) (pq_Epoch req) w2 \<longrightarrow>
       fst (worker_body env g (pq_Epoch req) w2) = Inr (newBuiltEpoch (pq_Epoch req)\<lparr>be_skip := True\<rparr>) \<and>
       (gn_ipfs g \<noteq> None \<longrightarrow> \<not> isOk (fst (rebuildNetworkRoot env g w2))))"
proof -
  have "push_process (serve_server env g render openapi) req w = (Inr rp, w')"
    using assms(1-3) by (auto simp: handlePushBlob_def writeError_def json_reply_def split: sum.splits)
  from push_process_cases [OF this] assms(2,4) obtain resp where p: "ProcessBlobInput env g req w = (Inr resp, w')"
    by (auto simp: serve_server_def)
  have "placeholder_at (g_network g) (pq_Epoch req) w'"
    using ProcessBlobInput_row [OF p assms(5-7)] by (simp add: placeholder_at_def)
  then show ?thesis
    using placeholder_skipped [OF _ assms(5,6,8)] placeholder_breaks_root [OF _ assms(5,8,9)] by blast
qed

text \<open>The demonstration with an IPFS client: the two blocks of a blob are uploaded.\<close>

definition demo_ipfs_env :: outside where
  "demo_ipfs_env = demo_outside\<lparr>o_uploadOrder := \<lambda>_. [1, 0]\<rparr>"

definition demo_ipfs_server_gen :: Generator where
  "demo_ipfs_server_gen = demo_gen\<lparr>gn_ipfs := Some demo_ipfs\<rparr>"

lemma demo_ipfs_blob:
  "\<exists>r m. ProcessBlob cid_lib (BMem NewMemBlockstore) demo_push_input = Inr (r, BMem m) \<and> length (Mem_All m) = 2"
proof -
  have st: "lsys_Store cid_lib bs linkProtoRaw (NBytes raw) =
      Inr (Cid linkProtoRaw raw, backend_add bs \<lparr>blkCid = Cid linkProtoRaw raw, blkData = raw\<rparr>)"
    "lsys_Store cid_lib bs linkProtoDagCBOR n =
      Inr (Cid linkProtoDagCBOR [], backend_add bs \<lparr>blkCid = Cid linkProtoDagCBOR [], blkData = []\<rparr>)" for bs raw n
    by (simp_all add: lsys_Store_def StorageWriteCommit_def EncoderChooser_def cid_lib_def demo_lib_def linkProtoRaw_def
        linkProtoDagCBOR_def)
  have "linkProtoDagCBOR \<noteq> linkProtoRaw" by (simp add: linkProtoRaw_def linkProtoDagCBOR_def)
  then show ?thesis
    by (simp add: ProcessBlob_def StoreRawBlob_def StoreBlobMetadata_def st qp_docD [OF cid_lib_doc(3)] metadata_keys_distinct
        NewMemBlockstore_def Mem_All_def)
qed

lemma demo_ipfs_push:
  "\<exists>resp w1. ProcessBlobInput demo_ipfs_env demo_ipfs_server_gen (demo_push fin) demo_world = (Inr resp, w1)"
proof -
  obtain r m where r: "ProcessBlob cid_lib (BMem NewMemBlockstore) demo_push_input = Inr (r, BMem m)" "length (Mem_All m) = 2"
    using demo_ipfs_blob by blast
  have "mset [1 :: nat, 0] = mset [0..<length (Mem_All m)]" by (simp add: r(2) numeral_2_eq_2)
  from PutBlockstore_accepts [OF this, of cid_lib demo_ipfs "\<lambda>i. demo_http"]
  have up: "fst (PutBlockstore cid_lib demo_ipfs (\<lambda>i. demo_http) [1, 0] m) = Inr ()" by (simp add: demo_http_put)
  then obtain acc where up': "PutBlockstore cid_lib demo_ipfs (\<lambda>i. demo_http) [1, 0] m = (Inr (), acc)" by (metis prod.collapse)
  have t: "\<exists>t. SaveBlobs cid_lib noFaults (w_tables demo_world) ''mainnet'' 1 [demo_push_input] [r] 0 12 = (Inr (), t)"
    by (simp add: SaveBlobs_def SaveBlobs_tx_def fault_def blob_stage_row_def enc_int4_def demo_push_input_def)
  have g: "fresh_backend demo_ipfs_server_gen = BMem NewMemBlockstore" "gn_ipfs demo_ipfs_server_gen = Some demo_ipfs"
    "gn_db demo_ipfs_server_gen" "g_network demo_ipfs_server_gen = ''mainnet''"
    "gn_genesisTime demo_ipfs_server_gen = 0" "gn_secondsPerSlot demo_ipfs_server_gen = 12"
    by (simp_all add: demo_ipfs_server_gen_def fresh_backend_def g_network_def) (simp_all add: demo_gen_def zeroConfig_def)
  have o: "o_lib demo_ipfs_env = cid_lib" "o_db demo_ipfs_env k = noFaults" "o_uploadOrder demo_ipfs_env k = [1, 0]"
    "o_upload demo_ipfs_env k = (\<lambda>i. demo_http)" for k
    by (simp_all add: demo_ipfs_env_def) (simp add: demo_outside_def)
  show ?thesis
    using r(1) t up' unfolding ProcessBlobInput_def
    by (auto simp: Let_def bindP_def wrapP_def demo_push_def demo_hex demo_push_input_def call_SaveBlobs_def db_write_def ask_eq
        call_NotifyBlobs_def call_PutBlockstore_def g o)
qed

theorem push_hides_epoch_witness:
  "\<exists>rp w'. handlePushBlob (serve_server demo_ipfs_env demo_ipfs_server_gen (\<lambda>_. json_reply 200 JNull) '''')
       (Inr (demo_push_json False)) demo_world = (Inr rp, w') \<and> rp_status rp = 201 \<and>
     placeholder_at ''mainnet'' 1 w' \<and>
     fst (worker_body demo_ipfs_env demo_ipfs_server_gen 1 w') = Inr (newBuiltEpoch 1\<lparr>be_skip := True\<rparr>) \<and>
     \<not> isOk (fst (rebuildNetworkRoot demo_ipfs_env demo_ipfs_server_gen w'))"
proof -
  let ?s = "serve_server demo_ipfs_env demo_ipfs_server_gen (\<lambda>_. json_reply 200 JNull) ''''"
  obtain resp w1 where p: "ProcessBlobInput demo_ipfs_env demo_ipfs_server_gen (demo_push False) demo_world = (Inr resp, w1)"
    using demo_ipfs_push by blast
  have f: "\<not> pq_Finalize (demo_push False)" "pq_Epoch (demo_push False) = 1" by (simp_all add: demo_push_def)
  then have "handlePushBlob ?s (Inr (demo_push_json False)) demo_world = (Inr (json_reply 201 (enc_push resp)), w1)"
    using p demo_push_valid [of False]
    by (auto simp: handlePushBlob_def demo_push_dec push_process_def bindP_def tryP_def serve_server_def isOk_iff)
  then obtain rp where run: "handlePushBlob ?s (Inr (demo_push_json False)) demo_world = (Inr rp, w1)" "rp_status rp = 201"
    by (simp add: json_reply_def)
  have env: "cid_Decode (o_lib demo_ipfs_env) '''' = Inl (Errorf ''invalid cid'')" "\<forall>k. o_db demo_ipfs_env k = noFaults"
    by (simp_all add: demo_ipfs_env_def cid_lib_def demo_cid_Decode_def)
  have g: "gn_db demo_ipfs_server_gen" "gn_ipfs demo_ipfs_server_gen \<noteq> None" "g_network demo_ipfs_server_gen = ''mainnet''"
    by (simp_all add: demo_ipfs_server_gen_def g_network_def) (simp add: demo_gen_def zeroConfig_def)
  have "uint (pq_Epoch (demo_push False)) \<notin> has_epochs (w_tables demo_world)"
    by (simp add: has_epochs_def demo_world_def schema_empty_def)
  with push_hides_epoch [OF run, of "demo_push False" "Errorf ''invalid cid''"] f env g
  have "placeholder_at ''mainnet'' 1 w1" and "\<forall>w2. placeholder_at ''mainnet'' 1 w2 \<longrightarrow>
      fst (worker_body demo_ipfs_env demo_ipfs_server_gen 1 w2) = Inr (newBuiltEpoch 1\<lparr>be_skip := True\<rparr>) \<and>
      \<not> isOk (fst (rebuildNetworkRoot demo_ipfs_env demo_ipfs_server_gen w2))"
    by (simp_all add: demo_push_dec)
  with run show ?thesis by blast
qed

section \<open>Labels of the requests\<close>

text \<open>The statuses that the routes of the server answer with; \<open>render\<close> is the metrics library's handler.\<close>

abbreviation statuses :: "nat set" where
  "statuses \<equiv> {200, 201, 400, 404, 405, 500, 503}"

lemma mux_status:
  assumes "mux (serve_server env g render openapi) r w = (Inr rp, w')" and "\<forall>snap. rp_status (render snap) \<in> {200, 500}"
  shows "rp_status rp \<in> statuses"
proof -
  let ?s = "serve_server env g render openapi"
  have push: "rp_status rp \<in> statuses" if "handlePushBlob ?s b w = (Inr rp, w')" for b using push_status [OF that] by auto
  have ready: "rp_status rp \<in> statuses" if "handleReady ?s w = (Inr rp, w')"
  proof -
    from that obtain res :: "unit res" where "rp = (case res of
        Inl err \<Rightarrow> json_reply 503 (JObj [(''error'', JStr (error_text err)), (''status'', JStr ''unhealthy'')])
      | Inr _ \<Rightarrow> json_reply 200 (JObj [(''status'', JStr ''ok'')]))"
      unfolding handleReady_def serve_server_def by (simp add: bindP_Inr) metis
    then show ?thesis by (cases res) (simp_all add: json_reply_def)
  qed
  have metrics: "rp_status rp \<in> statuses" if "handleMetrics ?s w = (Inr rp, w')"
    using that assms(2) by (force simp: handleMetrics_def serve_server_def bindP_Inr)
  show ?thesis
    using assms(1) push ready metrics
    by (auto simp: mux_def handleHealth_def handleOpenAPISpec_def handleSwaggerUI_def json_reply_def split: option.splits if_splits)
qed

lemma status_text:
  "fmt_nat 200 = ''200''" "fmt_nat 201 = ''201''" "fmt_nat 400 = ''400''" "fmt_nat 404 = ''404''" "fmt_nat 405 = ''405''"
  "fmt_nat 500 = ''500''" "fmt_nat 503 = ''503''"
  by code_simp+

lemma status_texts: "fmt_nat ` statuses = {''200'', ''201'', ''400'', ''404'', ''405'', ''500'', ''503''}"
  by (simp only: image_insert image_empty status_text)

text \<open>The labels of one request.\<close>

definition route_labels :: "string set" where
  "route_labels = {''/blob'', ''/healthz'', ''/readyz'', ''/openapi.json'', ''/docs'', ''/metrics'', ''other''}"

lemma method_label: "methodLabel m \<in> {''GET'', ''POST'', ''other''}"
  by (auto simp: methodLabel_def knownMethods_def)

lemma route_label: "routeLabel p \<in> route_labels"
  by (auto simp: routeLabel_def knownRoutes_def route_labels_def)

lemma serve_labels:
  assumes "ServeHTTP (serve_server env g render openapi) observe r v = (Inr (rp, o'), v')" and "\<forall>snap. rp_status (render snap) \<in> {200, 500}"
  shows "length o' \<le> (if observe then 1 else 0) \<and> set o' \<subseteq> {''GET'', ''POST'', ''other''} \<times> route_labels \<times> fmt_nat ` statuses"
proof -
  from assms(1) obtain v1 where m: "mux (serve_server env g render openapi) r v = (Inr rp, v1)"
    and o': "o' = (if observe then [(methodLabel (hq_method r), routeLabel (hq_path r), fmt_nat (rp_status rp))] else [])"
    unfolding ServeHTTP_def logRequests_def bindP_Inr by auto
  have "fmt_nat (rp_status rp) \<in> fmt_nat ` statuses" using mux_status [OF m assms(2)] by (rule imageI)
  with method_label [of "hq_method r"] route_label [of "hq_path r"] show ?thesis
    unfolding o' by (cases observe) (simp_all only: if_True if_False list.size list.set empty_subsetI insert_subset mem_Sigma_iff, simp_all)
qed



end
