(* ===== verification/Service.thy ===== *)
theory Service
  imports Run Api
begin

text \<open>
  The service that \<^verbatim>\<open>run\<close> and \<^verbatim>\<open>serve -pull\<close> of \<^verbatim>\<open>cmd/blobscan-ipld/main.go\<close> start: the two goroutines of \<^verbatim>\<open>Generator.Run\<close>
  beside the HTTP server, on one world. A request is one step; the server may handle it between any two steps of the
  goroutines.
\<close>

section \<open>Start and end\<close>

text \<open>\<^verbatim>\<open>cmdRun\<close> up to the blocking part of \<^verbatim>\<open>Run\<close>, and the exit code after it.\<close>

definition cmdRun_start :: "outside \<Rightarrow> Config \<Rightarrow> (Generator \<times> run_plan) prog" where
  "cmdRun_start env cfg =
     bindP (wrapP ''failed to create generator'' (New env cfg)) (\<lambda>gen.
     bindP (wrapP ''generator exited with error'' (Run_plan env gen)) (\<lambda>plan.
       returnP (gen, plan)))"

definition run_exit :: "error \<Rightarrow> nat" where
  "run_exit err = (if errors_Is err ErrCanceled then 0 else 1)"

text \<open>
  \<^verbatim>\<open>Server.ListenAndServe\<close>: a regular shutdown is no error. \<^verbatim>\<open>cmdServe\<close> ends with status 0 when the context is canceled
  (\<^term>\<open>None\<close>) or the server has shut down, with 1 when it cannot listen.
\<close>

definition ErrServerClosed :: error where
  "ErrServerClosed = Errorf ''http: Server closed''"

definition ListenAndServe :: "unit res \<Rightarrow> unit res" where
  "ListenAndServe r =
     (case r of Inl e \<Rightarrow> if e \<noteq> ErrServerClosed then Inl (Wrap ''api: listen'' e) else Inr () | Inr _ \<Rightarrow> Inr ())"

definition serve_listen :: "Config \<Rightarrow> string" where
  "serve_listen cfg = (let listen = gc_APIListen (cf_Generator cfg) in if listen = '''' then '':8080'' else listen)"

definition serve_exit :: "unit res option \<Rightarrow> nat" where
  "serve_exit stopped = (case stopped of None \<Rightarrow> 0 | Some r \<Rightarrow> if isOk (ListenAndServe r) then 0 else 1)"

section \<open>Steps\<close>

inductive sstep :: "outside \<Rightarrow> Generator \<Rightarrow> uint64 \<Rightarrow> Server \<Rightarrow> run \<Rightarrow> run \<Rightarrow> bool" for env g target srv where
  pull: "rstep env g target s s' \<Longrightarrow> sstep env g target srv s s'"
| request: "ServeHTTP srv observe r (run_world s) = (reply, w1) \<Longrightarrow> sstep env g target srv s (with_world w1 s)"

section \<open>The backfill is safe beside the server\<close>

lemma back_inv_sstep:
  assumes "sstep env g target (serve_server env g render openapi) s s'" and "back_inv g start target t0 (rn_pipe s)"
    and "gn_db g" and "target < maxUint64"
  shows "back_inv g start target t0 (rn_pipe s')"
  using assms(1)
proof cases
  case pull
  then show ?thesis using assms(2-4) by (rule back_inv_rstep)
next
  case (request observe r reply w1)
  from movesD [OF serve.moves_serve request(2)] request(1) assms(2) show ?thesis by (simp add: with_world_def back_inv_world)
qed

text \<open>
  C3. The service with its HTTP server (\<^verbatim>\<open>serve -pull\<close>): the backfill, the live loop and requests of any clients interleave in any
  way, with failures, retries and a cancellation. In every state they reach the tables are consistent, no row of an epoch is lost, and the
  backfill cursor marks the end of a range of epochs from the start of the backfill, each of which has a row; no request moves it. (The live
  cursor has no such guarantee here: a push that finalizes its epoch sets it to that epoch.)
\<close>

theorem serve_safe:
  assumes "Run_plan env g w0 = (Inr (Parallel (Some (start, target))), w)" and "gn_db g" and "rows_ok (g_network g) (w_tables w0)"
    and "map_of (tb_state (w_tables w)) (live_key (g_network g)) = Some v" and "v \<in> bigint"
    and "(sstep env g target (serve_server env g render openapi))\<^sup>*\<^sup>* (run_start g start w) s"
  shows "rows_ok (g_network g) (w_tables (run_world s)) \<and> has_epochs (w_tables w0) \<subseteq> has_epochs (w_tables (run_world s)) \<and>
    (\<exists>m. start \<le> m \<and> (\<forall>e. start \<le> e \<and> e < m \<longrightarrow> uint e \<in> has_epochs (w_tables (run_world s))) \<and>
         map_of (tb_state (w_tables (run_world s))) (backfill_key (g_network g)) =
           (if m = start then map_of (tb_state (w_tables w0)) (backfill_key (g_network g)) else Some (uint m - 1)))"
proof -
  note plan = Run_plan_range [OF assms(1,2,4,5)]
  have ok: "rows_ok (g_network g) (w_tables w)" and same: "has_epochs (w_tables w) = has_epochs (w_tables w0)"
    using plan assms(3) by (simp_all add: has_epochs_def)
  have lt: "target < maxUint64" using plan plan_below(2) by blast
  have "back_inv g start target (w_tables w) (rn_pipe s)"
    using assms(6)
  proof induction
    case base
    show ?case using back_inv_start [OF ok] by (simp add: run_start_def)
  next
    case (step y z)
    show ?case by (rule back_inv_sstep [OF step(2,3) assms(2) lt])
  qed
  from back_inv_now [OF this] plan same show ?thesis by (auto simp: attempted_def)
qed

theorem serve_safe_witness:
  "\<exists>w s. Run_plan demo_outside demo_gen demo_world = (Inr (Parallel (Some (0, 3))), w) \<and>
     (sstep demo_outside demo_gen 3 demo_server)\<^sup>*\<^sup>* (run_start demo_gen 0 w) s \<and>
     pl_work (rn_pipe s) = [0] \<and> rows_ok ''mainnet'' (w_tables (run_world s))"
proof -
  obtain w where w: "Run_plan demo_outside demo_gen demo_world = (Inr (Parallel (Some (0, 3))), w)"
    "map_of (tb_state (w_tables w)) (live_key ''mainnet'') = Some 4" using demo_plan by blast
  let ?srv = demo_server and ?s0 = "run_start demo_gen 0 w"
  let ?s1 = "?s0\<lparr>rn_pipe := (rn_pipe ?s0)\<lparr>pl_work := pl_work (rn_pipe ?s0) @ [0], pl_disp := DNext (0 + 1)\<rparr>\<rparr>"
  obtain reply w1 where h: "ServeHTTP ?srv True \<lparr>hq_method = ''GET'', hq_path = ''/health'', hq_body = Inr JNull\<rparr> (run_world ?s1) = (reply, w1)"
    by fastforce
  have "sstep demo_outside demo_gen 3 ?srv ?s0 ?s1"
    by (intro sstep.pull rstep.back_step pstep.dispatch_send) (simp_all add: run_start_def pipeline_start_def demo_workers)
  moreover have "sstep demo_outside demo_gen 3 ?srv ?s1 (with_world w1 ?s1)" using h by (rule sstep.request)
  ultimately have run: "(sstep demo_outside demo_gen 3 ?srv)\<^sup>*\<^sup>* ?s0 (with_world w1 ?s1)"
    by (meson converse_rtranclp_into_rtranclp rtranclp.rtrancl_refl)
  have "rows_ok ''mainnet'' (w_tables (run_world (with_world w1 ?s1)))"
    using serve_safe [OF w(1) _ _ _ _ run [unfolded demo_server_def], of 4] w(2) demo_rows_ok by (simp add: demo_network bigint_def)
  with w(1) run show ?thesis
    by (intro exI [of _ w] exI [of _ "with_world w1 ?s1"]) (simp add: run_start_def pipeline_start_def with_world_def)
qed

end
