(* ===== verification/Refs.thy ===== *)
theory Refs
  imports Commands
begin

text \<open>
  The export of the blob references of \<^verbatim>\<open>cmd/blobscan-ipld/main.go\<close>: the writer of PostgreSQL's binary COPY format
  (\<^verbatim>\<open>pgBinaryCopyWriter\<close>), the CSV output (the part of \<^verbatim>\<open>encoding/csv\<close> that the command uses) and
  \<^verbatim>\<open>cmdExportBlobRefs\<close>. Beside them stand readers of the two formats, written from the description of the formats, to
  state that what was written can be read back. The import instructions that the command prints at the end are in
  \<open>Startup\<close>.
\<close>

section \<open>The output\<close>

text \<open>
  A file or the standard output: the bytes written so far, and where it fails (\<open>Some (k, e)\<close>: it takes \<open>k\<close> bytes and
  answers \<open>e\<close> when it is given more).
\<close>

record out_file =
  of_bytes :: bytes
  of_limit :: "(nat \<times> error) option"

type_synonym 'a io = "out_file \<Rightarrow> 'a res \<times> out_file"

definition io_Write :: "bytes \<Rightarrow> unit io" where
  "io_Write b f =
     (case of_limit f of
        None \<Rightarrow> (Inr (), f\<lparr>of_bytes := of_bytes f @ b\<rparr>)
      | Some (k, e) \<Rightarrow>
          if length (of_bytes f @ b) \<le> k then (Inr (), f\<lparr>of_bytes := of_bytes f @ b\<rparr>)
          else (Inl e, f\<lparr>of_bytes := take k (of_bytes f @ b)\<rparr>))"

definition thenW :: "unit io \<Rightarrow> unit io \<Rightarrow> unit io" where
  "thenW m n f = (case m f of (Inl e, f') \<Rightarrow> (Inl e, f') | (Inr _, f') \<Rightarrow> n f')"

definition wrapW :: "string \<Rightarrow> unit io \<Rightarrow> unit io" where
  "wrapW s m f = (case m f of (r, f') \<Rightarrow> (wrapR s r, f'))"

fun eachW :: "('a \<Rightarrow> unit io) \<Rightarrow> 'a list \<Rightarrow> unit io" where
  "eachW g [] f = (Inr (), f)"
| "eachW g (x # xs) f = thenW (g x) (eachW g xs) f"

definition string_bytes :: "string \<Rightarrow> bytes" where
  "string_bytes s = map (\<lambda>c. word_of_nat (of_char c)) s"

definition bytes_string :: "bytes \<Rightarrow> string" where
  "bytes_string b = map (\<lambda>x. char_of (unat x)) b"

section \<open>Binary COPY\<close>

definition BigEndian_PutUint16 :: "16 word \<Rightarrow> bytes" where
  "BigEndian_PutUint16 v = [ucast (drop_bit 8 v), ucast v]"

definition BigEndian_PutUint32 :: "32 word \<Rightarrow> bytes" where
  "BigEndian_PutUint32 v = [ucast (drop_bit 24 v), ucast (drop_bit 16 v), ucast (drop_bit 8 v), ucast v]"

definition pg_header :: bytes where
  "pg_header = string_bytes ''PGCOPY'' @ [0x0a, 0xff, 0x0d, 0x0a, 0x00] @ [0, 0, 0, 0] @ [0, 0, 0, 0]"

definition newPGBinaryCopyWriter :: "unit io" where
  "newPGBinaryCopyWriter = io_Write pg_header"

definition write_field :: "string \<Rightarrow> unit io" where
  "write_field f = thenW (io_Write (BigEndian_PutUint32 (word_of_nat (length f)))) (io_Write (string_bytes f))"

definition writeRow :: "string list \<Rightarrow> unit io" where
  "writeRow flds = thenW (io_Write (BigEndian_PutUint16 (word_of_nat (length flds)))) (eachW write_field flds)"

definition pg_close :: "unit io" where
  "pg_close = io_Write [0xff, 0xff]"

section \<open>CSV\<close>

text \<open>
  The first character of a field that \<^verbatim>\<open>unicode.IsSpace\<close> accepts, in UTF-8.
\<close>

definition space_prefixes :: "bytes list" where
  "space_prefixes =
     [[0x09], [0x0a], [0x0b], [0x0c], [0x0d], [0x20], [0xc2, 0x85], [0xc2, 0xa0], [0xe1, 0x9a, 0x80]] @
     map (\<lambda>b. [0xe2, 0x80, b]) [0x80, 0x81, 0x82, 0x83, 0x84, 0x85, 0x86, 0x87, 0x88, 0x89, 0x8a, 0xa8, 0xa9, 0xaf] @
     [[0xe2, 0x81, 0x9f], [0xe3, 0x80, 0x80]]"

definition fieldNeedsQuotes :: "bytes \<Rightarrow> bool" where
  "fieldNeedsQuotes field \<longleftrightarrow>
     field \<noteq> [] \<and>
     (field = string_bytes [CHR 0x5C, CHR ''.''] \<or> (\<exists>c \<in> set field. c \<in> {0x0a, 0x0d, 0x22, 0x2c}) \<or>
      (\<exists>p \<in> set space_prefixes. take (length p) field = p))"

definition csv_field :: "string \<Rightarrow> bytes" where
  "csv_field s =
     (let field = string_bytes s
      in if fieldNeedsQuotes field
         then [0x22] @ concat (map (\<lambda>c. if c = 0x22 then [0x22, 0x22] else [c]) field) @ [0x22]
         else field)"

fun csv_fields :: "string list \<Rightarrow> bytes" where
  "csv_fields [] = []"
| "csv_fields [f] = csv_field f"
| "csv_fields (f # fs) = csv_field f @ [0x2c] @ csv_fields fs"

definition csv_Write :: "string list \<Rightarrow> bytes" where
  "csv_Write record = csv_fields record @ [0x0a]"

section \<open>The command\<close>

definition ref_fields :: "bool \<Rightarrow> BlobRef \<Rightarrow> string list" where
  "ref_fields includeMeta ref =
     [rf_VersionedHash ref, ''ipfs'', rf_DataCID ref] @ (if includeMeta then [rf_MetaCID ref] else [])"

definition ref_header :: "bool \<Rightarrow> string list" where
  "ref_header includeMeta = [''blob_hash'', ''storage'', ''data_reference''] @ (if includeMeta then [''meta_reference''] else [])"

definition write_binary :: "bool \<Rightarrow> BlobRef list \<Rightarrow> unit io" where
  "write_binary includeMeta refs =
     thenW (wrapW ''failed to write binary header'' newPGBinaryCopyWriter)
       (thenW (eachW (\<lambda>ref. wrapW ''failed to write binary row'' (writeRow (ref_fields includeMeta ref))) refs)
          (wrapW ''failed to write binary trailer'' pg_close))"

text \<open>
  \<^verbatim>\<open>csv.Writer\<close> buffers its output, so a failing output shows at the row whose bytes fill the buffer or at \<^verbatim>\<open>Flush\<close>; in
  either case the command ends with the error. The model names one message for all.
\<close>

definition write_csv :: "bool \<Rightarrow> BlobRef list \<Rightarrow> unit io" where
  "write_csv includeMeta refs =
     wrapW ''CSV write error'' (io_Write (concat (map csv_Write (ref_header includeMeta # map (ref_fields includeMeta) refs))))"

text \<open>The epochs and the references; \<^verbatim>\<open>os.Exit(1)\<close> is an error.\<close>

definition query_refs :: "outside \<Rightarrow> Config \<Rightarrow> uint64 \<Rightarrow> uint64 \<Rightarrow> BlobRef list prog" where
  "query_refs env cfg fromEpoch toEpoch =
     bindP (open_db env cfg ''export-blob-refs: POSTGRES_DSN is required'') (\<lambda>_.
     bindP (if toEpoch = 0
            then wrapP ''failed to query max epoch'' (db_read env (\<lambda>flt t. GetMaxEpoch flt t (cfg_network cfg)))
            else returnP toEpoch) (\<lambda>toEpoch.
       wrapP ''failed to query blob refs'' (db_read env (\<lambda>flt t. GetBlobRefs flt t (cfg_network cfg) fromEpoch toEpoch))))"

text \<open>\<open>create\<close>: the outcome of \<^verbatim>\<open>os.Create\<close>; \<open>None\<close> when the references go to the standard output.\<close>

definition cmdExportBlobRefs ::
  "outside \<Rightarrow> Config \<Rightarrow> uint64 \<Rightarrow> uint64 \<Rightarrow> bool \<Rightarrow> bool \<Rightarrow> unit res option \<Rightarrow> out_file \<Rightarrow> world \<Rightarrow> (unit res \<times> out_file) \<times> world" where
  "cmdExportBlobRefs env cfg fromEpoch toEpoch includeMeta binary create out w =
     (case query_refs env cfg fromEpoch toEpoch w of
        (Inl e, w') \<Rightarrow> ((Inl e, out), w')
      | (Inr refs, w') \<Rightarrow>
          (let write = (if binary then write_binary includeMeta refs else write_csv includeMeta refs)
           in (case create of
                 None \<Rightarrow> (write out, w')
               | Some (Inl e) \<Rightarrow> ((Inl (wrapErr ''failed to create output file'' e), out), w')
               | Some (Inr _) \<Rightarrow> (write (out\<lparr>of_bytes := []\<rparr>), w'))))"

section \<open>Reading the formats\<close>

fun be_nat :: "bytes \<Rightarrow> nat" where
  "be_nat bs = fold (\<lambda>b n. n * 256 + unat b) bs 0"

fun pg_read_fields :: "nat \<Rightarrow> bytes \<Rightarrow> (string list \<times> bytes) option" where
  "pg_read_fields 0 bs = Some ([], bs)"
| "pg_read_fields (Suc n) bs =
     (let len = be_nat (take 4 bs); rest = drop 4 bs
      in if length bs < 4 \<or> 2 ^ 31 \<le> len \<or> length rest < len then None
         else map_option (\<lambda>(fs, r). (bytes_string (take len rest) # fs, r)) (pg_read_fields n (drop len rest)))"

text \<open>
  A tuple with its field count, until the trailer of two \<open>0xff\<close>. A negative count other than the trailer is an error.
\<close>

lemma pg_read_fields_length: "pg_read_fields n bs = Some (fs, r) \<Longrightarrow> length r \<le> length bs"
proof (induction n arbitrary: bs fs)
  case (Suc n)
  let ?len = "be_nat (take 4 bs)"
  from Suc.prems obtain fs' where "pg_read_fields n (drop ?len (drop 4 bs)) = Some (fs', r)"
    by (auto simp: Let_def split: if_splits simp del: be_nat.simps)
  from Suc.IH [OF this] show ?case by simp
qed simp

function pg_read_rows :: "bytes \<Rightarrow> string list list option" where
  "pg_read_rows bs =
     (if length bs < 2 then None
      else let n = be_nat (take 2 bs)
           in if n = 2 ^ 16 - 1 then (if drop 2 bs = [] then Some [] else None)
              else if 2 ^ 15 \<le> n then None
              else (case pg_read_fields n (drop 2 bs) of
                      None \<Rightarrow> None
                    | Some (row, r) \<Rightarrow> map_option ((#) row) (pg_read_rows r)))"
  by pat_completeness auto
termination
proof (relation "measure length")
  fix bs :: bytes and n p row r
  assume "\<not> length bs < 2" "pg_read_fields n (drop 2 bs) = Some p" "(row, r) = p"
  then show "(r, bs) \<in> measure length" using pg_read_fields_length [of n "drop 2 bs" row r] by simp
qed simp

declare pg_read_rows.simps [simp del] be_nat.simps [simp del]

definition pg_read :: "bytes \<Rightarrow> string list list option" where
  "pg_read bs = (if take (length pg_header) bs = pg_header then pg_read_rows (drop (length pg_header) bs) else None)"

text \<open>
  A CSV field: after an opening quote up to a quote that is not doubled, otherwise up to a comma or a line end.
\<close>

fun csv_unquote :: "bytes \<Rightarrow> (bytes \<times> bytes) option" where
  "csv_unquote [] = None"
| "csv_unquote (c # cs) =
     (if c = 0x22
      then (case cs of d # ds \<Rightarrow> if d = 0x22 then map_option (\<lambda>(f, r). (0x22 # f, r)) (csv_unquote ds) else Some ([], cs)
                     | [] \<Rightarrow> Some ([], []))
      else map_option (\<lambda>(f, r). (c # f, r)) (csv_unquote cs))"

definition csv_read_field :: "bytes \<Rightarrow> (string \<times> bytes) option" where
  "csv_read_field bs =
     map_option (\<lambda>(f, r). (bytes_string f, r))
       (case bs of
          c # cs \<Rightarrow> if c = 0x22 then csv_unquote cs
                    else Some (takeWhile (\<lambda>x. x \<noteq> 0x2c \<and> x \<noteq> 0x0a) bs, dropWhile (\<lambda>x. x \<noteq> 0x2c \<and> x \<noteq> 0x0a) bs)
        | [] \<Rightarrow> Some ([], []))"

lemma csv_unquote_length: "csv_unquote bs = Some (f, r) \<Longrightarrow> length r < length bs"
proof (induction bs arbitrary: f rule: csv_unquote.induct)
  case (2 c cs)
  then show ?case by (cases cs) (fastforce split: if_splits)+
qed simp

lemma csv_read_field_length: "csv_read_field bs = Some (f, r) \<Longrightarrow> length r \<le> length bs"
  using length_dropWhile_le [of "\<lambda>x. x \<noteq> 0x2c \<and> x \<noteq> 0x0a" bs]
  by (auto simp: csv_read_field_def dest: csv_unquote_length split: list.splits if_splits)

text \<open>\<open>cur\<close>: the fields of the current row before the position.\<close>

function csv_read :: "string list \<Rightarrow> bytes \<Rightarrow> string list list option" where
  "csv_read cur bs =
     (case csv_read_field bs of
        None \<Rightarrow> None
      | Some (f, []) \<Rightarrow> None
      | Some (f, c # r) \<Rightarrow>
          if c = 0x2c then csv_read (cur @ [f]) r
          else if c = 0x0a then (if r = [] then Some [cur @ [f]] else map_option ((#) (cur @ [f])) (csv_read [] r))
          else None)"
  by pat_completeness auto
termination
proof (relation "measure (length \<circ> snd)", goal_cases)
  case (2 cur bs p f x c r)
  then show ?case using csv_read_field_length [of bs f "c # r"] by simp
next
  case (3 cur bs p f x c r)
  then show ?case using csv_read_field_length [of bs f "c # r"] by simp
qed simp

declare csv_read.simps [simp del]

section \<open>What is written can be read\<close>

text \<open>\<open>emits m b\<close>: when the action succeeds, it has appended exactly \<open>b\<close>.\<close>

definition emits :: "unit io \<Rightarrow> bytes \<Rightarrow> bool" where
  "emits m b \<longleftrightarrow> (\<forall>f f'. m f = (Inr (), f') \<longrightarrow> of_bytes f' = of_bytes f @ b)"

named_theorems emits_intros

lemma emits_Write [emits_intros]: "emits (io_Write b) b"
  by (auto simp: emits_def io_Write_def split: option.splits if_splits)

lemma emits_then [emits_intros]: "emits m b \<Longrightarrow> emits n c \<Longrightarrow> emits (thenW m n) (b @ c)"
  unfolding emits_def thenW_def by (fastforce split: prod.splits sum.splits)

lemma emits_wrap [emits_intros]: "emits m b \<Longrightarrow> emits (wrapW s m) b"
  unfolding emits_def wrapW_def by (auto split: prod.splits)

lemma emits_each [emits_intros]: "(\<And>x. emits (g x) (h x)) \<Longrightarrow> emits (eachW g xs) (concat (map h xs))"
proof (induction xs)
  case (Cons x xs)
  from emits_then [OF Cons.prems Cons.IH [OF Cons.prems]] show ?case by (simp add: emits_def)
qed (simp add: emits_def)

definition enc_pg_field :: "string \<Rightarrow> bytes" where
  "enc_pg_field f = BigEndian_PutUint32 (word_of_nat (length f)) @ string_bytes f"

definition enc_pg_row :: "string list \<Rightarrow> bytes" where
  "enc_pg_row row = BigEndian_PutUint16 (word_of_nat (length row)) @ concat (map enc_pg_field row)"

lemma emits_binary: "emits (write_binary m refs) (pg_header @ concat (map (\<lambda>r. enc_pg_row (ref_fields m r)) refs) @ [0xff, 0xff])"
proof -
  have "emits (write_field s) (enc_pg_field s)" for s
    unfolding write_field_def enc_pg_field_def by (intro emits_intros)
  then have "emits (writeRow row) (enc_pg_row row)" for row
    unfolding writeRow_def enc_pg_row_def by (intro emits_intros)
  then show ?thesis
    unfolding write_binary_def newPGBinaryCopyWriter_def pg_close_def by (intro emits_intros)
qed

lemma string_bytes_back [simp]: "bytes_string (string_bytes s) = s"
  by (induction s) (simp_all add: bytes_string_def string_bytes_def unat_of_nat)

lemma length_string_bytes [simp]: "length (string_bytes s) = length s"
  by (simp add: string_bytes_def)

lemma be_nat_Put16: "be_nat (BigEndian_PutUint16 v) = unat v"
proof -
  have "unat v < 65536" using unsigned_less [of v] by simp
  moreover have "be_nat (BigEndian_PutUint16 v) = unat v div 256 mod 256 * 256 + unat v mod 256"
    by (simp add: be_nat.simps BigEndian_PutUint16_def unsigned_ucast_eq drop_bit_eq_div take_bit_eq_mod unat_div)
  ultimately show ?thesis by simp
qed

lemma be_nat_Put32: "be_nat (BigEndian_PutUint32 v) = unat v"
proof -
  have "unat v < 4294967296" using unsigned_less [of v] by simp
  moreover have "be_nat (BigEndian_PutUint32 v) =
      ((unat v div 16777216 mod 256 * 256 + unat v div 65536 mod 256) * 256 + unat v div 256 mod 256) * 256 + unat v mod 256"
    by (simp add: be_nat.simps BigEndian_PutUint32_def unsigned_ucast_eq drop_bit_eq_div take_bit_eq_mod unat_div)
  moreover have "n div 16777216 mod 256 = n div 16777216" if "n < 4294967296" for n :: nat using that by simp
  moreover have "n div 16777216 * 256 + n div 65536 mod 256 = n div 65536" "n div 65536 * 256 + n div 256 mod 256 = n div 256" for n :: nat
    using div_mult_mod_eq [of "n div 65536" 256] div_mult_mod_eq [of "n div 256" 256] by (simp_all flip: div_mult2_eq)
  ultimately show ?thesis by simp
qed

lemma pg_read_fields_enc:
  "(\<And>f. f \<in> set row \<Longrightarrow> length f < 2 ^ 31) \<Longrightarrow> pg_read_fields (length row) (concat (map enc_pg_field row) @ r) = Some (row, r)"
proof (induction row)
  case (Cons f row)
  have len: "length f < 2 ^ 31" using Cons.prems by simp
  have "length (BigEndian_PutUint32 v) = 4" for v by (simp add: BigEndian_PutUint32_def)
  moreover have "be_nat (BigEndian_PutUint32 (word_of_nat (length f))) = length f"
    using len by (simp add: be_nat_Put32 unat_of_nat)
  moreover have "pg_read_fields (length row) (concat (map enc_pg_field row) @ r) = Some (row, r)" using Cons by simp
  ultimately show ?case using len by (simp add: enc_pg_field_def [of f] Let_def not_le)
qed simp

lemma pg_read_rows_enc:
  "(\<And>row. row \<in> set rows \<Longrightarrow> length row < 2 ^ 15 \<and> (\<forall>f \<in> set row. length f < 2 ^ 31)) \<Longrightarrow>
   pg_read_rows (concat (map enc_pg_row rows) @ [0xff, 0xff]) = Some rows"
proof (induction rows)
  case Nil
  show ?case by (simp add: pg_read_rows.simps be_nat.simps)
next
  case (Cons row rows)
  let ?b = "BigEndian_PutUint16 (word_of_nat (length row))" and ?r = "concat (map enc_pg_row rows) @ [0xff, 0xff]"
  have row: "length row < 2 ^ 15" "\<And>f. f \<in> set row \<Longrightarrow> length f < 2 ^ 31" using Cons.prems by auto
  have b: "length ?b = 2" "be_nat ?b = length row"
    using row(1) by (simp add: BigEndian_PutUint16_def, simp add: be_nat_Put16 unat_of_nat)
  have "pg_read_rows (?b @ concat (map enc_pg_field row) @ ?r) =
      (case pg_read_fields (length row) (concat (map enc_pg_field row) @ ?r) of
         None \<Rightarrow> None | Some (row, r) \<Rightarrow> map_option ((#) row) (pg_read_rows r))"
    using row(1) b by (simp add: pg_read_rows.simps [of "?b @ x" for x])
  moreover have "pg_read_rows ?r = Some rows" by (rule Cons.IH) (use Cons.prems in auto)
  ultimately show ?case using pg_read_fields_enc [OF row(2)] by (simp add: enc_pg_row_def [of row])
qed

lemma csv_unquote_enc:
  "c \<noteq> 0x22 \<Longrightarrow> csv_unquote (concat (map (\<lambda>c. if c = 0x22 then [0x22, 0x22] else [c]) f) @ 0x22 # c # r) = Some (f, c # r)"
  by (induction f) auto

lemma csv_read_field_enc: "c = 0x2c \<or> c = 0x0a \<Longrightarrow> csv_read_field (csv_field s @ c # r) = Some (s, c # r)"
proof (cases "fieldNeedsQuotes (string_bytes s)")
  case True
  assume "c = 0x2c \<or> c = 0x0a"
  then have "csv_unquote (concat (map (\<lambda>c. if c = 0x22 then [0x22, 0x22] else [c]) (string_bytes s)) @ 0x22 # c # r) = Some (string_bytes s, c # r)"
    by (intro csv_unquote_enc) auto
  then show ?thesis using True by (simp add: csv_field_def Let_def csv_read_field_def)
next
  case False
  assume c: "c = 0x2c \<or> c = 0x0a"
  have plain: "csv_read_field (f @ c # r) = Some (bytes_string f, c # r)"
    if f: "\<forall>x \<in> set f. x \<noteq> 0x22 \<and> x \<noteq> 0x2c \<and> x \<noteq> 0x0a" for f
  proof -
    have stop: "takeWhile (\<lambda>x. x \<noteq> 0x2c \<and> x \<noteq> 0x0a) (f @ c # r) = f" "dropWhile (\<lambda>x. x \<noteq> 0x2c \<and> x \<noteq> 0x0a) (f @ c # r) = c # r"
      using c f by (simp_all add: takeWhile_append2 dropWhile_append2) auto
    have "\<exists>x xs. f @ c # r = x # xs \<and> x \<noteq> 0x22" using c f by (cases f) auto
    with stop show ?thesis by (auto simp: csv_read_field_def split: list.split)
  qed
  have "\<forall>x \<in> set (string_bytes s). x \<noteq> 0x22 \<and> x \<noteq> 0x2c \<and> x \<noteq> 0x0a"
    using False unfolding fieldNeedsQuotes_def by auto
  from plain [OF this] False show ?thesis by (simp add: csv_field_def Let_def)
qed

lemma csv_read_row:
  "row \<noteq> [] \<Longrightarrow> csv_read cur (csv_Write row @ r) =
     (if r = [] then Some [cur @ row] else map_option ((#) (cur @ row)) (csv_read [] r))"
proof (induction row arbitrary: cur rule: csv_fields.induct)
  case (2 f)
  show ?case by (simp add: csv_read.simps [of cur] csv_Write_def csv_read_field_enc)
next
  case (3 f g fs)
  have "csv_Write (f # g # fs) @ r = csv_field f @ 0x2c # csv_Write (g # fs) @ r" by (simp add: csv_Write_def)
  then have "csv_read cur (csv_Write (f # g # fs) @ r) = csv_read (cur @ [f]) (csv_Write (g # fs) @ r)"
    by (simp add: csv_read.simps [of cur] csv_read_field_enc)
  then show ?case using "3.IH" [of "cur @ [f]"] by simp
qed simp

lemma csv_read_rows: "rows \<noteq> [] \<Longrightarrow> (\<And>row. row \<in> set rows \<Longrightarrow> row \<noteq> []) \<Longrightarrow> csv_read [] (concat (map csv_Write rows)) = Some rows"
proof (induction rows)
  case (Cons row rows)
  have "csv_Write row \<noteq> []" for row by (simp add: csv_Write_def)
  then have ne: "concat (map csv_Write rows) = [] \<longleftrightarrow> rows = []" by (cases rows) auto
  have "csv_read [] (csv_Write row @ concat (map csv_Write rows)) =
    (if concat (map csv_Write rows) = [] then Some [[] @ row] else map_option ((#) ([] @ row)) (csv_read [] (concat (map csv_Write rows))))"
    by (rule csv_read_row) (use Cons.prems in auto)
  then show ?case using Cons ne by auto
qed simp

text \<open>
  C37. The exported references can be read back: when the export into a new file ends well, the file is, in the binary
  format (for fields below 2 GiB, the limit of the format), a PostgreSQL COPY file with one tuple per reference of the
  query, and otherwise a CSV file with the header and one row per reference, in the order of the query, with the fields
  as they are in the database, whatever bytes they contain.
\<close>

theorem exported_refs_readable:
  assumes "cmdExportBlobRefs env cfg fromEpoch toEpoch includeMeta binary (Some (Inr ())) out w = ((Inr (), out'), w')"
  shows "\<exists>refs. query_refs env cfg fromEpoch toEpoch w = (Inr refs, w') \<and>
    (\<not> binary \<longrightarrow> csv_read [] (of_bytes out') = Some (ref_header includeMeta # map (ref_fields includeMeta) refs)) \<and>
    (binary \<and> (\<forall>r \<in> set refs. \<forall>f \<in> set (ref_fields includeMeta r). length f < 2 ^ 31) \<longrightarrow>
       pg_read (of_bytes out') = Some (map (ref_fields includeMeta) refs))"
proof -
  from assms obtain refs where q: "query_refs env cfg fromEpoch toEpoch w = (Inr refs, w')"
    and wr: "(if binary then write_binary includeMeta refs else write_csv includeMeta refs) (out\<lparr>of_bytes := []\<rparr>) = (Inr (), out')"
    by (auto simp: cmdExportBlobRefs_def Let_def split: prod.splits sum.splits)
  have "csv_read [] (of_bytes out') = Some (ref_header includeMeta # map (ref_fields includeMeta) refs)" if "\<not> binary"
  proof -
    have "emits (write_csv includeMeta refs) (concat (map csv_Write (ref_header includeMeta # map (ref_fields includeMeta) refs)))"
      unfolding write_csv_def by (intro emits_intros)
    with wr that have "of_bytes out' = concat (map csv_Write (ref_header includeMeta # map (ref_fields includeMeta) refs))"
      by (auto simp: emits_def)
    moreover have "row \<noteq> []" if "row \<in> set (ref_header includeMeta # map (ref_fields includeMeta) refs)" for row
      using that by (auto simp: ref_header_def ref_fields_def)
    ultimately show ?thesis using csv_read_rows [of "ref_header includeMeta # map (ref_fields includeMeta) refs"] by simp
  qed
  moreover have "pg_read (of_bytes out') = Some (map (ref_fields includeMeta) refs)"
    if "binary" and "\<forall>r \<in> set refs. \<forall>f \<in> set (ref_fields includeMeta r). length f < 2 ^ 31"
  proof -
    have "of_bytes out' = pg_header @ concat (map enc_pg_row (map (ref_fields includeMeta) refs)) @ [0xff, 0xff]"
      using emits_binary [of includeMeta refs] wr that(1) by (auto simp: emits_def comp_def)
    moreover have "length (ref_fields includeMeta r) < 2 ^ 15" for r by (simp add: ref_fields_def)
    ultimately show ?thesis using pg_read_rows_enc [of "map (ref_fields includeMeta) refs"] that(2) by (auto simp: pg_read_def)
  qed
  ultimately show ?thesis using q by blast
qed

definition demo_ref_world :: world where
  "demo_ref_world = demo_world\<lparr>w_tables := schema_empty\<lparr>tb_blobs :=
     [\<lparr>bw_commitment = ''c'', bw_epoch = 3, bw_slot = 96, bw_slot_time = None, bw_network = ''mainnet'', bw_blob_index = 0,
       bw_data_cid = ''bafy'', bw_meta_cid = ''bafz'', bw_versioned_hash = ''0x01,02'', bw_tx_hash = '''', bw_block_number = 0,
       bw_block_hash = '''', bw_size_bytes = 131072\<rparr>]\<rparr>\<rparr>"

lemma demo_query_refs:
  "\<exists>w'. query_refs demo_outside demo_cmd_cfg 1 5 demo_ref_world =
     (Inr [\<lparr>rf_VersionedHash = ''0x01,02'', rf_DataCID = ''bafy'', rf_MetaCID = ''bafz''\<rparr>], w')"
  by (simp add: query_refs_def open_db_def connect_db_def bindP_def wrapP_def liftP_def ask_eq db_read_def demo_cmd_cfg_def demo_gen_def
      zeroConfig_def demo_outside_def demo_ref_world_def demo_world_def GetBlobRefs_def enc_int8_def fault_def schema_empty_def)

theorem exported_refs_readable_witness:
  "\<exists>out w'. cmdExportBlobRefs demo_outside demo_cmd_cfg 1 5 False False (Some (Inr ())) \<lparr>of_bytes = [], of_limit = None\<rparr> demo_ref_world =
       ((Inr (), out), w') \<and>
     csv_read [] (of_bytes out) = Some [[''blob_hash'', ''storage'', ''data_reference''], [''0x01,02'', ''ipfs'', ''bafy'']]"
proof -
  obtain w' where q: "query_refs demo_outside demo_cmd_cfg 1 5 demo_ref_world =
    (Inr [\<lparr>rf_VersionedHash = ''0x01,02'', rf_DataCID = ''bafy'', rf_MetaCID = ''bafz''\<rparr>], w')" using demo_query_refs by blast
  then obtain out where run: "cmdExportBlobRefs demo_outside demo_cmd_cfg 1 5 False False (Some (Inr ())) \<lparr>of_bytes = [], of_limit = None\<rparr>
      demo_ref_world = ((Inr (), out), w')"
    by (simp add: cmdExportBlobRefs_def write_csv_def wrapW_def io_Write_def)
  from exported_refs_readable [OF run] q run show ?thesis by (auto simp: ref_header_def ref_fields_def)
qed

end
