(* ===== verification/Car.thy ===== *)
theory Car
  imports Ipfs
begin

text \<open>
  \<^verbatim>\<open>car/exporter.go\<close>: writing the blocks of an in-memory store to a CAR file, the paths of the files, and the check of
  a file's roots. The file system is a map from paths to contents. The CAR format and its read-write store belong to
  \<^verbatim>\<open>go-car\<close>: a record of its operations with an abstract state; the system calls that may fail are outcomes.
\<close>

section \<open>path/filepath\<close>

text \<open>\<^verbatim>\<open>filepath.Clean\<close>: the elements of the path, without empty and dot elements, inner dot-dots resolved.\<close>

fun clean_elems :: "bool \<Rightarrow> string list \<Rightarrow> string list \<Rightarrow> string list" where
  "clean_elems rooted acc [] = rev acc"
| "clean_elems rooted acc (e # es) =
     (if e = '''' \<or> e = ''.'' then clean_elems rooted acc es
      else if e = ''..'' then
        (case acc of
           a # as \<Rightarrow> if a \<noteq> ''..'' then clean_elems rooted as es else clean_elems rooted (e # acc) es
         | [] \<Rightarrow> if rooted then clean_elems rooted [] es else clean_elems rooted [e] es)
      else clean_elems rooted (e # acc) es)"

fun join_elems :: "string list \<Rightarrow> string" where
  "join_elems [] = ''''"
| "join_elems [e] = e"
| "join_elems (e # es) = e @ ''/'' @ join_elems es"

definition filepath_Clean :: "string \<Rightarrow> string" where
  "filepath_Clean path =
     (let rooted = strings_HasPrefix path ''/''; es = clean_elems rooted [] (strings_Split (CHR ''/'') path)
      in if rooted then ''/'' @ join_elems es else if es = [] then ''.'' else join_elems es)"

definition filepath_Join :: "string list \<Rightarrow> string" where
  "filepath_Join elems = (let es = filter (\<lambda>e. e \<noteq> '''') elems in if es = [] then '''' else filepath_Clean (join_elems es))"

definition filepath_Dir :: "string \<Rightarrow> string" where
  "filepath_Dir path = filepath_Clean (rev (dropWhile (\<lambda>c. c \<noteq> CHR ''/'') (rev path)))"

definition EpochCARPath :: "string \<Rightarrow> string \<Rightarrow> uint64 \<Rightarrow> string" where
  "EpochCARPath carDir network epoch = filepath_Join [carDir, network, FormatUint epoch @ ''.car'']"

definition RangeCARPath :: "string \<Rightarrow> string \<Rightarrow> uint64 \<Rightarrow> uint64 \<Rightarrow> string" where
  "RangeCARPath carDir network firstEpoch lastEpoch =
     filepath_Join [carDir, network, FormatUint firstEpoch @ ''-'' @ FormatUint lastEpoch @ ''.car'']"

section \<open>Writing and reading a CAR file\<close>

text \<open>
  \<open>car_open\<close>: \<^verbatim>\<open>OpenReadWrite\<close> on the present content of the file (it resumes an unfinished one) and the roots; the
  content it leaves and the open store. \<open>car_put\<close> and \<open>car_finalize\<close> give the new store, and the finished content.
  \<open>car_partial\<close>: the content of the file while the store is open. \<open>car_roots\<close>: \<^verbatim>\<open>NewReader\<close> and \<^verbatim>\<open>Roots\<close>.
\<close>

record 's car_lib =
  car_open :: "bytes option \<Rightarrow> cid list \<Rightarrow> bytes option \<times> 's res"
  car_put :: "'s \<Rightarrow> block \<Rightarrow> 's res"
  car_finalize :: "'s \<Rightarrow> bytes res"
  car_partial :: "'s \<Rightarrow> bytes"
  car_newReader :: "bytes \<Rightarrow> unit res"
  car_roots :: "bytes \<Rightarrow> cid list res"

text \<open>Outcomes of the system calls: creating the directory, removing the temporary file, renaming, opening.\<close>

record fs_env =
  fe_mkdir :: "unit res"
  fe_remove :: bool
  fe_rename :: "unit res"
  fe_open :: "string \<Rightarrow> error"

type_synonym filesystem = "string \<rightharpoonup> bytes"

definition os_Remove :: "fs_env \<Rightarrow> filesystem \<Rightarrow> string \<Rightarrow> filesystem" where
  "os_Remove fe fs path = (if fe_remove fe then fs(path := None) else fs)"

fun put_blocks :: "'s car_lib \<Rightarrow> ipld_lib \<Rightarrow> 's \<Rightarrow> block list \<Rightarrow> 's res" where
  "put_blocks cl lib s [] = Inr s"
| "put_blocks cl lib s (b # bs) =
     bindR (wrapR (''car: put block '' @ cid_String lib (blkCid b)) (car_put cl s b)) (\<lambda>s'. put_blocks cl lib s' bs)"

definition ExportRangeCAR ::
  "'s car_lib \<Rightarrow> ipld_lib \<Rightarrow> fs_env \<Rightarrow> filesystem \<Rightarrow> MemBlockstore \<Rightarrow> cid \<Rightarrow> string \<Rightarrow> unit res \<times> filesystem" where
  "ExportRangeCAR cl lib fe fs bs rootCID outPath =
     (case fe_mkdir fe of
        Inl e \<Rightarrow> (Inl (Wrap (''car: mkdir '' @ go_quote (filepath_Dir outPath)) e), fs)
      | Inr _ \<Rightarrow>
          let tmpPath = outPath @ ''.tmp''
          in (case car_open cl (fs tmpPath) [rootCID] of
                (content, Inl e) \<Rightarrow> (Inl (Wrap (''car: open write blockstore '' @ go_quote tmpPath) e), fs(tmpPath := content))
              | (content, Inr rw) \<Rightarrow>
                  (case put_blocks cl lib rw (Mem_All bs) of
                     Inl e \<Rightarrow> (Inl e, os_Remove fe (fs(tmpPath := content)) tmpPath)
                   | Inr rw' \<Rightarrow>
                       (case car_finalize cl rw' of
                          Inl e \<Rightarrow> (Inl (Wrap (''car: finalize '' @ go_quote tmpPath) e), os_Remove fe (fs(tmpPath \<mapsto> car_partial cl rw')) tmpPath)
                        | Inr car \<Rightarrow>
                            (case fe_rename fe of
                               Inl e \<Rightarrow> (Inl (Wrap (''car: rename '' @ go_quote tmpPath @ arrow_text @ go_quote outPath) e), os_Remove fe (fs(tmpPath \<mapsto> car)) tmpPath)
                             | Inr _ \<Rightarrow> (Inr (), (fs(tmpPath := None))(outPath \<mapsto> car)))))))"

definition VerifyCARRoot :: "'s car_lib \<Rightarrow> ipld_lib \<Rightarrow> fs_env \<Rightarrow> filesystem \<Rightarrow> string \<Rightarrow> cid \<Rightarrow> unit res" where
  "VerifyCARRoot cl lib fe fs carPath rootCID =
     (case fs carPath of
        None \<Rightarrow> Inl (Wrap (''car: open '' @ go_quote carPath) (fe_open fe carPath))
      | Some content \<Rightarrow>
          bindR (wrapR (''car: read header '' @ go_quote carPath) (car_newReader cl content)) (\<lambda>_.
          bindR (wrapR (''car: get roots '' @ go_quote carPath) (car_roots cl content)) (\<lambda>roots.
            if rootCID \<in> set roots then Inr ()
            else Inl (Errorf (''car: root CID '' @ cid_String lib rootCID @ '' not found in '' @ go_quote carPath)))))"

section \<open>What the CAR library promises\<close>

text \<open>
  A store opened on a path without a file starts with no blocks and the given roots, a put adds a block whose multihash is
  new (the library's stores go by the multihash, not the whole CID) unless its CID carries its own data (the identity
  multihash, which the library leaves out of the file by default), and the file that is finalized can be read and has the
  roots it was opened with. \<open>rel s roots blks\<close>: the store has these roots and these blocks.
\<close>

fun cid_Hash :: "cid \<Rightarrow> (uint64 \<times> bytes) option" where
  "cid_Hash Undef = None"
| "cid_Hash (Cid p d) = Some (pfMhType p, d)"

fun identity_cid :: "cid \<Rightarrow> bool" where
  "identity_cid Undef = False"
| "identity_cid (Cid p d) = (pfMhType p = 0)"

definition car_blocks :: "block list \<Rightarrow> block list" where
  "car_blocks = filter (\<lambda>b. \<not> identity_cid (blkCid b))"

definition car_doc :: "'s car_lib \<Rightarrow> ('s \<Rightarrow> cid list \<Rightarrow> block list \<Rightarrow> bool) \<Rightarrow> (bytes \<Rightarrow> block list) \<Rightarrow> bool" where
  "car_doc cl rel blocks_of \<longleftrightarrow>
     (\<forall>roots content s. car_open cl None roots = (content, Inr s) \<longrightarrow> rel s roots []) \<and>
     (\<forall>s roots blks b s'. rel s roots blks \<and> cid_Hash (blkCid b) \<notin> (cid_Hash \<circ> blkCid) ` set blks \<and> car_put cl s b = Inr s' \<longrightarrow>
        rel s' roots (blks @ car_blocks [b])) \<and>
     (\<forall>s roots blks car. rel s roots blks \<and> car_finalize cl s = Inr car \<longrightarrow>
        car_newReader cl car = Inr () \<and> car_roots cl car = Inr roots \<and> blocks_of car = blks)"

section \<open>Properties\<close>

lemma put_blocks_rel:
  assumes "car_doc cl rel blocks_of" and "rel s roots blks" and "put_blocks cl lib s bs = Inr s'"
    and "distinct (map (cid_Hash \<circ> blkCid) (blks @ bs))"
  shows "rel s' roots (blks @ car_blocks bs)"
  using assms(2,3,4)
proof (induction bs arbitrary: s blks)
  case (Cons b bs)
  then obtain s1 where s1: "car_put cl s b = Inr s1" "put_blocks cl lib s1 bs = Inr s'" by (auto simp: bindR_eq_Inr)
  with Cons.prems assms(1) have r: "rel s1 roots (blks @ car_blocks [b])" by (auto simp: car_doc_def)
  have "distinct (map (cid_Hash \<circ> blkCid) ((blks @ car_blocks [b]) @ bs))"
    using Cons.prems(3) by (simp add: car_blocks_def comp_def)
  from Cons.IH [OF r s1(2) this] show ?case by (simp add: car_blocks_def split: if_splits)
qed (simp add: car_blocks_def)

lemma Mem_All_cids: "mem_wf m \<Longrightarrow> map blkCid (Mem_All m) = map fst (mbs_blocks m)"
  by (auto simp: mem_wf_def Mem_All_def)

lemma export_ok:
  assumes "ExportRangeCAR cl lib fe fs bs rootCID outPath = (Inr (), fs')"
  shows "\<exists>content rw rw' car. car_open cl (fs (outPath @ ''.tmp'')) [rootCID] = (content, Inr rw) \<and>
    put_blocks cl lib rw (Mem_All bs) = Inr rw' \<and> car_finalize cl rw' = Inr car \<and>
    fs' = (fs(outPath @ ''.tmp'' := None))(outPath \<mapsto> car)"
proof -
  obtain content ro where o: "car_open cl (fs (outPath @ ''.tmp'')) [rootCID] = (content, ro)" by fastforce
  obtain rw where rw: "ro = Inr rw" using assms o by (cases "fe_mkdir fe"; cases ro) (simp_all add: ExportRangeCAR_def Let_def)
  obtain rw' where p: "put_blocks cl lib rw (Mem_All bs) = Inr rw'"
    using assms o rw by (cases "fe_mkdir fe"; cases "put_blocks cl lib rw (Mem_All bs)") (simp_all add: ExportRangeCAR_def Let_def)
  obtain car where f: "car_finalize cl rw' = Inr car"
    using assms o rw p by (cases "fe_mkdir fe"; cases "car_finalize cl rw'") (simp_all add: ExportRangeCAR_def Let_def)
  have "fs' = (fs(outPath @ ''.tmp'' := None))(outPath \<mapsto> car)"
    using assms o rw p f by (cases "fe_mkdir fe"; cases "fe_rename fe") (simp_all add: ExportRangeCAR_def Let_def)
  with o rw p f show ?thesis by blast
qed

lemma export_contents:
  assumes "ExportRangeCAR cl lib fe fs bs rootCID outPath = (Inr (), fs')" and tmp: "fs (outPath @ ''.tmp'') = None"
    and h: "distinct (map (cid_Hash \<circ> blkCid) (Mem_All bs))" and d: "car_doc cl rel blocks_of"
  shows "VerifyCARRoot cl lib fe fs' outPath rootCID = Inr () \<and>
    (\<exists>car. fs' = (fs(outPath @ ''.tmp'' := None))(outPath \<mapsto> car) \<and> car_roots cl car = Inr [rootCID] \<and> blocks_of car = car_blocks (Mem_All bs))"
proof -
  from export_ok [OF assms(1)] obtain content rw rw' car where
    o: "car_open cl (fs (outPath @ ''.tmp'')) [rootCID] = (content, Inr rw)" and p: "put_blocks cl lib rw (Mem_All bs) = Inr rw'"
    and f: "car_finalize cl rw' = Inr car" and fs': "fs' = (fs(outPath @ ''.tmp'' := None))(outPath \<mapsto> car)" by blast
  have "rel rw [rootCID] []" using o tmp d by (auto simp: car_doc_def)
  from put_blocks_rel [OF d this p] h have "rel rw' [rootCID] (car_blocks (Mem_All bs))" by simp
  with d f have "car_newReader cl car = Inr () \<and> car_roots cl car = Inr [rootCID] \<and> blocks_of car = car_blocks (Mem_All bs)"
    unfolding car_doc_def by blast
  then show ?thesis using fs' by (auto simp: VerifyCARRoot_def)
qed

text \<open>
  C32. An export is atomic: when it fails, whatever was at the output path is still there, and no file but the temporary one
  is touched; when it succeeds (no temporary file was left from before, no two blocks have one multihash), the output is a readable CAR file with
  the root that was asked for and exactly the blocks of the store (the library leaves out those whose CID carries the data
  itself, the identity multihash; the program builds none), it passes \<^verbatim>\<open>VerifyCARRoot\<close>, and the temporary file is gone.
\<close>

theorem ExportRangeCAR_atomic:
  assumes "ExportRangeCAR cl lib fe fs bs rootCID outPath = (r, fs')"
  shows "(\<forall>p. p \<noteq> outPath \<and> p \<noteq> outPath @ ''.tmp'' \<longrightarrow> fs' p = fs p) \<and> (\<not> isOk r \<longrightarrow> fs' outPath = fs outPath) \<and>
    (isOk r \<and> fs (outPath @ ''.tmp'') = None \<and> distinct (map (cid_Hash \<circ> blkCid) (Mem_All bs)) \<and> car_doc cl rel blocks_of \<longrightarrow>
       fs' (outPath @ ''.tmp'') = None \<and> VerifyCARRoot cl lib fe fs' outPath rootCID = Inr () \<and>
       (\<exists>car. fs' outPath = Some car \<and> car_roots cl car = Inr [rootCID] \<and>
          blocks_of car = filter (\<lambda>b. \<not> identity_cid (blkCid b)) (Mem_All bs)))"
proof (cases "isOk r")
  case False
  then obtain e where "r = Inl e" by (cases r) simp_all
  with assms show ?thesis
    by (auto simp: ExportRangeCAR_def os_Remove_def Let_def split: sum.splits prod.splits if_splits)
next
  case True
  with assms have run: "ExportRangeCAR cl lib fe fs bs rootCID outPath = (Inr (), fs')" by (cases r) simp_all
  from export_ok [OF this] obtain car where fs': "fs' = (fs(outPath @ ''.tmp'' := None))(outPath \<mapsto> car)" by blast
  have "VerifyCARRoot cl lib fe fs' outPath rootCID = Inr () \<and> car_roots cl car = Inr [rootCID] \<and> blocks_of car = car_blocks (Mem_All bs)"
    if "fs (outPath @ ''.tmp'') = None" "distinct (map (cid_Hash \<circ> blkCid) (Mem_All bs))" "car_doc cl rel blocks_of"
    using export_contents [OF run that] fs' by (metis fun_upd_same option.inject)
  then show ?thesis using True by (auto simp: fs' car_blocks_def)
qed

definition demo_car_root :: cid where
  "demo_car_root = Cid \<lparr>pfVersion = 1, pfCodec = 0x71, pfMhType = 0x12, pfMhLength = 32\<rparr> [7]"

definition demo_car :: "(cid list \<times> block list) car_lib" where
  "demo_car = \<lparr>car_open = (\<lambda>_ roots. (Some [], Inr (roots, []))), car_put = (\<lambda>(roots, blks) b. Inr (roots, blks @ car_blocks [b])),
     car_finalize = (\<lambda>s. if s = ([demo_car_root], Mem_All demo_mem) then Inr [1] else Inl (Errorf ''no space left on device'')),
     car_partial = (\<lambda>_. []), car_newReader = (\<lambda>_. Inr ()), car_roots = (\<lambda>_. Inr [demo_car_root])\<rparr>"

definition demo_fs :: fs_env where
  "demo_fs = \<lparr>fe_mkdir = Inr (), fe_remove = True, fe_rename = Inr (), fe_open = (\<lambda>_. Errorf ''no such file or directory'')\<rparr>"

lemma demo_put_blocks: "put_blocks demo_car lib (roots, blks) bs = Inr (roots, blks @ car_blocks bs)"
  by (induction bs arbitrary: blks) (simp_all add: demo_car_def car_blocks_def)

theorem ExportRangeCAR_atomic_witness:
  "\<exists>fs'. ExportRangeCAR demo_car demo_lib demo_fs Map.empty demo_mem demo_car_root ''7.car'' = (Inr (), fs') \<and>
     VerifyCARRoot demo_car demo_lib demo_fs fs' ''7.car'' demo_car_root = Inr ()"
proof -
  have d: "car_doc demo_car (\<lambda>s roots blks. s = (roots, blks)) (\<lambda>_. Mem_All demo_mem)"
    by (auto simp: car_doc_def demo_car_def split: if_splits)
  have all: "car_blocks (Mem_All demo_mem) = Mem_All demo_mem" by (simp add: car_blocks_def Mem_All_def demo_mem_def demo_block_def)
  have wf: "distinct (map (cid_Hash \<circ> blkCid) (Mem_All demo_mem))" by (simp add: Mem_All_def demo_mem_def demo_block_def)
  have "car_open demo_car None [demo_car_root] = (Some [], Inr ([demo_car_root], []))"
    "car_finalize demo_car ([demo_car_root], Mem_All demo_mem) = Inr [1]" by (simp_all add: demo_car_def)
  then obtain fs' where run: "ExportRangeCAR demo_car demo_lib demo_fs Map.empty demo_mem demo_car_root ''7.car'' = (Inr (), fs')"
    by (simp add: ExportRangeCAR_def demo_fs_def demo_put_blocks all)
  from ExportRangeCAR_atomic [OF run, of "\<lambda>s roots blks. s = (roots, blks)" "\<lambda>_. Mem_All demo_mem"] d wf run show ?thesis by simp
qed

text \<open>Different epochs are exported to different files.\<close>

lemma clean_elems_last:
  assumes "e \<noteq> ''''" "e \<noteq> ''.''" "e \<noteq> ''..''"
  shows "\<exists>as. clean_elems rooted acc (es @ [e]) = as @ [e]"
  using assms by (induction rooted acc es rule: clean_elems.induct) (auto split: list.splits)

lemma Split_snoc: "sep \<notin> set f \<Longrightarrow> strings_Split sep (xs @ sep # f) = strings_Split sep xs @ [f]"
proof (induction xs)
  case Nil
  have "strings_Split sep f = [f]" using Nil by (induction f) auto
  then show ?case by simp
next
  case (Cons c xs)
  moreover have "strings_Split sep xs \<noteq> []" by (induction xs) (auto split: list.splits)
  ultimately show ?case by (auto split: list.splits)
qed

lemma Split_plain: "sep \<notin> set f \<Longrightarrow> strings_Split sep f = [f]"
  by (induction f) auto

lemma join_elems_snoc: "join_elems (es @ [f]) = (if es = [] then f else join_elems es @ ''/'' @ f)"
  by (induction es rule: join_elems.induct) auto

definition filepath_Base :: "string \<Rightarrow> string" where
  "filepath_Base path = rev (takeWhile (\<lambda>c. c \<noteq> CHR ''/'') (rev path))"

lemma takeWhile_sep: "sep \<notin> set g \<Longrightarrow> takeWhile (\<lambda>c. c \<noteq> sep) (g @ rest) = g @ takeWhile (\<lambda>c. c \<noteq> sep) rest"
  by (induction g) auto

lemma Base_snoc: "CHR ''/'' \<notin> set f \<Longrightarrow> filepath_Base (xs @ CHR ''/'' # f) = f"
  using takeWhile_sep [of "CHR ''/''" "rev f" "CHR ''/'' # rev xs"] by (simp add: filepath_Base_def)

lemma Base_plain: "CHR ''/'' \<notin> set f \<Longrightarrow> filepath_Base f = f"
  unfolding filepath_Base_def by (subst takeWhile_eq_all_conv [THEN iffD2]) auto

lemma Clean_Base:
  assumes "CHR ''/'' \<notin> set f" "f \<noteq> ''''" "f \<noteq> ''.''" "f \<noteq> ''..''" and "path = f \<or> (\<exists>d. path = d @ ''/'' @ f)"
  shows "filepath_Base (filepath_Clean path) = f"
proof -
  obtain es where "strings_Split (CHR ''/'') path = es @ [f]" using assms(1,5) Split_plain Split_snoc by fastforce
  then obtain as where as: "clean_elems (strings_HasPrefix path ''/'') [] (strings_Split (CHR ''/'') path) = as @ [f]"
    using clean_elems_last [OF assms(2-4)] by metis
  then show ?thesis
    using Base_snoc [OF assms(1), of "[]"] Base_snoc [OF assms(1), of "join_elems as"] Base_snoc [OF assms(1), of "CHR ''/'' # join_elems as"] Base_plain [OF assms(1)]
    by (auto simp: filepath_Clean_def Let_def join_elems_snoc)
qed

lemma fmt_nat_digits: "c \<in> set (fmt_nat n) \<Longrightarrow> \<exists>d < 10. c = digit_char d"
proof (induction n rule: fmt_nat.induct)
  case (1 n)
  show ?case
  proof (cases "n < 10")
    case True
    with 1 show ?thesis by (auto simp: fmt_nat.simps [of n])
  next
    case False
    with 1 have "c \<in> set (fmt_nat (n div 10)) \<or> c = digit_char (n mod 10)" by (auto simp: fmt_nat.simps [of n])
    moreover have "n mod 10 < 10" by simp
    ultimately show ?thesis using 1(1) False by blast
  qed
qed

lemma FormatUint_no_slash: "CHR ''/'' \<notin> set (FormatUint w)"
proof
  assume "CHR ''/'' \<in> set (FormatUint w)"
  then obtain d where d: "d < 10" "CHR ''/'' = digit_char d" by (auto simp: FormatUint_def dest: fmt_nat_digits)
  have "of_char (digit_char d) = (47 :: nat)" unfolding d(2) [symmetric] by simp
  with d(1) show False by (simp add: digit_char_def of_char_of)
qed

lemma Join_Base:
  assumes "CHR ''/'' \<notin> set f" "5 \<le> length f"
  shows "filepath_Base (filepath_Join [d, n, f]) = f"
proof -
  have ne: "f \<noteq> ''''" "f \<noteq> ''.''" "f \<noteq> ''..''" using assms(2) by auto
  have "filter (\<lambda>e. e \<noteq> '''') [d, n, f] = filter (\<lambda>e. e \<noteq> '''') [d, n] @ [f]" using ne by simp
  then have "filepath_Join [d, n, f] = filepath_Clean (join_elems (filter (\<lambda>e. e \<noteq> '''') [d, n] @ [f]))"
    by (simp only: filepath_Join_def Let_def) simp
  then show ?thesis
    using Clean_Base [OF assms(1) ne, of "join_elems (filter (\<lambda>e. e \<noteq> '''') [d, n] @ [f])"]
    unfolding join_elems_snoc by (auto split: if_splits)
qed

lemma EpochCARPath_inj: "EpochCARPath d n e = EpochCARPath d n e' \<longleftrightarrow> e = e'"
proof
  have b: "filepath_Base (EpochCARPath d n e) = FormatUint e @ ''.car''" for e
    unfolding EpochCARPath_def
  proof (rule Join_Base)
    have "FormatUint e \<noteq> ''''" by (simp add: FormatUint_def fmt_nat_not_Nil)
    then show "5 \<le> length (FormatUint e @ ''.car'')" by (cases "FormatUint e") simp_all
  qed (simp add: FormatUint_no_slash)
  assume "EpochCARPath d n e = EpochCARPath d n e'"
  then have "filepath_Base (EpochCARPath d n e) = filepath_Base (EpochCARPath d n e')" by (rule arg_cong)
  then show "e = e'" unfolding b by simp
qed simp

end
