(* ===== verification/Export.thy ===== *)
theory Export
  imports Car Commands
begin

text \<open>
  The commands \<^verbatim>\<open>export-car\<close> and \<^verbatim>\<open>export-car-range\<close> of \<^verbatim>\<open>cmd/blobscan-ipld/main.go\<close>: the epochs and blob CIDs from the
  database, their blocks from the IPFS node, the range node, and the CAR file. A command runs on the world and on the file
  system.
\<close>

section \<open>Collecting the blocks\<close>

text \<open>\<^verbatim>\<open>dc, _ := cid.Decode(...)\<close>: the undefined CID when the text is not one.\<close>

definition decode_or_undef :: "ipld_lib \<Rightarrow> string \<Rightarrow> cid" where
  "decode_or_undef lib s = (case cid_Decode lib s of Inl _ \<Rightarrow> Undef | Inr c \<Rightarrow> c)"

definition epoch_cids :: "ipld_lib \<Rightarrow> cid \<Rightarrow> BlobRecord list \<Rightarrow> cid list" where
  "epoch_cids lib epochCID blobs =
     epochCID # concat (map (\<lambda>b. [decode_or_undef lib (bd_DataCID b), decode_or_undef lib (bd_MetaCID b)]) blobs)"

definition call_GetBlocks :: "outside \<Rightarrow> ipfsClient \<Rightarrow> MemBlockstore \<Rightarrow> cid list \<Rightarrow> MemBlockstore prog" where
  "call_GetBlocks env c bs cids =
     bindP (ask (o_http env)) (\<lambda>he. liftP (case GetBlocks (o_lib env) c he bs cids of (Inl e, _) \<Rightarrow> Inl e | (Inr _, bs') \<Rightarrow> Inr bs'))"

definition collect_epoch :: "outside \<Rightarrow> Config \<Rightarrow> MemBlockstore \<Rightarrow> uint64 \<Rightarrow> cid \<Rightarrow> MemBlockstore prog" where
  "collect_epoch env cfg bs epoch epochCID =
     bindP (wrapP ''failed to query blobs'' (db_read env (\<lambda>flt t. GetBlobsByEpoch flt t (cfg_network cfg) epoch))) (\<lambda>blobs.
       wrapP ''failed to fetch blocks'' (call_GetBlocks env (newIPFSClientFromConfig cfg) bs (epoch_cids (o_lib env) epochCID blobs)))"

section \<open>One epoch\<close>

text \<open>The CID of the first row of the epoch, or the empty string.\<close>

definition epoch_cid_of :: "uint64 \<Rightarrow> EpochRecord list \<Rightarrow> string" where
  "epoch_cid_of epochNum records = (case find (\<lambda>r. rec_Epoch r = epochNum) records of None \<Rightarrow> '''' | Some r \<Rightarrow> rec_CID r)"

definition export_collect :: "outside \<Rightarrow> Config \<Rightarrow> uint64 \<Rightarrow> (MemBlockstore \<times> cid) prog" where
  "export_collect env cfg epochNum =
     (if epochNum = 0 then failP (Errorf ''export-car: -n <epoch> is required'')
      else bindP (open_db env cfg ''export-car: postgres_dsn is required (epoch CIDs are stored in the DB)'') (\<lambda>_.
           bindP (wrapP ''failed to query epochs'' (db_read env (\<lambda>flt t. GetAllEpochs flt t (cfg_network cfg)))) (\<lambda>records.
             let epochCIDStr = epoch_cid_of epochNum records
             in if epochCIDStr = '''' then failP (Errorf ''epoch not found in database'')
                else bindP (wrapP ''invalid epoch CID'' (liftP (cid_Decode (o_lib env) epochCIDStr))) (\<lambda>epochCID.
                     bindP (collect_epoch env cfg NewMemBlockstore epochNum epochCID) (\<lambda>bs. returnP (bs, epochCID))))))"

definition cmdExportCAR ::
  "outside \<Rightarrow> 's car_lib \<Rightarrow> Config \<Rightarrow> uint64 \<Rightarrow> string \<Rightarrow> fs_env \<Rightarrow> filesystem \<Rightarrow> world \<Rightarrow> (unit res \<times> filesystem) \<times> world" where
  "cmdExportCAR env cl cfg epochNum outPath fe fs w =
     (case export_collect env cfg epochNum w of
        (Inl e, w') \<Rightarrow> ((Inl e, fs), w')
      | (Inr (bs, epochCID), w') \<Rightarrow>
          let path = (if outPath = '''' then EpochCARPath (sg_CARDir (cf_Storage cfg)) (cfg_network cfg) epochNum else outPath)
          in (case ExportRangeCAR cl (o_lib env) fe fs bs epochCID path of
                (r, fs') \<Rightarrow> ((wrapR ''failed to export CAR'' r, fs'), w')))"

section \<open>A range of epochs\<close>

fun collect_entries :: "outside \<Rightarrow> Config \<Rightarrow> MemBlockstore \<Rightarrow> (EpochRecord \<times> cid) list \<Rightarrow> MemBlockstore prog" where
  "collect_entries env cfg bs [] = returnP bs"
| "collect_entries env cfg bs (e # es) =
     bindP (collect_epoch env cfg bs (rec_Epoch (fst e)) (snd e)) (\<lambda>bs'. collect_entries env cfg bs' es)"

definition range_entries :: "ipld_lib \<Rightarrow> uint64 \<Rightarrow> uint64 \<Rightarrow> EpochRecord list \<Rightarrow> (EpochRecord \<times> cid) list res" where
  "range_entries lib fromEpoch toEpoch records =
     mapR (\<lambda>r. bindR (wrapR ''invalid epoch CID'' (cid_Decode lib (rec_CID r))) (\<lambda>c. Inr (r, c)))
       (filter (\<lambda>r. fromEpoch \<le> rec_Epoch r \<and> rec_Epoch r \<le> toEpoch) records)"

definition entry_result :: "EpochRecord \<times> cid \<Rightarrow> EpochResult" where
  "entry_result = (\<lambda>(r, c). \<lparr>er_Epoch = rec_Epoch r, er_CID = c, er_CARPath = '''', er_ApproximateSizeBytes = rec_SizeBytes r\<rparr>)"

definition range_collect :: "outside \<Rightarrow> Config \<Rightarrow> uint64 \<Rightarrow> uint64 \<Rightarrow> (MemBlockstore \<times> cid) prog" where
  "range_collect env cfg fromEpoch toEpoch =
     (if fromEpoch = 0 \<or> toEpoch = 0 then failP (Errorf ''export-car-range: -from and -to are required'')
      else if toEpoch < fromEpoch then failP (Errorf ''export-car-range: -to must be >= -from'')
      else bindP (open_db env cfg ''export-car-range: postgres_dsn is required (epoch CIDs are stored in the DB)'') (\<lambda>_.
           bindP (wrapP ''failed to query epochs'' (db_read env (\<lambda>flt t. GetAllEpochs flt t (cfg_network cfg)))) (\<lambda>allRecords.
           bindP (liftP (range_entries (o_lib env) fromEpoch toEpoch allRecords)) (\<lambda>entries.
             if entries = [] then failP (Errorf ''no epochs found in database for range'')
             else bindP (collect_entries env cfg NewMemBlockstore entries) (\<lambda>bs.
                  bindP (wrapP ''failed to build range node''
                           (liftP (BuildRangeNode (o_lib env) (BMem bs) (cfg_network cfg) (map entry_result entries)))) (\<lambda>(rangeResult, be).
                    returnP (case backend_mem be of None \<Rightarrow> bs | Some m \<Rightarrow> m, er_CID rangeResult)))))))"

definition cmdExportCARRange ::
  "outside \<Rightarrow> 's car_lib \<Rightarrow> Config \<Rightarrow> uint64 \<Rightarrow> uint64 \<Rightarrow> string \<Rightarrow> fs_env \<Rightarrow> filesystem \<Rightarrow> world \<Rightarrow> (unit res \<times> filesystem) \<times> world" where
  "cmdExportCARRange env cl cfg fromEpoch toEpoch outPath fe fs w =
     (case range_collect env cfg fromEpoch toEpoch w of
        (Inl e, w') \<Rightarrow> ((Inl e, fs), w')
      | (Inr (bs, rootCID), w') \<Rightarrow>
          let path = (if outPath = '''' then RangeCARPath (sg_CARDir (cf_Storage cfg)) (cfg_network cfg) fromEpoch toEpoch else outPath)
          in (case ExportRangeCAR cl (o_lib env) fe fs bs rootCID path of
                (r, fs') \<Rightarrow> ((wrapR ''failed to export CAR'' r, fs'), w')))"

section \<open>What is in the file\<close>

lemma Mem_All_dom: "mem_wf m \<Longrightarrow> blkCid ` set (Mem_All m) = dom (mem_abs m)"
proof -
  assume "mem_wf m"
  then have "set (map blkCid (Mem_All m)) = fst ` set (mbs_blocks m)" by (simp only: Mem_All_cids set_map)
  then show ?thesis by (simp add: mem_abs_def dom_map_of_conv_image_fst)
qed

lemma Mem_All_hashes:
  assumes "mem_wf m" and "inj_on cid_Hash (dom (mem_abs m))"
  shows "distinct (map (cid_Hash \<circ> blkCid) (Mem_All m))"
proof -
  have "distinct (map blkCid (Mem_All m))" using assms(1) by (simp only: Mem_All_cids) (simp add: mem_wf_def)
  moreover have "inj_on cid_Hash (set (map blkCid (Mem_All m)))" using assms by (simp add: Mem_All_dom)
  ultimately have "distinct (map cid_Hash (map blkCid (Mem_All m)))" by (simp only: distinct_map)
  then show ?thesis by simp
qed

lemma GetBlocks_dom:
  assumes "block_doc lib" and "mem_wf bs" and "GetBlocks lib c env bs ids = (Inr (), bs')"
  shows "mem_wf bs' \<and> dom (mem_abs bs') = dom (mem_abs bs) \<union> set ids"
  using assms(2,3)
proof (induction ids arbitrary: bs)
  case (Cons i ids)
  from Cons.prems(2) obtain b m where b: "GetBlock lib c env i = Inr b" and m: "Mem_Put bs b = Inr m"
    and rest: "GetBlocks lib c env m ids = (Inr (), bs')" by (auto split: sum.splits)
  have "mem_wf m" using Cons.prems(1) m by (auto simp: Mem_Put_def intro: mem_wf_update)
  from Cons.IH [OF this rest] show ?case using Mem_Put_get [OF m] GetBlock_cid [OF assms(1) b] by auto
qed simp

lemma collect_epoch_dom:
  assumes "collect_epoch env cfg bs epoch c w = (Inr bs', w')" and "block_doc (o_lib env)" and "mem_wf bs" and "\<forall>k. o_db env k = noFaults"
  shows "w_tables w' = w_tables w \<and> mem_wf bs' \<and>
    (\<exists>blobs. GetBlobsByEpoch noFaults (w_tables w) (cfg_network cfg) epoch = Inr blobs \<and>
       dom (mem_abs bs') = dom (mem_abs bs) \<union> set (epoch_cids (o_lib env) c blobs))"
proof -
  from assms(1,4) obtain blobs k where blobs: "GetBlobsByEpoch noFaults (w_tables w) (cfg_network cfg) epoch = Inr blobs"
    and get: "GetBlocks (o_lib env) (newIPFSClientFromConfig cfg) (o_http env k) bs (epoch_cids (o_lib env) c blobs) = (Inr (), bs')"
    and t: "w_tables w' = w_tables w"
    by (auto simp: collect_epoch_def bindP_Inr wrapP_def db_read_def bindP_def ask_eq call_GetBlocks_def liftP_def wrapR_eq_Inr
        split: prod.splits sum.splits)
  from GetBlocks_dom [OF assms(2,3) get] blobs t show ?thesis by blast
qed

lemma export_file:
  assumes "ExportRangeCAR cl lib fe fs bs rootCID path = (Inr (), fs')" and "fs (path @ ''.tmp'') = None" and "car_doc cl rel blocks_of"
    and "mem_wf bs" and "inj_on cid_Hash (dom (mem_abs bs))"
  shows "\<exists>car. fs' path = Some car \<and> car_roots cl car = Inr [rootCID] \<and>
     blkCid ` set (blocks_of car) = {c \<in> dom (mem_abs bs). \<not> identity_cid c}"
proof -
  have "blkCid ` set (car_blocks (Mem_All bs)) = {c \<in> blkCid ` set (Mem_All bs). \<not> identity_cid c}"
    by (auto simp: car_blocks_def)
  with export_contents [OF assms(1,2) Mem_All_hashes [OF assms(4,5)] assms(3)] Mem_All_dom [OF assms(4)] show ?thesis by auto
qed

lemma mem_wf_New: "mem_wf NewMemBlockstore" "mem_abs NewMemBlockstore = Map.empty"
  by (simp_all add: mem_wf_def NewMemBlockstore_def mem_abs_def)

text \<open>What the records are in terms of the rows.\<close>

lemma epoch_record_row:
  assumes "db_wf t" and "GetAllEpochs flt t network = Inr records" and "epoch_cid_of epochNum records \<noteq> ''''"
  shows "\<exists>r \<in> set (tb_epochs t). ew_network r = network \<and> ew_epoch r = uint epochNum \<and> ew_cid r = epoch_cid_of epochNum records"
proof -
  from assms(3) obtain x where x: "find (\<lambda>r. rec_Epoch r = epochNum) records = Some x" and c: "epoch_cid_of epochNum records = rec_CID x"
    by (auto simp: epoch_cid_of_def split: option.splits)
  from x have xs: "x \<in> set records" "rec_Epoch x = epochNum" by (auto simp: find_Some_iff)
  from GetAllEpochs_records [OF assms(2)] xs(1) obtain r where r: "r \<in> set (network_epochs t network)" "0 \<le> ew_epoch r"
    "rec_Epoch x = word_of_int (ew_epoch r)" "rec_CID x = ew_cid r" by auto
  have "ew_epoch r \<in> bigint" using r(1) assms(1) by (auto simp: db_wf_def network_epochs_def)
  then have "uint (word_of_int (ew_epoch r) :: uint64) = ew_epoch r"
    using r(2) by (simp add: bigint_def unsigned_of_int take_bit_eq_mod)
  with r xs(2) c show ?thesis by (auto simp: network_epochs_def)
qed

lemma blob_record_rows:
  assumes "GetBlobsByEpoch flt t network epochNum = Inr blobs"
  shows "(\<lambda>b. (bd_DataCID b, bd_MetaCID b)) ` set blobs =
    (\<lambda>r. (bw_data_cid r, bw_meta_cid r)) ` {r \<in> set (tb_blobs t). bw_network r = network \<and> bw_epoch r = uint epochNum}"
proof -
  from assms obtain ep where ep: "enc_int8 epochNum = Inr ep"
    and "mapR scan_blob_record (sort_key bw_blob_index (epoch_blobs t network ep)) = Inr blobs"
    by (auto simp: GetBlobsByEpoch_def bindR_eq_Inr)
  then have "list_all2 (\<lambda>r b. scan_blob_record r = Inr b) (sort_key bw_blob_index (epoch_blobs t network ep)) blobs"
    by (simp add: mapR_eq_Inr)
  then have "list_all2 (\<lambda>r b. (bd_DataCID b, bd_MetaCID b) = (bw_data_cid r, bw_meta_cid r)) (sort_key bw_blob_index (epoch_blobs t network ep)) blobs"
    by (rule list_all2_mono) (auto simp: scan_blob_record_def bindR_eq_Inr)
  then have "map (\<lambda>b. (bd_DataCID b, bd_MetaCID b)) blobs =
      map (\<lambda>r. (bw_data_cid r, bw_meta_cid r)) (sort_key bw_blob_index (epoch_blobs t network ep))"
    by (induction rule: list_all2_induct) auto
  then have "set (map (\<lambda>b. (bd_DataCID b, bd_MetaCID b)) blobs) =
      set (map (\<lambda>r. (bw_data_cid r, bw_meta_cid r)) (sort_key bw_blob_index (epoch_blobs t network ep)))" by simp
  moreover have "ep = uint epochNum" using ep by (auto simp: enc_int8_def split: if_splits)
  ultimately show ?thesis by (simp add: epoch_blobs_def)
qed

lemma epoch_cids_rows:
  assumes "GetBlobsByEpoch flt t network epochNum = Inr blobs"
  shows "set (epoch_cids lib epochCID blobs) = insert epochCID
    (\<Union>r \<in> {r \<in> set (tb_blobs t). bw_network r = network \<and> bw_epoch r = uint epochNum}.
       (\<lambda>s. case cid_Decode lib s of Inl _ \<Rightarrow> Undef | Inr c \<Rightarrow> c) ` {bw_data_cid r, bw_meta_cid r})"
proof -
  let ?d = "\<lambda>s. case cid_Decode lib s of Inl _ \<Rightarrow> Undef | Inr c \<Rightarrow> c"
  have "set (epoch_cids lib epochCID blobs) =
      insert epochCID (\<Union>(a, b) \<in> (\<lambda>b. (bd_DataCID b, bd_MetaCID b)) ` set blobs. ?d ` {a, b})"
    by (auto simp: epoch_cids_def decode_or_undef_def)
  then show ?thesis unfolding blob_record_rows [OF assms] by auto
qed

text \<open>
  C38. What \<^verbatim>\<open>export-car\<close> writes, in terms of the tables: when it succeeds, the network has a row for that epoch whose CID
  decodes, the file has that CID as its root, and its blocks are those of exactly that CID and of the data and metadata
  CIDs of the blob rows of that epoch and network (the undefined CID for a text that is not one; identity CIDs are left
  out by the CAR library). In particular the blocks of the shards of a large epoch's blob index, which the epoch node
  links to, are not in the file. The contents are stated when no two of these CIDs share a multihash, for a named output
  path without a left-over temporary file, a database that satisfies its constraints and answers without faults.
\<close>

theorem export_car_contents:
  assumes "cmdExportCAR env cl cfg epochNum outPath fe fs w = ((Inr (), fs'), w')" and "outPath \<noteq> ''''"
    and "block_doc (o_lib env)" and "car_doc cl rel blocks_of" and "fs (outPath @ ''.tmp'') = None" and "\<forall>k. o_db env k = noFaults"
    and "db_wf (w_tables w)"
  shows "\<exists>row \<in> set (tb_epochs (w_tables w)). \<exists>epochCID.
    ew_network row = cfg_network cfg \<and> ew_epoch row = uint epochNum \<and> cid_Decode (o_lib env) (ew_cid row) = Inr epochCID \<and>
    (let cids = insert epochCID
           (\<Union>r \<in> {r \<in> set (tb_blobs (w_tables w)). bw_network r = cfg_network cfg \<and> bw_epoch r = uint epochNum}.
              (\<lambda>s. case cid_Decode (o_lib env) s of Inl _ \<Rightarrow> Undef | Inr c \<Rightarrow> c) ` {bw_data_cid r, bw_meta_cid r})
     in inj_on cid_Hash cids \<longrightarrow>
          (\<exists>car. fs' outPath = Some car \<and> car_roots cl car = Inr [epochCID] \<and>
             blkCid ` set (blocks_of car) = {c \<in> cids. \<not> identity_cid c}))"
proof -
  from assms(1,2) obtain bs epochCID where col: "export_collect env cfg epochNum w = (Inr (bs, epochCID), w')"
    and ex: "ExportRangeCAR cl (o_lib env) fe fs bs epochCID outPath = (Inr (), fs')"
    by (auto simp: cmdExportCAR_def Let_def wrapR_eq_Inr split: prod.splits sum.splits)
  from col obtain records where records: "GetAllEpochs noFaults (w_tables w) (cfg_network cfg) = Inr records"
    and ne: "epoch_cid_of epochNum records \<noteq> ''''"
    and dec: "cid_Decode (o_lib env) (epoch_cid_of epochNum records) = Inr epochCID"
    and ce: "collect_epoch env cfg NewMemBlockstore epochNum epochCID (w\<lparr>w_tick := Suc (Suc (w_tick w))\<rparr>) = (Inr bs, w')"
    using assms(6) by (auto simp: export_collect_def open_db_def connect_db_def Let_def bindP_Inr wrapP_def db_read_def bindP_def ask_eq
        liftP_def failP_def returnP_def wrapR_eq_Inr split: if_splits prod.splits sum.splits)
  from collect_epoch_dom [OF ce assms(3) mem_wf_New(1) assms(6)] obtain blobs where wf: "mem_wf bs"
    and blobs: "GetBlobsByEpoch noFaults (w_tables w) (cfg_network cfg) epochNum = Inr blobs"
    and dom: "dom (mem_abs bs) = set (epoch_cids (o_lib env) epochCID blobs)" by (auto simp: mem_wf_New(2))
  from epoch_record_row [OF assms(7) records ne] obtain row where row: "row \<in> set (tb_epochs (w_tables w))"
    "ew_network row = cfg_network cfg" "ew_epoch row = uint epochNum" "ew_cid row = epoch_cid_of epochNum records" by blast
  show ?thesis
    using export_file [OF ex assms(5,4) wf] row dec unfolding dom epoch_cids_rows [OF blobs] Let_def
    by (intro bexI [of _ row] exI [of _ epochCID]) simp_all
qed

text \<open>An epoch with one blob, all of whose blocks the IPFS node answers with the byte 7.\<close>

definition demo_link :: "byte \<Rightarrow> cid" where
  "demo_link b = Cid linkProtoRaw [b]"

definition demo_car_world :: world where
  "demo_car_world = demo_world\<lparr>w_tables := schema_empty\<lparr>
     tb_epochs := [\<lparr>ew_epoch = 3, ew_network = ''mainnet'', ew_slot = 96, ew_epoch_time = None, ew_cid = cid_String cid_lib (demo_link 1),
       ew_car_path = '''', ew_blob_count = 1, ew_size_bytes = 1\<rparr>],
     tb_blobs := [\<lparr>bw_commitment = ''c'', bw_epoch = 3, bw_slot = 96, bw_slot_time = None, bw_network = ''mainnet'', bw_blob_index = 0,
       bw_data_cid = cid_String cid_lib (demo_link 2), bw_meta_cid = cid_String cid_lib (demo_link 3), bw_versioned_hash = ''0x01'',
       bw_tx_hash = '''', bw_block_number = 0, bw_block_hash = '''', bw_size_bytes = 1\<rparr>]\<rparr>\<rparr>"

definition demo_car_env :: outside where
  "demo_car_env = demo_outside\<lparr>o_http := (\<lambda>_. demo_node)\<rparr>"

definition demo_car_blocks :: "block list" where
  "demo_car_blocks = map (\<lambda>b. \<lparr>blkCid = demo_link b, blkData = [7]\<rparr>) [1, 2, 3]"

definition demo_car3 :: "(cid list \<times> block list) car_lib" where
  "demo_car3 = \<lparr>car_open = (\<lambda>_ roots. (Some [], Inr (roots, []))), car_put = (\<lambda>(roots, blks) b. Inr (roots, blks @ car_blocks [b])),
     car_finalize = (\<lambda>s. if s = ([demo_link 1], demo_car_blocks) then Inr [1] else Inl (Errorf ''no space left on device'')),
     car_partial = (\<lambda>_. []), car_newReader = (\<lambda>_. Inr ()), car_roots = (\<lambda>_. Inr [demo_link 1])\<rparr>"

lemma demo_car3_put: "put_blocks demo_car3 lib (roots, blks) bs = Inr (roots, blks @ car_blocks bs)"
  by (induction bs arbitrary: blks) (simp_all add: demo_car3_def car_blocks_def)

lemma demo_decode: "cid_Decode cid_lib (cid_String cid_lib (demo_link b)) = Inr (demo_link b)" "cid_String cid_lib (demo_link b) \<noteq> ''''"
proof -
  show d: "cid_Decode cid_lib (cid_String cid_lib (demo_link b)) = Inr (demo_link b)" using cid_lib_doc(4) by (simp add: cid_doc_def demo_link_def)
  show "cid_String cid_lib (demo_link b) \<noteq> ''''"
  proof
    assume "cid_String cid_lib (demo_link b) = ''''"
    with d cid_lib_doc(4) show False by (auto simp: cid_doc_def)
  qed
qed

lemma demo_car_get:
  "GetBlocks cid_lib c demo_node NewMemBlockstore [demo_link 1, demo_link 2, demo_link 3] =
     (Inr (), \<lparr>mbs_blocks = map (\<lambda>b. (blkCid b, b)) demo_car_blocks\<rparr>)"
proof -
  have "GetBlock cid_lib c demo_node i = Inr \<lparr>blkCid = i, blkData = [7]\<rparr>" for i
    by (simp add: GetBlock_def send_ok_def send_def demo_node_def cid_lib_def demo_lib_def)
  then show ?thesis by (simp add: Mem_Put_def NewMemBlockstore_def demo_car_blocks_def demo_link_def)
qed

definition demo_car_record :: BlobRecord where
  "demo_car_record = \<lparr>bd_Commitment = ''c'', bd_DataCID = cid_String cid_lib (demo_link 2), bd_MetaCID = cid_String cid_lib (demo_link 3),
     bd_BlobIndex = 0, bd_Slot = 96, bd_SlotTime = None, bd_VersionedHash = ''0x01'', bd_TxHash = '''', bd_BlockNumber = 0, bd_BlockHash = '''',
     bd_SizeBytes = 1\<rparr>"

lemma demo_car_records:
  "GetAllEpochs noFaults (w_tables demo_car_world) ''mainnet'' =
     Inr [\<lparr>rec_Epoch = 3, rec_CID = cid_String cid_lib (demo_link 1), rec_SizeBytes = 1\<rparr>]"
  "GetBlobsByEpoch noFaults (w_tables demo_car_world) ''mainnet'' 3 = Inr [demo_car_record]"
  by (simp_all add: GetAllEpochs_def GetBlobsByEpoch_def enc_int8_def epoch_blobs_def fault_def demo_car_world_def schema_empty_def network_epochs_def
      scan_epoch_record_def scan_blob_record_def scan_uint64_def demo_car_record_def)

lemma demo_cmd_cfg_network: "cfg_network demo_cmd_cfg = ''mainnet''"
  by (simp add: demo_cmd_cfg_def demo_gen_def zeroConfig_def)

lemma demo_car_cids: "epoch_cids cid_lib (demo_link 1) [demo_car_record] = [demo_link 1, demo_link 2, demo_link 3]"
  by (simp add: epoch_cids_def decode_or_undef_def demo_car_record_def demo_decode)

lemma demo_export_collect:
  "\<exists>w'. export_collect demo_car_env demo_cmd_cfg 3 demo_car_world =
     (Inr (\<lparr>mbs_blocks = map (\<lambda>b. (blkCid b, b)) demo_car_blocks\<rparr>, demo_link 1), w')"
proof -
  have cfg: "sg_PostgresDSN (cf_Storage demo_cmd_cfg) \<noteq> ''''" by (simp add: demo_cmd_cfg_def)
  have env: "o_connect demo_car_env k = Inr ()" "o_db demo_car_env k = noFaults" "o_http demo_car_env k = demo_node" "o_lib demo_car_env = cid_lib" for k
    by (simp_all add: demo_car_env_def demo_outside_def)
  show ?thesis
    by (simp add: export_collect_def open_db_def connect_db_def bindP_def wrapP_def liftP_def db_read_def ask_eq cfg env epoch_cid_of_def Let_def
        demo_decode collect_epoch_def call_GetBlocks_def demo_car_get returnP_def demo_car_records demo_cmd_cfg_network demo_car_cids
        del: GetBlocks.simps)
qed

theorem export_car_contents_witness:
  "\<exists>fs' w'. cmdExportCAR demo_car_env demo_car3 demo_cmd_cfg 3 ''3.car'' demo_fs Map.empty demo_car_world = ((Inr (), fs'), w') \<and>
     (\<exists>car. fs' ''3.car'' = Some car \<and> car_roots demo_car3 car = Inr [demo_link 1]) \<and>
     blkCid ` set demo_car_blocks = {demo_link 1, demo_link 2, demo_link 3}"
proof -
  let ?bs = "\<lparr>mbs_blocks = map (\<lambda>b. (blkCid b, b)) demo_car_blocks\<rparr>"
  obtain w' where col: "export_collect demo_car_env demo_cmd_cfg 3 demo_car_world = (Inr (?bs, demo_link 1), w')"
    using demo_export_collect by blast
  have "Mem_All ?bs = demo_car_blocks" by (simp add: Mem_All_def comp_def)
  moreover have "car_blocks demo_car_blocks = demo_car_blocks"
    by (simp add: car_blocks_def demo_car_blocks_def demo_link_def linkProtoRaw_def)
  moreover have "car_open demo_car3 None [demo_link 1] = (Some [], Inr ([demo_link 1], []))"
    "car_finalize demo_car3 ([demo_link 1], demo_car_blocks) = Inr [1]" by (simp_all add: demo_car3_def)
  ultimately obtain fs' where run: "cmdExportCAR demo_car_env demo_car3 demo_cmd_cfg 3 ''3.car'' demo_fs Map.empty demo_car_world = ((Inr (), fs'), w')"
    using col by (simp add: cmdExportCAR_def ExportRangeCAR_def demo_fs_def demo_car3_put Let_def)
  have d: "car_doc demo_car3 (\<lambda>s roots blks. s = (roots, blks)) (\<lambda>_. demo_car_blocks)"
    by (auto simp: car_doc_def demo_car3_def split: if_splits)
  have env: "o_lib demo_car_env = cid_lib" "\<forall>k. o_db demo_car_env k = noFaults" by (simp_all add: demo_car_env_def demo_outside_def)
  have wf: "db_wf (w_tables demo_car_world)" by (simp add: demo_car_world_def db_wf_def schema_empty_def bigint_def)
  have rows: "\<forall>r \<in> set (tb_epochs (w_tables demo_car_world)). ew_cid r = cid_String cid_lib (demo_link 1)"
    "{r \<in> set (tb_blobs (w_tables demo_car_world)). bw_network r = cfg_network demo_cmd_cfg \<and> bw_epoch r = uint (3 :: uint64)} =
       set (tb_blobs (w_tables demo_car_world))"
    unfolding demo_cmd_cfg_network by (auto simp: demo_car_world_def)
  have cids: "insert (demo_link 1) (\<Union>r \<in> set (tb_blobs (w_tables demo_car_world)).
      (\<lambda>s. case cid_Decode cid_lib s of Inl _ \<Rightarrow> Undef | Inr c \<Rightarrow> c) ` {bw_data_cid r, bw_meta_cid r}) = {demo_link 1, demo_link 2, demo_link 3}"
    by (simp add: demo_car_world_def demo_decode)
  have inj: "inj_on cid_Hash {demo_link 1, demo_link 2, demo_link 3}" by (auto simp: inj_on_def demo_link_def)
  have ident: "{c \<in> {demo_link 1, demo_link 2, demo_link 3}. \<not> identity_cid c} = {demo_link 1, demo_link 2, demo_link 3}"
    by (auto simp: demo_link_def linkProtoRaw_def)
  have nonempty: "''3.car'' \<noteq> ''''" by simp
  have bd: "block_doc (o_lib demo_car_env)" and tmp: "Map.empty (''3.car'' @ ''.tmp'') = None" using cid_lib_doc(2) env by simp_all
  from export_car_contents [OF run nonempty bd d tmp env(2) wf, unfolded rows(2) env(1) Let_def] obtain row epochCID where
    r: "row \<in> set (tb_epochs (w_tables demo_car_world))" "cid_Decode cid_lib (ew_cid row) = Inr epochCID"
    and contents: "inj_on cid_Hash (insert epochCID (\<Union>r \<in> set (tb_blobs (w_tables demo_car_world)).
        (\<lambda>s. case cid_Decode cid_lib s of Inl _ \<Rightarrow> Undef | Inr c \<Rightarrow> c) ` {bw_data_cid r, bw_meta_cid r})) \<longrightarrow>
      (\<exists>car. fs' ''3.car'' = Some car \<and> car_roots demo_car3 car = Inr [epochCID] \<and>
        blkCid ` set demo_car_blocks = {c \<in> insert epochCID (\<Union>r \<in> set (tb_blobs (w_tables demo_car_world)).
          (\<lambda>s. case cid_Decode cid_lib s of Inl _ \<Rightarrow> Undef | Inr c \<Rightarrow> c) ` {bw_data_cid r, bw_meta_cid r}). \<not> identity_cid c})"
    by (elim bexE exE conjE) (rule that)
  have root: "epochCID = demo_link 1" using r rows(1) by (simp add: demo_decode)
  from contents [unfolded root cids ident] inj have
    "\<exists>car. fs' ''3.car'' = Some car \<and> car_roots demo_car3 car = Inr [demo_link 1] \<and>
       blkCid ` set demo_car_blocks = {demo_link 1, demo_link 2, demo_link 3}" by (rule mp)
  with run show ?thesis by (intro exI [of _ fs'] exI [of _ w']) auto
qed

section \<open>What is in the file of a range\<close>

definition entry_cids :: "ipld_lib \<Rightarrow> tables \<Rightarrow> string \<Rightarrow> EpochRecord \<times> cid \<Rightarrow> cid set" where
  "entry_cids lib t network = (\<lambda>(r, c). {i. \<exists>blobs. GetBlobsByEpoch noFaults t network (rec_Epoch r) = Inr blobs \<and> i \<in> set (epoch_cids lib c blobs)})"

lemma collect_entries_dom:
  assumes "collect_entries env cfg bs es w = (Inr bs', w')" and "block_doc (o_lib env)" and "mem_wf bs" and "\<forall>k. o_db env k = noFaults"
  shows "mem_wf bs' \<and> dom (mem_abs bs') = dom (mem_abs bs) \<union> \<Union> (entry_cids (o_lib env) (w_tables w) (cfg_network cfg) ` set es)"
  using assms(1,3)
proof (induction es arbitrary: bs w)
  case (Cons e es)
  from Cons.prems(1) obtain bs1 w1 where ce: "collect_epoch env cfg bs (rec_Epoch (fst e)) (snd e) w = (Inr bs1, w1)"
    and rest: "collect_entries env cfg bs1 es w1 = (Inr bs', w')" by (auto simp: bindP_Inr)
  from collect_epoch_dom [OF ce assms(2) Cons.prems(2) assms(4)] obtain blobs where t: "w_tables w1 = w_tables w" and wf: "mem_wf bs1"
    and blobs: "GetBlobsByEpoch noFaults (w_tables w) (cfg_network cfg) (rec_Epoch (fst e)) = Inr blobs"
    and dom: "dom (mem_abs bs1) = dom (mem_abs bs) \<union> set (epoch_cids (o_lib env) (snd e) blobs)" by blast
  have "entry_cids (o_lib env) (w_tables w) (cfg_network cfg) e = set (epoch_cids (o_lib env) (snd e) blobs)"
    using blobs by (cases e) (simp add: entry_cids_def)
  with Cons.IH [OF rest wf] t dom show ?case by auto
qed (simp add: returnP_def)

lemma BuildRangeNode_null: "BuildRangeNode lib bs network rs = Inr (res, be) \<Longrightarrow> BuildRangeNode lib BNull network rs = Inr (res, BNull)"
  by (auto simp: BuildRangeNode_def Let_def bindR_eq_Inr lsys_Store_seal split: list.splits)

lemma BuildRangeNode_store:
  assumes "BuildRangeNode lib (BMem bs) network rs = Inr (res, be)" and "block_doc lib" and "mem_wf bs"
  shows "\<exists>m. be = BMem m \<and> mem_wf m \<and> dom (mem_abs m) = insert (er_CID res) (dom (mem_abs bs))"
proof -
  from assms(1) obtain n where "lsys_Store lib (BMem bs) linkProtoDagCBOR n = Inr (er_CID res, be)"
    by (auto simp: BuildRangeNode_def Let_def bindR_eq_Inr split: list.splits)
  then obtain b where seal: "sealBlock lib linkProtoDagCBOR n = Inr (er_CID res, b)" and be: "be = backend_add (BMem bs) b"
    by (auto simp: lsys_Store_seal bindR_eq_Inr)
  have "blkCid b = er_CID res" using seal assms(2) by (auto simp: sealBlock_def block_doc_def bindR_eq_Inr)
  then show ?thesis using be mem_wf_update [OF assms(3), of b] by (auto simp: mem_abs_def update_conv')
qed

text \<open>
  What \<^verbatim>\<open>export-car-range\<close> writes: the range node as the root, and for each epoch in the range a block for its CID and for the
  data and metadata CIDs of its blobs.
\<close>

lemma export_range_contents:
  assumes "cmdExportCARRange env cl cfg fromEpoch toEpoch outPath fe fs w = ((Inr (), fs'), w')" and "outPath \<noteq> ''''"
    and "block_doc (o_lib env)" and "car_doc cl rel blocks_of" and "fs (outPath @ ''.tmp'') = None" and "\<forall>k. o_db env k = noFaults"
  shows "\<exists>records entries res. GetAllEpochs noFaults (w_tables w) (cfg_network cfg) = Inr records \<and>
    range_entries (o_lib env) fromEpoch toEpoch records = Inr entries \<and> entries \<noteq> [] \<and>
    BuildRangeNode (o_lib env) BNull (cfg_network cfg) (map entry_result entries) = Inr (res, BNull) \<and>
    (let root = er_CID res; cids = insert root (\<Union> (entry_cids (o_lib env) (w_tables w) (cfg_network cfg) ` set entries))
     in inj_on cid_Hash cids \<longrightarrow>
       (\<exists>car. fs' outPath = Some car \<and> car_roots cl car = Inr [root] \<and> blkCid ` set (blocks_of car) = {c \<in> cids. \<not> identity_cid c}))"
proof -
  from assms(1,2) obtain bs root where col: "range_collect env cfg fromEpoch toEpoch w = (Inr (bs, root), w')"
    and ex: "ExportRangeCAR cl (o_lib env) fe fs bs root outPath = (Inr (), fs')"
    by (auto simp: cmdExportCARRange_def Let_def wrapR_eq_Inr split: prod.splits sum.splits)
  from col obtain records entries bs0 w2 res be where records: "GetAllEpochs noFaults (w_tables w) (cfg_network cfg) = Inr records"
    and entries: "range_entries (o_lib env) fromEpoch toEpoch records = Inr entries" "entries \<noteq> []"
    and ce: "collect_entries env cfg NewMemBlockstore entries (w\<lparr>w_tick := Suc (Suc (w_tick w))\<rparr>) = (Inr bs0, w2)"
    and node: "BuildRangeNode (o_lib env) (BMem bs0) (cfg_network cfg) (map entry_result entries) = Inr (res, be)"
    and bs: "bs = (case backend_mem be of None \<Rightarrow> bs0 | Some m \<Rightarrow> m)" "root = er_CID res"
    using assms(6) by (auto simp: range_collect_def open_db_def connect_db_def Let_def bindP_Inr wrapP_def db_read_def bindP_def ask_eq
        liftP_def failP_def returnP_def wrapR_eq_Inr split: if_splits prod.splits sum.splits)
  from collect_entries_dom [OF ce assms(3) mem_wf_New(1) assms(6)] have wf0: "mem_wf bs0"
    and dom0: "dom (mem_abs bs0) = \<Union> (entry_cids (o_lib env) (w_tables w) (cfg_network cfg) ` set entries)" by (auto simp: mem_wf_New(2))
  from BuildRangeNode_store [OF node assms(3) wf0] obtain m where "be = BMem m" "mem_wf m" "dom (mem_abs m) = insert (er_CID res) (dom (mem_abs bs0))"
    by blast
  then have wf: "mem_wf bs" and dom: "dom (mem_abs bs) = insert root (dom (mem_abs bs0))" using bs by (simp_all only: backend_mem.simps option.case)
  have "inj_on cid_Hash (dom (mem_abs bs)) \<longrightarrow>
      (\<exists>car. fs' outPath = Some car \<and> car_roots cl car = Inr [er_CID res] \<and> blkCid ` set (blocks_of car) = {c \<in> dom (mem_abs bs). \<not> identity_cid c})"
    using export_file [OF ex assms(5,4) wf] bs(2) by blast
  then have "let root = er_CID res; cids = insert root (\<Union> (entry_cids (o_lib env) (w_tables w) (cfg_network cfg) ` set entries))
     in inj_on cid_Hash cids \<longrightarrow>
       (\<exists>car. fs' outPath = Some car \<and> car_roots cl car = Inr [root] \<and> blkCid ` set (blocks_of car) = {c \<in> cids. \<not> identity_cid c})"
    unfolding dom dom0 bs(2) Let_def .
  with records entries BuildRangeNode_null [OF node] show ?thesis by blast
qed

end
