(* ===== verification/Pins.thy ===== *)
theory Pins
  imports Health Commands
begin

text \<open>
  The command \<^verbatim>\<open>pin-existing\<close> of \<^verbatim>\<open>cmd/blobscan-ipld/main.go\<close>: the epoch roots in the database that the IPFS node has not
  pinned are pinned by a pool of workers, with a preflight check of the local DAG and retries. The roots that the node has
  pinned on request are the field \<open>w_pins\<close> of the world. The workers' jobs are independent of each other; \<open>order\<close> lists
  the indices of the jobs in the order in which they are finished, and the interactions of a job are taken together.
\<close>

section \<open>One pin\<close>

definition client_Pin :: "outside \<Rightarrow> ipfsClient \<Rightarrow> cid \<Rightarrow> unit prog" where
  "client_Pin env c rootCID =
     bindP (ask (o_http env)) (\<lambda>he w.
       case Pin (o_lib env) c he rootCID of Inl e \<Rightarrow> (Inl e, w) | Inr u \<Rightarrow> (Inr u, w\<lparr>w_pins := w_pins w @ [rootCID]\<rparr>))"

text \<open>The loop \<^verbatim>\<open>for attempt := 0; attempt <= retries; attempt++\<close>, with \<open>Suc n\<close> attempts to go; the last error is returned.\<close>

fun pin_attempts :: "outside \<Rightarrow> ipfsClient \<Rightarrow> cid \<Rightarrow> nat \<Rightarrow> unit prog" where
  "pin_attempts env c rootCID n =
     bindP (ctx_canceled env) (\<lambda>canceled.
       if canceled then failP ErrCanceled
       else bindP (tryP (client_Pin env c rootCID)) (\<lambda>r.
              case r of
                Inr _ \<Rightarrow> returnP ()
              | Inl err \<Rightarrow> (case n of 0 \<Rightarrow> failP err | Suc k \<Rightarrow> pin_attempts env c rootCID k)))"

declare pin_attempts.simps [simp del]

text \<open>
  \<^verbatim>\<open>pinWithRetry\<close>. The error for an incomplete DAG wraps \<^verbatim>\<open>errIncompleteDAG\<close>; its text, which the code puts behind that
  of the wrapped error, is in front here.
\<close>

definition pinWithRetry :: "outside \<Rightarrow> ipfsClient \<Rightarrow> cid \<Rightarrow> nat \<Rightarrow> unit prog" where
  "pinWithRetry env c rootCID retries =
     bindP (ask (o_http env)) (\<lambda>he.
     bindP (tryP (liftP (VerifyLocal (o_lib env) c he rootCID))) (\<lambda>verified.
       case verified of
         Inl verr \<Rightarrow>
           if strings_Contains (error_text verr) ''block missing locally'' then failP (Wrap (error_text verr) ErrIncompleteDAG)
           else pin_attempts env c rootCID retries
       | Inr _ \<Rightarrow> pin_attempts env c rootCID retries))"

section \<open>The command\<close>

record pinJob =
  pj_epoch :: uint64
  pj_cid :: cid

definition pin_todo :: "ipld_lib \<Rightarrow> string set \<Rightarrow> EpochRecord list \<Rightarrow> pinJob list" where
  "pin_todo lib pins records =
     concat (map (\<lambda>rec. case cid_Decode lib (rec_CID rec) of
                          Inl _ \<Rightarrow> []
                        | Inr c \<Rightarrow> if cid_String lib c \<in> pins then [] else [\<lparr>pj_epoch = rec_Epoch rec, pj_cid = c\<rparr>]) records)"

definition pin_limit :: "goint \<Rightarrow> pinJob list \<Rightarrow> pinJob list" where
  "pin_limit limit todo = (if 0 < sint limit \<and> sint limit < int (length todo) then take (nat (sint limit)) todo else todo)"

fun run_jobs :: "outside \<Rightarrow> ipfsClient \<Rightarrow> nat \<Rightarrow> pinJob list \<Rightarrow> (uint64 \<times> unit res) list prog" where
  "run_jobs env c retries [] = returnP []"
| "run_jobs env c retries (j # js) =
     bindP (tryP (pinWithRetry env c (pj_cid j) retries)) (\<lambda>r.
     bindP (run_jobs env c retries js) (\<lambda>rs. returnP ((pj_epoch j, r) # rs)))"

record pin_report =
  pn_pinned :: nat
  pn_failed :: "uint64 list"
  pn_incomplete :: "uint64 list"

definition incomplete :: "unit res \<Rightarrow> bool" where
  "incomplete r \<longleftrightarrow> (case r of Inl e \<Rightarrow> errors_Is e ErrIncompleteDAG | Inr _ \<Rightarrow> False)"

definition pin_summary :: "(uint64 \<times> unit res) list \<Rightarrow> pin_report" where
  "pin_summary outcomes =
     \<lparr>pn_pinned = length (filter (isOk \<circ> snd) outcomes),
      pn_failed = sortUint64 (map fst (filter (\<lambda>(e, r). \<not> isOk r \<and> \<not> incomplete r) outcomes)),
      pn_incomplete = sortUint64 (map fst (filter (\<lambda>(e, r). incomplete r) outcomes))\<rparr>"

definition no_pins :: pin_report where
  "no_pins = \<lparr>pn_pinned = 0, pn_failed = [], pn_incomplete = []\<rparr>"

text \<open>The exit status: an error when an epoch failed or is incomplete.\<close>

definition pin_exit :: "pin_report \<Rightarrow> pin_report prog" where
  "pin_exit rep = (if pn_failed rep \<noteq> [] \<or> pn_incomplete rep \<noteq> [] then failP (Errorf ''pin-existing complete'') else returnP rep)"

text \<open>The roots that need pinning are found and pinned; \<open>pin_jobs\<close> is the pool, which starts unless nothing is to do.\<close>

definition pin_jobs :: "outside \<Rightarrow> ipfsClient \<Rightarrow> bool \<Rightarrow> nat \<Rightarrow> nat list \<Rightarrow> pinJob list \<Rightarrow> pin_report prog" where
  "pin_jobs env c dryRun retries order todo =
     (if dryRun \<or> todo = [] then returnP no_pins
      else bindP (run_jobs env c retries (map ((!) todo) (filter (\<lambda>i. i < length todo) order)))
             (\<lambda>outcomes. pin_exit (pin_summary outcomes)))"

definition pin_records :: "outside \<Rightarrow> ipfsClient \<Rightarrow> bool \<Rightarrow> nat \<Rightarrow> goint \<Rightarrow> nat list \<Rightarrow> EpochRecord list \<Rightarrow> pin_report prog" where
  "pin_records env c dryRun retries limit order records =
     bindP (ask (o_http env)) (\<lambda>he.
     bindP (tryP (liftP (ListRecursivePins (o_lib env) c he))) (\<lambda>listed.
       let pins = (case listed of Inl _ \<Rightarrow> {} | Inr pins \<Rightarrow> pins)
       in pin_jobs env c dryRun retries order (pin_limit limit (pin_todo (o_lib env) pins records))))"

definition cmdPinExisting :: "outside \<Rightarrow> Config \<Rightarrow> bool \<Rightarrow> goint \<Rightarrow> goint \<Rightarrow> nat list \<Rightarrow> pin_report prog" where
  "cmdPinExisting env cfg dryRun retries limit order =
     (if sg_PostgresDSN (cf_Storage cfg) = '''' then failP (Errorf ''pin-existing: postgres_dsn is required'')
      else if ic_SkipUpload (cf_IPFS cfg) \<or> ic_APIAddr (cf_IPFS cfg) = ''''
      then failP (Errorf ''pin-existing: IPFS must be configured (skip_upload=false and api_addr set)'')
      else
        bindP (connect_db env) (\<lambda>_.
        bindP (wrapP ''failed to load epochs'' (db_read env (\<lambda>flt t. GetAllEpochs flt t (cfg_network cfg)))) (\<lambda>records.
        if records = [] then returnP no_pins
        else pin_records env (newIPFSClientFromConfig cfg) dryRun (nat (sint retries)) limit order records)))"

section \<open>Every root is pinned\<close>

definition pins_grow :: "world \<Rightarrow> world \<Rightarrow> bool" where
  "pins_grow w w' \<longleftrightarrow> set (w_pins w) \<subseteq> set (w_pins w')"

interpretation pins_grow: effect_frame pins_grow
  by unfold_locales (auto simp: pins_grow_def)

lemma moves_attempts: "moves pins_grow (pin_attempts env c rootCID n)"
proof (induction n)
  have pin: "moves pins_grow (client_Pin env c rootCID)"
    by (auto simp: moves_def client_Pin_def bindP_def ask_eq pins_grow_def split: sum.split)
  case 0
  show ?case unfolding pin_attempts.simps [of _ _ _ 0] nat.case ctx_canceled_def by (intro moves_intros pin)
next
  have pin: "moves pins_grow (client_Pin env c rootCID)"
    by (auto simp: moves_def client_Pin_def bindP_def ask_eq pins_grow_def split: sum.split)
  case (Suc k)
  then show ?case unfolding pin_attempts.simps [of _ _ _ "Suc k"] nat.case ctx_canceled_def by (intro moves_intros pin)
qed

lemma moves_jobs: "moves pins_grow (pinWithRetry env c rootCID retries)" "moves pins_grow (run_jobs env c retries js)"
proof -
  have one: "moves pins_grow (pinWithRetry env c rootCID retries)" for rootCID
    unfolding pinWithRetry_def by (intro moves_intros moves_attempts)
  then show "moves pins_grow (pinWithRetry env c rootCID retries)" .
  show "moves pins_grow (run_jobs env c retries js)"
  proof (induction js)
    case Nil
    show ?case unfolding run_jobs.simps by (intro moves_intros)
  next
    case (Cons j js)
    then show ?case unfolding run_jobs.simps by (intro moves_intros one)
  qed
qed

lemma tryP_Inr: "tryP m w = (Inr r, w') \<Longrightarrow> m w = (r, w')"
  by (auto simp: tryP_def split: prod.splits sum.splits if_splits)

lemma client_Pin_pins: "client_Pin env c rootCID w = (Inr u, w') \<Longrightarrow> rootCID \<in> set (w_pins w')"
  by (auto simp: client_Pin_def bindP_Inr split: sum.splits)

lemma attempts_pin: "pin_attempts env c rootCID n w = (Inr (), w') \<Longrightarrow> rootCID \<in> set (w_pins w')"
proof (induction n arbitrary: w)
  case 0
  then obtain r w1 w2 where r: "tryP (client_Pin env c rootCID) w1 = (Inr r, w2)"
    and "(case r of Inr u \<Rightarrow> returnP u | Inl err \<Rightarrow> failP err) w2 = (Inr (), w')"
    unfolding pin_attempts.simps [of _ _ _ 0] nat.case bindP_Inr by (auto split: if_splits simp: bindP_Inr)
  then have "r = Inr ()" "w2 = w'" by (auto split: sum.splits)
  with client_Pin_pins tryP_Inr [OF r] show ?case by blast
next
  case (Suc k)
  from Suc.prems obtain r w1 w2 where r: "tryP (client_Pin env c rootCID) w1 = (Inr r, w2)"
    and rest: "(case r of Inr u \<Rightarrow> returnP u | Inl err \<Rightarrow> pin_attempts env c rootCID k) w2 = (Inr (), w')"
    unfolding pin_attempts.simps [of _ _ _ "Suc k"] nat.case bindP_Inr by (auto split: if_splits simp: bindP_Inr)
  show ?case
  proof (cases r)
    case (Inl e)
    with rest Suc.IH show ?thesis by simp
  next
    case (Inr u)
    with rest client_Pin_pins [of env c rootCID w1 u w2] tryP_Inr [OF r] show ?thesis by simp
  qed
qed

lemma retry_pins:
  assumes "pinWithRetry env c rootCID retries w = (Inr (), w')"
  shows "rootCID \<in> set (w_pins w')"
proof -
  from assms obtain verified :: "unit res" and w1 where
    "(case verified of
         Inl verr \<Rightarrow>
           if strings_Contains (error_text verr) ''block missing locally'' then failP (Wrap (error_text verr) ErrIncompleteDAG)
           else pin_attempts env c rootCID retries
       | Inr _ \<Rightarrow> pin_attempts env c rootCID retries) w1 = (Inr (), w')"
    unfolding pinWithRetry_def bindP_Inr by (elim exE conjE) (rule that)
  then have "pin_attempts env c rootCID retries w1 = (Inr (), w')" by (auto split: sum.splits if_splits)
  then show ?thesis by (rule attempts_pin)
qed

lemma jobs_pin:
  assumes "run_jobs env c retries js w = (Inr outcomes, w')" and "\<forall>x \<in> set outcomes. isOk (snd x)"
  shows "pj_cid ` set js \<subseteq> set (w_pins w')"
  using assms
proof (induction js arbitrary: w outcomes)
  case (Cons j js)
  from Cons.prems(1) obtain r w1 rs where r: "tryP (pinWithRetry env c (pj_cid j) retries) w = (Inr r, w1)"
    and rest: "run_jobs env c retries js w1 = (Inr rs, w')" and out: "outcomes = (pj_epoch j, r) # rs"
    by (auto simp: bindP_Inr returnP_def)
  from out Cons.prems(2) tryP_Inr [OF r] have "pinWithRetry env c (pj_cid j) retries w = (Inr (), w1)"
    by (cases r) (auto simp: isOk_def)
  from retry_pins [OF this] movesD [OF moves_jobs(2) rest] Cons.IH [OF rest] Cons.prems(2) out show ?case by (auto simp: pins_grow_def)
qed simp

lemma summary_ok:
  assumes "pn_failed (pin_summary outcomes) = []" and "pn_incomplete (pin_summary outcomes) = []"
  shows "\<forall>x \<in> set outcomes. isOk (snd x)"
proof
  fix x assume "x \<in> set outcomes"
  moreover have "filter (\<lambda>(e, r). \<not> isOk r \<and> \<not> incomplete r) outcomes = []" "filter (\<lambda>(e, r). incomplete r) outcomes = []"
    using assms by (simp_all add: pin_summary_def sortUint64_sort sort_Nil)
  ultimately have "\<not> (\<not> isOk (snd x) \<and> \<not> incomplete (snd x))" "\<not> incomplete (snd x)"
    unfolding filter_empty_conv by (simp_all add: case_prod_beta)
  then show "isOk (snd x)" by blast
qed

lemma pin_jobs_cover:
  assumes "pin_jobs env c False retries order todo w = (Inr rep, w')" and "{..<length todo} \<subseteq> set order"
  shows "pj_cid ` set todo \<subseteq> set (w_pins w')"
proof (cases "todo = []")
  case False
  with assms(1) obtain outcomes w1
    where run: "run_jobs env c retries (map ((!) todo) (filter (\<lambda>i. i < length todo) order)) w = (Inr outcomes, w1)"
      and "pin_exit (pin_summary outcomes) w1 = (Inr rep, w')"
    by (auto simp: pin_jobs_def bindP_Inr)
  then have "w1 = w'" and ok: "\<forall>x \<in> set outcomes. isOk (snd x)"
    using summary_ok [of outcomes] by (auto simp: pin_exit_def split: if_splits)
  have "set todo \<subseteq> set (map ((!) todo) (filter (\<lambda>i. i < length todo) order))"
  proof
    fix x assume "x \<in> set todo"
    then obtain i where i: "i < length todo" "x = todo ! i" by (auto simp: in_set_conv_nth)
    with assms(2) show "x \<in> set (map ((!) todo) (filter (\<lambda>i. i < length todo) order))" by auto
  qed
  with jobs_pin [OF run ok] \<open>w1 = w'\<close> show ?thesis by (meson image_mono subset_trans)
qed simp

lemma pin_todo_length: "length (pin_todo lib pins records) \<le> length records"
  by (induction records) (auto simp: pin_todo_def split: sum.splits)

lemma pin_todo_mem:
  assumes "rec \<in> set records" and "cid_Decode lib (rec_CID rec) = Inr c" and "cid_String lib c \<notin> pins"
  shows "c \<in> pj_cid ` set (pin_todo lib pins records)"
  using assms by (force simp: pin_todo_def)

lemma all_epochs_length: "GetAllEpochs flt t network = Inr records \<Longrightarrow> length records \<le> length (tb_epochs t)"
  using mapR_length [of scan_epoch_record "sort_key ew_epoch (network_epochs t network)" records]
  by (auto simp: GetAllEpochs_def network_epochs_def bindR_eq_Inr)

lemma pin_records_cover:
  assumes "pin_records env c False retries limit order records w = (Inr rep, w')"
    and "sint limit \<le> 0" and "{..<length records} \<subseteq> set order"
  shows "\<exists>pins j. (ListRecursivePins (o_lib env) c (o_http env j) = Inr pins \<or> pins = {}) \<and>
    (\<forall>rec \<in> set records. \<forall>c. cid_Decode (o_lib env) (rec_CID rec) = Inr c \<longrightarrow>
       cid_String (o_lib env) c \<in> pins \<or> c \<in> set (w_pins w'))"
proof -
  from assms(1) obtain listed w1 w2
    where listed: "tryP (liftP (ListRecursivePins (o_lib env) c (o_http env (w_tick w)))) w1 = (Inr listed, w2)"
      and jobs: "pin_jobs env c False retries order (pin_limit limit (pin_todo (o_lib env) (case listed of Inl _ \<Rightarrow> {} | Inr pins \<Rightarrow> pins) records)) w2 =
        (Inr rep, w')"
    by (auto simp: pin_records_def bindP_Inr Let_def)
  define pins where "pins = (case listed of Inl _ \<Rightarrow> {} | Inr pins \<Rightarrow> pins)"
  have "{..<length (pin_todo (o_lib env) pins records)} \<subseteq> set order"
    using assms(3) pin_todo_length [of "o_lib env" pins records] by force
  with jobs assms(2) have "pj_cid ` set (pin_todo (o_lib env) pins records) \<subseteq> set (w_pins w')"
    using pin_jobs_cover by (simp add: pin_limit_def flip: pins_def)
  moreover have "ListRecursivePins (o_lib env) c (o_http env (w_tick w)) = Inr pins \<or> pins = {}"
    using tryP_Inr [OF listed] by (auto simp: pins_def split: sum.splits)
  ultimately show ?thesis
    using pin_todo_mem [of _ records "o_lib env" _ pins]
    by (intro exI [of _ pins] exI [of _ "w_tick w"] conjI ballI allI impI) (assumption, meson subsetD)
qed

text \<open>
  C39. When \<^verbatim>\<open>pin-existing\<close>, without \<^verbatim>\<open>-dry-run\<close> and \<^verbatim>\<open>-limit\<close>, ends without an error, every epoch root of the database
  that is a CID was in the node's pin set (which counts as empty when it could not be listed) or has been pinned by this
  run, whatever the retries and in whichever order the workers finish their jobs (\<open>order\<close> names every job).
\<close>

theorem pin_existing_covers:
  assumes run: "cmdPinExisting env cfg False retries limit order w = (Inr rep, w')"
    and limit: "sint limit \<le> 0" and order: "{..<length (tb_epochs (w_tables w))} \<subseteq> set order"
  shows "\<exists>records pins k j. GetAllEpochs (o_db env k) (w_tables w) (cfg_network cfg) = Inr records \<and>
           (ListRecursivePins (o_lib env) (newIPFSClientFromConfig cfg) (o_http env j) = Inr pins \<or> pins = {}) \<and>
           (\<forall>rec \<in> set records. \<forall>c. cid_Decode (o_lib env) (rec_CID rec) = Inr c \<longrightarrow>
              cid_String (o_lib env) c \<in> pins \<or> c \<in> set (w_pins w'))"
proof -
  from run obtain u w1 records w2 where c: "connect_db env w = (Inr u, w1)"
    and read: "db_read env (\<lambda>flt t. GetAllEpochs flt t (cfg_network cfg)) w1 = (Inr records, w2)"
    and rest: "(if records = [] then returnP no_pins
      else pin_records env (newIPFSClientFromConfig cfg) False (nat (sint retries)) limit order records) w2 = (Inr rep, w')"
    by (auto simp: cmdPinExisting_def bindP_Inr split: if_splits)
  from c read have records: "GetAllEpochs (o_db env (w_tick w1)) (w_tables w) (cfg_network cfg) = Inr records"
    by (auto simp: connect_db_def db_read_def bindP_Inr)
  show ?thesis
  proof (cases "records = []")
    case False
    have "{..<length records} \<subseteq> set order" using order all_epochs_length [OF records] by force
    with pin_records_cover [of env "newIPFSClientFromConfig cfg" "nat (sint retries)" limit order records w2 rep w'] False rest limit
    obtain pins j where "ListRecursivePins (o_lib env) (newIPFSClientFromConfig cfg) (o_http env j) = Inr pins \<or> pins = {}"
      and "\<forall>rec \<in> set records. \<forall>c. cid_Decode (o_lib env) (rec_CID rec) = Inr c \<longrightarrow>
        cid_String (o_lib env) c \<in> pins \<or> c \<in> set (w_pins w')"
      by (simp only: if_False) blast
    with records show ?thesis by blast
  next
    case True
    with records show ?thesis by (intro exI [of _ records] exI [of _ "{}"]) auto
  qed
qed

definition demo_pin_cfg :: Config where
  "demo_pin_cfg = demo_cmd_cfg\<lparr>cf_IPFS := (cf_IPFS demo_cmd_cfg)\<lparr>ic_APIAddr := ''node'', ic_SkipUpload := False\<rparr>\<rparr>"

definition demo_pin_world :: world where
  "demo_pin_world = demo_world\<lparr>w_tables := schema_empty\<lparr>tb_epochs :=
     [\<lparr>ew_epoch = 7, ew_network = ''mainnet'', ew_slot = 14, ew_epoch_time = None, ew_cid = demo_cid_String (demo_cid 7),
       ew_car_path = '''', ew_blob_count = 1, ew_size_bytes = 1\<rparr>]\<rparr>\<rparr>"

lemma demo_pin_epochs:
  "GetAllEpochs noFaults (w_tables demo_pin_world) ''mainnet'' = Inr [\<lparr>rec_Epoch = 7, rec_CID = demo_cid_String (demo_cid 7), rec_SizeBytes = 1\<rparr>]"
  by (simp add: GetAllEpochs_def network_epochs_def demo_pin_world_def scan_epoch_record_def scan_uint64_def fault_def)

lemma demo_pin_job: "\<exists>w'. pinWithRetry demo_outside c (demo_cid 7) 0 w = (Inr (), w')"
  by (simp add: pinWithRetry_def pin_attempts.simps [of _ _ _ 0] bindP_def ask_eq tryP_def client_Pin_def ctx_canceled_def
      demo_outside_def Pin_def VerifyLocal_def send_ok_def send_def demo_http_def)

lemma demo_pin_pool:
  assumes "pj_cid j = demo_cid 7"
  shows "\<exists>rep w'. pin_jobs demo_outside c False 0 [0] [j] w = (Inr rep, w')"
proof -
  obtain w1 where "pinWithRetry demo_outside c (demo_cid 7) 0 w = (Inr (), w1)" using demo_pin_job by blast
  then have "tryP (pinWithRetry demo_outside c (demo_cid 7) 0) w = (Inr (Inr ()), w1)" by (simp add: tryP_def)
  with assms show ?thesis
    by (simp add: pin_jobs_def bindP_step pin_exit_def pin_summary_def sortUint64_sort incomplete_def isOk_def)
qed

lemma demo_pin_run: "\<exists>rep w'. cmdPinExisting demo_outside demo_pin_cfg False 0 0 [0] demo_pin_world = (Inr rep, w')"
proof -
  have net: "nc_Name (cf_Network demo_pin_cfg) = ''mainnet''"
    by (simp add: demo_pin_cfg_def demo_cmd_cfg_def demo_gen_def)
  let ?w = "demo_pin_world\<lparr>w_tick := Suc (w_tick demo_pin_world)\<rparr>"
  have c: "connect_db demo_outside demo_pin_world = (Inr (), ?w)"
    by (simp add: connect_db_def bindP_def ask_eq demo_outside_def wrapP_def)
  have db: "db_read demo_outside (\<lambda>flt t. GetAllEpochs flt t (cfg_network demo_pin_cfg)) ?w =
      (Inr [\<lparr>rec_Epoch = 7, rec_CID = demo_cid_String (demo_cid 7), rec_SizeBytes = 1\<rparr>], ?w\<lparr>w_tick := Suc (w_tick ?w)\<rparr>)"
    using demo_pin_epochs by (simp add: db_read_def bindP_def ask_eq net demo_outside_def)
  have todo: "pin_todo cid_lib {} [\<lparr>rec_Epoch = 7, rec_CID = demo_cid_String (demo_cid 7), rec_SizeBytes = 1\<rparr>] = [\<lparr>pj_epoch = 7, pj_cid = demo_cid 7\<rparr>]"
    by (simp add: pin_todo_def cid_lib_def demo_cid_roundtrip demo_cid_def)
  have pins: "\<exists>e. ListRecursivePins cid_lib c demo_http = Inl e \<and> \<not> isPanic e" for c
    by (simp add: ListRecursivePins_def call_json_def send_ok_def send_def demo_http_def isPanic_def)
  have http: "o_http demo_outside k = demo_http" for k by (simp add: demo_outside_def)
  have rest: "\<exists>rep w'. pin_records demo_outside c False 0 0 [0] [\<lparr>rec_Epoch = 7, rec_CID = demo_cid_String (demo_cid 7), rec_SizeBytes = 1\<rparr>] w = (Inr rep, w')"
    for c w
    using demo_pin_pool [of "\<lparr>pj_epoch = 7, pj_cid = demo_cid 7\<rparr>"] pins [of c]
    by (auto simp: pin_records_def bindP_def ask_eq tryP_def http pin_limit_def todo)
  have "sg_PostgresDSN (cf_Storage demo_pin_cfg) \<noteq> ''''" "\<not> (ic_SkipUpload (cf_IPFS demo_pin_cfg) \<or> ic_APIAddr (cf_IPFS demo_pin_cfg) = '''')"
    by (simp_all add: demo_pin_cfg_def demo_cmd_cfg_def)
  with c db rest show ?thesis by (simp add: cmdPinExisting_def bindP_def wrapP_def)
qed

theorem pin_existing_covers_witness:
  "demo_cid 7 \<in> set (w_pins (snd (cmdPinExisting demo_outside demo_pin_cfg False 0 0 [0] demo_pin_world)))"
proof -
  obtain rep w' where run: "cmdPinExisting demo_outside demo_pin_cfg False 0 0 [0] demo_pin_world = (Inr rep, w')"
    using demo_pin_run by blast
  have net: "cfg_network demo_pin_cfg = ''mainnet''" by (simp add: demo_pin_cfg_def demo_cmd_cfg_def demo_gen_def)
  have env: "o_db demo_outside k = noFaults" "o_http demo_outside k = demo_http" "o_lib demo_outside = cid_lib" for k
    by (simp_all add: demo_outside_def)
  have "length (tb_epochs (w_tables demo_pin_world)) = 1" by (simp add: demo_pin_world_def)
  with pin_existing_covers [OF run] obtain records pins j where "GetAllEpochs noFaults (w_tables demo_pin_world) ''mainnet'' = Inr records"
    and "ListRecursivePins cid_lib (newIPFSClientFromConfig demo_pin_cfg) (demo_http) = Inr pins \<or> pins = {}"
    and all: "\<forall>rec \<in> set records. \<forall>c. cid_Decode cid_lib (rec_CID rec) = Inr c \<longrightarrow> cid_String cid_lib c \<in> pins \<or> c \<in> set (w_pins w')"
    by (auto simp: env net)
  moreover from this have "pins = {}"
    by (simp add: ListRecursivePins_def call_json_def send_ok_def send_def demo_http_def)
  moreover from calculation(1) have "records = [\<lparr>rec_Epoch = 7, rec_CID = demo_cid_String (demo_cid 7), rec_SizeBytes = 1\<rparr>]"
    unfolding demo_pin_epochs by simp
  ultimately show ?thesis using run by (simp add: cid_lib_def demo_cid_roundtrip demo_cid_def)
qed

end
