(* ===== verification/Startup.thy ===== *)
theory Startup
  imports Flags Summary Service Refs Export Pins
begin

text \<open>
  The rest of \<^verbatim>\<open>cmd/blobscan-ipld/main.go\<close>: the log handlers, \<^verbatim>\<open>main\<close> up to the call of a subcommand, and the instructions
  that \<^verbatim>\<open>export-blob-refs\<close> prints. The commands that the health check suggests are read back here: they start the commands
  they stand for.
\<close>

section \<open>Logging\<close>

text \<open>The levels of \<^verbatim>\<open>log/slog\<close>.\<close>

abbreviation LevelDebug :: int where "LevelDebug \<equiv> - 4"
abbreviation LevelInfo :: int where "LevelInfo \<equiv> 0"
abbreviation LevelWarn :: int where "LevelWarn \<equiv> 4"
abbreviation LevelError :: int where "LevelError \<equiv> 8"

definition logger_level :: "string \<Rightarrow> int" where
  "logger_level level =
     (if level = ''debug'' then LevelDebug else if level = ''warn'' then LevelWarn
      else if level = ''error'' then LevelError else LevelInfo)"

text \<open>
  A handler is one of the two of the libraries (the text handler and Sentry's) or a \<^verbatim>\<open>teeHandler\<close>. What the library handlers do
  is an argument; a call of their \<^verbatim>\<open>Handle\<close> is recorded with its handler.
\<close>

record log_record =
  lr_level :: int
  lr_message :: string

record 'h handler_lib =
  hl_Enabled :: "'h \<Rightarrow> int \<Rightarrow> bool"
  hl_Handle :: "'h \<Rightarrow> log_record \<Rightarrow> unit res"
  hl_WithAttrs :: "'h \<Rightarrow> (string \<times> string) list \<Rightarrow> 'h"
  hl_WithGroup :: "'h \<Rightarrow> string \<Rightarrow> 'h"

datatype 'h handler = Library 'h | Tee "'h handler" "'h handler"

fun Enabled :: "'h handler_lib \<Rightarrow> 'h handler \<Rightarrow> int \<Rightarrow> bool" where
  "Enabled hl (Library h) level = hl_Enabled hl h level"
| "Enabled hl (Tee primary secondary) level \<longleftrightarrow> Enabled hl primary level \<or> Enabled hl secondary level"

fun Handle :: "'h handler_lib \<Rightarrow> 'h handler \<Rightarrow> log_record \<Rightarrow> unit res \<times> ('h \<times> log_record) list" where
  "Handle hl (Library h) r = (hl_Handle hl h r, [(h, r)])"
| "Handle hl (Tee primary secondary) r = (fst (Handle hl primary r), snd (Handle hl secondary r) @ snd (Handle hl primary r))"

fun WithAttrs :: "'h handler_lib \<Rightarrow> (string \<times> string) list \<Rightarrow> 'h handler \<Rightarrow> 'h handler" where
  "WithAttrs hl attrs (Library h) = Library (hl_WithAttrs hl h attrs)"
| "WithAttrs hl attrs (Tee primary secondary) = Tee (WithAttrs hl attrs primary) (WithAttrs hl attrs secondary)"

fun WithGroup :: "'h handler_lib \<Rightarrow> string \<Rightarrow> 'h handler \<Rightarrow> 'h handler" where
  "WithGroup hl name (Library h) = Library (hl_WithGroup hl h name)"
| "WithGroup hl name (Tee primary secondary) = Tee (WithGroup hl name primary) (WithGroup hl name secondary)"

text \<open>A \<^verbatim>\<open>slog.Logger\<close> asks the handler first.\<close>

definition logged :: "'h handler_lib \<Rightarrow> 'h handler \<Rightarrow> log_record \<Rightarrow> ('h \<times> log_record) list" where
  "logged hl h r = (if Enabled hl h (lr_level r) then snd (Handle hl h r) else [])"

text \<open>
  The terminal shows the same records with and without Sentry: Sentry's handler is enabled for errors alone, and the text handler
  shows errors at every level it can be configured with.
\<close>

lemma tee_same_terminal:
  assumes "\<And>l. hl_Enabled hl sentry l \<Longrightarrow> l = LevelError" and "\<And>l. hl_Enabled hl terminal l \<longleftrightarrow> logger_level level \<le> l" and "sentry \<noteq> terminal"
  shows "filter (\<lambda>x. fst x = terminal) (logged hl (Tee (Library terminal) (Library sentry)) r) = logged hl (Library terminal) r"
proof -
  have "logger_level level \<le> LevelError" by (simp add: logger_level_def)
  then have "hl_Enabled hl sentry l \<Longrightarrow> hl_Enabled hl terminal l" for l using assms(1) [of l] assms(2) by simp
  then show ?thesis using assms(3) by (auto simp: logged_def)
qed

section \<open>Import instructions\<close>

definition import_columns :: "bool \<Rightarrow> string" where
  "import_columns includeMeta =
     (if includeMeta then ''blob_hash, storage, data_reference, meta_reference'' else ''blob_hash, storage, data_reference'')"

definition copy_command :: "string \<Rightarrow> string \<Rightarrow> string \<Rightarrow> bool \<Rightarrow> string" where
  "copy_command table cols outFile binary =
     [CHR 0x5C] @ ''copy '' @ table @ ''('' @ cols @ '') FROM '' @ [CHR 0x27] @ outFile @ [CHR 0x27] @
     (if binary then '' WITH (FORMAT binary)'' else '' WITH (FORMAT csv, HEADER true)'')"

definition import_instructions :: "string \<Rightarrow> bool \<Rightarrow> bool \<Rightarrow> string list" where
  "import_instructions outPath includeMeta binary =
     (let cols = import_columns includeMeta;
          outFile = (if outPath = '''' then if binary then ''<file.bin>'' else ''<file.csv>'' else outPath);
          psql = ''  psql '' @ [CHR 0x22] @ ''$BLOBSCAN_DATABASE_URL'' @ [CHR 0x22]
      in ['''', ''To import into blobscan, run:'', '''',
          psql @ '' -c '' @ [CHR 0x22] @ copy_command ''blob_data_storage_reference'' cols outFile binary @ [CHR 0x22], '''',
          ''To upsert (update existing rows):'', '''',
          psql @ '' <<'' @ [CHR 0x27] @ ''SQL'' @ [CHR 0x27],
          ''  CREATE TEMP TABLE staging (LIKE blob_data_storage_reference INCLUDING ALL);'',
          ''  '' @ copy_command ''staging'' cols outFile binary,
          ''  INSERT INTO blob_data_storage_reference('' @ cols @ '')'',
          ''  SELECT '' @ cols @ '' FROM staging'',
          ''  ON CONFLICT (blob_hash, storage) DO UPDATE SET''] @
         (if includeMeta then [''    data_reference = EXCLUDED.data_reference,'', ''    meta_reference = EXCLUDED.meta_reference;'']
          else [''    data_reference = EXCLUDED.data_reference;'']) @
         [''  SQL''])"

text \<open>The columns that the instructions name are those of the file that was written.\<close>

lemma import_columns_header: "import_columns includeMeta = strings_Join '', '' (ref_header includeMeta)"
  by (simp add: import_columns_def ref_header_def)

section \<open>Startup\<close>

text \<open>The process exits before it calls a command, or it calls one with these values of its flags.\<close>

datatype startup = Exit nat | Call command flag_set Config

text \<open>
  \<open>args\<close>: \<^verbatim>\<open>os.Args[1:]\<close>; \<open>mkdir\<close>: the outcome of \<^verbatim>\<open>os.MkdirAll\<close> for a directory. The flags of the command are parsed by the command
  as its first action.
\<close>

definition main_load :: "parse_lib \<Rightarrow> environment \<Rightarrow> (string \<Rightarrow> unit res) \<Rightarrow> string \<Rightarrow> (Config \<times> command) res" where
  "main_load pl env mkdir subcommand =
     bindR (wrapR ''failed to load config'' (Load pl env)) (\<lambda>cfg.
     bindR (mapR (\<lambda>dir. wrapR ''failed to create directory'' (mkdir dir)) [sg_DataDir (cf_Storage cfg), sg_CARDir (cf_Storage cfg)]) (\<lambda>_.
     bindR (dispatch subcommand) (\<lambda>c. Inr (cfg, c))))"

definition main_start :: "parse_lib \<Rightarrow> environment \<Rightarrow> (string \<Rightarrow> unit res) \<Rightarrow> string list \<Rightarrow> startup" where
  "main_start pl env mkdir args =
     (if args = [] then Exit 1
      else case flag_Parse pl global_flags args of
             Inl code \<Rightarrow> Exit code
           | Inr (_, []) \<Rightarrow> Exit 1
           | Inr (_, subcommand # subArgs) \<Rightarrow>
               (case main_load pl env mkdir subcommand of
                  Inl _ \<Rightarrow> Exit 1
                | Inr (cfg, c) \<Rightarrow>
                    (case flag_Parse pl (command_flags c) subArgs of
                       Inl code \<Rightarrow> Exit code
                     | Inr (fs, _) \<Rightarrow> Call c fs cfg)))"

text \<open>
  Every flag that the called command reads is there with its type, and a call needs a valid configuration; so \<open>flag_uint64\<close> and the
  other readers never fall back to their default cases.
\<close>

lemma main_start_call:
  assumes "main_start pl env mkdir args = Call c fs cfg"
  shows "flags_typed (command_flags c) fs \<and> Load pl env = Inr cfg"
  using assms
  by (auto simp: main_start_def main_load_def bindR_eq_Inr wrapR_eq_Inr intro: flag_Parse_typed
      split: if_splits sum.splits prod.splits list.splits)

section \<open>The suggested commands\<close>

text \<open>What a shell makes of a line without quotes: its words, up to a comment.\<close>

definition shell_words :: "string \<Rightarrow> string list" where
  "shell_words line = takeWhile (\<lambda>w. hd w \<noteq> CHR ''#'') (filter (\<lambda>w. w \<noteq> []) (strings_Split (CHR '' '') line))"

lemma strings_Split_word: "sep \<notin> set u \<Longrightarrow> strings_Split sep (u @ sep # v) = u # strings_Split sep v"
  by (induction u) auto

lemma FormatUint_word: "CHR '' '' \<notin> set (FormatUint v)" "FormatUint v \<noteq> []" "hd (FormatUint v) \<noteq> CHR ''#''"
proof -
  have digit: "char_digit c \<noteq> None" if "c \<in> set (FormatUint v)" for c using that fmt_nat_digit by (simp add: FormatUint_def)
  show "FormatUint v \<noteq> []" by (simp add: FormatUint_def)
  with digit [of "hd (FormatUint v)"] show "hd (FormatUint v) \<noteq> CHR ''#''" by (auto simp: char_digit_def)
  show "CHR '' '' \<notin> set (FormatUint v)" using digit [of "CHR '' ''"] by (auto simp: char_digit_def)
qed

lemma backfill_line_words:
  "shell_words (''  blobscan-ipld backfill-ipfs -from '' @ FormatUint a @ '' -to '' @ FormatUint b @ ''   # re-fetch & self-heal CIDs'') =
     [''blobscan-ipld'', ''backfill-ipfs'', ''-from'', FormatUint a, ''-to'', FormatUint b]"
  "shell_words (''  blobscan-ipld backfill-ipfs -from '' @ FormatUint a @ '' -to '' @ FormatUint b @ ''   # re-fetch & self-heal '' @ FormatUint n @ '' epochs'') =
     [''blobscan-ipld'', ''backfill-ipfs'', ''-from'', FormatUint a, ''-to'', FormatUint b]"
  by (simp_all add: shell_words_def strings_Split_word FormatUint_word)

lemma repair_line_words:
  "shell_words (''  blobscan-ipld repair-epochs        # fix '' @ fmt_nat n @ '' blob_count mismatch'' @ s) = [''blobscan-ipld'', ''repair-epochs'']"
proof -
  have "CHR '' '' \<notin> set (fmt_nat n)" using fmt_nat_digit [of "CHR '' ''" n] by (auto simp: char_digit_def)
  then show ?thesis
    by (cases "strings_Split (CHR '' '') s") (simp_all add: shell_words_def strings_Split_word)
qed

lemma main_start_commands:
  assumes "Load pl env = Inr cfg" and "isOk (mkdir (sg_DataDir (cf_Storage cfg)))" and "isOk (mkdir (sg_CARDir (cf_Storage cfg)))"
  shows "main_start pl env mkdir [''repair-epochs''] = Call CmdRepairEpochs (command_flags CmdRepairEpochs) cfg"
    and "main_start pl env mkdir [''backfill-ipfs'', ''-from'', FormatUint a, ''-to'', FormatUint b] =
      Call CmdBackfillIPFS [(''from'', VUint64 a), (''to'', VUint64 b)] cfg"
proof -
  have load: "main_load pl env mkdir sub = bindR (dispatch sub) (\<lambda>c. Inr (cfg, c))" for sub
    using assms by (auto simp: main_load_def isOk_def split: sum.splits)
  have global: "flag_Parse pl global_flags ((c # d # cs) # args) = Inr (global_flags, (c # d # cs) # args)" if "c \<noteq> CHR ''-''" for c d cs args
    using that by (simp add: parseOne_def)
  show "main_start pl env mkdir [''repair-epochs''] = Call CmdRepairEpochs (command_flags CmdRepairEpochs) cfg"
    using global [of "CHR ''r''" "CHR ''e''" "''pair-epochs''" "[]"] load by (simp add: main_start_def dispatch_def subcommands_def)
  have "flag_Parse pl (command_flags CmdBackfillIPFS) [''-from'', FormatUint a, ''-to'', FormatUint b] =
      Inr ([(''from'', VUint64 a), (''to'', VUint64 b)], [])"
    using flag_Parse_uint64 [of "command_flags CmdBackfillIPFS" "''from''" 0 pl a "[''-to'', FormatUint b]"]
      flag_Parse_uint64 [of "[(''from'', VUint64 a), (''to'', VUint64 0)]" "''to''" 0 pl b "[]"] by simp
  then show "main_start pl env mkdir [''backfill-ipfs'', ''-from'', FormatUint a, ''-to'', FormatUint b] =
      Call CmdBackfillIPFS [(''from'', VUint64 a), (''to'', VUint64 b)] cfg"
    using global [of "CHR ''b''" "CHR ''a''" "''ckfill-ipfs''" "[''-from'', FormatUint a, ''-to'', FormatUint b]"] load
    by (simp add: main_start_def dispatch_def subcommands_def)
qed

text \<open>
  C30. The commands that the health check suggests do what they are for. Each line, typed into a shell, starts the program with a command:
  one \<^verbatim>\<open>repair-epochs\<close> when there are epochs to repair, and one \<^verbatim>\<open>backfill-ipfs\<close> per range with exactly the bounds of the range. The
  ranges contain exactly the epochs that the checks found, each runs upwards, and no two of them could be joined.
\<close>

theorem remediation_runs:
  assumes "Load pl env = Inr cfg" and "isOk (mkdir (sg_DataDir (cf_Storage cfg)))" and "isOk (mkdir (sg_CARDir (cf_Storage cfg)))"
  shows "\<exists>ranges. map (\<lambda>line. (hd (shell_words line), main_start pl env mkdir (tl (shell_words line)))) (remediation rep) =
      (if hr_repairEpochs rep = [] then []
       else [(''blobscan-ipld'', Call CmdRepairEpochs [(''dry-run'', VBool False), (''no-verify'', VBool False)] cfg)]) @
      map (\<lambda>(a, b). (''blobscan-ipld'', Call CmdBackfillIPFS [(''from'', VUint64 a), (''to'', VUint64 b)] cfg)) ranges \<and>
    ranges_ok ranges \<and> in_ranges ranges = set (hr_backfillEpochs rep)"
proof -
  let ?ranges = "collapseRanges (dedupUint64 (hr_backfillEpochs rep))"
  have "dedupUint64 (hr_repairEpochs rep) = [] \<longleftrightarrow> hr_repairEpochs rep = []"
    using dedupUint64_spec [of "hr_repairEpochs rep"] by (metis set_empty)
  then have "map (\<lambda>line. (hd (shell_words line), main_start pl env mkdir (tl (shell_words line)))) (remediation rep) =
      (if hr_repairEpochs rep = [] then []
       else [(''blobscan-ipld'', Call CmdRepairEpochs [(''dry-run'', VBool False), (''no-verify'', VBool False)] cfg)]) @
      map (\<lambda>(a, b). (''blobscan-ipld'', Call CmdBackfillIPFS [(''from'', VUint64 a), (''to'', VUint64 b)] cfg)) ?ranges"
    by (auto simp: remediation_def Let_def repair_line_words [simplified] backfill_line_words [simplified] main_start_commands [OF assms])
  moreover have "ranges_ok ?ranges" "in_ranges ?ranges = set (hr_backfillEpochs rep)"
    using collapseRanges_exact [of "dedupUint64 (hr_backfillEpochs rep)"] dedupUint64_spec [of "hr_backfillEpochs rep"] by auto
  ultimately show ?thesis by blast
qed

lemma demo_Load: "\<exists>cfg. Load demo_parse_lib demo_environment = Inr cfg"
proof -
  have "isOk (Load demo_parse_lib demo_environment)"
    by (simp add: Load_eq validate_def applyEnv_def loaded_fields demo_environment_def Atoi_def parse_int_def)
  then show ?thesis by (auto simp: isOk_def split: sum.splits)
qed

theorem remediation_runs_witness:
  "\<exists>cfg ranges. Load demo_parse_lib demo_environment = Inr cfg \<and>
     map (\<lambda>line. main_start demo_parse_lib demo_environment (\<lambda>_. Inr ()) (tl (shell_words line)))
       (remediation (emptyReport\<lparr>hr_backfillEpochs := [7, 5, 6]\<rparr>)) =
     map (\<lambda>(a, b). Call CmdBackfillIPFS [(''from'', VUint64 a), (''to'', VUint64 b)] cfg) ranges \<and> in_ranges ranges = {5, 6, 7}"
proof -
  let ?start = "main_start demo_parse_lib demo_environment (\<lambda>_. Inr ())" and ?rep = "emptyReport\<lparr>hr_backfillEpochs := [7, 5, 6]\<rparr>"
  obtain cfg where cfg: "Load demo_parse_lib demo_environment = Inr cfg" using demo_Load by blast
  have empty: "hr_repairEpochs ?rep = []" "set (hr_backfillEpochs ?rep) = {5, 6, 7}" by (auto simp: emptyReport_def)
  obtain ranges where r: "map (\<lambda>line. (hd (shell_words line), ?start (tl (shell_words line)))) (remediation ?rep) =
      map (\<lambda>(a, b). (''blobscan-ipld'', Call CmdBackfillIPFS [(''from'', VUint64 a), (''to'', VUint64 b)] cfg)) ranges"
    "in_ranges ranges = {5, 6, 7}"
    using remediation_runs [OF cfg, of "\<lambda>_. Inr ()" ?rep] unfolding empty by auto
  from arg_cong [OF r(1), of "map snd"] have "map (\<lambda>line. ?start (tl (shell_words line))) (remediation ?rep) =
      map (\<lambda>(a, b). Call CmdBackfillIPFS [(''from'', VUint64 a), (''to'', VUint64 b)] cfg) ranges"
    by (simp add: comp_def split_def)
  with cfg r(2) show ?thesis by blast
qed

text \<open>A bound 0 is not passed on: the command takes it for a flag that was not given.\<close>

lemma backfill_zero_bounds:
  "cmdBackfillIPFS env cfg retries 0 b = cmdBackfillIPFS env cfg retries (gc_StartEpoch (cf_Generator cfg)) b"
  by (simp add: cmdBackfillIPFS_def Let_def)

end
