(* ===== verification/Spec2Isabelle.thy ===== *)
theory Spec2Isabelle
  imports Connect Startup
begin

text \<open>
  \<^bold>\<open>blobscan-ipld\<close> indexes the blobs of Ethereum (EIP-4844) as IPLD data. For every finalized epoch it fetches the blobs from a beacon
  node, stores each blob and its metadata as content-addressed blocks, builds an epoch node with an index of the blobs by versioned hash,
  uploads the blocks to an IPFS node, records everything in PostgreSQL, and keeps a network root over all epochs. This development
  models the Go program under \<^verbatim>\<open>src/\<close> by executable functions and step relations and proves what makes it correct.

  \<^bold>\<open>How the parts interact.\<close> \<^verbatim>\<open>cmd/blobscan-ipld\<close> reads the configuration (\<^verbatim>\<open>config\<close>), parses the flags and calls a subcommand. The subcommands
  drive the generator (\<^verbatim>\<open>generator\<close>), which fetches an epoch (\<^verbatim>\<open>beacon\<close>), builds its nodes (\<^verbatim>\<open>builder\<close>, through the link system of \<^verbatim>\<open>store\<close>),
  uploads and pins them (\<^verbatim>\<open>ipfs\<close>), registers the references (\<^verbatim>\<open>blobscan\<close>), writes the rows (\<^verbatim>\<open>db\<close>) and moves a cursor (\<^verbatim>\<open>state\<close>, or the database). The
  HTTP server (\<^verbatim>\<open>api\<close>) calls the generator for pushed blobs; \<^verbatim>\<open>metrics\<close> observes both; \<^verbatim>\<open>car\<close> writes exported epochs to files.

  \<^bold>\<open>Conventions.\<close> A definition has the name of the Go function it translates, or, for a part of one, a name of its own; fields carry a prefix for
  their struct. A fallible function returns \<^typ>\<open>'a res\<close> (\<^const>\<open>Inl\<close> the error, with the wrapping of \<^verbatim>\<open>fmt.Errorf\<close>); a panic is the error \<^const>\<open>GoPanic\<close>.
  Code that changes the world is a program \<^typ>\<open>'a prog\<close>: a function from the record \<open>world\<close> (tables, state file, blocks and pins on the IPFS node,
  registered references, beacon client) to a result and a world; a program that fails keeps what it changed before. What happens outside the program
  (answers of servers, failures of the database and of files, the order in which concurrent tasks finish, cancellation) is the record \<open>outside\<close>,
  asked by the number of the interaction, so that the theorems hold for every behaviour of the outside. Third-party packages (go-ipld-prime, go-cid,
  go-car, Prometheus) are records of functions, with what is relied on as named predicates (\<open>qp_doc\<close>, \<open>store_doc\<close>, \<open>block_doc\<close>, \<open>cid_doc\<close>,
  \<open>car_doc\<close>) that concrete instances satisfy. \<^verbatim>\<open>uint64\<close> and \<^verbatim>\<open>int\<close> are 64-bit words, so that overflow is visible.

  \<^bold>\<open>The theories.\<close>
  \<^item> \<open>Prelude\<close>, \<open>Types\<close>, \<open>Golib\<close>: machine integers, errors, printing and parsing of numbers, sorting, the structs of \<^verbatim>\<open>types/types.go\<close>, and the
    parts of Go's standard library that are used.
  \<^item> \<open>Store\<close> (\<^verbatim>\<open>store/blockstore.go\<close>, \<^verbatim>\<open>store/linksystem.go\<close>): the in-memory and the discarding block store and the link system. The interface
    is the locale \<open>blockstore_backend\<close>, extended to \<open>retaining_backend\<close>; the in-memory store refines a finite map.
  \<^item> \<open>Blob\<close>, \<open>Epoch\<close>, \<open>Network\<close> (\<^verbatim>\<open>builder/*.go\<close>): the grouping is characterised without the code's sort, the order of the blobs does not matter, the
    shards of the sharded index are stored and together are the grouping, the pages of the network root partition the epochs and lead to each.
  \<^item> \<open>Config\<close> (\<^verbatim>\<open>config/config.go\<close>): when loading succeeds, and that a loaded configuration is complete.
  \<^item> \<open>StateMgr\<close> (\<^verbatim>\<open>state/manager.go\<close>): the cursors in a file. The interface \<^verbatim>\<open>Backend\<close> is the locale \<open>state_backend\<close>, interpreted for the file here and for
    the database in \<open>Db\<close>.
  \<^item> \<open>Db\<close>, \<open>DbQueries\<close>, \<open>Connect\<close> (\<^verbatim>\<open>db/db.go\<close>): the rows of the three tables, every read and write on them, the statistics and checks, and the creation
    of the database and its tables. The writes keep the constraints and are all or nothing; the ranges of the gap query contain exactly the epochs that
    are missing between the first and the last stored one.
  \<^item> \<open>Beacon\<close>, \<open>ElClient\<close> (\<^verbatim>\<open>beacon/*.go\<close>): requests with back-off and counters, the concurrent fetch of the slots, the lookup of transactions.
  \<^item> \<open>Ipfs\<close> (\<^verbatim>\<open>ipfs/client.go\<close>, \<^verbatim>\<open>blobscan/notifier.go\<close>): the requests that are sent and what is made of the answers. \<open>Demo\<close>: a concrete library.
  \<^item> \<open>Generator\<close> (\<^verbatim>\<open>generator/generator.go\<close>): all operations as programs. \<open>Frames\<close>: the locales \<open>effect_frame\<close> and \<open>table_frame\<close>, with rules for
    what a program may change, interpreted for \<open>same_tables\<close>, \<open>epoch_ext\<close> and \<open>rows_kept\<close> (and for others in later theories). \<open>GenFacts\<close>: an epoch rebuilt
    from the database is the epoch that was saved, rows are written only after the upload (when there is an IPFS client), the live cursor is safe.
  \<^item> \<open>Pipeline\<close>: one attempt of the concurrent backfill as the step relation \<open>pstep\<close> (dispatcher, workers, collector, consumer and their three channels), with
    its invariants, safety, completeness, a bound on the number of steps, freedom from deadlock before a cancellation and a deadlock after it; and
    the retry loop \<open>runBackfill\<close>.
  \<^item> \<open>Run\<close>: the live loop in steps, whose undisturbed run is the program \<open>processLiveTick\<close>, and \<open>rstep\<close>, the live loop and the backfill interleaved. \<open>Service\<close>:
    \<open>sstep\<close>, both beside the HTTP server.
  \<^item> \<open>Api\<close> (\<^verbatim>\<open>api/server.go\<close>), \<open>Metrics\<close> (\<^verbatim>\<open>metrics/metrics.go\<close>), \<open>Car\<close> (\<^verbatim>\<open>car/exporter.go\<close>): handlers and validation, with the locale \<open>blob_service\<close> for what
    the server needs of the generator; the instruments and their labels; the atomic export.
  \<^item> \<open>Commands\<close>, \<open>Export\<close>, \<open>Pins\<close>, \<open>Refs\<close>, \<open>Health\<close>, \<open>Format\<close>, \<open>Summary\<close>, \<open>Flags\<close>, \<open>Startup\<close> (\<^verbatim>\<open>cmd/blobscan-ipld/main.go\<close>): the subcommands, the formats
    they write (with readers that get the contents back), the health check, number and date formats, the reports, the flags and \<^verbatim>\<open>main\<close>.

  \<^bold>\<open>Granularity of the concurrent models.\<close> A step is one action of one goroutine between two channel operations or, in the live loop, between
  two calls that change the database; building an epoch, persisting it and serving a request are one step each. So interleavings inside these
  are not covered. Tasks that run in parallel inside one operation (slots of an epoch, blobs of an epoch, uploads, pins) finish in an order that is an argument.

  \<^bold>\<open>Bounds.\<close> Recursion is structural or has a measure. The live loop alone (\<open>live_ticks\<close>) takes the number of ticks before the cancellation; \<open>rstep\<close> has no
  such bound. Retries of uploads and pins are bounded by the numbers of attempts in the source. \<open>epoch_range\<close> needs an upper end below the largest 64-bit
  number, beyond which the source's loop would not end; \<open>pipeline_terminates\<close> and the theorems on ranges say so, and the range that \<open>Run_plan\<close> computes satisfies
  it. Epochs stored in the database are below \<open>2 ^ 63\<close>, since the column is a \<^verbatim>\<open>BIGINT\<close>.

  \<^bold>\<open>Choices where the environment leaves something open.\<close> \<^verbatim>\<open>sort.Slice\<close> is not stable; the model sorts stably, and the theorem on the grouping says when
  every sorting routine gives the same. \<^verbatim>\<open>DISTINCT ON (commitment)\<close> without a full order may keep any of the rows; \<open>distinct_on\<close> keeps the first. A
  statement or transaction that returns an error has had no effect, as PostgreSQL documents it; a commit that took effect although its answer was lost is
  not modelled. \<^verbatim>\<open>%q\<close> is \<open>go_quote\<close>, exact for printable ASCII and the escapes. Of go-car it is assumed that it leaves out blocks with identity CIDs. The
  registry of \<open>Metrics\<close> has the program's own instruments, not the Go and process collectors, whose names are outside the program's namespace.

  \<^bold>\<open>Not modelled.\<close> Log and progress lines (\<^verbatim>\<open>logFetchingEpoch\<close> and its relatives), since nothing reads them; the generator's calls of the metrics, whose effects
  are modelled in \<open>Metrics\<close>; time-outs and connection pools, which show up as failed requests; the token bucket of the rate limiter, the SQL
  engine, the codecs, the CAR format, the listening socket, signals and Sentry, which belong to libraries; the usage text. Tests, scripts and deployment files
  are not part of the program.
\<close>

end
